(* ===== verification/Prelude.thy ===== *)
theory Prelude
  imports Main "HOL-Library.Char_ord" "HOL-Library.List_Lexorder" "HOL-Library.Product_Lexorder"
begin

section \<open>Shared vocabulary of the development\<close>

text \<open>
  What every other theory of the library uses: the collections the component theories fill, the
  fragment of JavaScript's string library the code calls (decimal rendering, \<open>padStart\<close>,
  \<open>trim\<close>, \<open>toLowerCase\<close>), and the list lemmas on which the table operations rest.

  A JavaScript string is a \<open>string\<close> (a list of characters). The tables' text columns use
  collation C, which compares bytes, so the order of HOL-Library's \<open>List_Lexorder\<close> on
  \<open>char list\<close> is the order of their \<open>ORDER BY\<close>. Characters outside the 8-bit range are
  not represented.
\<close>

named_theorems wp \<open>Hoare triples of the transaction monad's operations\<close>
named_theorems frame_simps \<open>what an operation leaves unchanged\<close>

type_synonym iso = string \<comment> \<open>an instant as ISO-8601 text\<close>

subsection \<open>Decimal digits\<close>

text \<open>\<open>String(n)\<close> of an integer and \<open>padStart(w, '0')\<close>.\<close>

definition digit_char :: "nat \<Rightarrow> char" where
  "digit_char d = char_of (48 + d)"

fun nat_digits :: "nat \<Rightarrow> string" where
  "nat_digits n = (if n < 10 then [digit_char n] else nat_digits (n div 10) @ [digit_char (n mod 10)])"

declare nat_digits.simps [simp del]

definition int_string :: "int \<Rightarrow> string" where
  "int_string n = (if n < 0 then CHR ''-'' # nat_digits (nat (- n)) else nat_digits (nat n))"

definition pad_start :: "nat \<Rightarrow> char \<Rightarrow> string \<Rightarrow> string" where
  "pad_start w c s = replicate (w - length s) c @ s"

definition is_digit :: "char \<Rightarrow> bool" where
  "is_digit c \<longleftrightarrow> 48 \<le> (of_char c :: nat) \<and> (of_char c :: nat) \<le> 57"

definition digit_val :: "char \<Rightarrow> nat" where
  "digit_val c = of_char c - 48"

text \<open>\<open>Number(s)\<close> of a string of decimal digits.\<close>

definition digits_val :: "string \<Rightarrow> nat" where
  "digits_val s = foldl (\<lambda>n c. 10 * n + digit_val c) 0 s"

lemma of_char_digit [simp]: "d < 10 \<Longrightarrow> of_char (digit_char d) = (48 + d :: nat)"
  by (simp add: digit_char_def)

lemma is_digit_digit [simp]: "d < 10 \<Longrightarrow> is_digit (digit_char d)"
  by (simp add: is_digit_def)

lemma digit_val_digit [simp]: "d < 10 \<Longrightarrow> digit_val (digit_char d) = d"
  by (simp add: digit_val_def)

lemma digit_char_inject: "a < 10 \<Longrightarrow> b < 10 \<Longrightarrow> digit_char a = digit_char b \<longleftrightarrow> a = b"
  by (metis digit_val_digit)

lemma digits_val_snoc [simp]: "digits_val (s @ [c]) = 10 * digits_val s + digit_val c"
  by (simp add: digits_val_def)

lemma digits_val_Nil [simp]: "digits_val [] = 0"
  by (simp add: digits_val_def)

lemma nat_digits_nonempty [simp]: "nat_digits n \<noteq> []"
  by (subst nat_digits.simps) simp

lemma digits_val_nat_digits [simp]: "digits_val (nat_digits n) = n"
proof (induction n rule: nat_digits.induct)
  case (1 n)
  then show ?case
    by (subst nat_digits.simps) (auto simp: digits_val_def)
qed

lemma nat_digits_inject [simp]: "nat_digits m = nat_digits n \<longleftrightarrow> m = n"
  by (metis digits_val_nat_digits)

lemma nat_digits_is_digit: "list_all is_digit (nat_digits n)"
proof (induction n rule: nat_digits.induct)
  case (1 n)
  then show ?case
    by (subst nat_digits.simps) auto
qed

lemma digits_val_zeros: "digits_val (replicate k (CHR ''0'') @ s) = digits_val s"
proof -
  have z: "digit_val (CHR ''0'') = 0"
    by (simp add: digit_val_def)
  have "foldl (\<lambda>n c. 10 * n + digit_val c) 0 (replicate k (CHR ''0'')) = 0"
    by (induction k) (simp_all add: z)
  then show ?thesis
    by (simp add: digits_val_def)
qed

subsection \<open>Fixed-width decimal fields\<close>

text \<open>The last \<open>w\<close> digits of a number, most significant first: what \<open>padStart\<close> yields for a
  number that fits.\<close>

fun fixed :: "nat \<Rightarrow> nat \<Rightarrow> string" where
  "fixed 0 n = []"
| "fixed (Suc w) n = fixed w (n div 10) @ [digit_char (n mod 10)]"

lemma length_fixed [simp]: "length (fixed w n) = w"
  by (induction w arbitrary: n) auto

lemma fixed_is_digit: "list_all is_digit (fixed w n)"
  by (induction w arbitrary: n) auto

lemma digits_val_fixed: "n < 10 ^ w \<Longrightarrow> digits_val (fixed w n) = n"
proof (induction w arbitrary: n)
  case 0
  then show ?case by simp
next
  case (Suc w)
  then have "n div 10 < 10 ^ w"
    by (simp add: less_mult_imp_div_less mult.commute)
  with Suc.IH show ?case
    by (simp)
qed

lemma fixed_zero: "fixed w 0 = replicate w (CHR ''0'')"
proof (induction w)
  case (Suc w)
  have "digit_char 0 = CHR ''0''"
    by code_simp
  with Suc show ?case
    by (simp add: replicate_append_same)
qed simp

lemma pad_start_fixed: "n < 10 ^ w \<Longrightarrow> 0 < w \<Longrightarrow> pad_start w (CHR ''0'') (nat_digits n) = fixed w n"
proof (induction n arbitrary: w rule: nat_digits.induct)
  case (1 n w)
  obtain v where w: "w = Suc v"
    using "1.prems" by (cases w) auto
  show ?case
  proof (cases "n < 10")
    case True
    then show ?thesis
      by (subst nat_digits.simps) (simp add: pad_start_def w fixed_zero)
  next
    case False
    have lt: "n div 10 < 10 ^ v"
      using "1.prems" w by (simp add: less_mult_imp_div_less mult.commute)
    have v: "0 < v"
      using False lt by (cases v) auto
    from "1.IH" [OF False lt v] have "pad_start v (CHR ''0'') (nat_digits (n div 10)) = fixed v (n div 10)" .
    then show ?thesis
      using False by (subst nat_digits.simps) (simp add: pad_start_def w)
  qed
qed

subsection \<open>Lexicographic order of concatenated fields\<close>

lemma append_less_same_length:
  fixes xs xs' :: "'a::linorder list"
  assumes "length xs = length xs'"
  shows "xs @ ys < xs' @ ys' \<longleftrightarrow> xs < xs' \<or> (xs = xs' \<and> ys < ys')"
  using assms by (induction xs xs' rule: list_induct2) auto

lemma digit_char_less: "a < 10 \<Longrightarrow> b < 10 \<Longrightarrow> digit_char a < digit_char b \<longleftrightarrow> a < b"
  by (simp add: less_char_def)

lemma fixed_less:
  assumes "m < 10 ^ w" "n < 10 ^ w"
  shows "fixed w m < fixed w n \<longleftrightarrow> m < n"
  using assms
proof (induction w arbitrary: m n)
  case 0
  then show ?case by simp
next
  case (Suc w)
  then have lt: "m div 10 < 10 ^ w" "n div 10 < 10 ^ w"
    by (simp_all add: less_mult_imp_div_less mult.commute)
  have eq: "fixed w (m div 10) = fixed w (n div 10) \<longleftrightarrow> m div 10 = n div 10"
    using digits_val_fixed [OF lt(1)] digits_val_fixed [OF lt(2)] by metis
  have "fixed (Suc w) m < fixed (Suc w) n \<longleftrightarrow>
      m div 10 < n div 10 \<or> (m div 10 = n div 10 \<and> m mod 10 < n mod 10)"
    using Suc.IH [OF lt] eq by (simp add: append_less_same_length digit_char_less)
  also have "\<dots> \<longleftrightarrow> m < n"
    using div_mult_mod_eq [of m 10] div_mult_mod_eq [of n 10] by linarith
  finally show ?case .
qed

subsection \<open>Trimming and case\<close>

definition is_space :: "char \<Rightarrow> bool" where
  "is_space c \<longleftrightarrow> (of_char c :: nat) \<in> {9, 10, 11, 12, 13, 32, 160}"

text \<open>\<open>s.trim()\<close>: white space and line terminators of the 8-bit range.\<close>

definition js_trim :: "string \<Rightarrow> string" where
  "js_trim s = rev (dropWhile is_space (rev (dropWhile is_space s)))"

definition lower_char :: "char \<Rightarrow> char" where
  "lower_char c = (let n = (of_char c :: nat) in if 65 \<le> n \<and> n \<le> 90 then char_of (n + 32) else c)"

definition upper_char :: "char \<Rightarrow> char" where
  "upper_char c = (let n = (of_char c :: nat) in if 97 \<le> n \<and> n \<le> 122 then char_of (n - 32) else c)"

text \<open>\<open>s.toLowerCase()\<close> and \<open>s.toUpperCase()\<close> on ASCII text.\<close>

definition js_lower :: "string \<Rightarrow> string" where
  "js_lower s = map lower_char s"

definition js_upper :: "string \<Rightarrow> string" where
  "js_upper s = map upper_char s"

lemma lower_char_idem [simp]: "lower_char (lower_char c) = lower_char c"
  by (auto simp: lower_char_def Let_def)

lemma js_lower_idem [simp]: "js_lower (js_lower s) = js_lower s"
  by (simp add: js_lower_def)

lemma js_trim_idem [simp]: "js_trim (js_trim s) = js_trim s"
proof -
  have hd: "dropWhile is_space (js_trim s) = js_trim s"
  proof (cases "js_trim s")
    case (Cons c cs)
    have "\<not> is_space c"
    proof -
      let ?t = "dropWhile is_space s"
      obtain ys where ys: "?t = rev (dropWhile is_space (rev ?t)) @ ys"
        by (metis rev_append rev_rev_ident takeWhile_dropWhile_id)
      then have "hd ?t = c" "?t \<noteq> []"
        using Cons by (auto simp: js_trim_def)
      then show ?thesis
        using hd_dropWhile by metis
    qed
    with Cons show ?thesis by simp
  qed simp
  have "dropWhile is_space (rev (js_trim s)) = rev (js_trim s)"
    by (simp add: js_trim_def)
  then show ?thesis
    by (subst js_trim_def) (simp add: hd)
qed

lemma js_trim_id: "s \<noteq> [] \<Longrightarrow> \<not> is_space (hd s) \<Longrightarrow> \<not> is_space (last s) \<Longrightarrow> js_trim s = s"
  by (simp add: js_trim_def dropWhile_eq_self_iff hd_rev) (metis dropWhile_eq_self_iff hd_rev rev_rev_ident)

subsection \<open>Lists as tables\<close>

lemma map_fst_map_update:
  "(\<And>x. k (f x) = k x) \<Longrightarrow> map k (map f xs) = map k xs"
  by (induction xs) auto

lemma find_Some_iff_distinct:
  assumes "distinct (map k xs)"
  shows "find (\<lambda>x. k x = a) xs = Some y \<longleftrightarrow> y \<in> set xs \<and> k y = a"
  using assms by (induction xs) (auto simp: image_iff)

lemma find_None_iff_key: "find (\<lambda>x. k x = a) xs = None \<longleftrightarrow> a \<notin> k ` set xs"
  by (auto simp: find_None_iff)

end
