(* ===== verification/JsNumber.thy ===== *)
theory JsNumber
  imports Prelude "HOL-Library.Log_Nat" Complex_Main
begin

section \<open>JavaScript numbers: IEEE binary64 arithmetic\<close>

text \<open>
  A finite JavaScript number is a rational. Every arithmetic operation of the language returns the
  binary64 value nearest to the exact result, ties to even: \<open>fl\<close> is that rounding, with 53
  significant bits and no bound on the exponent (the program's magnitudes are between 1e-9 and 1e16,
  far from overflow and from the subnormals). An integer of magnitude at most 2^53 is its own
  rounding, so quantities that the code keeps integral (frames, milliseconds, counts) are plain
  \<open>int\<close>; \<open>rat\<close> with \<open>fl\<close> is used where a computation has a fraction.
  NaN and the infinities do not occur as values: where the code tests for them, the model has an
  \<open>option\<close>.
\<close>

type_synonym num64 = rat

subsection \<open>The binary exponent\<close>

definition ilog2 :: "rat \<Rightarrow> int" where
  "ilog2 x = (if 1 \<le> x then bitlen \<lfloor>x\<rfloor> - 1 else - bitlen (\<lceil>1 / x\<rceil> - 1))"

lemma powi2_pos [simp]: "0 < (2::rat) powi e"
  by simp

lemma powi2_mono: "a \<le> b \<Longrightarrow> (2::rat) powi a \<le> 2 powi b"
  by (rule power_int_increasing) auto

lemma powi2_Suc: "(2::rat) powi (e + 1) = 2 * 2 powi e"
  by (simp add: power_int_add_1')

lemma powi2_nat: "0 \<le> e \<Longrightarrow> (2::rat) powi e = of_int (2 ^ nat e)"
  by (simp add: power_int_def)

lemma ilog2_bounds:
  assumes "0 < x"
  shows "2 powi ilog2 x \<le> x \<and> x < 2 powi (ilog2 x + 1)"
proof (cases "1 \<le> x")
  case True
  let ?n = "\<lfloor>x\<rfloor>"
  from True have n: "0 < ?n" by linarith
  let ?k = "bitlen ?n"
  from n have k: "1 \<le> ?k"
    by (simp add: bitlen_def floorlog_def)
  from bitlen_bounds [OF n] have b: "2 ^ nat (?k - 1) \<le> ?n" "?n + 1 \<le> 2 ^ nat ?k"
    by auto
  from b(1) have "of_int (2 ^ nat (?k - 1)) \<le> (of_int ?n :: rat)"
    by (simp only: of_int_le_iff)
  then have "of_int (2 ^ nat (?k - 1)) \<le> x"
    using of_int_floor_le [of x] by (rule order_trans)
  then have "2 powi (?k - 1) \<le> x"
    using k by (simp add: powi2_nat)
  moreover
  from b(2) have "(of_int (?n + 1) :: rat) \<le> of_int (2 ^ nat ?k)"
    by (simp only: of_int_le_iff)
  then have "x < 2 powi ?k"
    using k by (simp add: powi2_nat) linarith
  ultimately show ?thesis
    using True by (simp add: ilog2_def)
next
  case False
  let ?y = "1 / x"
  let ?m = "\<lceil>?y\<rceil> - 1"
  from False assms have y: "1 < ?y" by simp
  then have m: "0 < ?m" by linarith
  let ?k = "bitlen ?m"
  from m have k: "1 \<le> ?k"
    by (simp add: bitlen_def floorlog_def)
  from bitlen_bounds [OF m] have b: "2 ^ nat (?k - 1) \<le> ?m" "?m + 1 \<le> 2 ^ nat ?k"
    by auto
  from b(1) have "of_int (2 ^ nat (?k - 1)) \<le> (of_int ?m :: rat)"
    by (simp only: of_int_le_iff)
  then have lo: "2 powi (?k - 1) < ?y"
    using k by (simp add: powi2_nat) linarith
  from b(2) have "(of_int (?m + 1) :: rat) \<le> of_int (2 ^ nat ?k)"
    by (simp only: of_int_le_iff)
  then have "?y \<le> of_int (2 ^ nat ?k)"
    using le_of_int_ceiling [of ?y]
  proof -
    assume a: "(of_int (?m + 1) :: rat) \<le> of_int (2 ^ nat ?k)"
    have "?y \<le> of_int (?m + 1)" using le_of_int_ceiling [of ?y] by simp
    then show ?thesis using a by (rule order_trans)
  qed
  then have hi: "?y \<le> 2 powi ?k"
    using k by (simp add: powi2_nat)
  have "2 powi (- ?k) \<le> x"
    using hi assms by (simp add: power_int_minus field_simps)
  moreover have "x < 2 powi (- ?k + 1)"
  proof -
    have "2 powi (?k - 1) * x < 1"
      using lo assms by (simp add: field_simps)
    then have "x < inverse (2 powi (?k - 1))"
      by (simp add: field_simps)
    then show ?thesis
      by (simp add: power_int_minus [symmetric])
  qed
  ultimately show ?thesis
    using False by (simp add: ilog2_def)
qed

lemma ilog2_mono:
  assumes "0 < x" "x \<le> y"
  shows "ilog2 x \<le> ilog2 y"
proof (rule ccontr)
  assume "\<not> ilog2 x \<le> ilog2 y"
  then have "(2::rat) powi (ilog2 y + 1) \<le> 2 powi ilog2 x"
    by (intro powi2_mono) simp
  with ilog2_bounds [of x] ilog2_bounds [of y] assms show False
    by auto
qed

lemma ilog2_unique:
  assumes "2 powi e \<le> x" "x < 2 powi (e + 1)"
  shows "ilog2 x = e"
proof -
  have x: "0 < x"
    using assms(1) powi2_pos [of e] by linarith
  have "ilog2 x < e + 1"
    using ilog2_bounds [OF x] assms(2) powi2_mono [of "e + 1" "ilog2 x"] by linarith
  moreover have "e < ilog2 x + 1"
    using ilog2_bounds [OF x] assms(1) powi2_mono [of "ilog2 x + 1" e] by linarith
  ultimately show ?thesis by simp
qed

subsection \<open>Rounding\<close>

text \<open>Round half to even.\<close>

definition rne :: "rat \<Rightarrow> int" where
  "rne x = (let n = \<lfloor>x\<rfloor>; d = x - of_int n in
     if d < 1/2 then n else if 1/2 < d then n + 1 else if even n then n else n + 1)"

definition fl_pos :: "rat \<Rightarrow> rat" where
  "fl_pos x = (let u = 2 powi (ilog2 x - 52) in of_int (rne (x / u)) * u)"

definition fl :: "rat \<Rightarrow> rat" where
  "fl x = (if x = 0 then 0 else if 0 < x then fl_pos x else - fl_pos (- x))"

definition dbl_add :: "rat \<Rightarrow> rat \<Rightarrow> rat" where "dbl_add a b = fl (a + b)"
definition dbl_sub :: "rat \<Rightarrow> rat \<Rightarrow> rat" where "dbl_sub a b = fl (a - b)"
definition dbl_mul :: "rat \<Rightarrow> rat \<Rightarrow> rat" where "dbl_mul a b = fl (a * b)"
definition dbl_div :: "rat \<Rightarrow> rat \<Rightarrow> rat" where "dbl_div a b = fl (a / b)"

text \<open>\<open>Math.trunc\<close> and \<open>Math.round\<close> (exact on a binary64 value: ties go up).\<close>

definition js_trunc :: "rat \<Rightarrow> int" where
  "js_trunc x = (if 0 \<le> x then \<lfloor>x\<rfloor> else \<lceil>x\<rceil>)"

definition js_round :: "rat \<Rightarrow> int" where
  "js_round x = \<lfloor>x + 1/2\<rfloor>"

text \<open>\<open>%\<close> on integers takes the sign of the dividend.\<close>

definition js_mod :: "int \<Rightarrow> int \<Rightarrow> int" where
  "js_mod a b = (if 0 \<le> a then a mod \<bar>b\<bar> else - ((- a) mod \<bar>b\<bar>))"

lemma rne_of_int [simp]: "rne (of_int n) = n"
  by (simp add: rne_def)

lemma rne_error: "\<bar>of_int (rne x) - x\<bar> \<le> 1/2"
  by (auto simp: rne_def Let_def abs_if) linarith+

lemma rne_floor: "rne x = \<lfloor>x\<rfloor> \<or> rne x = \<lfloor>x\<rfloor> + 1"
  by (auto simp: rne_def Let_def)

lemma rne_mono:
  assumes "x \<le> y"
  shows "rne x \<le> rne y"
proof (cases "\<lfloor>x\<rfloor> = \<lfloor>y\<rfloor>")
  case True
  with assms show ?thesis
    by (auto simp: rne_def Let_def)
next
  case False
  with assms have "\<lfloor>x\<rfloor> + 1 \<le> \<lfloor>y\<rfloor>"
    using floor_mono [OF assms] by linarith
  then show ?thesis
    using rne_floor [of x] rne_floor [of y] by linarith
qed

lemma rne_bounds_int:
  shows "of_int m \<le> x \<Longrightarrow> m \<le> rne x" and "x \<le> of_int m \<Longrightarrow> rne x \<le> m"
  using rne_mono [of "of_int m" x] rne_mono [of x "of_int m"] by auto

lemma powi2_split: "(2::rat) powi e = 2 powi (e - 52) * of_int (2 ^ 52)"
proof -
  have "(2::rat) powi ((e - 52) + 52) = 2 powi (e - 52) * 2 powi 52"
    by (rule power_int_add) simp
  then show ?thesis by simp
qed

lemma fl_pos_binade:
  assumes "0 < x"
  shows "2 powi ilog2 x \<le> fl_pos x \<and> fl_pos x \<le> 2 powi (ilog2 x + 1)"
proof -
  let ?u = "(2::rat) powi (ilog2 x - 52)"
  have lo: "of_int (2 ^ 52) \<le> x / ?u"
    using ilog2_bounds [OF assms] powi2_split [of "ilog2 x"] by (simp add: field_simps)
  have hi: "x / ?u \<le> of_int (2 ^ 53)"
    using ilog2_bounds [OF assms] powi2_split [of "ilog2 x"] powi2_Suc [of "ilog2 x"]
    by (simp add: field_simps)
  from rne_bounds_int(1) [OF lo] have "of_int (2 ^ 52) \<le> (of_int (rne (x / ?u)) :: rat)"
    by (simp only: of_int_le_iff)
  then have "?u * of_int (2 ^ 52) \<le> fl_pos x"
    by (simp add: fl_pos_def Let_def mult.commute mult_left_mono)
  moreover
  from rne_bounds_int(2) [OF hi] have "(of_int (rne (x / ?u)) :: rat) \<le> of_int (2 ^ 53)"
    by (simp only: of_int_le_iff)
  then have "fl_pos x \<le> ?u * of_int (2 ^ 53)"
    by (simp add: fl_pos_def Let_def mult.commute mult_left_mono)
  ultimately show ?thesis
    using powi2_split [of "ilog2 x"] powi2_Suc [of "ilog2 x"] by simp
qed

lemma fl_pos_mono:
  assumes "0 < x" "x \<le> y"
  shows "fl_pos x \<le> fl_pos y"
proof (cases "ilog2 x = ilog2 y")
  case True
  then have "x / 2 powi (ilog2 y - 52) \<le> y / 2 powi (ilog2 y - 52)"
    using assms by (simp add: divide_right_mono)
  from rne_mono [OF this] True show ?thesis
    by (simp add: fl_pos_def Let_def mult_right_mono)
next
  case False
  with ilog2_mono [OF assms] have "ilog2 x + 1 \<le> ilog2 y" by simp
  then have "(2::rat) powi (ilog2 x + 1) \<le> 2 powi ilog2 y"
    by (rule powi2_mono)
  with fl_pos_binade [of x] fl_pos_binade [of y] assms show ?thesis
    by simp
qed

lemma fl_pos_pos: "0 < x \<Longrightarrow> 0 < fl_pos x"
  using fl_pos_binade [of x] powi2_pos [of "ilog2 x"] by linarith

theorem fl_mono: "x \<le> y \<Longrightarrow> fl x \<le> fl y"
  using fl_pos_mono [of x y] fl_pos_mono [of "- y" "- x"] fl_pos_pos [of y] fl_pos_pos [of "- x"]
  by (auto simp: fl_def)

lemma fl_0 [simp]: "fl 0 = 0"
  by (simp add: fl_def)

lemma fl_minus: "fl (- x) = - fl x"
  by (auto simp: fl_def)

lemma fl_nonneg: "0 \<le> x \<Longrightarrow> 0 \<le> fl x"
  using fl_mono [of 0 x] by simp

lemma fl_pos_error:
  assumes "0 < x"
  shows "\<bar>fl_pos x - x\<bar> \<le> x / 2 ^ 53"
proof -
  let ?u = "(2::rat) powi (ilog2 x - 52)"
  have "fl_pos x - x = (of_int (rne (x / ?u)) - x / ?u) * ?u"
    by (simp add: fl_pos_def Let_def field_simps)
  then have "\<bar>fl_pos x - x\<bar> = \<bar>of_int (rne (x / ?u)) - x / ?u\<bar> * ?u"
    by (simp add: abs_mult)
  also have "\<dots> \<le> 1/2 * ?u"
    by (rule mult_right_mono [OF rne_error]) simp
  also have "\<dots> \<le> x / 2 ^ 53"
    using ilog2_bounds [OF assms] powi2_split [of "ilog2 x"] by (simp add: field_simps)
  finally show ?thesis .
qed

theorem fl_error: "\<bar>fl x - x\<bar> \<le> \<bar>x\<bar> / 2 ^ 53"
proof (cases "0 < x")
  case True
  then show ?thesis
    using fl_pos_error [of x] by (simp add: fl_def)
next
  case False
  show ?thesis
  proof (cases "x = 0")
    case False
    with \<open>\<not> 0 < x\<close> have neg: "0 < - x" by simp
    have "\<bar>- fl_pos (- x) - x\<bar> = \<bar>fl_pos (- x) - (- x)\<bar>"
      by linarith
    also have "\<dots> \<le> (- x) / 2 ^ 53"
      by (rule fl_pos_error [OF neg])
    finally show ?thesis
      using neg by (simp only: fl_def) simp
  qed simp
qed

lemma fl_of_int_pos:
  assumes "0 < n" "n \<le> 2 ^ 53"
  shows "fl_pos (of_int n) = of_int n"
proof (cases "n = 2 ^ 53")
  case True
  have "ilog2 (of_int n) = 53"
    by (rule ilog2_unique) (simp_all add: True)
  moreover have "rne (of_int n / 2) = 2 ^ 52"
  proof -
    have "(of_int n / 2 :: rat) = of_int (2 ^ 52)"
      by (simp add: True)
    then show ?thesis by (metis rne_of_int)
  qed
  ultimately show ?thesis
    by (simp add: fl_pos_def Let_def True)
next
  case False
  with assms have n: "n < 2 ^ 53" by simp
  let ?e = "ilog2 (of_int n)"
  have "(2::rat) powi ?e < 2 powi 53"
  proof -
    have "(of_int n :: rat) < of_int (2 ^ 53)"
      using n by (simp only: of_int_less_iff)
    with ilog2_bounds [of "of_int n"] assms(1) show ?thesis by simp
  qed
  then have e: "?e \<le> 52"
    using powi2_mono [of 53 ?e] by linarith
  let ?k = "(2::int) ^ nat (52 - ?e)"
  have u: "(2::rat) powi (?e - 52) * of_int ?k = 1"
  proof -
    have "(2::rat) powi (?e - 52) * 2 powi (52 - ?e) = 2 powi ((?e - 52) + (52 - ?e))"
      by (rule power_int_add [symmetric]) simp
    then show ?thesis using e by (simp add: powi2_nat)
  qed
  have "of_int n / (2::rat) powi (?e - 52) = of_int (n * ?k)"
    using u by (simp add: field_simps)
  then have "rne (of_int n / 2 powi (?e - 52)) = n * ?k"
    by (metis rne_of_int)
  then show ?thesis
    using u by (simp add: fl_pos_def Let_def algebra_simps)
qed

theorem fl_of_int: "\<bar>n\<bar> \<le> 2 ^ 53 \<Longrightarrow> fl (of_int n) = of_int n"
  using fl_of_int_pos [of n] fl_of_int_pos [of "- n"] by (auto simp: fl_def)

subsection \<open>Truncation, rounding, quotients\<close>

lemma js_trunc_of_int [simp]: "js_trunc (of_int n) = n"
  by (simp add: js_trunc_def)

lemma js_round_of_int [simp]: "js_round (of_int n) = n"
  unfolding js_round_def by (rule floor_unique) simp_all

lemma js_round_mono: "x \<le> y \<Longrightarrow> js_round x \<le> js_round y"
  by (simp add: js_round_def floor_mono)

lemma js_trunc_mono: "x \<le> y \<Longrightarrow> js_trunc x \<le> js_trunc y"
proof -
  assume le: "x \<le> y"
  have "\<lceil>x\<rceil> \<le> \<lfloor>y\<rfloor>" if "\<not> 0 \<le> x" "0 \<le> y"
  proof -
    have "\<lceil>x\<rceil> \<le> 0" "0 \<le> \<lfloor>y\<rfloor>" using that by (simp_all add: ceiling_le_zero)
    then show ?thesis by linarith
  qed
  with le show ?thesis
    by (auto simp: js_trunc_def floor_mono ceiling_mono)
qed

lemma js_trunc_nonneg: "0 \<le> x \<Longrightarrow> 0 \<le> js_trunc x"
  by (simp add: js_trunc_def)

lemma js_mod_nonneg [simp]: "0 \<le> a \<Longrightarrow> 0 < b \<Longrightarrow> js_mod a b = a mod b"
  by (simp add: js_mod_def)

text \<open>\<open>Math.floor(a / b)\<close> of safe integers is the integer quotient: the rounding of the quotient
  never reaches the next integer.\<close>

theorem floor_dbl_div:
  assumes "0 \<le> a" "a < 2 ^ 53" "0 < b"
  shows "\<lfloor>dbl_div (of_int a) (of_int b)\<rfloor> = a div b"
proof -
  let ?q = "a div b" and ?x = "(of_int a / of_int b :: rat)"
  have q: "0 \<le> ?q" "?q * b \<le> a" "a + 1 \<le> (?q + 1) * b"
  proof -
    have m: "a div b * b + a mod b = a" "0 \<le> a mod b" "a mod b < b"
      using assms by simp_all
    show "0 \<le> ?q" using assms by (simp add: pos_imp_zdiv_nonneg_iff)
    show "?q * b \<le> a" using m by linarith
    have "(?q + 1) * b = ?q * b + b" by (simp add: algebra_simps)
    then show "a + 1 \<le> (?q + 1) * b" using m by linarith
  qed
  have q53: "?q \<le> 2 ^ 53"
    using zdiv_mono2 [of a 1 b] assms by simp
  have b: "(0::rat) < of_int b" using assms by simp
  have "of_int (?q * b) \<le> (of_int a :: rat)"
    using q(2) by (simp only: of_int_le_iff)
  then have lo: "of_int ?q \<le> ?x"
    using b by (simp add: field_simps)
  have "of_int ?q \<le> fl ?x"
    using fl_mono [OF lo] fl_of_int [of ?q] q(1) q53 by simp
  moreover have "fl ?x < of_int ?q + 1"
  proof -
    have x0: "0 \<le> ?x" using assms by simp
    have a53: "(of_int a :: rat) < 2 ^ 53"
    proof -
      have "(of_int a :: rat) < of_int (2 ^ 53)"
        using assms(2) by (simp only: of_int_less_iff)
      then show ?thesis by simp
    qed
    have "fl ?x \<le> ?x + ?x / 2 ^ 53"
      using fl_error [of ?x] x0 by linarith
    then have "fl ?x * of_int b \<le> (?x + ?x / 2 ^ 53) * of_int b"
      using b by (intro mult_right_mono) simp_all
    also have "\<dots> = of_int a + of_int a / 2 ^ 53"
      using b by (simp add: field_simps)
    also have "\<dots> < of_int a + 1"
      using a53 by simp
    also have "\<dots> \<le> of_int ((?q + 1) * b)"
      using q(3) by (metis of_int_1 of_int_add of_int_le_iff)
    also have "\<dots> = (of_int ?q + 1) * of_int b"
      by simp
    finally show ?thesis
      using b by (simp add: mult_less_cancel_right)
  qed
  ultimately show ?thesis
    unfolding dbl_div_def by (intro floor_unique) simp_all
qed

end
