(* ===== verification/IsoTime.thy ===== *)
theory IsoTime
  imports Prelude
begin

section \<open>Instants and their ISO-8601 text\<close>

text \<open>
  An instant is a number of milliseconds since 1970-01-01T00:00:00Z, as the \<open>Clock\<close> port returns it.
  \<open>iso_z\<close> is \<open>isoZ(new Date(ms))\<close> of packages/domain/src/timecode.ts, that is
  \<open>Date.prototype.toISOString\<close> with ECMAScript's proleptic Gregorian calendar, and \<open>date_parse\<close>
  is \<open>Date.parse\<close> on the date-time strings with a zone (\<open>Z\<close> or \<open>+hh:mm\<close>) and on plain dates, None
  where the result is NaN. Strings in other formats, whose reading ECMAScript leaves to the
  implementation or to the machine's time zone, are read as NaN here.
\<close>

subsection \<open>The calendar\<close>

definition leap :: "int \<Rightarrow> bool" where
  "leap y \<longleftrightarrow> y mod 4 = 0 \<and> (y mod 100 = 0 \<longrightarrow> y mod 400 = 0)"

definition day_from_year :: "int \<Rightarrow> int" where
  "day_from_year y = 365 * (y - 1970) + (y - 1969) div 4 - (y - 1901) div 100 + (y - 1601) div 400"

text \<open>The year of a day: an estimate from the mean year, corrected by one where the day is outside it.\<close>

definition year_near :: "int \<Rightarrow> int \<Rightarrow> int" where
  "year_near y d = (if d < day_from_year y then y - 1 else if day_from_year (y + 1) \<le> d then y + 1 else y)"

definition year_from_day :: "int \<Rightarrow> int" where
  "year_from_day d = year_near (1970 + (400 * d) div 146097) d"

text \<open>The days of a year before its month \<open>m\<close> (1 to 12; 13 gives the length of the year).\<close>

definition month_start :: "bool \<Rightarrow> nat \<Rightarrow> int" where
  "month_start l m = [0, 31, 59, 90, 120, 151, 181, 212, 243, 273, 304, 334, 365] ! (m - 1)
     + (if l \<and> 2 < m then 1 else 0)"

definition month_from_yday :: "bool \<Rightarrow> int \<Rightarrow> nat" where
  "month_from_yday l d = (
     if d < month_start l 2 then 1 else if d < month_start l 3 then 2
     else if d < month_start l 4 then 3 else if d < month_start l 5 then 4
     else if d < month_start l 6 then 5 else if d < month_start l 7 then 6
     else if d < month_start l 8 then 7 else if d < month_start l 9 then 8
     else if d < month_start l 10 then 9 else if d < month_start l 11 then 10
     else if d < month_start l 12 then 11 else 12)"

text \<open>\<open>MakeDay\<close>: the day number of a date; a day past the month's end runs into the next one.\<close>

definition make_day :: "int \<Rightarrow> nat \<Rightarrow> nat \<Rightarrow> int" where
  "make_day y m d = day_from_year y + month_start (leap y) m + int d - 1"

lemma month_start_simps [simp]:
  "month_start l (Suc 0) = 0" "month_start l (Suc (Suc 0)) = 31" "month_start l 2 = 31"
  "month_start l 3 = 59 + (if l then 1 else 0)" "month_start l 4 = 90 + (if l then 1 else 0)"
  "month_start l 5 = 120 + (if l then 1 else 0)" "month_start l 6 = 151 + (if l then 1 else 0)"
  "month_start l 7 = 181 + (if l then 1 else 0)" "month_start l 8 = 212 + (if l then 1 else 0)"
  "month_start l 9 = 243 + (if l then 1 else 0)" "month_start l 10 = 273 + (if l then 1 else 0)"
  "month_start l 11 = 304 + (if l then 1 else 0)" "month_start l 12 = 334 + (if l then 1 else 0)"
  "month_start l 13 = 365 + (if l then 1 else 0)"
  by (simp_all add: month_start_def)

lemma div_step:
  fixes x k :: int
  assumes "0 < k"
  shows "(x + 1) div k = x div k + (if (x + 1) mod k = 0 then 1 else 0)"
proof -
  have x: "x = k * (x div k) + x mod k" "0 \<le> x mod k" "x mod k < k"
    using assms by simp_all
  show ?thesis
  proof (cases "x mod k + 1 = k")
    case True
    then have "x + 1 = k * (x div k + 1)"
      using x unfolding distrib_left by linarith
    then show ?thesis using assms by simp
  next
    case False
    then have "x mod k + 1 < k" using x by simp
    then have "(x + 1) div k = x div k" "(x + 1) mod k = x mod k + 1"
      using x int_div_pos_eq [of "x + 1" k "x div k" "x mod k + 1"]
        int_mod_pos_eq [of "x + 1" k "x div k" "x mod k + 1"] by linarith+
    then show ?thesis using x(2) by simp
  qed
qed

lemma div_step_shift:
  fixes y k c e :: int
  assumes "0 < k" "k dvd c" "e = c + 1"
  shows "(y - c) div k = (y - e) div k + (if y mod k = 0 then 1 else 0)"
proof -
  have "(y - c) mod k = y mod k"
    using assms(2) by (metis diff_zero dvd_imp_mod_0 mod_diff_right_eq)
  moreover have "y - e + 1 = y - c"
    using assms(3) by simp
  ultimately show ?thesis
    using div_step [OF assms(1), of "y - e"] by (simp only:)
qed

lemma div_bounds:
  fixes x k :: int
  assumes "0 < k"
  shows "k * (x div k) \<le> x" "x \<le> k * (x div k) + k - 1"
  using assms pos_mod_bound [OF assms, of x] pos_mod_sign [OF assms, of x] mult_div_mod_eq [of k x]
  by linarith+

lemma leap_count:
  assumes "p100 \<Longrightarrow> p4" "p400 \<Longrightarrow> p100"
  shows "(if p4 then 1 else 0) - (if p100 then 1 else 0) + (if p400 then 1 else 0)
    = (if p4 \<and> (p100 \<longrightarrow> p400) then 1 else (0::int))"
  by (cases p4; cases p100; cases p400) (use assms in simp_all)

lemma day_from_year_Suc: "day_from_year (y + 1) = day_from_year y + 365 + (if leap y then 1 else 0)"
proof -
  have a: "(y - 1968) div 4 = (y - 1969) div 4 + (if y mod 4 = 0 then 1 else 0)"
    by (rule div_step_shift) simp_all
  have b: "(y - 1900) div 100 = (y - 1901) div 100 + (if y mod 100 = 0 then 1 else 0)"
    by (rule div_step_shift) simp_all
  have c: "(y - 1600) div 400 = (y - 1601) div 400 + (if y mod 400 = 0 then 1 else 0)"
    by (rule div_step_shift) simp_all
  have d: "y mod 100 = 0 \<Longrightarrow> y mod 4 = 0" "y mod 400 = 0 \<Longrightarrow> y mod 100 = 0"
    using mod_mod_cancel [of 4 100 y] mod_mod_cancel [of 100 400 y] by auto
  have e: "day_from_year (y + 1) =
      365 * (y - 1970) + 365 + (y - 1968) div 4 - (y - 1900) div 100 + (y - 1600) div 400"
    unfolding day_from_year_def by (simp add: algebra_simps)
  have aux: "x + 365 + (A + a) - (B + b) + (C + c) = x + A - B + C + 365 + l"
    if "a - b + c = l" for x A B C a b c l :: int
    using that by linarith
  show ?thesis
    unfolding e a b c unfolding day_from_year_def
    unfolding leap_def
    by (rule aux, rule leap_count [of "y mod 100 = 0" "y mod 4 = 0" "y mod 400 = 0"]) (erule d)+
qed

lemma year_from_day: "day_from_year (year_from_day d) \<le> d \<and> d < day_from_year (year_from_day d + 1)"
proof -
  define y where "y = 1970 + (400 * d) div 146097"
  define r where "r = 400 * d mod 146097"
  have "(y - 1970) * 146097 + r = 400 * d"
    unfolding y_def r_def add_diff_cancel_left' by (rule div_mult_mod_eq)
  moreover have "0 \<le> r" "r < 146097"
    by (simp_all add: r_def)
  ultimately have q: "146097 * (y - 1970) \<le> 400 * d" "400 * d < 146097 * (y - 1970) + 146097"
    by linarith+
  have bounds: "400 * day_from_year z \<le> 146097 * (z - 1970) + 799"
    "146097 * (z - 1970) - 799 \<le> 400 * day_from_year z" for z
  proof -
    obtain a b c where abc: "(z - 1969) div 4 = a" "(z - 1901) div 100 = b" "(z - 1601) div 400 = c"
      by simp
    have "4 * a \<le> z - 1969" "z - 1969 \<le> 4 * a + 3" "100 * b \<le> z - 1901" "z - 1901 \<le> 100 * b + 99"
      "400 * c \<le> z - 1601" "z - 1601 \<le> 400 * c + 399"
      using div_bounds [of 4 "z - 1969"] div_bounds [of 100 "z - 1901"] div_bounds [of 400 "z - 1601"]
      unfolding abc by simp_all
    then show "400 * day_from_year z \<le> 146097 * (z - 1970) + 799"
      "146097 * (z - 1970) - 799 \<le> 400 * day_from_year z"
      unfolding day_from_year_def abc by (simp_all add: algebra_simps)
  qed
  have lo: "day_from_year (y - 1) \<le> d"
    using bounds(1) [of "y - 1"] q(1) by (simp add: algebra_simps)
  have hi: "d < day_from_year (y + 2)"
    using bounds(2) [of "y + 2"] q(2) by (simp add: algebra_simps)
  show ?thesis
    using lo hi unfolding year_from_day_def y_def [symmetric] by (auto simp: year_near_def add.commute)
qed

lemma month_from_yday:
  assumes "0 \<le> d" "d < 365 + (if l then 1 else 0)"
  shows "month_start l (month_from_yday l d) \<le> d" "d - month_start l (month_from_yday l d) < 31"
    "d < month_start l (month_from_yday l d + 1)"
    "month_from_yday l d \<in> {1..12}"
  using assms by (auto simp: month_from_yday_def)

subsection \<open>Calendar fields of an instant\<close>

record fields =
  f_year :: int
  f_month :: nat
  f_day :: nat
  f_ms :: int \<comment> \<open>milliseconds since midnight\<close>

definition ms_per_day :: int where "ms_per_day = 86400000"

definition yday_fields :: "int \<Rightarrow> nat \<Rightarrow> int \<Rightarrow> int \<Rightarrow> fields" where
  "yday_fields y m yd ms = \<lparr>f_year = y, f_month = m, f_day = nat (yd - month_start (leap y) m) + 1, f_ms = ms\<rparr>"

definition year_fields :: "int \<Rightarrow> int \<Rightarrow> int \<Rightarrow> fields" where
  "year_fields y yd ms = yday_fields y (month_from_yday (leap y) yd) yd ms"

definition day_fields :: "int \<Rightarrow> int \<Rightarrow> int \<Rightarrow> fields" where
  "day_fields y d ms = year_fields y (d - day_from_year y) ms"

definition fields_of :: "int \<Rightarrow> fields" where
  "fields_of t = day_fields (year_from_day (t div ms_per_day)) (t div ms_per_day) (t mod ms_per_day)"

lemmas fields_of_unfold = fields_of_def day_fields_def year_fields_def yday_fields_def

definition ms_of :: "fields \<Rightarrow> int" where
  "ms_of f = make_day (f_year f) (f_month f) (f_day f) * ms_per_day + f_ms f"

lemma fields_of_bounds:
  "f_month (fields_of t) \<in> {1..12}" "f_day (fields_of t) \<in> {1..31}" "0 \<le> f_ms (fields_of t)" "f_ms (fields_of t) < 86400000"
proof -
  let ?d = "t div ms_per_day" let ?y = "year_from_day ?d" let ?yd = "?d - day_from_year ?y"
  have yd: "0 \<le> ?yd" "?yd < 365 + (if leap ?y then 1 else 0)"
    using year_from_day [of ?d] day_from_year_Suc [of ?y] by auto
  note m = month_from_yday [OF yd]
  show "f_month (fields_of t) \<in> {1..12}"
    using m(4) by (simp add: fields_of_unfold)
  show "f_day (fields_of t) \<in> {1..31}"
    using m(1,2) by (auto simp: fields_of_unfold)
  show "0 \<le> f_ms (fields_of t)" "f_ms (fields_of t) < 86400000"
    by (simp_all add: fields_of_unfold ms_per_day_def)
qed

lemma ms_of_fields_of [simp]: "ms_of (fields_of t) = t"
proof -
  let ?d = "t div ms_per_day" let ?y = "year_from_day ?d" let ?yd = "?d - day_from_year ?y"
  let ?m = "month_from_yday (leap ?y) ?yd"
  have yd: "0 \<le> ?yd" "?yd < 365 + (if leap ?y then 1 else 0)"
    using year_from_day [of ?d] day_from_year_Suc [of ?y] by auto
  have "make_day ?y ?m (nat (?yd - month_start (leap ?y) ?m) + 1) = ?d"
    using month_from_yday(1) [OF yd] by (simp add: make_day_def)
  moreover have "0 \<le> t mod ms_per_day"
    by (simp add: ms_per_day_def)
  ultimately show ?thesis
    by (simp add: ms_of_def fields_of_unfold)
qed

subsection \<open>Rendering\<close>

text \<open>A year outside 0 to 9999 has a sign and six digits.\<close>

definition iso_year :: "int \<Rightarrow> string" where
  "iso_year y = (if 0 \<le> y \<and> y \<le> 9999 then fixed 4 (nat y)
     else (if y < 0 then CHR ''-'' else CHR ''+'') # fixed 6 (nat \<bar>y\<bar>))"

definition iso_clock :: "int \<Rightarrow> string" where
  "iso_clock n = fixed 2 (nat (n div 3600000)) @ '':'' @ fixed 2 (nat (n div 60000 mod 60)) @ '':''
     @ fixed 2 (nat (n div 1000 mod 60)) @ ''.'' @ fixed 3 (nat (n mod 1000)) @ ''Z''"

definition iso_fields :: "fields \<Rightarrow> string" where
  "iso_fields f = iso_year (f_year f) @ ''-'' @ fixed 2 (f_month f) @ ''-'' @ fixed 2 (f_day f) @ ''T''
     @ iso_clock (f_ms f)"

definition iso_z :: "int \<Rightarrow> iso" where
  "iso_z t = iso_fields (fields_of t)"

text \<open>Instants more than 100,000,000 days from the epoch are no time value: \<open>toISOString\<close> throws.\<close>

definition valid_time :: "int \<Rightarrow> bool" where
  "valid_time t \<longleftrightarrow> \<bar>t\<bar> \<le> 8640000000000000"

subsection \<open>Parsing\<close>

definition num_field :: "nat \<Rightarrow> nat \<Rightarrow> string \<Rightarrow> nat option" where
  "num_field i w s = (let f = take w (drop i s) in
     if length f = w \<and> list_all is_digit f then Some (digits_val f) else None)"

definition char_at :: "nat \<Rightarrow> char \<Rightarrow> string \<Rightarrow> bool" where
  "char_at i c s \<longleftrightarrow> i < length s \<and> s ! i = c"

text \<open>The offset of a zone suffix, in milliseconds to subtract.\<close>

definition parse_zone :: "string \<Rightarrow> int option" where
  "parse_zone s = (if s = ''Z'' then Some 0
     else if length s = 6 \<and> (char_at 0 (CHR ''+'') s \<or> char_at 0 (CHR ''-'') s) \<and> char_at 3 (CHR '':'') s
     then (case (num_field 1 2 s, num_field 4 2 s) of
         (Some h, Some m) \<Rightarrow> if h \<le> 23 \<and> m \<le> 59
           then Some ((if char_at 0 (CHR ''-'') s then -1 else 1) * (int h * 3600000 + int m * 60000)) else None
       | _ \<Rightarrow> None)
     else None)"

text \<open>The fraction's first three digits, and what follows it.\<close>

definition parse_fraction :: "string \<Rightarrow> nat \<times> string" where
  "parse_fraction s = (if char_at 0 (CHR ''.'') s then
     (let ds = takeWhile is_digit (tl s) in
       (digits_val (take 3 (ds @ ''00'')), dropWhile is_digit (tl s))) else (0, s))"

text \<open>The time after the \<open>T\<close>: hours, minutes, optional seconds with an optional fraction, zone.\<close>

definition parse_clock :: "string \<Rightarrow> int option" where
  "parse_clock s = (case (num_field 0 2 s, num_field 3 2 s) of
     (Some h, Some mi) \<Rightarrow>
       (if char_at 2 (CHR '':'') s then
          (let (sec, fr, rest) = (if char_at 5 (CHR '':'') s then
               (let (f, r) = parse_fraction (drop 8 s) in (num_field 6 2 s, f, r))
               else (Some 0, 0, drop 5 s)) in
           case (sec, parse_zone rest) of
             (Some se, Some z) \<Rightarrow>
               if (h \<le> 23 \<or> h = 24 \<and> mi = 0 \<and> se = 0 \<and> fr = 0) \<and> mi \<le> 59 \<and> se \<le> 59
               then Some (int h * 3600000 + int mi * 60000 + int se * 1000 + int fr - z) else None
           | _ \<Rightarrow> None)
        else None)
   | _ \<Rightarrow> None)"

definition date_parse :: "string \<Rightarrow> int option" where
  "date_parse s = (case (num_field 0 4 s, num_field 5 2 s, num_field 8 2 s) of
     (Some y, Some m, Some d) \<Rightarrow>
       (if char_at 4 (CHR ''-'') s \<and> char_at 7 (CHR ''-'') s \<and> 1 \<le> m \<and> m \<le> 12 \<and> 1 \<le> d \<and> d \<le> 31 then
          (let day = make_day (int y) m d * ms_per_day in
           if length s = 10 then Some day
           else if char_at 10 (CHR ''T'') s then map_option (\<lambda>t. day + t) (parse_clock (drop 11 s)) else None)
        else None)
   | _ \<Rightarrow> None)"

text \<open>\<open>parseUtcMs\<close>: a null or empty string is NaN; the first \<open>+00:00\<close> is written \<open>Z\<close>.\<close>

fun replace_first :: "string \<Rightarrow> string \<Rightarrow> string \<Rightarrow> string" where
  "replace_first p r [] = (if p = [] then r else [])"
| "replace_first p r (c # s) = (if take (length p) (c # s) = p then r @ drop (length p) (c # s)
     else c # replace_first p r s)"

definition parse_utc_ms :: "string option \<Rightarrow> int option" where
  "parse_utc_ms s = (case s of None \<Rightarrow> None
     | Some t \<Rightarrow> if t = [] then None else date_parse (replace_first ''+00:00'' ''Z'' t))"

subsection \<open>Reading what was written\<close>

lemma num_field_append:
  assumes "length p = i" "length f = w" "list_all is_digit f"
  shows "num_field i w (p @ f @ s) = Some (digits_val f)"
  using assms by (simp add: num_field_def)

lemma char_at_append [simp]: "length p = i \<Longrightarrow> char_at i c (p @ d # s) \<longleftrightarrow> c = d"
  by (auto simp: char_at_def)

lemma ms_split:
  fixes n :: int
  shows "n div 3600000 * 3600000 + n div 60000 mod 60 * 60000 + n div 1000 mod 60 * 1000 + n mod 1000 = n"
proof -
  have "n div 1000 div 60 = n div 60000" "n div 60000 div 60 = n div 3600000"
    by (simp_all add: zdiv_zmult2_eq [symmetric])
  then show ?thesis
    using div_mult_mod_eq [of n 1000] div_mult_mod_eq [of "n div 1000" 60]
      div_mult_mod_eq [of "n div 60000" 60] by linarith
qed

lemma parse_zone_Z [simp]: "parse_zone ''Z'' = Some 0"
  by (simp add: parse_zone_def)

lemma parse_fraction_fixed:
  "n < 1000 \<Longrightarrow> parse_fraction (''.'' @ fixed 3 n @ ''Z'') = (n, ''Z'')"
proof -
  assume n: "n < 1000"
  have "takeWhile is_digit (fixed 3 n @ ''Z'') = fixed 3 n" "dropWhile is_digit (fixed 3 n @ ''Z'') = ''Z''"
    using fixed_is_digit [of 3 n]
    by (simp_all add: takeWhile_append dropWhile_append list_all_iff is_digit_def)
  then show ?thesis
    using n by (simp add: parse_fraction_def char_at_def Let_def digits_val_fixed)
qed

lemma parse_clock_digits:
  assumes "h \<le> 23" "m \<le> 59" "sc \<le> 59" "f \<le> 999"
  shows "parse_clock (fixed 2 h @ '':'' @ fixed 2 m @ '':'' @ fixed 2 sc @ ''.'' @ fixed 3 f @ ''Z'')
    = Some (int h * 3600000 + int m * 60000 + int sc * 1000 + int f)"
proof -
  let ?t = "fixed 2 h @ '':'' @ fixed 2 m @ '':'' @ fixed 2 sc @ ''.'' @ fixed 3 f @ ''Z''"
  have v: "digits_val (fixed 2 h) = h" "digits_val (fixed 2 m) = m" "digits_val (fixed 2 sc) = sc"
    using assms by (simp_all add: digits_val_fixed)
  have n: "num_field 0 2 ?t = Some h" "num_field 3 2 ?t = Some m" "num_field 6 2 ?t = Some sc"
    using num_field_append [of "[]" 0 "fixed 2 h" 2] num_field_append [of "fixed 2 h @ '':''" 3 "fixed 2 m" 2]
      num_field_append [of "fixed 2 h @ '':'' @ fixed 2 m @ '':''" 6 "fixed 2 sc" 2] v
    by (simp_all add: fixed_is_digit)
  have c: "char_at 2 (CHR '':'') ?t" "char_at 5 (CHR '':'') ?t"
    using char_at_append [of "fixed 2 h" 2] char_at_append [of "fixed 2 h @ '':'' @ fixed 2 m" 5] by simp_all
  have "parse_fraction (drop 8 ?t) = (f, ''Z'')"
    using parse_fraction_fixed [of f] assms(4) by simp
  with n c assms show ?thesis
    by (simp add: parse_clock_def Let_def)
qed

lemma parse_clock_render:
  assumes "0 \<le> n" "n < 86400000"
  shows "parse_clock (iso_clock n) = Some n"
proof -
  obtain h m sc f where e: "n div 3600000 = h" "n div 60000 mod 60 = m" "n div 1000 mod 60 = sc" "n mod 1000 = f"
    by simp
  have "0 \<le> h" "3600000 * h \<le> n"
    using div_bounds(1) [of 3600000 n] assms by (auto simp: e(1) [symmetric] pos_imp_zdiv_nonneg_iff)
  moreover have "0 \<le> m" "m < 60" "0 \<le> sc" "sc < 60" "0 \<le> f" "f < 1000"
    by (simp_all add: e [symmetric])
  moreover have "h * 3600000 + m * 60000 + sc * 1000 + f = n"
    using ms_split [of n] unfolding e .
  ultimately show ?thesis
    using assms parse_clock_digits [of "nat h" "nat m" "nat sc" "nat f"]
    unfolding iso_clock_def e by simp
qed

text \<open>Instants of the years 0 to 9999.\<close>

definition four_digit_year :: "int \<Rightarrow> bool" where
  "four_digit_year t \<longleftrightarrow> -62167219200000 \<le> t \<and> t < 253402300800000"

lemma day_from_year_mono: "y \<le> z \<Longrightarrow> day_from_year y \<le> day_from_year z"
proof (induction "nat (z - y)" arbitrary: z)
  case (Suc n)
  have "day_from_year y \<le> day_from_year (z - 1)"
    using Suc by simp
  also have "\<dots> \<le> day_from_year z"
    using day_from_year_Suc [of "z - 1"] by simp
  finally show ?case .
qed simp

lemma four_digit_year_bounds:
  assumes "four_digit_year t"
  shows "0 \<le> f_year (fields_of t) \<and> f_year (fields_of t) \<le> 9999"
proof -
  let ?d = "t div ms_per_day"
  have d: "-719528 \<le> ?d" "?d < 2932897"
  proof -
    have "t div 86400000 * 86400000 + t mod 86400000 = t" "0 \<le> t mod 86400000" "t mod 86400000 < 86400000"
      by simp_all
    with assms show "-719528 \<le> ?d" "?d < 2932897"
      unfolding four_digit_year_def ms_per_day_def by linarith+
  qed
  have e: "day_from_year 0 = -719528" "day_from_year 10000 = 2932897"
    by code_simp+
  have y: "f_year (fields_of t) = year_from_day ?d"
    by (simp add: fields_of_unfold)
  have "\<not> year_from_day ?d + 1 \<le> 0"
    using year_from_day [of ?d] day_from_year_mono [of "year_from_day ?d + 1" 0] d e by linarith
  moreover have "\<not> 10000 \<le> year_from_day ?d"
    using year_from_day [of ?d] day_from_year_mono [of 10000 "year_from_day ?d"] d e by linarith
  ultimately show ?thesis
    unfolding y by linarith
qed

lemma date_parse_iso_z:
  assumes "four_digit_year t"
  shows "date_parse (iso_z t) = Some t"
proof -
  define f where "f = fields_of t"
  have b: "f_month f \<in> {1..12}" "f_day f \<in> {1..31}" "0 \<le> f_ms f" "f_ms f < 86400000"
    unfolding f_def by (rule fields_of_bounds)+
  have y: "0 \<le> f_year f" "f_year f \<le> 9999"
    using four_digit_year_bounds [OF assms] unfolding f_def by simp_all
  let ?y = "fixed 4 (nat (f_year f))" and ?m = "fixed 2 (f_month f)" and ?d = "fixed 2 (f_day f)"
  define c where "c = iso_clock (f_ms f)"
  have s: "iso_z t = ?y @ ''-'' @ ?m @ ''-'' @ ?d @ ''T'' @ c"
    using y by (simp add: iso_z_def iso_fields_def iso_year_def f_def c_def)
  have v: "digits_val ?y = nat (f_year f)" "digits_val ?m = f_month f" "digits_val ?d = f_day f"
    using b y by (simp_all add: digits_val_fixed nat_less_iff)
  have n: "num_field 0 4 (iso_z t) = Some (nat (f_year f))" "num_field 5 2 (iso_z t) = Some (f_month f)"
    "num_field 8 2 (iso_z t) = Some (f_day f)"
    using num_field_append [of "[]" 0 ?y 4] num_field_append [of "?y @ ''-''" 5 ?m 2]
      num_field_append [of "?y @ ''-'' @ ?m @ ''-''" 8 ?d 2] v unfolding s
    by (simp_all add: fixed_is_digit)
  have k: "char_at 4 (CHR ''-'') (iso_z t)" "char_at 7 (CHR ''-'') (iso_z t)" "char_at 10 (CHR ''T'') (iso_z t)"
    using char_at_append [of ?y 4] char_at_append [of "?y @ ''-'' @ ?m" 7]
      char_at_append [of "?y @ ''-'' @ ?m @ ''-'' @ ?d" 10] unfolding s by simp_all
  have l: "drop 11 (iso_z t) = c" "length (iso_z t) \<noteq> 10"
    unfolding s by (simp_all add: c_def iso_clock_def)
  have "parse_clock c = Some (f_ms f)"
    using parse_clock_render [OF b(3,4)] unfolding c_def .
  then have "date_parse (iso_z t) = Some (ms_of f)"
    using n k l b y by (simp add: date_parse_def Let_def ms_of_def)
  then show ?thesis
    by (simp add: f_def)
qed

lemma replace_first_absent:
  "(\<And>a b. s = a @ p @ b \<Longrightarrow> False) \<Longrightarrow> p \<noteq> [] \<Longrightarrow> replace_first p r s = s"
proof (induction s)
  case (Cons x s)
  have "take (length p) (x # s) \<noteq> p"
  proof
    assume "take (length p) (x # s) = p"
    then have "x # s = [] @ p @ drop (length p) (x # s)"
      using append_take_drop_id [of "length p" "x # s"] by simp
    then show False by (rule Cons.prems(1))
  qed
  moreover have "replace_first p r s = s"
  proof (rule Cons.IH)
    show False if "s = a @ p @ b" for a b
      using Cons.prems(1) [of "x # a" b] that by simp
  qed (rule Cons.prems(2))
  ultimately show ?case by simp
qed simp

lemma plus_not_in_fixed [simp]: "CHR ''+'' \<notin> set (fixed w n)"
  using fixed_is_digit [of w n] by (auto simp: list_all_iff is_digit_def)

text \<open>Stored instants round trip: every instant of the years 0 to 9999 that \<open>isoZ\<close> renders parses back to
  the same millisecond.\<close>

theorem parse_utc_ms_iso_z:
  assumes "four_digit_year t"
  shows "parse_utc_ms (Some (iso_z t)) = Some t"
proof -
  have "CHR ''+'' \<notin> set (iso_z t)"
    using four_digit_year_bounds [OF assms] by (simp add: iso_z_def iso_fields_def iso_year_def iso_clock_def)
  then have "replace_first ''+00:00'' ''Z'' (iso_z t) = iso_z t"
    by (intro replace_first_absent) auto
  moreover have "iso_z t \<noteq> []"
    by (simp add: iso_z_def iso_fields_def)
  ultimately show ?thesis
    using date_parse_iso_z [OF assms] by (simp add: parse_utc_ms_def)
qed

lemma parse_utc_ms_iso_z_witness: "parse_utc_ms (Some (iso_z 1700000000123)) = Some 1700000000123"
  by (rule parse_utc_ms_iso_z) code_simp

end
