(* ===== verification/Timecode.thy ===== *)
theory Timecode
  imports JsNumber IsoTime
begin

section \<open>SMPTE timecode arithmetic\<close>

text \<open>
  packages/domain/src/timecode.ts. A frame rate is a binary64 number; frame counts and the fields
  of a timecode are integers. \<open>from_total_frames\<close> is None where the code throws
  \<open>frame_rate must be positive\<close>. The quotients of the code are binary64 divisions under
  \<open>Math.floor\<close>, modelled as such; \<open>floor_dbl_div\<close> reads them as integer quotients for
  counts below 2^53.
\<close>

record timecode =
  tc_hours :: int
  tc_minutes :: int
  tc_seconds :: int
  tc_frames :: int
  tc_rate :: num64

definition js_floor_div :: "int \<Rightarrow> int \<Rightarrow> int" where
  "js_floor_div a b = \<lfloor>dbl_div (of_int a) (of_int b)\<rfloor>"

text \<open>\<open>Math.round(frameRate * 1000) / 1000\<close>, and the whole frames of a second.\<close>

definition round_rate :: "num64 \<Rightarrow> num64" where
  "round_rate r = dbl_div (of_int (js_round (dbl_mul r 1000))) 1000"

definition whole_rate :: "num64 \<Rightarrow> int" where
  "whole_rate r = max 1 (js_round (round_rate r))"

definition from_total_frames :: "int \<Rightarrow> num64 \<Rightarrow> timecode option" where
  "from_total_frames n r = (if r \<le> 0 then None else
     let fps = round_rate r; fpsI = whole_rate r;
       f = js_mod n fpsI;
       t = js_floor_div n fpsI;
       s = js_mod t 60;
       t2 = js_floor_div t 60;
       m = js_mod t2 60;
       h = js_mod (js_floor_div t2 60) 24
     in Some \<lparr>tc_hours = h, tc_minutes = m, tc_seconds = s, tc_frames = f, tc_rate = fps\<rparr>)"

definition to_total_frames :: "timecode \<Rightarrow> int" where
  "to_total_frames tc = (let fps = js_round (tc_rate tc) in
     tc_hours tc * 3600 * fps + tc_minutes tc * 60 * fps + tc_seconds tc * fps + tc_frames tc)"

definition p2 :: "int \<Rightarrow> string" where
  "p2 n = pad_start 2 (CHR ''0'') (int_string n)"

definition rate_2997 :: num64 where "rate_2997 = fl (2997 / 100)"

definition drop_frame_rate :: "num64 \<Rightarrow> bool" where
  "drop_frame_rate r \<longleftrightarrow> \<bar>dbl_sub r rate_2997\<bar> < dbl_mul (fl (1 / 1000)) rate_2997"

definition format_smpte :: "timecode \<Rightarrow> string" where
  "format_smpte tc = p2 (tc_hours tc) @ '':'' @ p2 (tc_minutes tc) @ '':'' @ p2 (tc_seconds tc)
     @ (if drop_frame_rate (tc_rate tc) then '';'' else '':'') @ p2 (tc_frames tc)"

text \<open>The regular expression of \<open>parseTimecodeString\<close>: the fields of \<open>HH:MM:SS\<close> with an optional
  \<open>:FF\<close> or \<open>;FF\<close>, None when the trimmed text has another shape.\<close>

definition match_timecode :: "string \<Rightarrow> (nat \<times> nat \<times> nat \<times> nat option) option" where
  "match_timecode s = (case (num_field 0 2 s, num_field 3 2 s, num_field 6 2 s) of
     (Some h, Some m, Some sec) \<Rightarrow>
       (if char_at 2 (CHR '':'') s \<and> char_at 5 (CHR '':'') s then
          (if length s = 8 then Some (h, m, sec, None)
           else if length s = 11 \<and> (char_at 8 (CHR '':'') s \<or> char_at 8 (CHR '';'') s) then
             map_option (\<lambda>f. (h, m, sec, Some f)) (num_field 9 2 s)
           else None)
        else None)
   | _ \<Rightarrow> None)"

definition parse_timecode_string :: "string \<Rightarrow> num64 \<Rightarrow> timecode option" where
  "parse_timecode_string text r = (if \<not> 0 < r then None else
     case match_timecode (js_trim text) of
       None \<Rightarrow> None
     | Some (h, m, s, fo) \<Rightarrow>
         (let frames = (case fo of None \<Rightarrow> 0 | Some f \<Rightarrow> f); fps = round_rate r; fpsI = whole_rate r in
          if 23 < h \<or> 59 < m \<or> 59 < s \<or> fpsI \<le> int frames then None
          else Some \<lparr>tc_hours = int h, tc_minutes = int m, tc_seconds = int s, tc_frames = int frames,
                 tc_rate = fps\<rparr>))"

text \<open>The transport's fields, as the row of session_transport gives them.\<close>

record transport_fields =
  is_rolling :: bool
  elapsed_frames :: int
  roll_started_at_utc :: "iso option"

definition frames_between :: "num64 \<Rightarrow> int \<Rightarrow> int \<Rightarrow> int" where
  "frames_between r started now = max 0 (js_trunc (dbl_mul (dbl_div (of_int (now - started)) 1000) r))"

definition transport_total :: "num64 \<Rightarrow> int \<Rightarrow> ('a) transport_fields_scheme \<Rightarrow> int \<Rightarrow> int" where
  "transport_total r offset tr now = (let
       extra = (if is_rolling tr then
           (case parse_utc_ms (roll_started_at_utc tr) of
              None \<Rightarrow> 0 | Some started \<Rightarrow> frames_between r started now) else 0)
     in max 0 (offset + elapsed_frames tr + extra))"

definition transport_timecode :: "num64 \<Rightarrow> int \<Rightarrow> ('a) transport_fields_scheme \<Rightarrow> int \<Rightarrow> timecode option" where
  "transport_timecode r offset tr now = from_total_frames (transport_total r offset tr now) r"

definition mark_total :: "num64 \<Rightarrow> int \<Rightarrow> ('a) transport_fields_scheme \<Rightarrow> int \<Rightarrow> int" where
  "mark_total r offset tr mark = (let
       base = offset + elapsed_frames tr;
       all = (if is_rolling tr then
           (case parse_utc_ms (roll_started_at_utc tr) of
              None \<Rightarrow> base
            | Some started \<Rightarrow> if started \<le> mark then base + frames_between r started mark else base)
         else base)
     in max 0 all)"

definition timecode_for_mark :: "num64 \<Rightarrow> int \<Rightarrow> ('a) transport_fields_scheme \<Rightarrow> int \<Rightarrow> timecode option" where
  "timecode_for_mark r offset tr mark = from_total_frames (mark_total r offset tr mark) r"

definition format_runtime_hms :: "int \<Rightarrow> num64 \<Rightarrow> string" where
  "format_runtime_hms n r = (let fr = (if 0 < r then r else 24); tf = max 0 n in
     if tf \<le> 0 then ''00:00:00'' else
     (case from_total_frames tf fr of
        None \<Rightarrow> []
      | Some tc \<Rightarrow> p2 (tc_hours tc) @ '':'' @ p2 (tc_minutes tc) @ '':'' @ p2 (tc_seconds tc)))"

subsection \<open>Frame counts and timecodes\<close>

lemma js_floor_div [simp]: "0 \<le> a \<Longrightarrow> a < 2 ^ 53 \<Longrightarrow> 0 < b \<Longrightarrow> js_floor_div a b = a div b"
  unfolding js_floor_div_def by (rule floor_dbl_div)

lemma whole_rate_pos [simp]: "1 \<le> whole_rate r" "0 < whole_rate r" "0 \<le> whole_rate r"
  by (simp_all add: whole_rate_def)

lemma div_below: "0 \<le> a \<Longrightarrow> a < (n::int) \<Longrightarrow> 1 \<le> b \<Longrightarrow> 0 \<le> a div b \<and> a div b < n"
  using zdiv_mono2 [of a 1 b] by (simp add: pos_imp_zdiv_nonneg_iff)

lemma from_total_frames_eq:
  assumes "0 < r" "0 \<le> n" "n < 2 ^ 53"
  shows "from_total_frames n r = Some
    \<lparr>tc_hours = n div whole_rate r div 60 div 60 mod 24, tc_minutes = n div whole_rate r div 60 mod 60,
     tc_seconds = n div whole_rate r mod 60, tc_frames = n mod whole_rate r, tc_rate = round_rate r\<rparr>"
proof -
  let ?a = "n div whole_rate r"
  have a: "0 \<le> ?a" "?a < 2 ^ 53" using div_below assms by simp_all
  have b: "0 \<le> ?a div 60" "?a div 60 < 2 ^ 53" using div_below [of ?a "2 ^ 53" 60] a by simp_all
  have c: "0 \<le> ?a div 60 div 60" using b by simp
  have e: "js_floor_div n (whole_rate r) = ?a" "js_floor_div ?a 60 = ?a div 60"
    "js_floor_div (?a div 60) 60 = ?a div 60 div 60"
    using assms a b by (intro js_floor_div; simp)+
  show ?thesis
    using assms a b c by (simp add: from_total_frames_def Let_def e)
qed

definition in_range :: "int \<Rightarrow> timecode \<Rightarrow> bool" where
  "in_range fps tc \<longleftrightarrow> 0 \<le> tc_hours tc \<and> tc_hours tc < 24 \<and> 0 \<le> tc_minutes tc \<and> tc_minutes tc < 60 \<and>
     0 \<le> tc_seconds tc \<and> tc_seconds tc < 60 \<and> 0 \<le> tc_frames tc \<and> tc_frames tc < fps"

lemma from_total_frames_in_range:
  assumes "0 < r" "0 \<le> n" "n < 2 ^ 53"
  shows "\<exists>tc. from_total_frames n r = Some tc \<and> in_range (whole_rate r) tc \<and> tc_rate tc = round_rate r"
  using from_total_frames_eq [OF assms] by (simp add: in_range_def)

lemma sexagesimal:
  fixes n w :: int
  assumes "0 < w"
  shows "(n div w div 60 div 60 mod 24) * 3600 * w + (n div w div 60 mod 60) * 60 * w
    + (n div w mod 60) * w + n mod w = n mod (86400 * w)"
proof -
  define a b c where "a = n div w" and "b = a div 60" and "c = b div 60"
  have n: "n mod (86400 * w) = w * (a mod 86400) + n mod w"
    using zmod_zmult2_eq [of 86400 n w] by (simp add: a_def mult.commute)
  have "a mod (60 * 1440) = 60 * (b mod 1440) + a mod 60"
    using zmod_zmult2_eq [of 1440 a 60] by (simp add: b_def)
  moreover have "b mod (60 * 24) = 60 * (c mod 24) + b mod 60"
    using zmod_zmult2_eq [of 24 b 60] by (simp add: c_def)
  ultimately have "a mod 86400 = 3600 * (c mod 24) + 60 * (b mod 60) + a mod 60"
    by simp
  then show ?thesis
    unfolding n a_def [symmetric] b_def [symmetric] c_def [symmetric] by (simp add: algebra_simps)
qed

text \<open>A rate of at least half a frame rounds to a positive whole rate, the one \<open>toTotalFrames\<close> uses.\<close>

definition frame_rate_ok :: "num64 \<Rightarrow> bool" where
  "frame_rate_ok r \<longleftrightarrow> 0 < r \<and> 1 \<le> js_round (round_rate r)"

lemma to_total_from_total_mod:
  assumes "frame_rate_ok r" "0 \<le> n" "n < 2 ^ 53" "from_total_frames n r = Some tc"
  shows "to_total_frames tc = n mod (86400 * whole_rate r)"
proof -
  have w: "js_round (round_rate r) = whole_rate r"
    using assms(1) by (simp add: frame_rate_ok_def whole_rate_def)
  have r: "0 < r" using assms(1) by (simp add: frame_rate_ok_def)
  show ?thesis
    using assms(4) unfolding from_total_frames_eq [OF r assms(2,3)] sexagesimal [OF whole_rate_pos(2), symmetric]
    by (simp only: option.inject to_total_frames_def Let_def) (elim subst, simp only: timecode.select_convs w)
qed

subsection \<open>Text\<close>

lemma p2_fixed: "0 \<le> n \<Longrightarrow> n < 100 \<Longrightarrow> p2 n = fixed 2 (nat n)"
  unfolding p2_def int_string_def using pad_start_fixed [of "nat n" 2] by (simp add: nat_less_iff)

lemma digit_not_space: "is_digit c \<Longrightarrow> \<not> is_space c"
  by (auto simp: is_digit_def is_space_def)

lemma match_timecode_render:
  assumes "h < 100" "m < 100" "s < 100" "f < 100" "sep = CHR '':'' \<or> sep = CHR '';''"
  shows "match_timecode (js_trim (fixed 2 h @ '':'' @ fixed 2 m @ '':'' @ fixed 2 s @ [sep] @ fixed 2 f))
    = Some (h, m, s, Some f)"
proof -
  let ?t = "fixed 2 h @ '':'' @ fixed 2 m @ '':'' @ fixed 2 s @ [sep] @ fixed 2 f"
  have nonempty: "fixed 2 x \<noteq> []" for x
    using length_fixed [of 2 x] by (metis list.size(3) zero_neq_numeral)
  have "hd ?t = hd (fixed 2 h)" "last ?t = last (fixed 2 f)"
    using nonempty by simp_all
  moreover have "is_digit (hd (fixed 2 h))" "is_digit (last (fixed 2 f))"
    using fixed_is_digit [of 2 h] fixed_is_digit [of 2 f] hd_in_set [OF nonempty [of h]]
      last_in_set [OF nonempty [of f]] by (simp_all add: list_all_iff)
  ultimately have t: "js_trim ?t = ?t"
    by (intro js_trim_id) (simp_all add: digit_not_space)
  have v: "digits_val (fixed 2 x) = x" if "x < 100" for x
    using that by (simp add: digits_val_fixed)
  have n: "num_field 0 2 ?t = Some h" "num_field 3 2 ?t = Some m" "num_field 6 2 ?t = Some s"
    "num_field 9 2 ?t = Some f"
    using num_field_append [of "[]" 0 "fixed 2 h" 2] num_field_append [of "fixed 2 h @ '':''" 3 "fixed 2 m" 2]
      num_field_append [of "fixed 2 h @ '':'' @ fixed 2 m @ '':''" 6 "fixed 2 s" 2]
      num_field_append [of "fixed 2 h @ '':'' @ fixed 2 m @ '':'' @ fixed 2 s @ [sep]" 9 "fixed 2 f" 2 "[]"]
      assms by (simp_all add: v fixed_is_digit)
  have c: "char_at 2 (CHR '':'') ?t" "char_at 5 (CHR '':'') ?t" "char_at 8 sep ?t"
    using char_at_append [of "fixed 2 h" 2] char_at_append [of "fixed 2 h @ '':'' @ fixed 2 m" 5]
      char_at_append [of "fixed 2 h @ '':'' @ fixed 2 m @ '':'' @ fixed 2 s" 8] by simp_all
  have "match_timecode ?t = Some (h, m, s, Some f)"
    using n c assms(5) unfolding match_timecode_def by auto
  with t show ?thesis by simp
qed

lemma parse_format_timecode:
  assumes "0 < r" "whole_rate r \<le> 100" "in_range (whole_rate r) tc" "tc_rate tc = round_rate r"
  shows "parse_timecode_string (format_smpte tc) r = Some tc"
proof -
  let ?sep = "if drop_frame_rate (tc_rate tc) then CHR '';'' else CHR '':''"
  have f: "format_smpte tc = fixed 2 (nat (tc_hours tc)) @ '':'' @ fixed 2 (nat (tc_minutes tc)) @ '':''
      @ fixed 2 (nat (tc_seconds tc)) @ [?sep] @ fixed 2 (nat (tc_frames tc))"
    using assms(2,3) by (simp add: format_smpte_def in_range_def p2_fixed)
  have "match_timecode (js_trim (format_smpte tc))
      = Some (nat (tc_hours tc), nat (tc_minutes tc), nat (tc_seconds tc), Some (nat (tc_frames tc)))"
    unfolding f using assms(2,3) by (intro match_timecode_render) (auto simp: in_range_def)
  then show ?thesis
    using assms by (cases tc) (auto simp: parse_timecode_string_def Let_def in_range_def not_less)
qed

subsection \<open>A rolling transport\<close>

lemma frames_between_mono:
  assumes "0 < r" "now \<le> now'"
  shows "frames_between r s now \<le> frames_between r s now'"
proof -
  have "(of_int (now - s) :: rat) / 1000 \<le> of_int (now' - s) / 1000"
    using assms(2) by simp
  then have "dbl_div (of_int (now - s)) 1000 \<le> dbl_div (of_int (now' - s)) 1000"
    unfolding dbl_div_def by (rule fl_mono)
  then have "dbl_mul (dbl_div (of_int (now - s)) 1000) r \<le> dbl_mul (dbl_div (of_int (now' - s)) 1000) r"
    unfolding dbl_mul_def using assms(1) by (intro fl_mono mult_right_mono) simp_all
  from js_trunc_mono [OF this] show ?thesis
    by (simp add: frames_between_def)
qed

lemma frames_between_nonneg [simp]: "0 \<le> frames_between r s now"
  by (simp add: frames_between_def)

lemma transport_total_mono:
  assumes "0 < r" "now \<le> now'"
  shows "transport_total r off tr now \<le> transport_total r off tr now'"
proof (cases "parse_utc_ms (roll_started_at_utc tr)")
  case (Some s)
  then show ?thesis
    using frames_between_mono [OF assms, of s] by (auto simp: transport_total_def Let_def max_def)
qed (simp add: transport_total_def)

lemma frames_between_past [simp]:
  assumes "0 < r" "now \<le> s"
  shows "frames_between r s now = 0"
proof -
  have "frames_between r s now \<le> frames_between r s s"
    by (rule frames_between_mono [OF assms])
  also have "\<dots> = 0" by (simp add: frames_between_def dbl_div_def dbl_mul_def js_trunc_def)
  finally show ?thesis using frames_between_nonneg [of r s now] by simp
qed

text \<open>The two readings of a rolling transport agree: an event marked now carries the transport's timecode.\<close>

lemma mark_total_transport_total:
  assumes "0 < r"
  shows "mark_total r off tr t = transport_total r off tr t"
  using frames_between_past [OF assms, of t] by (auto simp: mark_total_def transport_total_def Let_def split: option.split)

subsection \<open>Properties\<close>

text \<open>C34: Timecode text round trip: for a rate that prints two-digit frames, every frame count of a day has a
  timecode; its SMPTE text (with either separator) parses back to that timecode, and the timecode's total
  is the count again, so no frame is lost between the database, the event log and a user's edit.\<close>

theorem timecode_text_roundtrip:
  assumes "frame_rate_ok r" "whole_rate r \<le> 100" "0 \<le> n" "n < 86400 * whole_rate r"
  shows "\<exists>tc. from_total_frames n r = Some tc \<and> parse_timecode_string (format_smpte tc) r = Some tc \<and>
    to_total_frames tc = n"
proof -
  have r: "0 < r" using assms(1) by (simp add: frame_rate_ok_def)
  have n: "n < 2 ^ 53" using assms(2,4) by simp
  obtain tc where tc: "from_total_frames n r = Some tc" "in_range (whole_rate r) tc" "tc_rate tc = round_rate r"
    using from_total_frames_in_range [OF r assms(3) n] by blast
  have "to_total_frames tc = n"
    using to_total_from_total_mod [OF assms(1,3) n tc(1)] assms(3,4) by simp
  with tc parse_format_timecode [OF r assms(2) tc(2,3)] show ?thesis by blast
qed

lemma timecode_text_roundtrip_witness:
  "\<exists>tc. from_total_frames 90061 25 = Some tc \<and> parse_timecode_string (format_smpte tc) 25 = Some tc \<and>
    to_total_frames tc = 90061"
proof (rule timecode_text_roundtrip)
  show "frame_rate_ok 25" by code_simp
  have w: "whole_rate 25 = 25" by code_simp
  show "whole_rate 25 \<le> 100" "(90061::int) < 86400 * whole_rate 25" by (simp_all add: w)
qed simp

text \<open>C35: The clock of a transport never runs backwards: between two readings of the same row the total never
  falls, whatever its start text is and even when the start lies in the future; and an event marked at an
  instant carries exactly the frames the live display shows at that instant.\<close>

theorem transport_clock_monotone:
  assumes "0 < r" "now \<le> now'"
  shows "0 \<le> transport_total r off tr now \<and> transport_total r off tr now \<le> transport_total r off tr now' \<and>
    mark_total r off tr now = transport_total r off tr now"
proof -
  have "0 \<le> transport_total r off tr now" by (simp add: transport_total_def)
  with transport_total_mono [OF assms, of off tr] mark_total_transport_total [OF assms(1), of off tr] show ?thesis by simp
qed

lemma transport_clock_monotone_witness:
  "0 \<le> transport_total 25 0 \<lparr>is_rolling = True, elapsed_frames = 10, roll_started_at_utc = Some ''1970-01-01T00:00:01.000Z''\<rparr> 2000 \<and>
   transport_total 25 0 \<lparr>is_rolling = True, elapsed_frames = 10, roll_started_at_utc = Some ''1970-01-01T00:00:01.000Z''\<rparr> 2000
     \<le> transport_total 25 0 \<lparr>is_rolling = True, elapsed_frames = 10, roll_started_at_utc = Some ''1970-01-01T00:00:01.000Z''\<rparr> 3000"
  using transport_clock_monotone [of 25 2000 3000 0
      "\<lparr>is_rolling = True, elapsed_frames = 10, roll_started_at_utc = Some ''1970-01-01T00:00:01.000Z''\<rparr>"]
  by simp

end
