(* ===== verification/SessionData.thy ===== *)
theory SessionData
  imports Timecode
begin

section \<open>The session's stored data\<close>

text \<open>
  The rows of the session tables (supabase/migrations/20261008000000_session_tables.sql and its
  successors) and the shapes the hub answers with (packages/session-core/src). All rows of one
  model database belong to one session, so the column \<open>session_id\<close> and the condition
  \<open>session_id = ?\<close> of every statement are implicit. A table is a list of rows in insertion order;
  statements that order their result sort explicitly.
\<close>

subsection \<open>Rows\<close>

record id_row =
  row_id :: string

record versioned_row = id_row +
  row_version :: int

record event_row = versioned_row +
  ev_wall :: iso
  ev_rate :: num64
  ev_total :: "int option"
  ev_category :: string
  ev_message :: string
  ev_metadata :: string

record transport_row = transport_fields +
  current_take :: int

record topic_row = versioned_row +
  tp_session_time :: string
  tp_duration :: num64
  tp_level :: int
  tp_summary :: string
  tp_ordinal :: int
  tp_created :: iso

record word_row = versioned_row +
  wd_session_time :: string
  wd_speaker :: string
  wd_word :: string
  wd_start :: num64
  wd_end :: num64
  wd_ordinal :: int
  wd_created :: iso

record paragraph_row = id_row +
  pa_start :: "num64 option"
  pa_end :: "num64 option"
  pa_speaker :: string
  pa_text :: string
  pa_ordinal :: int
  pa_created :: iso

record sentiment_row = id_row +
  se_start :: "num64 option"
  se_end :: "num64 option"
  se_sentiment :: string
  se_score :: num64
  se_text :: string
  se_ordinal :: int
  se_created :: iso

datatype lease_kind = Recording | AiTurn | TranscriptGeneration | YoutubeImport

record lease_row =
  ls_kind :: lease_kind
  ls_client :: string
  ls_user :: "string option"
  ls_heartbeat :: int
  ls_expires :: int
  ls_started :: "int option"

datatype media_status = MPending | MDone | MFailed

record segment_row = id_row +
  sg_ordinal :: int
  sg_started :: "iso option"
  sg_ended :: "iso option"
  sg_mime :: string
  sg_key :: string
  sg_recording :: "int option"
  sg_peaks :: "num64 list option"
  sg_floor :: "num64 option"
  sg_created :: iso
  sg_duration :: "int option"
  sg_status :: "media_status option"
  sg_error :: "string option"

record seam_row =
  sm_recording :: int
  sm_started :: iso
  sm_ended :: "iso option"
  sm_segment :: string
  sm_offset :: int
  sm_source :: string

datatype job_kind = Ingest | Merge

datatype job_status = Queued | Running | Done | Applied | Failed | Cancelled

datatype media_error = DecodeFailed | MixedCodecs | VerifyMismatch | InterleavedInput | MissingBlob
  | Timeout | LowDisk | InternalError | InvalidResult | InputsChanged

record media_job = id_row +
  jb_kind :: job_kind
  jb_session :: string
  jb_target :: string
  jb_status :: job_status
  jb_attempts :: nat
  jb_max_attempts :: nat
  jb_bytes :: int
  jb_run_after :: int
  jb_locked_by :: "string option"
  jb_locked_until :: "int option"
  jb_result :: "string option"
  jb_error :: "media_error option"
  jb_created :: int
  jb_updated :: int
  jb_applied :: "int option"

record dashboard_row = id_row +
  da_config :: string
  da_created_by :: "string option"
  da_turn :: "string option"
  da_created :: iso
  da_updated :: iso

text \<open>The session's own row of \<open>catalog.sessions\<close>: its revision and the six projection columns.\<close>

record session_projection =
  pr_event_count :: nat
  pr_max_total :: "int option"
  pr_rolling :: bool
  pr_take :: int
  pr_elapsed :: int
  pr_roll_started :: "iso option"

record catalog_row =
  ct_revision :: int
  ct_projection :: session_projection

subsection \<open>What the hub answers\<close>

record event_rpc =
  event_id :: string
  wall_time_utc :: iso
  ev_timecode :: "string option"
  frame_rate :: "num64 option"
  timecode_total_frames :: "int option"
  category :: string
  message :: string
  metadata_json :: string
  version :: int

record timecode_ctx =
  ctx_rate :: num64
  ctx_offset :: int

record transport_state =
  ts_rolling :: bool
  ts_take :: int
  ts_roll_started :: "iso option"
  ts_elapsed :: int
  ts_timecode :: string
  ts_total :: int

text \<open>An edit's expected version, and whether it overwrites a newer row.\<close>

record expectation =
  ex_version :: int
  ex_overwrite :: bool

text \<open>A row as an audited overwrite records it (the JSON of the hub's row shape).\<close>

datatype audited = AuditEvent event_rpc | AuditWord word_row | AuditTopic topic_row

record overwrite_row = id_row +
  ow_table :: string
  ow_row :: string
  ow_user :: string
  ow_at :: iso
  ow_replaced :: int
  ow_before :: audited
  ow_after :: "audited option"

subsection \<open>The database of one session\<close>

record session_db =
  db_events :: "event_row list"
  db_transport :: "transport_row option"
  db_topics :: "topic_row list"
  db_words :: "word_row list"
  db_paragraphs :: "paragraph_row list"
  db_sentiment :: "sentiment_row list"
  db_leases :: "lease_row list"
  db_segments :: "segment_row list"
  db_seams :: "seam_row list"
  db_jobs :: "media_job list"
  db_dashboards :: "dashboard_row list"
  db_overwrites :: "overwrite_row list"
  db_meta :: "(string \<times> string) list"
  db_catalog :: "catalog_row option"

subsection \<open>Statements over a table with a primary key\<close>

definition find_row :: "string \<Rightarrow> ('a id_row_scheme) list \<Rightarrow> ('a id_row_scheme) option" where
  "find_row i t = find (\<lambda>r. row_id r = i) t"

text \<open>\<open>INSERT\<close>: None is a violation of the primary key.\<close>

definition insert_row :: "('a id_row_scheme) \<Rightarrow> ('a id_row_scheme) list \<Rightarrow> ('a id_row_scheme) list option" where
  "insert_row r t = (if row_id r \<in> row_id ` set t then None else Some (t @ [r]))"

definition update_where :: "('r \<Rightarrow> bool) \<Rightarrow> ('r \<Rightarrow> 'r) \<Rightarrow> 'r list \<Rightarrow> 'r list" where
  "update_where p f t = map (\<lambda>r. if p r then f r else r) t"

definition delete_where :: "('r \<Rightarrow> bool) \<Rightarrow> 'r list \<Rightarrow> 'r list" where
  "delete_where p t = filter (\<lambda>r. \<not> p r) t"

definition count_where :: "('r \<Rightarrow> bool) \<Rightarrow> 'r list \<Rightarrow> nat" where
  "count_where p t = length (filter p t)"

definition has_id :: "string \<Rightarrow> ('a id_row_scheme) \<Rightarrow> bool" where
  "has_id i r \<longleftrightarrow> row_id r = i"

definition keys_ok :: "('a id_row_scheme) list \<Rightarrow> bool" where
  "keys_ok t \<longleftrightarrow> distinct (map row_id t)"

text \<open>\<open>ORDER BY\<close> a key: stable, ascending.\<close>

definition order_by :: "('r \<Rightarrow> 'k::linorder) \<Rightarrow> 'r list \<Rightarrow> 'r list" where
  "order_by k t = sort_key k t"

definition max_of :: "int list \<Rightarrow> int option" where
  "max_of xs = (if xs = [] then None else Some (Max (set xs)))"

lemma find_row_Some: "find_row i t = Some r \<Longrightarrow> r \<in> set t \<and> row_id r = i"
  unfolding find_row_def by (induction t) (auto split: if_splits)

lemma find_row_None: "find_row i t = None \<longleftrightarrow> i \<notin> row_id ` set t"
  unfolding find_row_def by (rule find_None_iff_key)

lemma find_row_iff: "keys_ok t \<Longrightarrow> find_row i t = Some r \<longleftrightarrow> r \<in> set t \<and> row_id r = i"
  unfolding find_row_def keys_ok_def by (rule find_Some_iff_distinct)

lemma find_row_append:
  "find_row i (t @ u) = (case find_row i t of Some r \<Rightarrow> Some r | None \<Rightarrow> find_row i u)"
  by (induction t) (simp_all add: find_row_def)

lemma insert_row_Some: "insert_row r t = Some t' \<longleftrightarrow> row_id r \<notin> row_id ` set t \<and> t' = t @ [r]"
  by (auto simp: insert_row_def)

lemma find_row_inserted: "insert_row r t = Some t' \<Longrightarrow> find_row (row_id r) t' = Some r"
  unfolding insert_row_Some by (auto simp: find_row_append find_row_None [symmetric]) (simp add: find_row_def)

lemma find_row_snoc: "row_id r \<notin> row_id ` set t \<Longrightarrow> find_row (row_id r) (t @ [r]) = Some r"
  unfolding find_row_None [symmetric] by (simp add: find_row_append) (simp add: find_row_def)

lemma keys_ok_insert: "insert_row r t = Some t' \<Longrightarrow> keys_ok t \<Longrightarrow> keys_ok t'"
  unfolding insert_row_Some keys_ok_def by auto

lemma keys_ok_update: "(\<And>r. row_id (f r) = row_id r) \<Longrightarrow> keys_ok (update_where p f t) = keys_ok t"
  by (simp add: keys_ok_def update_where_def map_fst_map_update o_def if_distrib cong: if_cong)

lemma keys_ok_delete: "keys_ok t \<Longrightarrow> keys_ok (delete_where p t)"
  by (simp add: keys_ok_def delete_where_def distinct_map_filter)

lemma find_row_update:
  assumes "\<And>r. row_id (f r) = row_id r"
  shows "find_row i (update_where (has_id j) f t) = map_option (\<lambda>r. if i = j then f r else r) (find_row i t)"
  by (induction t) (auto simp: find_row_def update_where_def has_id_def assms)

lemma find_row_delete: "find_row i (delete_where (has_id j) t) = (if i = j then None else find_row i t)"
  by (induction t) (auto simp: find_row_def delete_where_def has_id_def)

lemma count_where_has_id:
  assumes "keys_ok t"
  shows "count_where (has_id i) t = (if find_row i t = None then 0 else 1)"
proof -
  have "count_where (has_id i) t = (if i \<in> row_id ` set t then 1 else 0)"
    using assms unfolding keys_ok_def
    by (induction t) (auto simp: count_where_def has_id_def filter_empty_conv)
  then show ?thesis by (simp add: find_row_None)
qed

lemma count_where_0: "count_where p t = 0 \<longleftrightarrow> (\<forall>r\<in>set t. \<not> p r)"
  by (auto simp: count_where_def filter_empty_conv)

lemma update_where_none: "(\<And>r. r \<in> set t \<Longrightarrow> \<not> p r) \<Longrightarrow> update_where p f t = t"
  unfolding update_where_def by (induction t) auto

lemma delete_where_none: "(\<And>r. r \<in> set t \<Longrightarrow> \<not> p r) \<Longrightarrow> delete_where p t = t"
  unfolding delete_where_def by (induction t) auto

lemma length_update_where [simp]: "length (update_where p f t) = length t"
  by (simp add: update_where_def)

lemma map_update_where: "(\<And>r. k (f r) = k r) \<Longrightarrow> map k (update_where p f t) = map k t"
  by (induction t) (auto simp: update_where_def)

lemma set_delete_where [simp]: "set (delete_where p t) = {r \<in> set t. \<not> p r}"
  by (auto simp: delete_where_def)

lemma set_order_by [simp]: "set (order_by k t) = set t"
  by (simp add: order_by_def)

lemma sorted_order_by: "sorted (map k (order_by k t))"
  by (simp add: order_by_def)

end
