(* ===== verification/SessionCore.thy ===== *)
theory SessionCore
  imports SessionData "HOL-Library.AList"
begin

section \<open>The session core: one transaction's or snapshot's view of a session\<close>

text \<open>
  packages/session-core/src/sessionCore.ts. A store's method is a \<open>tx\<close>: a function of the
  environment (the session, the caller, the clock's readings, the random ids) and of the
  transaction's state, answering a value or the error it throws, with the state it leaves. The
  state is the database inside the transaction together with the fields of the transaction-bound
  core: the revision's advance, the projection's dirty flag, the held broadcasts and the held alarm.
  Each clock reading and each drawn id consumes one element of its stream.
\<close>

subsection \<open>Frames, errors, state\<close>

text \<open>The JSON frames of the session's sockets, by type.\<close>

datatype frame =
    EventChanged int
  | TransportChanged bool int
  | AudioChanged
  | LeaseChanged
  | CommandFrame string

datatype terr =
    TxMisuse
  | ProjectionError
  | UniqueViolation
  | CheckViolation
  | ForeignKeyViolation
  | FrameRateError
  | InvalidDate
  | ImportWhileRolling
  | MediaJobStale
  | NoMediaPorts
  | SessionNotFound
  | Deadlock
  | StorageFailed
  | HubClosed
  | DashboardInvalid "string list"
  | DashboardBounds
  | RemapFailed string
  | JsTypeError

datatype session_caller = UserCaller string | SystemCaller string

record tx_env =
  env_session :: string
  env_caller :: "session_caller option"
  env_clock :: "nat \<Rightarrow> int"
  env_uuid :: "nat \<Rightarrow> string"
  env_media :: "(string \<Rightarrow> int) option" \<comment> \<open>the media ports, given by \<open>blobBytes\<close>; null without them\<close>

record tx_state =
  st_db :: session_db
  st_rev :: "int option" \<comment> \<open>\<open>revisionAdvance\<close>\<close>
  st_dirty :: bool \<comment> \<open>\<open>projectionDirty\<close>\<close>
  st_frames :: "frame list" \<comment> \<open>\<open>pendingBroadcasts\<close>\<close>
  st_alarm :: "int option" \<comment> \<open>\<open>heldAlarmAtMs\<close>\<close>
  st_ticks :: nat
  st_ids :: nat

type_synonym 'a tx = "tx_env \<Rightarrow> tx_state \<Rightarrow> (terr + 'a) \<times> tx_state"

definition treturn :: "'a \<Rightarrow> 'a tx" where
  "treturn x = (\<lambda>e s. (Inr x, s))"

definition tthrow :: "terr \<Rightarrow> 'a tx" where
  "tthrow er = (\<lambda>e s. (Inl er, s))"

definition tbind :: "'a tx \<Rightarrow> ('a \<Rightarrow> 'b tx) \<Rightarrow> 'b tx" where
  "tbind m f = (\<lambda>e s. case m e s of (Inl er, s') \<Rightarrow> (Inl er, s') | (Inr x, s') \<Rightarrow> f x e s')"

fun tfor :: "'a list \<Rightarrow> ('a \<Rightarrow> unit tx) \<Rightarrow> unit tx" where
  "tfor [] f = treturn ()"
| "tfor (x # xs) f = tbind (f x) (\<lambda>_. tfor xs f)"

fun tmap :: "('a \<Rightarrow> 'b tx) \<Rightarrow> 'a list \<Rightarrow> 'b list tx" where
  "tmap f [] = treturn []"
| "tmap f (x # xs) = tbind (f x) (\<lambda>y. tbind (tmap f xs) (\<lambda>ys. treturn (y # ys)))"

fun tfold :: "('b \<Rightarrow> 'a \<Rightarrow> 'b tx) \<Rightarrow> 'b \<Rightarrow> 'a list \<Rightarrow> 'b tx" where
  "tfold f b [] = treturn b"
| "tfold f b (x # xs) = tbind (f b x) (\<lambda>c. tfold f c xs)"

definition treq :: "terr \<Rightarrow> 'a option \<Rightarrow> 'a tx" where
  "treq er m = (case m of None \<Rightarrow> tthrow er | Some x \<Rightarrow> treturn x)"

subsection \<open>Statements\<close>

text \<open>A writing statement: the error it raises, or the database it leaves and the rows it changed.\<close>

type_synonym stmt = "session_db \<Rightarrow> terr + (session_db \<times> nat)"

type_synonym 'r table_upd = "('r list \<Rightarrow> 'r list) \<Rightarrow> session_db \<Rightarrow> session_db"

definition insert_stmt ::
  "(session_db \<Rightarrow> ('r id_row_scheme) list) \<Rightarrow> ('r id_row_scheme) table_upd \<Rightarrow> ('r id_row_scheme) \<Rightarrow> stmt" where
  "insert_stmt get upd r d = (case insert_row r (get d) of
     None \<Rightarrow> Inl UniqueViolation | Some t \<Rightarrow> Inr (upd (\<lambda>_. t) d, 1))"

definition update_stmt :: "(session_db \<Rightarrow> 'r list) \<Rightarrow> 'r table_upd \<Rightarrow> ('r \<Rightarrow> bool) \<Rightarrow> ('r \<Rightarrow> 'r) \<Rightarrow> stmt" where
  "update_stmt get upd p f d = Inr (upd (update_where p f) d, count_where p (get d))"

definition delete_stmt :: "(session_db \<Rightarrow> 'r list) \<Rightarrow> 'r table_upd \<Rightarrow> ('r \<Rightarrow> bool) \<Rightarrow> stmt" where
  "delete_stmt get upd p d = Inr (upd (delete_where p) d, count_where p (get d))"

definition meta_upsert :: "string \<Rightarrow> string \<Rightarrow> stmt" where
  "meta_upsert k v d = Inr (db_meta_update (AList.update k v) d, 1)"

definition meta_remove :: "string \<Rightarrow> stmt" where
  "meta_remove k d = Inr (db_meta_update (filter (\<lambda>(a, _). a \<noteq> k)) d, length (filter (\<lambda>(a, _). a = k) (db_meta d)))"

definition tx_read :: "(session_db \<Rightarrow> 'a) \<Rightarrow> 'a tx" where
  "tx_read f = (\<lambda>e s. (Inr (f (st_db s)), s))"

text \<open>A statement on the transaction's own handle (\<open>rawDb\<close>): it never counts as a change.\<close>

definition raw_run :: "stmt \<Rightarrow> nat tx" where
  "raw_run st = (\<lambda>e s. case st (st_db s) of Inl er \<Rightarrow> (Inl er, s) | Inr (d, n) \<Rightarrow> (Inr n, s\<lparr>st_db := d\<rparr>))"

text \<open>\<open>bumpRevisionOnce\<close> and \<open>advanceRevision\<close>.\<close>

definition bump_revision_once :: "int tx" where
  "bump_revision_once = (\<lambda>e s. case db_catalog (st_db s) of
     None \<Rightarrow> (Inl ProjectionError, s)
   | Some c \<Rightarrow> (Inr (ct_revision c + 1),
       s\<lparr>st_db := (st_db s)\<lparr>db_catalog := Some (c\<lparr>ct_revision := ct_revision c + 1\<rparr>)\<rparr>\<rparr>))"

definition advance_revision :: "int tx" where
  "advance_revision = (\<lambda>e s. case st_rev s of
     Some r \<Rightarrow> (Inr r, s)
   | None \<Rightarrow> tbind bump_revision_once (\<lambda>r e s. (Inr r, s\<lparr>st_rev := Some r\<rparr>)) e s)"

text \<open>The counting handle: the first statement that changes a row advances the revision.\<close>

definition db_run :: "stmt \<Rightarrow> nat tx" where
  "db_run st = tbind (raw_run st) (\<lambda>n.
     if 0 < n then tbind advance_revision (\<lambda>_. treturn n) else treturn n)"

subsection \<open>Environment\<close>

definition tx_now :: "int tx" where
  "tx_now = (\<lambda>e s. (Inr (env_clock e (st_ticks s)), s\<lparr>st_ticks := Suc (st_ticks s)\<rparr>))"

definition tx_uuid :: "string tx" where
  "tx_uuid = (\<lambda>e s. (Inr (env_uuid e (st_ids s)), s\<lparr>st_ids := Suc (st_ids s)\<rparr>))"

definition now_iso :: "iso tx" where
  "now_iso = tbind tx_now (\<lambda>t. treturn (iso_z t))"

definition caller_user :: "session_caller option \<Rightarrow> string option" where
  "caller_user c = (case c of Some (UserCaller u) \<Rightarrow> Some u | _ \<Rightarrow> None)"

definition caller_user_id :: "string option tx" where
  "caller_user_id = (\<lambda>e s. (Inr (caller_user (env_caller e)), s))"

definition session_id :: "string tx" where
  "session_id = (\<lambda>e s. (Inr (env_session e), s))"

subsection \<open>Reads shared by the stores\<close>

definition default_transport :: transport_row where
  "default_transport = \<lparr>is_rolling = False, elapsed_frames = 0, roll_started_at_utc = None, current_take = 0\<rparr>"

definition transport_of :: "session_db \<Rightarrow> transport_row" where
  "transport_of d = (case db_transport d of None \<Rightarrow> default_transport | Some r \<Rightarrow> r)"

definition get_transport_row :: "transport_row tx" where
  "get_transport_row = tx_read transport_of"

text \<open>SQL's \<open>trim\<close> strips spaces only.\<close>

definition sql_trim :: "string \<Rightarrow> string" where
  "sql_trim s = rev (dropWhile (\<lambda>c. c = CHR '' '') (rev (dropWhile (\<lambda>c. c = CHR '' '') s)))"

definition logged_event :: "event_row \<Rightarrow> bool" where
  "logged_event r \<longleftrightarrow> js_lower (sql_trim (ev_category r)) \<noteq> ''internal''"

definition event_counts :: "(nat \<times> nat) tx" where
  "event_counts = tx_read (\<lambda>d. (length (db_events d), count_where logged_event (db_events d)))"

definition revision_of :: "session_db \<Rightarrow> int" where
  "revision_of d = (case db_catalog d of None \<Rightarrow> 0 | Some c \<Rightarrow> ct_revision c)"

definition revision :: "int tx" where
  "revision = (\<lambda>e s. (Inr (case st_rev s of Some r \<Rightarrow> r | None \<Rightarrow> revision_of (st_db s)), s))"

definition live_projection :: "session_db \<Rightarrow> session_projection" where
  "live_projection d = (let tr = transport_of d in
     \<lparr>pr_event_count = length (db_events d),
      pr_max_total = max_of (List.map_filter ev_total (db_events d)),
      pr_rolling = is_rolling tr, pr_take = current_take tr,
      pr_elapsed = elapsed_frames tr, pr_roll_started = roll_started_at_utc tr\<rparr>)"

definition projection :: "session_projection tx" where
  "projection = tx_read live_projection"

subsection \<open>Bookkeeping\<close>

definition seed_stmt :: stmt where
  "seed_stmt d = (case db_transport d of
     Some _ \<Rightarrow> Inr (d, 0) | None \<Rightarrow> Inr (d\<lparr>db_transport := Some default_transport\<rparr>, 1))"

definition seed :: "unit tx" where
  "seed = tbind (raw_run seed_stmt) (\<lambda>_. treturn ())"

definition mark_projection_dirty :: "unit tx" where
  "mark_projection_dirty = (\<lambda>e s. (Inr (), s\<lparr>st_dirty := True\<rparr>))"

text \<open>The \<open>UPDATE sessions ... FROM session_transport\<close> changes one row when both rows exist.\<close>

definition projection_stmt :: stmt where
  "projection_stmt d = (case (db_catalog d, db_transport d) of
     (Some c, Some _) \<Rightarrow> Inr (d\<lparr>db_catalog := Some (c\<lparr>ct_projection := live_projection d\<rparr>)\<rparr>, 1)
   | _ \<Rightarrow> Inr (d, 0))"

definition write_projection_if_dirty :: "unit tx" where
  "write_projection_if_dirty = (\<lambda>e s. if \<not> st_dirty s then (Inr (), s) else
     tbind (raw_run projection_stmt) (\<lambda>n.
       if n \<noteq> 1 then tthrow ProjectionError else (\<lambda>e s. (Inr (), s\<lparr>st_dirty := False\<rparr>))) e s)"

text \<open>\<open>broadcast\<close> on a transaction-bound core: the frame is held.\<close>

definition broadcast :: "frame \<Rightarrow> unit tx" where
  "broadcast f = (\<lambda>e s. (Inr (), s\<lparr>st_frames := st_frames s @ [f]\<rparr>))"

definition broadcast_event_changed :: "unit tx" where
  "broadcast_event_changed = tbind revision (\<lambda>r. broadcast (EventChanged r))"

definition take_held_broadcasts :: "frame list tx" where
  "take_held_broadcasts = (\<lambda>e s. (Inr (st_frames s), s\<lparr>st_frames := []\<rparr>))"

definition set_alarm :: "int \<Rightarrow> unit tx" where
  "set_alarm t = (\<lambda>e s. (Inr (), s\<lparr>st_alarm := Some t\<rparr>))"

definition meta_get :: "string \<Rightarrow> string option tx" where
  "meta_get k = tx_read (\<lambda>d. map_of (db_meta d) k)"

definition meta_set :: "string \<Rightarrow> string \<Rightarrow> unit tx" where
  "meta_set k v = tbind (db_run (meta_upsert k v)) (\<lambda>_. treturn ())"

definition meta_set_uncounted :: "string \<Rightarrow> string \<Rightarrow> unit tx" where
  "meta_set_uncounted k v = tbind (raw_run (meta_upsert k v)) (\<lambda>_. treturn ())"

definition meta_delete :: "string \<Rightarrow> unit tx" where
  "meta_delete k = tbind (db_run (meta_remove k)) (\<lambda>_. treturn ())"

definition record_overwrite :: "string \<Rightarrow> string \<Rightarrow> int \<Rightarrow> audited \<Rightarrow> audited option \<Rightarrow> unit tx" where
  "record_overwrite table i replaced before after = (\<lambda>e s. case env_caller e of
     Some (UserCaller u) \<Rightarrow>
       tbind tx_uuid (\<lambda>oid. tbind now_iso (\<lambda>t.
       tbind (db_run (insert_stmt db_overwrites db_overwrites_update
         \<lparr>row_id = oid, ow_table = table, ow_row = i, ow_user = u, ow_at = t,
          ow_replaced = replaced, ow_before = before, ow_after = after\<rparr>)) (\<lambda>_. treturn ()))) e s
   | _ \<Rightarrow> (Inl TxMisuse, s))"

subsection \<open>Lease statements\<close>

text \<open>\<open>session_leases_client_check\<close>; it is tested on the proposed row before the conflict.\<close>

definition lease_client_ok :: "string \<Rightarrow> bool" where
  "lease_client_ok cid \<longleftrightarrow> cid \<noteq> [] \<and> length cid \<le> 256"

definition find_lease :: "lease_kind \<Rightarrow> session_db \<Rightarrow> lease_row option" where
  "find_lease k d = find (\<lambda>r. ls_kind r = k) (db_leases d)"

definition same_holder :: "string \<Rightarrow> string option \<Rightarrow> lease_row \<Rightarrow> bool" where
  "same_holder cid uid r \<longleftrightarrow> ls_client r = cid \<and> ls_user r = uid"

text \<open>The conditional upsert. With \<open>run\<close> it also keeps or sets the run's start.\<close>

definition claim_stmt :: "bool \<Rightarrow> lease_kind \<Rightarrow> string \<Rightarrow> string option \<Rightarrow> int \<Rightarrow> int \<Rightarrow> stmt" where
  "claim_stmt run k cid uid now expires d = (if \<not> lease_client_ok cid then Inl CheckViolation else
     case find_lease k d of
       None \<Rightarrow> Inr (db_leases_update (\<lambda>t. t @ [\<lparr>ls_kind = k, ls_client = cid, ls_user = uid,
           ls_heartbeat = now, ls_expires = expires, ls_started = (if run then Some now else None)\<rparr>]) d, 1)
     | Some r \<Rightarrow> if ls_expires r \<le> now \<or> same_holder cid uid r then
         Inr (db_leases_update (update_where (\<lambda>x. ls_kind x = k) (\<lambda>x.
           x\<lparr>ls_client := cid, ls_user := uid, ls_heartbeat := now, ls_expires := expires,
             ls_started := (if run \<and> \<not> same_holder cid uid x then Some now else ls_started x)\<rparr>)) d, 1)
       else Inr (d, 0))"

definition heartbeat_lease_uncounted :: "lease_kind \<Rightarrow> string \<Rightarrow> string option \<Rightarrow> int \<Rightarrow> int \<Rightarrow> bool tx" where
  "heartbeat_lease_uncounted k cid uid now expires =
     tbind (raw_run (update_stmt db_leases db_leases_update
         (\<lambda>r. ls_kind r = k \<and> same_holder cid uid r \<and> now < ls_expires r)
         (\<lambda>r. r\<lparr>ls_heartbeat := now, ls_expires := expires\<rparr>)))
       (\<lambda>n. treturn (n = 1))"

definition claim_lease_uncounted :: "lease_kind \<Rightarrow> string \<Rightarrow> string option \<Rightarrow> int \<Rightarrow> int \<Rightarrow> bool tx" where
  "claim_lease_uncounted k cid uid now expires =
     tbind (raw_run (claim_stmt True k cid uid now expires)) (\<lambda>n. treturn (n = 1))"

definition release_lease_uncounted :: "lease_kind \<Rightarrow> string \<Rightarrow> string option \<Rightarrow> unit tx" where
  "release_lease_uncounted k cid uid =
     tbind (raw_run (delete_stmt db_leases db_leases_update (\<lambda>r. ls_kind r = k \<and> same_holder cid uid r)))
       (\<lambda>_. treturn ())"

subsection \<open>A transaction's start, and an example session\<close>

text \<open>\<open>forTransaction\<close>: a fresh core over the database the transaction sees; the clock and the ids go on.\<close>

definition begin_tx :: "session_db \<Rightarrow> nat \<Rightarrow> nat \<Rightarrow> tx_state" where
  "begin_tx d ticks ids = \<lparr>st_db = d, st_rev = None, st_dirty = False, st_frames = [], st_alarm = None,
     st_ticks = ticks, st_ids = ids\<rparr>"

lemma begin_tx_simps [simp]:
  "st_db (begin_tx d t i) = d" "st_rev (begin_tx d t i) = None" "st_dirty (begin_tx d t i) = False"
  "st_frames (begin_tx d t i) = []" "st_alarm (begin_tx d t i) = None" "st_ticks (begin_tx d t i) = t"
  "st_ids (begin_tx d t i) = i"
  by (simp_all add: begin_tx_def)

text \<open>A seeded session with no content, and a user's environment at 2023-11-14T22:13:20Z, one
  millisecond per reading; the witnesses of the properties run on them.\<close>

definition sample_projection :: session_projection where
  "sample_projection = \<lparr>pr_event_count = 0, pr_max_total = None, pr_rolling = False, pr_take = 0,
     pr_elapsed = 0, pr_roll_started = None\<rparr>"

definition sample_db :: session_db where
  "sample_db = \<lparr>db_events = [], db_transport = Some default_transport, db_topics = [], db_words = [],
     db_paragraphs = [], db_sentiment = [], db_leases = [], db_segments = [], db_seams = [], db_jobs = [],
     db_dashboards = [], db_overwrites = [], db_meta = [],
     db_catalog = Some \<lparr>ct_revision = 7, ct_projection = sample_projection\<rparr>\<rparr>"

definition sample_env :: "string \<Rightarrow> tx_env" where
  "sample_env u = \<lparr>env_session = ''s1'', env_caller = Some (UserCaller u),
     env_clock = (\<lambda>n. 1700000000000 + int n), env_uuid = (\<lambda>n. CHR ''i'' # nat_digits n),
     env_media = Some (\<lambda>key. 1000)\<rparr>"

end
