(* ===== verification/TxLogic.thy ===== *)
theory TxLogic
  imports SessionCore
begin

section \<open>Reasoning about transaction bodies\<close>

text \<open>
  Hoare triples for \<open>tx\<close> (partial in the error: a body that throws is rolled back as a whole) and
  the invariant every body of a session transaction keeps, \<open>tracked d0\<close>: relative to the database
  \<open>d0\<close> the transaction started from, the revision has advanced by one exactly when the core says it
  has, nothing of the session's content has changed without it, the catalog's projection columns are
  still those of \<open>d0\<close>, and the live projection can differ from \<open>d0\<close>'s only under the dirty flag.
  The collection \<open>keeps\<close> proves it for a body by its shape.
\<close>

named_theorems keeps \<open>bodies and statements that keep the transaction invariant\<close>
named_theorems marks \<open>writes followed by the dirty mark; to be tried before \<open>keeps\<close>\<close>

subsection \<open>Triples\<close>

definition valid :: "tx_env \<Rightarrow> (tx_state \<Rightarrow> bool) \<Rightarrow> 'a tx \<Rightarrow> ('a \<Rightarrow> tx_state \<Rightarrow> bool) \<Rightarrow> bool" where
  "valid e P m Q \<longleftrightarrow> (\<forall>s. P s \<longrightarrow> (case m e s of (Inl er, s') \<Rightarrow> True | (Inr x, s') \<Rightarrow> Q x s'))"

definition preserves :: "tx_env \<Rightarrow> (tx_state \<Rightarrow> bool) \<Rightarrow> 'a tx \<Rightarrow> bool" where
  "preserves e J m \<longleftrightarrow> valid e J m (\<lambda>_. J)"

lemma validI: "(\<And>s x s'. P s \<Longrightarrow> m e s = (Inr x, s') \<Longrightarrow> Q x s') \<Longrightarrow> valid e P m Q"
  unfolding valid_def by (auto split: prod.split sum.split)

lemma validD: "valid e P m Q \<Longrightarrow> P s \<Longrightarrow> m e s = (Inr x, s') \<Longrightarrow> Q x s'"
  unfolding valid_def by (auto split: prod.splits sum.splits)

lemma preservesI: "(\<And>s x s'. J s \<Longrightarrow> m e s = (Inr x, s') \<Longrightarrow> J s') \<Longrightarrow> preserves e J m"
  unfolding preserves_def by (rule validI)

lemma preservesD: "preserves e J m \<Longrightarrow> J s \<Longrightarrow> m e s = (Inr x, s') \<Longrightarrow> J s'"
  unfolding preserves_def by (rule validD)

lemma preserved: "m e s = (Inr x, s') \<Longrightarrow> J s \<Longrightarrow> preserves e J m \<Longrightarrow> J s'"
  by (rule preservesD)

lemma tbind_Inr: "tbind m f e s = (Inr y, s'') \<longleftrightarrow> (\<exists>x s'. m e s = (Inr x, s') \<and> f x e s' = (Inr y, s''))"
  by (auto simp: tbind_def split: prod.split sum.split)

lemma treturn_Inr [simp]: "treturn x e s = (Inr y, s') \<longleftrightarrow> y = x \<and> s' = s"
  by (auto simp: treturn_def)

lemma tthrow_Inr [simp]: "tthrow er e s \<noteq> (Inr y, s')"
  by (simp add: tthrow_def)

lemma tbind_treturn [simp]: "tbind (treturn x) f = f x"
  by (simp add: tbind_def treturn_def fun_eq_iff)

lemma tbind_tthrow [simp]: "tbind (tthrow er) f = tthrow er"
  by (simp add: tbind_def tthrow_def fun_eq_iff)

lemma tbind_assoc: "tbind (tbind m f) g = tbind m (\<lambda>x. tbind (f x) g)"
  by (auto simp: tbind_def fun_eq_iff split: prod.split sum.split)

lemma valid_bind: "valid e P m R \<Longrightarrow> (\<And>x. valid e (R x) (f x) Q) \<Longrightarrow> valid e P (tbind m f) Q"
  by (rule validI) (auto simp: tbind_Inr dest: validD)

lemma keeps_treturn [keeps]: "preserves e J (treturn x)"
  by (auto intro!: preservesI)

lemma keeps_tthrow [keeps]: "preserves e J (tthrow er)"
  by (auto intro!: preservesI)

lemma keeps_tbind [keeps]:
  "preserves e J m \<Longrightarrow> (\<And>x. preserves e J (f x)) \<Longrightarrow> preserves e J (tbind m f)"
  unfolding preserves_def by (rule valid_bind)

lemma keeps_if [keeps]:
  "(b \<Longrightarrow> preserves e J m) \<Longrightarrow> (\<not> b \<Longrightarrow> preserves e J n) \<Longrightarrow> preserves e J (if b then m else n)"
  by simp

lemma keeps_option [keeps]:
  "(x = None \<Longrightarrow> preserves e J m) \<Longrightarrow> (\<And>y. x = Some y \<Longrightarrow> preserves e J (f y)) \<Longrightarrow>
   preserves e J (case x of None \<Rightarrow> m | Some y \<Rightarrow> f y)"
  by (cases x) auto

lemma keeps_prod [keeps]:
  "(\<And>a b. x = (a, b) \<Longrightarrow> preserves e J (f a b)) \<Longrightarrow> preserves e J (case x of (a, b) \<Rightarrow> f a b)"
  by (cases x) auto

lemma keeps_sum [keeps]:
  "(\<And>a. x = Inl a \<Longrightarrow> preserves e J (f a)) \<Longrightarrow> (\<And>b. x = Inr b \<Longrightarrow> preserves e J (g b)) \<Longrightarrow>
   preserves e J (case x of Inl a \<Rightarrow> f a | Inr b \<Rightarrow> g b)"
  by (cases x) auto

lemma keeps_list [keeps]:
  "(x = [] \<Longrightarrow> preserves e J m) \<Longrightarrow> (\<And>y ys. x = y # ys \<Longrightarrow> preserves e J (f y ys)) \<Longrightarrow>
   preserves e J (case x of [] \<Rightarrow> m | y # ys \<Rightarrow> f y ys)"
  by (cases x) auto

lemma keeps_Let [keeps]: "(\<And>x. x = v \<Longrightarrow> preserves e J (f x)) \<Longrightarrow> preserves e J (Let v f)"
  by simp

lemma keeps_treq [keeps]: "preserves e J (treq er m)"
  unfolding treq_def by (intro keeps)

lemma keeps_tfor [keeps]: "(\<And>x. x \<in> set xs \<Longrightarrow> preserves e J (f x)) \<Longrightarrow> preserves e J (tfor xs f)"
  by (induction xs) (auto intro!: keeps)

lemma keeps_tmap [keeps]: "(\<And>x. x \<in> set xs \<Longrightarrow> preserves e J (f x)) \<Longrightarrow> preserves e J (tmap f xs)"
  by (induction xs) (auto intro!: keeps)

lemma keeps_tfold [keeps]: "(\<And>b x. x \<in> set xs \<Longrightarrow> preserves e J (f b x)) \<Longrightarrow> preserves e J (tfold f b xs)"
  by (induction xs arbitrary: b) (auto intro!: keeps)

subsection \<open>The transaction invariant\<close>

text \<open>The content whose change advances the revision: every table but the session's own catalog row,
  the bookkeeping of leases and meta values, and the media jobs.\<close>

record content =
  cn_events :: "event_row list"
  cn_transport :: "transport_row option"
  cn_topics :: "topic_row list"
  cn_words :: "word_row list"
  cn_enrichment :: "paragraph_row list \<times> sentiment_row list"
  cn_audio :: "segment_row list \<times> seam_row list"
  cn_dashboards :: "dashboard_row list"
  cn_overwrites :: "overwrite_row list"

definition content_of :: "session_db \<Rightarrow> content" where
  "content_of d = \<lparr>cn_events = db_events d, cn_transport = db_transport d, cn_topics = db_topics d,
     cn_words = db_words d, cn_enrichment = (db_paragraphs d, db_sentiment d),
     cn_audio = (db_segments d, db_seams d), cn_dashboards = db_dashboards d,
     cn_overwrites = db_overwrites d\<rparr>"

definition tracked :: "session_db \<Rightarrow> tx_state \<Rightarrow> bool" where
  "tracked d0 s \<longleftrightarrow>
     (case st_rev s of
        None \<Rightarrow> revision_of (st_db s) = revision_of d0 \<and> content_of (st_db s) = content_of d0
      | Some r \<Rightarrow> r = revision_of d0 + 1 \<and> revision_of (st_db s) = r) \<and>
     map_option ct_projection (db_catalog (st_db s)) = map_option ct_projection (db_catalog d0) \<and>
     (st_dirty s \<or> live_projection (st_db s) = live_projection d0) \<and>
     (db_transport d0 \<noteq> None \<longrightarrow> db_transport (st_db s) \<noteq> None)"

text \<open>A statement that counts its changes truthfully and leaves the catalog row alone; \<open>loud\<close> ones may
  change the projection, \<open>quiet\<close> ones do not.\<close>

definition loud_stmt :: "stmt \<Rightarrow> bool" where
  "loud_stmt st \<longleftrightarrow> (\<forall>d d' n. st d = Inr (d', n) \<longrightarrow> db_catalog d' = db_catalog d \<and>
     (n = 0 \<longrightarrow> content_of d' = content_of d) \<and> (db_transport d \<noteq> None \<longrightarrow> db_transport d' \<noteq> None))"

definition quiet_stmt :: "stmt \<Rightarrow> bool" where
  "quiet_stmt st \<longleftrightarrow> loud_stmt st \<and> (\<forall>d d' n. st d = Inr (d', n) \<longrightarrow>
     db_events d' = db_events d \<and> db_transport d' = db_transport d)"

definition silent_stmt :: "stmt \<Rightarrow> bool" where
  "silent_stmt st \<longleftrightarrow> (\<forall>d d' n. st d = Inr (d', n) \<longrightarrow> db_catalog d' = db_catalog d \<and> content_of d' = content_of d)"

definition loud_table :: "(session_db \<Rightarrow> 'r list) \<Rightarrow> 'r table_upd \<Rightarrow> bool" where
  "loud_table get upd \<longleftrightarrow> (\<forall>d f. db_catalog (upd f d) = db_catalog d \<and> db_transport (upd f d) = db_transport d \<and>
     (f (get d) = get d \<longrightarrow> content_of (upd f d) = content_of d))"

definition quiet_table :: "(session_db \<Rightarrow> 'r list) \<Rightarrow> 'r table_upd \<Rightarrow> bool" where
  "quiet_table get upd \<longleftrightarrow> loud_table get upd \<and> (\<forall>d f. db_events (upd f d) = db_events d)"

definition silent_table :: "'r table_upd \<Rightarrow> bool" where
  "silent_table upd \<longleftrightarrow> (\<forall>d f. db_catalog (upd f d) = db_catalog d \<and> content_of (upd f d) = content_of d)"

lemma tables [keeps]:
  "loud_table db_events db_events_update"
  "quiet_table db_topics db_topics_update"
  "quiet_table db_words db_words_update"
  "quiet_table db_paragraphs db_paragraphs_update"
  "quiet_table db_sentiment db_sentiment_update"
  "quiet_table db_segments db_segments_update"
  "quiet_table db_seams db_seams_update"
  "quiet_table db_dashboards db_dashboards_update"
  "quiet_table db_overwrites db_overwrites_update"
  "quiet_table db_leases db_leases_update"
  "silent_table db_leases_update"
  "silent_table db_jobs_update"
  "silent_table db_meta_update"
  by (simp_all add: loud_table_def quiet_table_def silent_table_def content_of_def)

lemma content_transport: "content_of d' = content_of d \<Longrightarrow> db_transport d' = db_transport d"
  by (simp add: content_of_def)

lemma content_projection: "content_of d' = content_of d \<Longrightarrow> live_projection d' = live_projection d"
  by (simp add: content_of_def live_projection_def transport_of_def)

lemma loud_insert [keeps]: "loud_table get upd \<Longrightarrow> loud_stmt (insert_stmt get upd r)"
  by (auto simp: loud_stmt_def insert_stmt_def loud_table_def split: option.splits)

lemma loud_update [keeps]: "loud_table get upd \<Longrightarrow> loud_stmt (update_stmt get upd p f)"
  by (auto simp: loud_stmt_def update_stmt_def loud_table_def count_where_0 update_where_none)

lemma loud_delete [keeps]: "loud_table get upd \<Longrightarrow> loud_stmt (delete_stmt get upd p)"
  by (auto simp: loud_stmt_def delete_stmt_def loud_table_def count_where_0 delete_where_none)

lemma quiet_insert [keeps]: "quiet_table get upd \<Longrightarrow> quiet_stmt (insert_stmt get upd r)"
  unfolding quiet_stmt_def by (auto intro: loud_insert simp: quiet_table_def)
    (auto simp: insert_stmt_def loud_table_def split: option.splits)

lemma quiet_update [keeps]: "quiet_table get upd \<Longrightarrow> quiet_stmt (update_stmt get upd p f)"
  unfolding quiet_stmt_def by (auto intro: loud_update simp: quiet_table_def)
    (auto simp: update_stmt_def loud_table_def)

lemma quiet_delete [keeps]: "quiet_table get upd \<Longrightarrow> quiet_stmt (delete_stmt get upd p)"
  unfolding quiet_stmt_def by (auto intro: loud_delete simp: quiet_table_def)
    (auto simp: delete_stmt_def loud_table_def)

lemma silent_insert [keeps]: "silent_table upd \<Longrightarrow> silent_stmt (insert_stmt get upd r)"
  by (auto simp: silent_stmt_def insert_stmt_def silent_table_def split: option.splits)

lemma silent_update [keeps]: "silent_table upd \<Longrightarrow> silent_stmt (update_stmt get upd p f)"
  by (auto simp: silent_stmt_def update_stmt_def silent_table_def)

lemma silent_delete [keeps]: "silent_table upd \<Longrightarrow> silent_stmt (delete_stmt get upd p)"
  by (auto simp: silent_stmt_def delete_stmt_def silent_table_def)

lemma silent_meta [keeps]: "silent_stmt (meta_upsert k v)" "silent_stmt (meta_remove k)"
  by (auto simp: silent_stmt_def meta_upsert_def meta_remove_def content_of_def)

lemma silent_claim [keeps]: "silent_stmt (claim_stmt run k cid uid now ex)"
  by (auto simp: silent_stmt_def claim_stmt_def content_of_def split: option.splits if_splits)

lemma silent_quiet [keeps]: "silent_stmt st \<Longrightarrow> quiet_stmt st"
  unfolding quiet_stmt_def loud_stmt_def silent_stmt_def by (auto simp: content_of_def)

lemma quiet_loud: "quiet_stmt st \<Longrightarrow> loud_stmt st"
  by (simp add: quiet_stmt_def)

subsection \<open>The primitives keep it\<close>

lemma raw_run_Inr:
  "raw_run st e s = (Inr n, s') \<longleftrightarrow> (\<exists>d. st (st_db s) = Inr (d, n) \<and> s' = s\<lparr>st_db := d\<rparr>)"
  by (auto simp: raw_run_def split: sum.split prod.split)

lemma advance_Inr:
  "advance_revision e s = (Inr r, s') \<longleftrightarrow>
     (st_rev s = Some r \<and> s' = s) \<or>
     (st_rev s = None \<and> (\<exists>c. db_catalog (st_db s) = Some c \<and> r = ct_revision c + 1 \<and>
        s' = s\<lparr>st_db := (st_db s)\<lparr>db_catalog := Some (c\<lparr>ct_revision := r\<rparr>)\<rparr>, st_rev := Some r\<rparr>))"
  by (auto simp: advance_revision_def bump_revision_once_def tbind_def split: option.split)

lemma db_run_Inr:
  "db_run st e s = (Inr n, s') \<longleftrightarrow> (\<exists>d. st (st_db s) = Inr (d, n) \<and>
     (if n = 0 then s' = s\<lparr>st_db := d\<rparr> else (\<exists>r. advance_revision e (s\<lparr>st_db := d\<rparr>) = (Inr r, s'))))"
  unfolding db_run_def tbind_Inr raw_run_Inr by (auto simp: tbind_Inr)

lemma content_catalog [simp]: "content_of (d\<lparr>db_catalog := c\<rparr>) = content_of d"
  by (simp add: content_of_def)

lemma live_projection_catalog [simp]: "live_projection (d\<lparr>db_catalog := c\<rparr>) = live_projection d"
  by (simp add: live_projection_def transport_of_def)

lemma raw_run_tracked [keeps]: "silent_stmt st \<Longrightarrow> preserves e (tracked d0) (raw_run st)"
proof (rule preservesI)
  fix s n s'
  assume st: "silent_stmt st" and t: "tracked d0 s" and r: "raw_run st e s = (Inr n, s')"
  from r obtain d where d: "st (st_db s) = Inr (d, n)" "s' = s\<lparr>st_db := d\<rparr>"
    by (auto simp: raw_run_Inr)
  have c: "db_catalog d = db_catalog (st_db s)" "content_of d = content_of (st_db s)"
    using st d(1) by (auto simp: silent_stmt_def)
  with t show "tracked d0 s'"
    unfolding d(2) tracked_def using content_projection [OF c(2)] content_transport [OF c(2)]
    by (auto simp: revision_of_def split: option.splits)
qed

text \<open>A counted statement, without the projection part of the invariant.\<close>

lemma db_run_advances:
  assumes t: "tracked d0 s" and st: "loud_stmt st" and r: "db_run st e s = (Inr n, s')"
  shows "tracked d0 (s'\<lparr>st_dirty := True\<rparr>)"
    and "n = 0 \<Longrightarrow> tracked d0 s'"
    and "st_dirty s' = st_dirty s"
    and "\<exists>d. st (st_db s) = Inr (d, n) \<and> db_events (st_db s') = db_events d \<and> db_transport (st_db s') = db_transport d"
proof -
  from r obtain d where d: "st (st_db s) = Inr (d, n)"
    and s': "if n = 0 then s' = s\<lparr>st_db := d\<rparr> else (\<exists>r. advance_revision e (s\<lparr>st_db := d\<rparr>) = (Inr r, s'))"
    unfolding db_run_Inr by blast
  have c: "db_catalog d = db_catalog (st_db s)" "n = 0 \<Longrightarrow> content_of d = content_of (st_db s)"
    "db_transport (st_db s) \<noteq> None \<Longrightarrow> db_transport d \<noteq> None"
    using st d by (auto simp: loud_stmt_def)
  show "tracked d0 (s'\<lparr>st_dirty := True\<rparr>)"
  proof (cases "n = 0")
    case True
    with s' c t show ?thesis
      by (auto simp: tracked_def revision_of_def split: option.splits)
  next
    case False
    with s' obtain r where "advance_revision e (s\<lparr>st_db := d\<rparr>) = (Inr r, s')" by auto
    with c t show ?thesis
      unfolding advance_Inr by (auto simp: tracked_def revision_of_def split: option.splits)
  qed
  show "tracked d0 s'" if "n = 0"
    using s' that t c(1,2) content_projection [of d "st_db s"] c(3)
    by (auto simp: tracked_def revision_of_def split: option.splits)
  show "st_dirty s' = st_dirty s"
    using s' by (auto simp: advance_Inr split: if_splits)
  show "\<exists>d. st (st_db s) = Inr (d, n) \<and> db_events (st_db s') = db_events d \<and> db_transport (st_db s') = db_transport d"
    using s' d by (auto simp: advance_Inr split: if_splits)
qed

lemma db_run_tracked [keeps]: "quiet_stmt st \<Longrightarrow> preserves e (tracked d0) (db_run st)"
proof (rule preservesI)
  fix s n s'
  assume st: "quiet_stmt st" and t: "tracked d0 s" and r: "db_run st e s = (Inr n, s')"
  note a = db_run_advances [OF t quiet_loud [OF st] r]
  from a(4) obtain d where d: "st (st_db s) = Inr (d, n)" "db_events (st_db s') = db_events d"
    "db_transport (st_db s') = db_transport d"
    by blast
  then have "live_projection (st_db s') = live_projection (st_db s)"
  proof -
    have "db_events d = db_events (st_db s)" "db_transport d = db_transport (st_db s)"
      using st d(1) unfolding quiet_stmt_def by blast+
    with d show ?thesis
      by (simp add: live_projection_def transport_of_def)
  qed
  with a(1,3) t show "tracked d0 s'"
    by (auto simp: tracked_def split: option.splits)
qed

lemma marked_tracked:
  assumes "loud_stmt st" "preserves e (tracked d0) k"
  shows "valid e (\<lambda>s. tracked d0 (s\<lparr>st_dirty := True\<rparr>)) (tbind mark_projection_dirty (\<lambda>_. k)) (\<lambda>_. tracked d0)"
  using assms(2) by (auto intro!: validI simp: tbind_Inr mark_projection_dirty_def dest: preservesD)

text \<open>A change of the events or the transport keeps the invariant when it marks the projection dirty.\<close>

lemma db_run_marked [marks]:
  assumes "loud_stmt st" "\<And>n. preserves e (tracked d0) (k n)"
  shows "preserves e (tracked d0) (tbind (db_run st) (\<lambda>n. tbind mark_projection_dirty (\<lambda>_. k n)))"
  unfolding preserves_def
proof (rule valid_bind)
  show "valid e (tracked d0) (db_run st) (\<lambda>_ s. tracked d0 (s\<lparr>st_dirty := True\<rparr>))"
    by (rule validI) (rule db_run_advances(1) [OF _ assms(1)])
  show "\<And>n. valid e (\<lambda>s. tracked d0 (s\<lparr>st_dirty := True\<rparr>)) (tbind mark_projection_dirty (\<lambda>_. k n)) (\<lambda>_. tracked d0)"
    by (rule marked_tracked [OF assms])
qed

lemma db_run_marked_if [marks]:
  assumes "loud_stmt st" "\<And>n. preserves e (tracked d0) (k n)" "\<And>n. preserves e (tracked d0) (k0 n)"
  shows "preserves e (tracked d0)
    (tbind (db_run st) (\<lambda>n. if 0 < n then tbind mark_projection_dirty (\<lambda>_. k n) else k0 n))"
  unfolding preserves_def
proof (rule valid_bind)
  show "valid e (tracked d0) (db_run st)
      (\<lambda>n s. if 0 < n then tracked d0 (s\<lparr>st_dirty := True\<rparr>) else tracked d0 s)"
    by (rule validI) (use db_run_advances [OF _ assms(1)] in auto)
  show "valid e (\<lambda>s. if 0 < n then tracked d0 (s\<lparr>st_dirty := True\<rparr>) else tracked d0 s)
      (if 0 < n then tbind mark_projection_dirty (\<lambda>_. k n) else k0 n) (\<lambda>_. tracked d0)" for n
    using marked_tracked [OF assms(1) assms(2) [of n]] assms(3) by (cases "0 < n") (simp_all add: preserves_def)
qed

lemma tracked_frame [simp]:
  "tracked d0 (s\<lparr>st_frames := fs\<rparr>) = tracked d0 s" "tracked d0 (s\<lparr>st_alarm := a\<rparr>) = tracked d0 s"
  "tracked d0 (s\<lparr>st_ticks := t\<rparr>) = tracked d0 s" "tracked d0 (s\<lparr>st_ids := i\<rparr>) = tracked d0 s"
  by (simp_all add: tracked_def cong: option.case_cong)

lemma keeps_core [keeps]:
  "preserves e (tracked d0) (tx_read f)"
  "preserves e (tracked d0) tx_now"
  "preserves e (tracked d0) tx_uuid"
  "preserves e (tracked d0) now_iso"
  "preserves e (tracked d0) caller_user_id"
  "preserves e (tracked d0) session_id"
  "preserves e (tracked d0) revision"
  "preserves e (tracked d0) mark_projection_dirty"
  "preserves e (tracked d0) (broadcast fr)"
  "preserves e (tracked d0) (set_alarm t)"
  by (auto intro!: preservesI simp: tx_read_def tx_now_def tx_uuid_def now_iso_def caller_user_id_def session_id_def
      revision_def mark_projection_dirty_def broadcast_def set_alarm_def tbind_Inr)
    (auto simp: tracked_def split: option.splits)

lemma keeps_core_ops [keeps]:
  "preserves e (tracked d0) get_transport_row"
  "preserves e (tracked d0) event_counts"
  "preserves e (tracked d0) projection"
  "preserves e (tracked d0) broadcast_event_changed"
  "preserves e (tracked d0) (meta_get k)"
  "preserves e (tracked d0) (meta_set k v)"
  "preserves e (tracked d0) (meta_set_uncounted k v)"
  "preserves e (tracked d0) (meta_delete k)"
  unfolding get_transport_row_def event_counts_def projection_def broadcast_event_changed_def meta_get_def
    meta_set_def meta_set_uncounted_def meta_delete_def
  by (intro keeps)+

lemma keeps_record_overwrite [keeps]: "preserves e (tracked d0) (record_overwrite table i v b a)"
proof (cases "\<exists>u. env_caller e = Some (UserCaller u)")
  case True
  then obtain u where u: "env_caller e = Some (UserCaller u)" by blast
  have "preserves e (tracked d0) (tbind tx_uuid (\<lambda>oid. tbind now_iso (\<lambda>t.
       tbind (db_run (insert_stmt db_overwrites db_overwrites_update
         \<lparr>row_id = oid, ow_table = table, ow_row = i, ow_user = u, ow_at = t,
          ow_replaced = v, ow_before = b, ow_after = a\<rparr>)) (\<lambda>_. treturn ()))))"
    by (intro keeps)
  then show ?thesis
    unfolding record_overwrite_def preserves_def valid_def by (simp add: u)
next
  case False
  then show ?thesis
    by (intro preservesI) (auto simp: record_overwrite_def split: option.splits session_caller.splits)
qed

lemma keeps_lease_ops [keeps]:
  "preserves e (tracked d0) (heartbeat_lease_uncounted k cid uid now ex)"
  "preserves e (tracked d0) (claim_lease_uncounted k cid uid now ex)"
  "preserves e (tracked d0) (release_lease_uncounted k cid uid)"
  unfolding heartbeat_lease_uncounted_def claim_lease_uncounted_def release_lease_uncounted_def
  by (intro keeps)+

lemma tracked_start: "st_rev s = None \<Longrightarrow> tracked (st_db s) s"
  by (simp add: tracked_def)

subsection \<open>Reading results, and what a body leaves alone\<close>

lemma tbind_tx_read [simp]: "tbind (tx_read f) k e s = k (f (st_db s)) e s"
  by (simp add: tbind_def tx_read_def)

lemma tx_read_eval [simp]: "tx_read f e s = (Inr (f (st_db s)), s)"
  by (simp add: tx_read_def)

lemma treq_Inr: "treq er m e s = (Inr x, s') \<longleftrightarrow> m = Some x \<and> s' = s"
  by (auto simp: treq_def split: option.split)

text \<open>A part of the database that a body does not touch.\<close>

definition holds :: "(session_db \<Rightarrow> 'v) \<Rightarrow> 'v \<Rightarrow> tx_state \<Rightarrow> bool" where
  "holds g v s \<longleftrightarrow> g (st_db s) = v"

definition stmt_keeps :: "(session_db \<Rightarrow> 'v) \<Rightarrow> stmt \<Rightarrow> bool" where
  "stmt_keeps g st \<longleftrightarrow> (\<forall>d d' n. st d = Inr (d', n) \<longrightarrow> g d' = g d)"

definition catalog_free :: "(session_db \<Rightarrow> 'v) \<Rightarrow> bool" where
  "catalog_free g \<longleftrightarrow> (\<forall>d c. g (d\<lparr>db_catalog := c\<rparr>) = g d)"

lemma catalog_free_tables [keeps]:
  "catalog_free db_events" "catalog_free db_transport" "catalog_free db_topics" "catalog_free db_words"
  "catalog_free db_paragraphs" "catalog_free db_sentiment" "catalog_free db_leases" "catalog_free db_segments"
  "catalog_free db_seams" "catalog_free db_jobs" "catalog_free db_dashboards" "catalog_free db_overwrites"
  "catalog_free db_meta"
  by (simp_all add: catalog_free_def)

lemma stmt_keeps_table:
  "(\<And>d f. g (upd f d) = g d) \<Longrightarrow> stmt_keeps g (insert_stmt get upd r)"
  "(\<And>d f. g (upd f d) = g d) \<Longrightarrow> stmt_keeps g (update_stmt get upd p h)"
  "(\<And>d f. g (upd f d) = g d) \<Longrightarrow> stmt_keeps g (delete_stmt get upd p)"
  by (auto simp: stmt_keeps_def insert_stmt_def update_stmt_def delete_stmt_def split: option.splits)

lemma holds_raw_run: "stmt_keeps g st \<Longrightarrow> preserves e (holds g v) (raw_run st)"
  by (rule preservesI) (auto simp: raw_run_Inr holds_def stmt_keeps_def)

lemma holds_db_run:
  assumes "stmt_keeps g st" "catalog_free g"
  shows "preserves e (holds g v) (db_run st)"
proof (rule preservesI)
  fix s n s'
  assume h: "holds g v s" and "db_run st e s = (Inr n, s')"
  then obtain d where d: "st (st_db s) = Inr (d, n)"
    "if n = 0 then s' = s\<lparr>st_db := d\<rparr> else (\<exists>r. advance_revision e (s\<lparr>st_db := d\<rparr>) = (Inr r, s'))"
    unfolding db_run_Inr by blast
  from assms(1) d(1) have "g d = g (st_db s)"
    unfolding stmt_keeps_def by blast
  moreover have "g (st_db s') = g d"
    using d(2) assms(2) by (auto simp: advance_Inr catalog_free_def split: if_splits)
  ultimately show "holds g v s'" using h by (simp add: holds_def)
qed

lemma holds_core [keeps]:
  "preserves e (holds g v) (tx_read f)"
  "preserves e (holds g v) tx_now"
  "preserves e (holds g v) tx_uuid"
  "preserves e (holds g v) now_iso"
  "preserves e (holds g v) caller_user_id"
  "preserves e (holds g v) session_id"
  "preserves e (holds g v) revision"
  "preserves e (holds g v) mark_projection_dirty"
  "preserves e (holds g v) (broadcast fr)"
  "preserves e (holds g v) (set_alarm t)"
  "preserves e (holds g v) get_transport_row"
  "preserves e (holds g v) event_counts"
  "preserves e (holds g v) projection"
  "preserves e (holds g v) broadcast_event_changed"
  "preserves e (holds g v) (meta_get k)"
  by (auto intro!: preservesI simp: tx_read_def tx_now_def tx_uuid_def now_iso_def caller_user_id_def session_id_def
      revision_def mark_projection_dirty_def broadcast_def set_alarm_def tbind_Inr holds_def
      get_transport_row_def event_counts_def projection_def broadcast_event_changed_def meta_get_def)

lemma holds_record_overwrite:
  assumes "\<And>d f. g (db_overwrites_update f d) = g d" "catalog_free g"
  shows "preserves e (holds g v) (record_overwrite table i ver b a)"
proof (rule preservesI)
  fix s x s'
  assume h: "holds g v s" and r: "record_overwrite table i ver b a e s = (Inr x, s')"
  from r obtain u where u: "env_caller e = Some (UserCaller u)"
    by (auto simp: record_overwrite_def split: option.splits session_caller.splits)
  have "preserves e (holds g v) (tbind tx_uuid (\<lambda>oid. tbind now_iso (\<lambda>t.
       tbind (db_run (insert_stmt db_overwrites db_overwrites_update
         \<lparr>row_id = oid, ow_table = table, ow_row = i, ow_user = u, ow_at = t,
          ow_replaced = ver, ow_before = b, ow_after = a\<rparr>)) (\<lambda>_. treturn ()))))"
    by (intro keeps holds_db_run stmt_keeps_table assms)
  from preservesD [OF this h] r show "holds g v s'"
    by (simp add: record_overwrite_def u)
qed

lemma overwrites_alone [simp]:
  "db_events (db_overwrites_update f d) = db_events d" "db_topics (db_overwrites_update f d) = db_topics d"
  "db_words (db_overwrites_update f d) = db_words d"
  by simp_all

lemmas holds_overwrite_tables [keeps] =
  holds_record_overwrite [of db_events, OF overwrites_alone(1) catalog_free_tables(1)]
  holds_record_overwrite [of db_topics, OF overwrites_alone(2) catalog_free_tables(3)]
  holds_record_overwrite [of db_words, OF overwrites_alone(3) catalog_free_tables(4)]

text \<open>The database a counted statement leaves, up to the revision in the catalog row.\<close>

lemma db_run_effect:
  assumes "db_run st e s = (Inr n, s')"
  obtains d c where "st (st_db s) = Inr (d, n)" "st_db s' = d\<lparr>db_catalog := c\<rparr>"
proof -
  from assms obtain d where d: "st (st_db s) = Inr (d, n)"
    "if n = 0 then s' = s\<lparr>st_db := d\<rparr> else (\<exists>r. advance_revision e (s\<lparr>st_db := d\<rparr>) = (Inr r, s'))"
    unfolding db_run_Inr by blast
  have "\<exists>c. st_db s' = d\<lparr>db_catalog := c\<rparr>"
  proof (cases "n = 0")
    case True
    with d(2) have "st_db s' = d\<lparr>db_catalog := db_catalog d\<rparr>" by simp
    then show ?thesis by blast
  next
    case False
    with d(2) show ?thesis
      by (auto simp: advance_Inr) (metis session_db.surjective session_db.update_convs(14))
  qed
  with d(1) that show thesis by blast
qed

text \<open>A property of the database that a body keeps when it returns.\<close>

definition upholds :: "(session_db \<Rightarrow> bool) \<Rightarrow> tx_state \<Rightarrow> bool" where
  "upholds P s \<longleftrightarrow> P (st_db s)"

definition stmt_upholds :: "(session_db \<Rightarrow> bool) \<Rightarrow> stmt \<Rightarrow> bool" where
  "stmt_upholds P st \<longleftrightarrow> (\<forall>d d' n. P d \<longrightarrow> st d = Inr (d', n) \<longrightarrow> P d')"

lemma upholds_raw_run: "stmt_upholds P st \<Longrightarrow> preserves e (upholds P) (raw_run st)"
  by (rule preservesI) (auto simp: raw_run_Inr upholds_def stmt_upholds_def)

lemma upholds_db_run:
  assumes "stmt_upholds P st" "catalog_free P"
  shows "preserves e (upholds P) (db_run st)"
proof (rule preservesI)
  fix s n s'
  assume "upholds P s" "db_run st e s = (Inr n, s')"
  with assms show "upholds P s'"
    by (elim db_run_effect) (auto simp: upholds_def stmt_upholds_def catalog_free_def)
qed

lemma upholds_core [keeps]:
  "preserves e (upholds P) (tx_read f)"
  "preserves e (upholds P) tx_now"
  "preserves e (upholds P) tx_uuid"
  "preserves e (upholds P) now_iso"
  "preserves e (upholds P) caller_user_id"
  "preserves e (upholds P) session_id"
  "preserves e (upholds P) revision"
  "preserves e (upholds P) mark_projection_dirty"
  "preserves e (upholds P) (broadcast fr)"
  "preserves e (upholds P) (set_alarm t)"
  "preserves e (upholds P) get_transport_row"
  "preserves e (upholds P) event_counts"
  "preserves e (upholds P) projection"
  "preserves e (upholds P) broadcast_event_changed"
  "preserves e (upholds P) (meta_get k)"
  by (auto intro!: preservesI simp: tx_read_def tx_now_def tx_uuid_def now_iso_def caller_user_id_def session_id_def
      revision_def mark_projection_dirty_def broadcast_def set_alarm_def tbind_Inr upholds_def
      get_transport_row_def event_counts_def projection_def broadcast_event_changed_def meta_get_def)

subsection \<open>Running a body on a concrete state\<close>

text \<open>The rewrite rules that execute a body from left to right; the continuation of a bind is not
  simplified before its argument is known.\<close>

lemma run_bind: "m e s = (Inr x, s') \<Longrightarrow> tbind m f e s = f x e s'"
  by (simp add: tbind_def)

lemma run_bind_error: "m e s = (Inl er, s') \<Longrightarrow> tbind m f e s = (Inl er, s')"
  by (simp add: tbind_def)

lemma run_bind_cong: "m = m' \<Longrightarrow> tbind m f = tbind m' f"
  by simp

lemma run_returns: "\<not> isl (fst r) \<Longrightarrow> \<exists>x s'. r = (Inr x, s')"
  by (cases r; cases "fst r") auto

lemmas run_simps = run_bind run_bind_error treturn_def tthrow_def treq_def raw_run_def db_run_def advance_revision_def
  bump_revision_once_def tx_now_def tx_uuid_def now_iso_def caller_user_id_def session_id_def caller_user_def
  revision_def mark_projection_dirty_def broadcast_def broadcast_event_changed_def set_alarm_def
  projection_def get_transport_row_def event_counts_def meta_get_def meta_set_def meta_set_uncounted_def
  insert_stmt_def insert_row_def update_stmt_def delete_stmt_def update_where_def delete_where_def count_where_def
  find_row_def has_id_def begin_tx_def sample_db_def sample_env_def transport_of_def default_transport_def
  live_projection_def max_of_def List.map_filter_def order_by_def

end
