(* ===== verification/StoreHelpers.thy ===== *)
theory StoreHelpers
  imports TxLogic
begin

section \<open>What the domain stores share\<close>

text \<open>
  packages/session-core/src/storeHelpers.ts, and the contract of an edit of a versioned row
  (session-row-versions D3, D4) that the event, topic and transcript-word stores all provide, stated
  as the locale \<open>versioned_edits\<close>; the stores interpret it on their own operations.
\<close>

definition stale_version :: "expectation option \<Rightarrow> ('a versioned_row_scheme) \<Rightarrow> bool" where
  "stale_version x r = (case x of None \<Rightarrow> False | Some ex \<Rightarrow> row_version r \<noteq> ex_version ex)"

definition overwrites :: "expectation option \<Rightarrow> bool" where
  "overwrites x = (case x of None \<Rightarrow> False | Some ex \<Rightarrow> ex_overwrite ex)"

text \<open>A field of a partial patch: absent keys leave the column alone.\<close>

definition patched :: "'a option \<Rightarrow> 'a \<Rightarrow> 'a" where
  "patched p old = (case p of None \<Rightarrow> old | Some v \<Rightarrow> v)"

text \<open>\<open>COALESCE(MAX(ordinal), -1) + 1\<close>.\<close>

definition next_ordinal :: "int list \<Rightarrow> int" where
  "next_ordinal os = (case max_of os of None \<Rightarrow> 0 | Some m \<Rightarrow> m + 1)"

text \<open>What an edit answers: no such row, the stored row as a conflict, or the edited one.\<close>

datatype ('c, 'a) edit_result = Missing | Conflict 'c | Edited 'a

lemma patched_simps [simp]: "patched None v = v" "patched (Some w) v = w"
  by (simp_all add: patched_def)

lemma stale_simps [simp]:
  "\<not> stale_version None r" "stale_version (Some x) r \<longleftrightarrow> row_version r \<noteq> ex_version x"
  by (simp_all add: stale_version_def)

lemma overwrites_simps [simp]: "\<not> overwrites None" "overwrites (Some x) \<longleftrightarrow> ex_overwrite x"
  by (simp_all add: overwrites_def)

lemma next_ordinal_fresh: "\<forall>n\<in>set os. n < next_ordinal os"
  by (auto simp: next_ordinal_def max_of_def zle_add1_eq_le)

lemma next_ordinal_Nil [simp]: "next_ordinal [] = 0"
  by (simp add: next_ordinal_def max_of_def)

subsection \<open>The contract of an edit\<close>

text \<open>
  \<open>rows\<close> reads the table; \<open>edit\<close> is the operation on a row id, a change and an expected version.
  \<open>changes\<close> tells which changes are more than empty. Its laws: a missing row answers \<open>Missing\<close>, a stale expectation answers the conflict, and both leave
  the state alone; an edit that lands replaces the row by one with the next version (an empty change
  keeps it) and touches no other row.
\<close>

locale versioned_edits =
  fixes rows :: "session_db \<Rightarrow> ('r versioned_row_scheme) list"
    and edit :: "string \<Rightarrow> 'p \<Rightarrow> expectation option \<Rightarrow> ('c, 'a) edit_result tx"
    and changes :: "'p \<Rightarrow> bool"
  assumes edit_missing: "find_row i (rows (st_db s)) = None \<Longrightarrow> edit i p x e s = (Inr Missing, s)"
    and edit_stale: "find_row i (rows (st_db s)) = Some r \<Longrightarrow> stale_version x r \<Longrightarrow>
      edit i p x e s = (Inr out, s') \<Longrightarrow> (\<exists>c. out = Conflict c) \<and> s' = s"
    and edit_lands: "find_row i (rows (st_db s)) = Some r \<Longrightarrow> \<not> stale_version x r \<Longrightarrow>
      edit i p x e s = (Inr out, s') \<Longrightarrow>
      (\<exists>y. out = Edited y) \<and>
      (\<exists>r'. find_row i (rows (st_db s')) = Some r' \<and> row_version r' = row_version r + (if changes p then 1 else 0)) \<and>
      (\<forall>j. j \<noteq> i \<longrightarrow> find_row j (rows (st_db s')) = find_row j (rows (st_db s)))"
begin

text \<open>Two editors who read the same version: when the first edit lands, the second is a conflict and
  changes nothing, whatever each of them changes.\<close>

lemma second_edit_conflicts:
  assumes "find_row i (rows (st_db s)) = Some r" "ex_version x = row_version r"
    and "edit i p (Some x) e s = (Inr out1, s1)"
    and "changes p" "ex_version y = row_version r" "edit i q (Some y) e' s1 = (Inr out2, s2)"
  shows "(\<exists>a. out1 = Edited a) \<and> (\<exists>c. out2 = Conflict c) \<and> s2 = s1"
proof -
  have ns: "\<not> stale_version (Some x) r" using assms(2) by simp
  from edit_lands [OF assms(1) ns assms(3)] assms(4) obtain r' where
    o1: "\<exists>a. out1 = Edited a" and r': "find_row i (rows (st_db s1)) = Some r'" "row_version r' = row_version r + 1"
    by auto
  have st: "stale_version (Some y) r'" using r'(2) assms(5) by simp
  from edit_stale [OF r'(1) st assms(6)] o1 show ?thesis by blast
qed

text \<open>No edit ever lowers a row's version.\<close>

lemma edit_version_mono:
  assumes "find_row j (rows (st_db s)) = Some r" "edit i p x e s = (Inr out, s')"
  shows "\<exists>r'. find_row j (rows (st_db s')) = Some r' \<and> row_version r \<le> row_version r'"
proof (cases "find_row i (rows (st_db s))")
  case None
  with edit_missing [OF None, of p x e] assms show ?thesis by auto
next
  case (Some ri)
  show ?thesis
  proof (cases "stale_version x ri")
    case True
    from edit_stale [OF Some True assms(2)] assms(1) show ?thesis by auto
  next
    case False
    from edit_lands [OF Some False assms(2)] Some assms(1) show ?thesis
      by (cases "j = i") force+
  qed
qed

end

end
