(* ===== verification/TransportStore.thy ===== *)
theory TransportStore
  imports StoreHelpers
begin

section \<open>The transport\<close>

text \<open>
  packages/session-core/src/transportStore.ts: the one row of session_transport, its rolling state,
  take counter and elapsed frames, and the snapshot with the live timecode.
\<close>

definition transport_state_dict :: "timecode_ctx \<Rightarrow> transport_state tx" where
  "transport_state_dict ctx =
     tbind get_transport_row (\<lambda>tr.
     tbind tx_now (\<lambda>now.
     tbind (treq FrameRateError (transport_timecode (ctx_rate ctx) (ctx_offset ctx) tr now)) (\<lambda>tc.
     treturn \<lparr>ts_rolling = is_rolling tr, ts_take = current_take tr,
       ts_roll_started = roll_started_at_utc tr, ts_elapsed = elapsed_frames tr,
       ts_timecode = format_smpte tc, ts_total = to_total_frames tc\<rparr>)))"

definition transport_snapshot :: "timecode_ctx \<Rightarrow> transport_state tx" where
  "transport_snapshot ctx = transport_state_dict ctx"

text \<open>\<open>UPDATE session_transport\<close>: the row, when there is one.\<close>

definition transport_stmt :: "(transport_row \<Rightarrow> transport_row) \<Rightarrow> stmt" where
  "transport_stmt f d = (case db_transport d of
     None \<Rightarrow> Inr (d, 0) | Some r \<Rightarrow> Inr (d\<lparr>db_transport := Some (f r)\<rparr>, 1))"

text \<open>The answer of a start or stop: the state, whether it changed anything, the projection.\<close>

type_synonym take_answer = "transport_state \<times> bool \<times> session_projection"

definition take_answer :: "timecode_ctx \<Rightarrow> bool \<Rightarrow> take_answer tx" where
  "take_answer ctx changed =
     tbind (transport_state_dict ctx) (\<lambda>st. tbind projection (\<lambda>p. treturn (st, changed, p)))"

definition start_take :: "timecode_ctx \<Rightarrow> take_answer tx" where
  "start_take ctx =
     tbind get_transport_row (\<lambda>tr.
     if is_rolling tr then take_answer ctx False else
     tbind now_iso (\<lambda>now.
     tbind (db_run (transport_stmt (\<lambda>r. r\<lparr>is_rolling := True, current_take := current_take tr + 1,
         roll_started_at_utc := Some now\<rparr>))) (\<lambda>_.
     tbind mark_projection_dirty (\<lambda>_.
     tbind (broadcast (TransportChanged True (current_take tr + 1))) (\<lambda>_.
     take_answer ctx True)))))"

text \<open>The frames a rolling take has run for; a missing or unreadable start adds none.\<close>

definition rolled_frames :: "timecode_ctx \<Rightarrow> transport_row \<Rightarrow> int tx" where
  "rolled_frames ctx tr = (case parse_utc_ms (roll_started_at_utc tr) of
     None \<Rightarrow> treturn 0
   | Some started \<Rightarrow> tbind tx_now (\<lambda>now. treturn (frames_between (ctx_rate ctx) started now)))"

definition stop_take :: "timecode_ctx \<Rightarrow> take_answer tx" where
  "stop_take ctx =
     tbind get_transport_row (\<lambda>tr.
     if \<not> is_rolling tr then take_answer ctx False else
     tbind (rolled_frames ctx tr) (\<lambda>extra.
     tbind (db_run (transport_stmt (\<lambda>r. r\<lparr>is_rolling := False, roll_started_at_utc := None,
         elapsed_frames := elapsed_frames tr + extra\<rparr>))) (\<lambda>_.
     tbind mark_projection_dirty (\<lambda>_.
     tbind (broadcast (TransportChanged False (current_take tr))) (\<lambda>_.
     take_answer ctx True)))))"

definition duration_frames :: "num64 \<Rightarrow> num64 \<Rightarrow> int" where
  "duration_frames dur rate = max 0 (js_trunc (dbl_mul dur rate))"

definition stop_take_with_duration :: "num64 \<Rightarrow> timecode_ctx \<Rightarrow> bool \<Rightarrow> session_projection tx" where
  "stop_take_with_duration dur ctx suppress =
     tbind get_transport_row (\<lambda>tr.
     tbind (db_run (transport_stmt (\<lambda>r. r\<lparr>is_rolling := False, roll_started_at_utc := None,
         elapsed_frames := elapsed_frames tr + duration_frames dur (ctx_rate ctx)\<rparr>))) (\<lambda>_.
     tbind mark_projection_dirty (\<lambda>_.
     tbind (if suppress then treturn () else broadcast (TransportChanged False (current_take tr))) (\<lambda>_.
     projection))))"

record status_live =
  sl_rolling :: bool
  sl_take :: int
  sl_event_count :: nat
  sl_logged_count :: nat
  sl_revision :: int
  sl_timecode :: string
  sl_total :: int

definition status_live_read :: "timecode_ctx \<Rightarrow> status_live tx" where
  "status_live_read ctx =
     tbind (transport_state_dict ctx) (\<lambda>st.
     tbind event_counts (\<lambda>(tot, logged).
     tbind revision (\<lambda>r.
     treturn \<lparr>sl_rolling = ts_rolling st, sl_take = ts_take st, sl_event_count = tot,
       sl_logged_count = logged, sl_revision = r, sl_timecode = ts_timecode st, sl_total = ts_total st\<rparr>)))"

text \<open>The Companion toggle (\<open>SessionHubView.toggleTake\<close>).\<close>

definition toggle_take :: "timecode_ctx \<Rightarrow> take_answer tx" where
  "toggle_take ctx =
     tbind get_transport_row (\<lambda>tr. if is_rolling tr then stop_take ctx else start_take ctx)"

subsection \<open>They keep the transaction invariant\<close>

lemma loud_transport [keeps]: "loud_stmt (transport_stmt f)"
  by (auto simp: loud_stmt_def transport_stmt_def split: option.splits)

lemma keeps_transport_reads [keeps]:
  "preserves e (tracked d0) (transport_state_dict ctx)"
  "preserves e (tracked d0) (transport_snapshot ctx)"
  "preserves e (tracked d0) (take_answer ctx b)"
  "preserves e (tracked d0) (rolled_frames ctx tr)"
  "preserves e (tracked d0) (status_live_read ctx)"
  unfolding transport_state_dict_def transport_snapshot_def take_answer_def rolled_frames_def status_live_read_def
  by (intro keeps)+

lemma keeps_transport_store [keeps]:
  "preserves e (tracked d0) (start_take ctx)"
  "preserves e (tracked d0) (stop_take ctx)"
  "preserves e (tracked d0) (stop_take_with_duration dur ctx b)"
  unfolding start_take_def stop_take_def stop_take_with_duration_def
  by (rule marks | rule keeps)+

lemma keeps_toggle [keeps]: "preserves e (tracked d0) (toggle_take ctx)"
  unfolding toggle_take_def by (intro keeps)

subsection \<open>What they do to the row\<close>

lemma holds_transport_reads [keeps]:
  "preserves e (holds g v) (transport_state_dict ctx)"
  "preserves e (holds g v) (take_answer ctx b)"
  "preserves e (holds g v) (rolled_frames ctx tr)"
  unfolding transport_state_dict_def take_answer_def rolled_frames_def
  by (intro keeps)+

lemma get_transport_row_eval [simp]: "get_transport_row e s = (Inr (transport_of (st_db s)), s)"
  by (simp add: get_transport_row_def)

lemma tbind_get_transport [simp]: "tbind get_transport_row k e s = k (transport_of (st_db s)) e s"
  by (simp add: tbind_def)

lemma db_run_transport_Inr:
  "db_run (transport_stmt f) e s = (Inr n, s') \<Longrightarrow>
   db_transport (st_db s') = map_option f (db_transport (st_db s)) \<and> db_events (st_db s') = db_events (st_db s)"
  by (auto simp: db_run_Inr transport_stmt_def advance_Inr split: option.splits if_splits)

lemma now_iso_Inr: "now_iso e s = (Inr t, s') \<longleftrightarrow> t = iso_z (env_clock e (st_ticks s)) \<and> s' = s\<lparr>st_ticks := Suc (st_ticks s)\<rparr>"
  by (auto simp: now_iso_def tx_now_def tbind_Inr)

lemma take_answer_changed: "take_answer ctx b e s = (Inr (st, c, p), s') \<Longrightarrow> c = b \<and> st_db s' = st_db s"
  by (auto simp: take_answer_def transport_state_dict_def tbind_Inr treq_Inr tx_now_def projection_def)

text \<open>The effect on the session's transport row of a start or a stop that the store lets through.\<close>

lemma start_take_effect:
  assumes "start_take ctx e s = (Inr (st, c, p), s')" "db_transport (st_db s) = Some tr"
  shows "if is_rolling tr then c = False \<and> st_db s' = st_db s
    else c = True \<and> db_transport (st_db s') = Some (tr\<lparr>is_rolling := True, current_take := current_take tr + 1,
      roll_started_at_utc := Some (iso_z (env_clock e (st_ticks s)))\<rparr>)"
proof (cases "is_rolling tr")
  case True
  with assms show ?thesis
    by (auto simp: start_take_def transport_of_def dest: take_answer_changed)
next
  case False
  with assms obtain n s1 where
    run: "db_run (transport_stmt (\<lambda>r. r\<lparr>is_rolling := True, current_take := current_take tr + 1,
         roll_started_at_utc := Some (iso_z (env_clock e (st_ticks s)))\<rparr>))
         e (s\<lparr>st_ticks := Suc (st_ticks s)\<rparr>) = (Inr n, s1)" and
    t: "take_answer ctx True e (s1\<lparr>st_dirty := True,
      st_frames := st_frames s1 @ [TransportChanged True (current_take tr + 1)]\<rparr>) = (Inr (st, c, p), s')"
    by (auto simp: start_take_def transport_of_def tbind_Inr now_iso_Inr mark_projection_dirty_def broadcast_def)
  with False take_answer_changed [OF t] db_run_transport_Inr [OF run] assms(2) show ?thesis
    by simp
qed

lemma stop_take_effect:
  assumes "stop_take ctx e s = (Inr (st, c, p), s')" "db_transport (st_db s) = Some tr"
  shows "if is_rolling tr then c = True \<and> (\<exists>extra\<ge>0. db_transport (st_db s') = Some (tr\<lparr>is_rolling := False,
      roll_started_at_utc := None, elapsed_frames := elapsed_frames tr + extra\<rparr>) \<and>
      (\<forall>t0. parse_utc_ms (roll_started_at_utc tr) = Some t0 \<longrightarrow>
         extra = frames_between (ctx_rate ctx) t0 (env_clock e (st_ticks s))))
    else c = False \<and> st_db s' = st_db s"
proof (cases "is_rolling tr")
  case False
  with assms show ?thesis
    by (auto simp: stop_take_def transport_of_def dest: take_answer_changed)
next
  case True
  with assms obtain extra s0 n s1 where
    x: "rolled_frames ctx tr e s = (Inr extra, s0)" and
    run: "db_run (transport_stmt (\<lambda>r. r\<lparr>is_rolling := False, roll_started_at_utc := None,
         elapsed_frames := elapsed_frames tr + extra\<rparr>)) e s0 = (Inr n, s1)" and
    t: "take_answer ctx True e (s1\<lparr>st_dirty := True,
      st_frames := st_frames s1 @ [TransportChanged False (current_take tr)]\<rparr>) = (Inr (st, c, p), s')"
    by (auto simp: stop_take_def transport_of_def tbind_Inr mark_projection_dirty_def broadcast_def)
  have "0 \<le> extra \<and> st_db s0 = st_db s \<and> (\<forall>t0. parse_utc_ms (roll_started_at_utc tr) = Some t0 \<longrightarrow>
         extra = frames_between (ctx_rate ctx) t0 (env_clock e (st_ticks s)))"
    using x by (auto simp: rolled_frames_def tbind_Inr tx_now_def split: option.splits)
  with True take_answer_changed [OF t] db_run_transport_Inr [OF run] assms(2) show ?thesis
    by auto
qed

end
