(* ===== verification/LeaseStore.thy ===== *)
theory LeaseStore
  imports StoreHelpers
begin

section \<open>Leases\<close>

text \<open>
  packages/session-core/src/leaseStore.ts: one lease per kind, held by a client id and the user who
  claimed it, alive while the clock has not reached its stored expiry. The recording lease counts
  as content and broadcasts; the run leases are written on the raw handle.
\<close>

definition run_lease_renew_ms :: int where "run_lease_renew_ms = 10000"
definition masked_holder_id :: string where "masked_holder_id = ''another-client''"
definition lease_stale_ms :: int where "lease_stale_ms = 40000"
definition run_lease_ttl_ms :: int where "run_lease_ttl_ms = 40000"

definition ttl_ms :: "lease_kind \<Rightarrow> int" where
  "ttl_ms k = (case k of Recording \<Rightarrow> lease_stale_ms | _ \<Rightarrow> run_lease_ttl_ms)"

definition usable_client_id :: "string \<Rightarrow> string option" where
  "usable_client_id c = (let cid = js_trim c in if cid = [] \<or> CHR 0x00 \<in> set cid then None else Some cid)"

definition claim_lease :: "string \<Rightarrow> lease_kind \<Rightarrow> bool tx" where
  "claim_lease client k = (case usable_client_id client of
     None \<Rightarrow> treturn False
   | Some cid \<Rightarrow>
       tbind tx_now (\<lambda>now.
       tbind caller_user_id (\<lambda>uid.
       tbind (db_run (claim_stmt False k cid uid now (now + ttl_ms k))) (\<lambda>n.
       if n \<noteq> 1 then treturn False else
       tbind (set_alarm (now + ttl_ms k)) (\<lambda>_.
       tbind (broadcast LeaseChanged) (\<lambda>_.
       treturn True))))))"

definition heartbeat_lease :: "string \<Rightarrow> lease_kind \<Rightarrow> bool tx" where
  "heartbeat_lease client k = (case usable_client_id client of
     None \<Rightarrow> treturn False
   | Some cid \<Rightarrow>
       tbind tx_now (\<lambda>now.
       tbind caller_user_id (\<lambda>uid.
       tbind (heartbeat_lease_uncounted k cid uid now (now + ttl_ms k)) (\<lambda>ok.
       tbind (if ok then set_alarm (now + ttl_ms k) else treturn ()) (\<lambda>_.
       treturn ok)))))"

definition release_lease :: "string \<Rightarrow> lease_kind \<Rightarrow> unit tx" where
  "release_lease client k = (case usable_client_id client of
     None \<Rightarrow> treturn ()
   | Some cid \<Rightarrow>
       tbind caller_user_id (\<lambda>uid.
       tbind (db_run (delete_stmt db_leases db_leases_update (\<lambda>r. ls_kind r = k \<and> same_holder cid uid r))) (\<lambda>n.
       if 0 < n then broadcast LeaseChanged else treturn ())))"

definition claim_run_lease :: "lease_kind \<Rightarrow> string \<Rightarrow> bool tx" where
  "claim_run_lease k holder = (case usable_client_id holder of
     None \<Rightarrow> treturn False
   | Some hid \<Rightarrow>
       tbind tx_now (\<lambda>now.
       tbind caller_user_id (\<lambda>uid.
       claim_lease_uncounted k hid uid now (now + ttl_ms k))))"

definition release_run_lease :: "lease_kind \<Rightarrow> string \<Rightarrow> unit tx" where
  "release_run_lease k holder = (case usable_client_id holder of
     None \<Rightarrow> treturn ()
   | Some hid \<Rightarrow> tbind caller_user_id (\<lambda>uid. release_lease_uncounted k hid uid))"

definition run_lease_started_at :: "lease_kind \<Rightarrow> int option tx" where
  "run_lease_started_at k =
     tbind tx_now (\<lambda>now.
     tx_read (\<lambda>d. case find_lease k d of
       None \<Rightarrow> None | Some r \<Rightarrow> if now < ls_expires r then ls_started r else None))"

record lease_status =
  st_holder :: "string option"
  st_alive :: bool
  st_age_sec :: "num64 option"

definition lease_status_read :: "lease_status tx" where
  "lease_status_read =
     tbind (tx_read (find_lease Recording)) (\<lambda>ro. case ro of
       None \<Rightarrow> treturn \<lparr>st_holder = None, st_alive = False, st_age_sec = None\<rparr>
     | Some r \<Rightarrow>
         tbind tx_now (\<lambda>now.
         tbind caller_user_id (\<lambda>uid.
         treturn \<lparr>st_holder = Some (if uid = ls_user r then ls_client r else masked_holder_id),
           st_alive = now < ls_expires r,
           st_age_sec = Some (max 0 (dbl_div (of_int (now - ls_heartbeat r)) 1000))\<rparr>)))"

definition expire_if_stale :: "unit tx" where
  "expire_if_stale =
     tbind tx_now (\<lambda>now.
     tbind (db_run (delete_stmt db_leases db_leases_update (\<lambda>r. ls_kind r = Recording \<and> ls_expires r \<le> now))) (\<lambda>n.
     tbind (if 0 < n then broadcast LeaseChanged else treturn ()) (\<lambda>_.
     tbind (tx_read (\<lambda>d. map_option ls_expires (find_lease Recording d))) (\<lambda>next.
     case next of None \<Rightarrow> treturn () | Some t \<Rightarrow> set_alarm t))))"

subsection \<open>They keep the transaction invariant\<close>

lemma keeps_lease_store [keeps]:
  "preserves e (tracked d0) (claim_lease c k)"
  "preserves e (tracked d0) (heartbeat_lease c k)"
  "preserves e (tracked d0) (release_lease c k)"
  "preserves e (tracked d0) (claim_run_lease k c)"
  "preserves e (tracked d0) (release_run_lease k c)"
  "preserves e (tracked d0) (run_lease_started_at k)"
  "preserves e (tracked d0) lease_status_read"
  "preserves e (tracked d0) expire_if_stale"
  unfolding claim_lease_def heartbeat_lease_def release_lease_def claim_run_lease_def release_run_lease_def
    run_lease_started_at_def lease_status_read_def expire_if_stale_def
  by (intro keeps)+

subsection \<open>The table\<close>

text \<open>The primary key of session_leases: at most one lease of a kind.\<close>

definition leases_ok :: "session_db \<Rightarrow> bool" where
  "leases_ok d \<longleftrightarrow> distinct (map ls_kind (db_leases d))"

lemma find_lease_Some: "find_lease k d = Some r \<Longrightarrow> r \<in> set (db_leases d) \<and> ls_kind r = k"
  by (auto simp: find_lease_def find_Some_iff)

lemma find_lease_iff: "leases_ok d \<Longrightarrow> find_lease k d = Some r \<longleftrightarrow> r \<in> set (db_leases d) \<and> ls_kind r = k"
  unfolding find_lease_def leases_ok_def by (rule find_Some_iff_distinct)

lemma find_lease_None: "find_lease k d = None \<longleftrightarrow> (\<forall>r\<in>set (db_leases d). ls_kind r \<noteq> k)"
  by (auto simp: find_lease_def find_None_iff)

lemma find_lease_update:
  "find_lease k (db_leases_update (update_where (\<lambda>x. ls_kind x = j) f) d)
     = (if k = j then map_option f (find_lease k d) else find_lease k d)"
  if "\<And>x. ls_kind (f x) = ls_kind x"
proof -
  have "find (\<lambda>r. ls_kind r = k) (update_where (\<lambda>x. ls_kind x = j) f t)
     = (if k = j then map_option f (find (\<lambda>r. ls_kind r = k) t) else find (\<lambda>r. ls_kind r = k) t)" for t
    by (induction t) (auto simp: update_where_def that)
  then show ?thesis by (simp add: find_lease_def)
qed

lemma find_lease_append:
  "find_lease k (db_leases_update (\<lambda>t. t @ [r]) d)
     = (case find_lease k d of Some x \<Rightarrow> Some x | None \<Rightarrow> if ls_kind r = k then Some r else None)"
proof -
  have "find (\<lambda>r. ls_kind r = k) (t @ [r])
     = (case find (\<lambda>r. ls_kind r = k) t of Some x \<Rightarrow> Some x | None \<Rightarrow> if ls_kind r = k then Some r else None)" for t
    by (induction t) auto
  then show ?thesis by (simp add: find_lease_def)
qed

text \<open>The outcome of the conditional upsert.\<close>

lemma claim_stmt_outcome:
  assumes "claim_stmt run k cid uid now ex d = Inr (d', n)"
  shows "(n = 1 \<and> (\<forall>r. find_lease k d = Some r \<longrightarrow> ls_expires r \<le> now \<or> same_holder cid uid r) \<and>
      (\<exists>r'. find_lease k d' = Some r' \<and> same_holder cid uid r' \<and> ls_expires r' = ex \<and> ls_heartbeat r' = now)) \<or>
     (n = 0 \<and> d' = d \<and> (\<exists>r. find_lease k d = Some r \<and> now < ls_expires r \<and> \<not> same_holder cid uid r))"
  using assms
  by (auto simp: claim_stmt_def find_lease_append find_lease_update same_holder_def split: option.splits if_splits)

lemma claim_stmt_others:
  "claim_stmt run k cid uid now ex d = Inr (d', n) \<Longrightarrow> j \<noteq> k \<Longrightarrow> find_lease j d' = find_lease j d"
  by (auto simp: claim_stmt_def find_lease_append find_lease_update split: option.splits if_splits)

lemma leases_ok_claim: "claim_stmt run k cid uid now ex d = Inr (d', n) \<Longrightarrow> leases_ok d \<Longrightarrow> leases_ok d'"
  by (auto simp: claim_stmt_def leases_ok_def find_lease_None map_update_where split: option.splits if_splits)

text \<open>A lease is held at an instant by a client and user.\<close>

definition lease_held_by :: "session_db \<Rightarrow> lease_kind \<Rightarrow> int \<Rightarrow> string \<Rightarrow> string option \<Rightarrow> bool" where
  "lease_held_by d k t cid uid \<longleftrightarrow> (\<exists>r. find_lease k d = Some r \<and> t < ls_expires r \<and> same_holder cid uid r)"

lemma find_lease_cong: "db_leases d = db_leases d' \<Longrightarrow> find_lease k d = find_lease k d'"
  by (simp add: find_lease_def)

lemma db_run_leases_Inr:
  assumes "db_run st e s = (Inr n, s')"
  shows "\<exists>d. st (st_db s) = Inr (d, n) \<and> db_leases (st_db s') = db_leases d"
proof -
  from assms obtain d where d: "st (st_db s) = Inr (d, n)"
    and s': "if n = 0 then s' = s\<lparr>st_db := d\<rparr> else (\<exists>r. advance_revision e (s\<lparr>st_db := d\<rparr>) = (Inr r, s'))"
    unfolding db_run_Inr by blast
  from s' have "db_leases (st_db s') = db_leases d"
    by (auto simp: advance_Inr split: if_splits)
  with d show ?thesis by blast
qed

lemma raw_run_leases_Inr:
  assumes "raw_run st e s = (Inr n, s')"
  shows "\<exists>d. st (st_db s) = Inr (d, n) \<and> db_leases (st_db s') = db_leases d"
  using assms by (auto simp: raw_run_Inr)

lemma caller_user_id_Inr: "caller_user_id e s = (Inr u, s') \<longleftrightarrow> u = caller_user (env_caller e) \<and> s' = s"
  by (auto simp: caller_user_id_def)

lemma tx_now_Inr: "tx_now e s = (Inr t, s') \<longleftrightarrow> t = env_clock e (st_ticks s) \<and> s' = s\<lparr>st_ticks := Suc (st_ticks s)\<rparr>"
  by (auto simp: tx_now_def)

lemmas lease_exec = tbind_Inr caller_user_id_Inr tx_now_Inr set_alarm_def broadcast_def

subsection \<open>A claim against a live lease\<close>

text \<open>While a lease is alive, a claim by anyone else answers false and writes nothing.\<close>

lemma claim_refused:
  assumes "find_lease k (st_db s) = Some r" "usable_client_id c = Some cid"
    and "env_clock e (st_ticks s) < ls_expires r" "\<not> same_holder cid (caller_user (env_caller e)) r"
    and "lease_client_ok cid"
  shows "claim_lease c k e s = (Inr False, s\<lparr>st_ticks := Suc (st_ticks s)\<rparr>)"
  using assms
  by (simp add: claim_lease_def tbind_def tx_now_def caller_user_id_def db_run_def raw_run_def claim_stmt_def treturn_def)

lemma run_claim_refused:
  assumes "find_lease k (st_db s) = Some r" "usable_client_id c = Some cid"
    and "env_clock e (st_ticks s) < ls_expires r" "\<not> same_holder cid (caller_user (env_caller e)) r"
    and "lease_client_ok cid"
  shows "claim_run_lease k c e s = (Inr False, s\<lparr>st_ticks := Suc (st_ticks s)\<rparr>)"
  using assms
  by (simp add: claim_run_lease_def claim_lease_uncounted_def tbind_def tx_now_def caller_user_id_def raw_run_def
      claim_stmt_def treturn_def)

lemma claim_lease_outcome:
  assumes "claim_lease c k e s = (Inr ok, s')" "usable_client_id c = Some cid"
  shows "\<exists>d n. claim_stmt False k cid (caller_user (env_caller e)) (env_clock e (st_ticks s))
      (env_clock e (st_ticks s) + ttl_ms k) (st_db s) = Inr (d, n) \<and> db_leases (st_db s') = db_leases d \<and> ok = (n = 1)"
  using assms by (auto simp: claim_lease_def lease_exec dest!: db_run_leases_Inr split: if_splits)

lemma claim_run_lease_outcome:
  assumes "claim_run_lease k c e s = (Inr ok, s')" "usable_client_id c = Some cid"
  shows "\<exists>d n. claim_stmt True k cid (caller_user (env_caller e)) (env_clock e (st_ticks s))
      (env_clock e (st_ticks s) + ttl_ms k) (st_db s) = Inr (d, n) \<and> db_leases (st_db s') = db_leases d \<and> ok = (n = 1)"
  using assms
  by (auto simp: claim_run_lease_def claim_lease_uncounted_def lease_exec dest!: raw_run_leases_Inr split: if_splits)

subsection \<open>Lease operations in sequence\<close>

text \<open>
  The operations of every process on a session's leases, one transaction each, at its time and for its
  user.
\<close>

datatype lease_op =
    LClaim string lease_kind
  | LHeartbeat string lease_kind
  | LRelease string lease_kind
  | LRunClaim lease_kind string
  | LRunRelease lease_kind string
  | LExpire

fun lease_op_tx :: "lease_op \<Rightarrow> unit tx" where
  "lease_op_tx (LClaim c k) = tbind (claim_lease c k) (\<lambda>_. treturn ())"
| "lease_op_tx (LHeartbeat c k) = tbind (heartbeat_lease c k) (\<lambda>_. treturn ())"
| "lease_op_tx (LRelease c k) = release_lease c k"
| "lease_op_tx (LRunClaim k c) = tbind (claim_run_lease k c) (\<lambda>_. treturn ())"
| "lease_op_tx (LRunRelease k c) = release_run_lease k c"
| "lease_op_tx LExpire = expire_if_stale"

inductive lease_step :: "session_db \<Rightarrow> int \<times> string option \<times> lease_op \<Rightarrow> session_db \<Rightarrow> bool" where
  lease_stepI: "lease_op_tx a e s = (Inr (), s') \<Longrightarrow> st_db s = d \<Longrightarrow> env_clock e (st_ticks s) = t \<Longrightarrow>
    caller_user (env_caller e) = uid \<Longrightarrow> st_db s' = d' \<Longrightarrow> lease_step d (t, uid, a) d'"

inductive_cases lease_stepE: "lease_step d (t, uid, a) d'"

inductive lease_run :: "session_db \<Rightarrow> (int \<times> string option \<times> lease_op) list \<Rightarrow> session_db \<Rightarrow> bool" where
  lease_run_Nil: "lease_run d [] d"
| lease_run_Cons: "lease_step d x d1 \<Longrightarrow> lease_run d1 xs d' \<Longrightarrow> lease_run d (x # xs) d'"

inductive_simps lease_run_simps [simp]: "lease_run d [] d'" "lease_run d (x # xs) d'"

text \<open>The holder's own release of the kind.\<close>

fun releases :: "lease_kind \<Rightarrow> string \<Rightarrow> string option \<Rightarrow> int \<times> string option \<times> lease_op \<Rightarrow> bool" where
  "releases k cid uid (t, u, LRelease c j) = (j = k \<and> u = uid \<and> usable_client_id c = Some cid)"
| "releases k cid uid (t, u, LRunRelease j c) = (j = k \<and> u = uid \<and> usable_client_id c = Some cid)"
| "releases k cid uid (t, u, a) = False"

definition lease_wf :: "session_db \<Rightarrow> bool" where
  "lease_wf d \<longleftrightarrow> leases_ok d \<and> (\<forall>r\<in>set (db_leases d). ls_expires r = ls_heartbeat r + ttl_ms (ls_kind r))"

lemma ttl_pos [simp]: "0 < ttl_ms k"
  by (cases k) (simp_all add: ttl_ms_def lease_stale_ms_def run_lease_ttl_ms_def)

lemma lease_wf_cong: "db_leases d = db_leases d' \<Longrightarrow> lease_wf d = lease_wf d'"
  by (simp add: lease_wf_def leases_ok_def)

lemma lease_wf_claim:
  assumes "claim_stmt run k cid uid now (now + ttl_ms k) d = Inr (d', n)" "lease_wf d"
  shows "lease_wf d'"
  unfolding lease_wf_def
proof (intro conjI)
  show "leases_ok d'"
    using leases_ok_claim [OF assms(1)] assms(2) by (simp add: lease_wf_def)
  show "\<forall>r\<in>set (db_leases d'). ls_expires r = ls_heartbeat r + ttl_ms (ls_kind r)"
    using assms by (auto simp: claim_stmt_def lease_wf_def update_where_def split: option.splits if_splits)
qed

text \<open>The effect of one step on the lease table.\<close>

definition lease_effect ::
  "session_db \<Rightarrow> int \<Rightarrow> string option \<Rightarrow> lease_op \<Rightarrow> session_db \<Rightarrow> bool" where
  "lease_effect d t uid a d' \<longleftrightarrow> db_leases d' = db_leases d \<or>
     (\<exists>run k cid d1 n. claim_stmt run k cid uid t (t + ttl_ms k) d = Inr (d1, n) \<and> db_leases d' = db_leases d1) \<or>
     (\<exists>k cid. db_leases d' = update_where (\<lambda>r. ls_kind r = k \<and> same_holder cid uid r \<and> t < ls_expires r)
         (\<lambda>r. r\<lparr>ls_heartbeat := t, ls_expires := t + ttl_ms k\<rparr>) (db_leases d)) \<or>
     (\<exists>k cid. releases k cid uid (t, uid, a) \<and>
         db_leases d' = delete_where (\<lambda>r. ls_kind r = k \<and> same_holder cid uid r) (db_leases d)) \<or>
     db_leases d' = delete_where (\<lambda>r. ls_kind r = Recording \<and> ls_expires r \<le> t) (db_leases d)"

lemma lease_step_effect:
  assumes "lease_step d (t, uid, a) d'"
  shows "lease_effect d t uid a d'"
proof -
  from assms obtain e s s' where "lease_op_tx a e s = (Inr (), s')" "st_db s = d"
    "env_clock e (st_ticks s) = t" "caller_user (env_caller e) = uid" "st_db s' = d'"
    by (rule lease_stepE)
  note 1 = this
  show ?thesis
  proof (cases a)
    case (LClaim c k)
    show ?thesis
    proof (cases "usable_client_id c")
      case None
      with 1 LClaim show ?thesis by (simp add: claim_lease_def lease_effect_def)
    next
      case (Some cid)
      from 1 LClaim obtain ok where "claim_lease c k e s = (Inr ok, s')" by (auto simp: tbind_Inr)
      from claim_lease_outcome [OF this Some] 1 show ?thesis
        unfolding lease_effect_def by blast
    qed
  next
    case (LRunClaim k c)
    show ?thesis
    proof (cases "usable_client_id c")
      case None
      with 1 LRunClaim show ?thesis by (simp add: claim_run_lease_def lease_effect_def)
    next
      case (Some cid)
      from 1 LRunClaim obtain ok where "claim_run_lease k c e s = (Inr ok, s')" by (auto simp: tbind_Inr)
      from claim_run_lease_outcome [OF this Some] 1 show ?thesis
        unfolding lease_effect_def by blast
    qed
  next
    case (LHeartbeat c k)
    show ?thesis
    proof (cases "usable_client_id c")
      case None
      with 1 LHeartbeat show ?thesis by (simp add: heartbeat_lease_def lease_effect_def tbind_Inr)
    next
      case (Some cid)
      with 1(1) obtain n s1 where run: "raw_run (update_stmt db_leases db_leases_update
          (\<lambda>r. ls_kind r = k \<and> same_holder cid (caller_user (env_caller e)) r \<and> env_clock e (st_ticks s) < ls_expires r)
          (\<lambda>r. r\<lparr>ls_heartbeat := env_clock e (st_ticks s), ls_expires := env_clock e (st_ticks s) + ttl_ms k\<rparr>))
          e (s\<lparr>st_ticks := Suc (st_ticks s)\<rparr>) = (Inr n, s1)" and s1: "st_db s' = st_db s1"
        by (auto simp: LHeartbeat heartbeat_lease_def heartbeat_lease_uncounted_def lease_exec split: if_splits)
      have "db_leases d' = update_where (\<lambda>r. ls_kind r = k \<and> same_holder cid uid r \<and> t < ls_expires r)
         (\<lambda>r. r\<lparr>ls_heartbeat := t, ls_expires := t + ttl_ms k\<rparr>) (db_leases d)"
        using raw_run_leases_Inr [OF run] s1 1 by (simp add: update_stmt_def)
      then show ?thesis unfolding lease_effect_def by blast
    qed
  next
    case (LRelease c k)
    with 1 have "db_leases d' = db_leases d \<or> (\<exists>cid. usable_client_id c = Some cid \<and>
        db_leases d' = delete_where (\<lambda>r. ls_kind r = k \<and> same_holder cid uid r) (db_leases d))"
      by (auto simp: release_lease_def lease_exec delete_stmt_def
          dest!: db_run_leases_Inr split: option.splits if_splits)
    then show ?thesis unfolding lease_effect_def LRelease by fastforce
  next
    case (LRunRelease k c)
    with 1 have "db_leases d' = db_leases d \<or> (\<exists>cid. usable_client_id c = Some cid \<and>
        db_leases d' = delete_where (\<lambda>r. ls_kind r = k \<and> same_holder cid uid r) (db_leases d))"
      by (auto simp: release_run_lease_def release_lease_uncounted_def lease_exec delete_stmt_def
          dest!: raw_run_leases_Inr split: option.splits if_splits)
    then show ?thesis unfolding lease_effect_def LRunRelease by fastforce
  next
    case LExpire
    from 1(1) obtain n s1 where run: "db_run (delete_stmt db_leases db_leases_update
          (\<lambda>r. ls_kind r = Recording \<and> ls_expires r \<le> env_clock e (st_ticks s)))
          e (s\<lparr>st_ticks := Suc (st_ticks s)\<rparr>) = (Inr n, s1)" and s1: "st_db s' = st_db s1"
      by (auto simp: LExpire expire_if_stale_def lease_exec split: option.splits if_splits)
    from db_run_leases_Inr [OF run] s1 1(2,3,5)
    have "db_leases d' = delete_where (\<lambda>r. ls_kind r = Recording \<and> ls_expires r \<le> t) (db_leases d)"
      by (auto simp: delete_stmt_def)
    then show ?thesis unfolding lease_effect_def by blast
  qed
qed

lemma lease_step_wf: "lease_step d x d' \<Longrightarrow> lease_wf d \<Longrightarrow> lease_wf d'"
proof -
  assume st: "lease_step d x d'" and wf: "lease_wf d"
  obtain t uid a where x: "x = (t, uid, a)" by (cases x) auto
  from lease_step_effect [OF st [unfolded x]] show ?thesis
    unfolding lease_effect_def
  proof (elim disjE exE conjE)
    fix run k cid d1 n
    assume "claim_stmt run k cid uid t (t + ttl_ms k) d = Inr (d1, n)" "db_leases d' = db_leases d1"
    with lease_wf_claim [OF _ wf] show ?thesis
      using lease_wf_cong [of d' d1] by blast
  next
    fix k cid
    assume "db_leases d' = update_where (\<lambda>r. ls_kind r = k \<and> same_holder cid uid r \<and> t < ls_expires r)
         (\<lambda>r. r\<lparr>ls_heartbeat := t, ls_expires := t + ttl_ms k\<rparr>) (db_leases d)"
    with wf show ?thesis
      by (auto simp: lease_wf_def leases_ok_def map_update_where) (auto simp: update_where_def)
  qed (use wf in \<open>auto simp: lease_wf_def leases_ok_def delete_where_def distinct_map_filter\<close>)
qed

lemma lease_run_wf: "lease_run d xs d' \<Longrightarrow> lease_wf d \<Longrightarrow> lease_wf d'"
  by (induction rule: lease_run.induct) (auto dest: lease_step_wf)

text \<open>One step leaves a live lease with its holder, and never brings its expiry forward.\<close>

lemma lease_step_keeps:
  assumes st: "lease_step d (t, uid, a) d'" and wf: "lease_wf d"
    and r: "find_lease k d = Some r" and t: "ls_heartbeat r \<le> t" "t < ls_expires r"
    and nr: "\<not> releases k (ls_client r) (ls_user r) (t, uid, a)"
  shows "\<exists>r'. find_lease k d' = Some r' \<and> same_holder (ls_client r) (ls_user r) r' \<and>
    ls_expires r \<le> ls_expires r' \<and> ls_heartbeat r' \<le> max t (ls_heartbeat r)"
proof -
  have k: "ls_kind r = k" "r \<in> set (db_leases d)" using find_lease_Some [OF r] by auto
  have ex: "ls_expires r = ls_heartbeat r + ttl_ms k" using wf k by (auto simp: lease_wf_def)
  have self: "same_holder (ls_client r) (ls_user r) r" by (simp add: same_holder_def)
  have wf': "leases_ok d'" using lease_step_wf [OF st wf] by (simp add: lease_wf_def)
  from lease_step_effect [OF st] show ?thesis
    unfolding lease_effect_def
  proof (elim disjE exE conjE)
    assume "db_leases d' = db_leases d"
    then have "find_lease k d' = Some r" using find_lease_cong r by metis
    with self show ?thesis by auto
  next
    fix run j cid d1 n
    assume c: "claim_stmt run j cid uid t (t + ttl_ms j) d = Inr (d1, n)" and d1: "db_leases d' = db_leases d1"
    have eq: "find_lease k d' = find_lease k d1" by (rule find_lease_cong [OF d1])
    show ?thesis
    proof (cases "j = k")
      case False
      then have "find_lease k d1 = Some r" using claim_stmt_others [OF c] r by auto
      with eq self show ?thesis by auto
    next
      case True
      from claim_stmt_outcome [OF c [unfolded True]] r t(2) eq self ex show ?thesis
        using t(1) by (auto simp: same_holder_def)
    qed
  next
    fix j cid
    assume u: "db_leases d' = update_where (\<lambda>r. ls_kind r = j \<and> same_holder cid uid r \<and> t < ls_expires r)
         (\<lambda>r. r\<lparr>ls_heartbeat := t, ls_expires := t + ttl_ms j\<rparr>) (db_leases d)"
    let ?r = "if k = j \<and> same_holder cid uid r then r\<lparr>ls_heartbeat := t, ls_expires := t + ttl_ms j\<rparr> else r"
    have "?r \<in> set (db_leases d')"
      unfolding u using k t(2) by (force simp: update_where_def)
    then have "find_lease k d' = Some ?r"
      using find_lease_iff [OF wf'] k by auto
    with self ex t(1) show ?thesis by (auto simp: same_holder_def)
  next
    fix j cid
    assume rel: "releases j cid uid (t, uid, a)"
      and u: "db_leases d' = delete_where (\<lambda>r. ls_kind r = j \<and> same_holder cid uid r) (db_leases d)"
    have "\<not> (k = j \<and> same_holder cid uid r)"
    proof
      assume "k = j \<and> same_holder cid uid r"
      then have "releases k (ls_client r) (ls_user r) (t, uid, a)"
        using rel by (auto simp: same_holder_def)
      with nr show False by simp
    qed
    then have "r \<in> set (db_leases d')" unfolding u using k by auto
    then have "find_lease k d' = Some r" using find_lease_iff [OF wf'] k by auto
    with self show ?thesis by auto
  next
    assume u: "db_leases d' = delete_where (\<lambda>r. ls_kind r = Recording \<and> ls_expires r \<le> t) (db_leases d)"
    then have "r \<in> set (db_leases d')" using k t(2) by auto
    then have "find_lease k d' = Some r" using find_lease_iff [OF wf'] k by auto
    with self show ?thesis by auto
  qed
qed

subsection \<open>Properties\<close>

definition trace_times :: "(int \<times> string option \<times> lease_op) list \<Rightarrow> int list" where
  "trace_times xs = map fst xs"

lemma lease_run_keeps:
  assumes "lease_run d xs d'" "lease_wf d" "find_lease k d = Some r"
    and "sorted (trace_times xs)" "list_all (\<lambda>x. ls_heartbeat r \<le> fst x \<and> fst x < ls_expires r) xs"
    and "list_all (\<lambda>x. \<not> releases k (ls_client r) (ls_user r) x) xs"
  shows "\<exists>r'. find_lease k d' = Some r' \<and> same_holder (ls_client r) (ls_user r) r' \<and> ls_expires r \<le> ls_expires r'"
  using assms
proof (induction d xs d' arbitrary: r rule: lease_run.induct)
  case (lease_run_Nil d)
  then show ?case by (auto simp: same_holder_def)
next
  case (lease_run_Cons d x d1 xs d')
  obtain t uid a where x: "x = (t, uid, a)" by (cases x) auto
  from lease_run_Cons.prems have h: "ls_heartbeat r \<le> t" "t < ls_expires r"
    "\<not> releases k (ls_client r) (ls_user r) (t, uid, a)"
    by (simp_all add: x)
  from lease_step_keeps [OF lease_run_Cons.hyps(1) [unfolded x] lease_run_Cons.prems(1,2) h] obtain r1 where
    r1: "find_lease k d1 = Some r1" "same_holder (ls_client r) (ls_user r) r1" "ls_expires r \<le> ls_expires r1"
      "ls_heartbeat r1 \<le> max t (ls_heartbeat r)"
    by blast
  have s: "sorted (trace_times xs)" and le: "list_all (\<lambda>y. t \<le> fst y) xs"
    using lease_run_Cons.prems(3) by (auto simp: trace_times_def x list_all_iff)
  have b: "list_all (\<lambda>y. ls_heartbeat r1 \<le> fst y \<and> fst y < ls_expires r1) xs"
    using lease_run_Cons.prems(4) le r1(3,4) h(1) by (auto simp: list_all_iff x)
  have n: "list_all (\<lambda>y. \<not> releases k (ls_client r1) (ls_user r1) y) xs"
    using lease_run_Cons.prems(5) r1(2) by (simp add: same_holder_def)
  from lease_run_Cons.IH [OF lease_step_wf [OF lease_run_Cons.hyps(1) lease_run_Cons.prems(1)] r1(1) s b n] r1(2,3)
  show ?case by (auto simp: same_holder_def)
qed

text \<open>C3: mutual exclusion of a lease across processes. Whatever the clients of a session do with its
  leases, in any order and any number of transactions, as long as the times do not go back, the lease
  is not yet expired and its holder does not release it, the holder still has it afterwards, with an
  expiry no earlier than before, and a claim of the kind by anyone else answers false and changes
  nothing.\<close>

theorem lease_mutual_exclusion:
  assumes "lease_run d xs d'" "lease_wf d" "find_lease k d = Some r"
    and "sorted (trace_times xs)" "list_all (\<lambda>x. ls_heartbeat r \<le> fst x \<and> fst x < ls_expires r) xs"
    and "list_all (\<lambda>x. \<not> releases k (ls_client r) (ls_user r) x) xs"
    and "usable_client_id c = Some cid" "lease_client_ok cid"
    and "\<not> same_holder cid (caller_user (env_caller e)) r" "env_clock e (st_ticks s) < ls_expires r" "st_db s = d'"
  shows "(\<exists>r'. find_lease k d' = Some r' \<and> same_holder (ls_client r) (ls_user r) r' \<and> ls_expires r \<le> ls_expires r') \<and>
    claim_lease c k e s = (Inr False, s\<lparr>st_ticks := Suc (st_ticks s)\<rparr>) \<and>
    claim_run_lease k c e s = (Inr False, s\<lparr>st_ticks := Suc (st_ticks s)\<rparr>)"
proof -
  from lease_run_keeps [OF assms(1-6)] obtain r' where
    r': "find_lease k d' = Some r'" "same_holder (ls_client r) (ls_user r) r'" "ls_expires r \<le> ls_expires r'"
    by blast
  have n: "\<not> same_holder cid (caller_user (env_caller e)) r'"
    using assms(9) r'(2) by (auto simp: same_holder_def)
  have t: "env_clock e (st_ticks s) < ls_expires r'" using assms(10) r'(3) by linarith
  show ?thesis
    using claim_refused [OF _ assms(7) t n assms(8)] run_claim_refused [OF _ assms(7) t n assms(8)] r' assms(11) by blast
qed

text \<open>The lease of the example: held by client tab-a of user u1.\<close>

definition sample_lease :: lease_row where
  "sample_lease = \<lparr>ls_kind = Recording, ls_client = ''tab-a'', ls_user = Some ''u1'',
     ls_heartbeat = 1699999999000, ls_expires = 1700000039000, ls_started = None\<rparr>"

definition leased_db :: session_db where
  "leased_db = sample_db\<lparr>db_leases := [sample_lease]\<rparr>"

lemma sample_refused: "lease_step leased_db (1700000000000, Some ''u2'', LClaim ''tab-b'' Recording) leased_db"
proof (rule lease_stepI)
  show "lease_op_tx (LClaim ''tab-b'' Recording) (sample_env ''u2'') (begin_tx leased_db 0 0)
    = (Inr (), (begin_tx leased_db 0 0)\<lparr>st_ticks := 1\<rparr>)"
    by code_simp
qed (simp_all add: sample_env_def caller_user_def)

theorem lease_mutual_exclusion_witness:
  "claim_lease ''tab-b'' Recording (sample_env ''u2'') (begin_tx leased_db 5 0)
     = (Inr False, (begin_tx leased_db 5 0)\<lparr>st_ticks := 6\<rparr>)"
proof -
  have "lease_run leased_db [(1700000000000, Some ''u2'', LClaim ''tab-b'' Recording)] leased_db"
    using sample_refused by auto
  from lease_mutual_exclusion [OF this, of Recording sample_lease "''tab-b''" "''tab-b''" "sample_env ''u2''"
      "begin_tx leased_db 5 0"]
  show ?thesis
    by (simp add: leased_db_def lease_wf_def leases_ok_def find_lease_def sample_lease_def ttl_ms_def lease_stale_ms_def
        trace_times_def lease_client_ok_def same_holder_def sample_env_def caller_user_def usable_client_id_def
        js_trim_def is_space_def)
qed

text \<open>the outcome of a claim. A claim of a lease answers true exactly when the lease is free,
  expired or already the caller's own, and then the caller holds it for the full time to live from the
  claim; otherwise the table is unchanged.\<close>

theorem claim_lease_correct:
  assumes "claim_lease c k e s = (Inr ok, s')" "usable_client_id c = Some cid"
  shows "(ok \<longleftrightarrow> (\<forall>r. find_lease k (st_db s) = Some r \<longrightarrow>
        ls_expires r \<le> env_clock e (st_ticks s) \<or> same_holder cid (caller_user (env_caller e)) r)) \<and>
    (ok \<longrightarrow> lease_held_by (st_db s') k (env_clock e (st_ticks s) + ttl_ms k - 1) cid (caller_user (env_caller e))) \<and>
    (\<not> ok \<longrightarrow> db_leases (st_db s') = db_leases (st_db s))"
proof -
  from claim_lease_outcome [OF assms] obtain d n where
    st: "claim_stmt False k cid (caller_user (env_caller e)) (env_clock e (st_ticks s))
      (env_clock e (st_ticks s) + ttl_ms k) (st_db s) = Inr (d, n)" and d: "db_leases (st_db s') = db_leases d"
    and ok: "ok = (n = 1)"
    by blast
  have "find_lease k (st_db s') = find_lease k d" by (rule find_lease_cong [OF d])
  with claim_stmt_outcome [OF st] d ok show ?thesis
    by (auto simp: lease_held_by_def)
qed

theorem claim_lease_correct_witness:
  "lease_held_by leased_db Recording 1700000038999 ''tab-a'' (Some ''u1'') \<and>
   claim_lease ''tab-b'' Recording (sample_env ''u2'') (begin_tx leased_db 0 0)
     = (Inr False, (begin_tx leased_db 0 0)\<lparr>st_ticks := 1\<rparr>) \<and>
   db_leases (st_db (snd (claim_lease ''tab-b'' Recording (sample_env ''u2'') (begin_tx leased_db 0 0)))) = [sample_lease]"
proof -
  have run: "claim_lease ''tab-b'' Recording (sample_env ''u2'') (begin_tx leased_db 0 0)
     = (Inr False, (begin_tx leased_db 0 0)\<lparr>st_ticks := 1\<rparr>)"
    by code_simp
  have u: "usable_client_id ''tab-b'' = Some ''tab-b''" by code_simp
  from claim_lease_correct [OF run u] run show ?thesis
    by (simp add: leased_db_def lease_held_by_def find_lease_def sample_lease_def same_holder_def)
qed

end
