(* ===== verification/TopicStore.thy ===== *)
theory TopicStore
  imports StoreHelpers
begin

section \<open>Topics\<close>

text \<open>packages/session-core/src/topicStore.ts: the session's topics, ordered by ordinal.\<close>

record topic_data =
  td_session_time :: string
  td_duration :: num64
  td_level :: int
  td_summary :: string

record topic_patch =
  tq_session_time :: "string option"
  tq_duration :: "num64 option"
  tq_level :: "int option"
  tq_summary :: "string option"

definition list_topics :: "topic_row list tx" where
  "list_topics = tx_read (\<lambda>d. order_by (\<lambda>r. (tp_ordinal r, row_id r)) (db_topics d))"

definition topic_by_id :: "string \<Rightarrow> topic_row option tx" where
  "topic_by_id i = tx_read (\<lambda>d. find_row i (db_topics d))"

definition insert_topic :: "topic_data \<Rightarrow> topic_row tx" where
  "insert_topic t =
     tbind tx_uuid (\<lambda>tid.
     tbind (tx_read (\<lambda>d. next_ordinal (map tp_ordinal (db_topics d)))) (\<lambda>ordinal.
     tbind now_iso (\<lambda>now.
     tbind (db_run (insert_stmt db_topics db_topics_update
         \<lparr>row_id = tid, row_version = 1, tp_session_time = td_session_time t, tp_duration = td_duration t,
          tp_level = td_level t, tp_summary = td_summary t, tp_ordinal = ordinal, tp_created = now\<rparr>)) (\<lambda>_.
     tbind (topic_by_id tid) (treq TxMisuse)))))"

definition topic_patch_empty :: "topic_patch \<Rightarrow> bool" where
  "topic_patch_empty p \<longleftrightarrow> tq_session_time p = None \<and> tq_duration p = None \<and> tq_level p = None \<and> tq_summary p = None"

definition patched_topic :: "topic_patch \<Rightarrow> topic_row \<Rightarrow> topic_row" where
  "patched_topic p r = r\<lparr>tp_session_time := patched (tq_session_time p) (tp_session_time r),
     tp_duration := patched (tq_duration p) (tp_duration r), tp_level := patched (tq_level p) (tp_level r),
     tp_summary := patched (tq_summary p) (tp_summary r), row_version := row_version r + 1\<rparr>"

definition update_topic :: "string \<Rightarrow> topic_patch \<Rightarrow> expectation option \<Rightarrow> (topic_row, topic_row) edit_result tx" where
  "update_topic i p x =
     tbind (topic_by_id i) (\<lambda>ro. case ro of
       None \<Rightarrow> treturn Missing
     | Some old \<Rightarrow>
         if stale_version x old then treturn (Conflict old)
         else if topic_patch_empty p then treturn (Edited old) else
         tbind (db_run (update_stmt db_topics db_topics_update (has_id i) (patched_topic p))) (\<lambda>_.
         tbind (topic_by_id i) (\<lambda>ro'.
         tbind (treq TxMisuse ro') (\<lambda>fresh.
         tbind (if overwrites x then
             record_overwrite ''session_topics'' i (row_version old) (AuditTopic old) (Some (AuditTopic fresh))
           else treturn ()) (\<lambda>_.
         treturn (Edited fresh))))))"

definition delete_topic :: "string \<Rightarrow> expectation option \<Rightarrow> (topic_row, bool) edit_result tx" where
  "delete_topic i x = (case x of
     None \<Rightarrow>
       tbind (db_run (delete_stmt db_topics db_topics_update (has_id i))) (\<lambda>n. treturn (Edited (0 < n)))
   | Some ex \<Rightarrow>
       tbind (topic_by_id i) (\<lambda>ro. case ro of
         None \<Rightarrow> treturn (Edited False)
       | Some old \<Rightarrow>
           if stale_version x old then treturn (Conflict old) else
           tbind (db_run (delete_stmt db_topics db_topics_update (has_id i))) (\<lambda>_.
           tbind (if ex_overwrite ex then
               record_overwrite ''session_topics'' i (row_version old) (AuditTopic old) None
             else treturn ()) (\<lambda>_.
           treturn (Edited True)))))"

definition delete_topics :: "string list \<Rightarrow> unit tx" where
  "delete_topics ids = (if ids = [] then treturn () else
     tbind (db_run (delete_stmt db_topics db_topics_update (\<lambda>r. row_id r \<in> set ids))) (\<lambda>_. treturn ()))"

lemma keeps_topic_store [keeps]:
  "preserves e (tracked d0) (topic_by_id i)"
  "preserves e (tracked d0) list_topics"
  "preserves e (tracked d0) (insert_topic t)"
  "preserves e (tracked d0) (update_topic i p x)"
  "preserves e (tracked d0) (delete_topic i x)"
  "preserves e (tracked d0) (delete_topics ids)"
  unfolding topic_by_id_def list_topics_def insert_topic_def update_topic_def delete_topic_def delete_topics_def
  by (intro keeps)+

lemma topic_by_id_eval [simp]: "topic_by_id i e s = (Inr (find_row i (db_topics (st_db s))), s)"
  by (simp add: topic_by_id_def)

lemma patched_topic_id [simp]: "row_id (patched_topic p r) = row_id r" "row_version (patched_topic p r) = row_version r + 1"
  by (simp_all add: patched_topic_def)

lemma db_run_topic_update_Inr:
  assumes "db_run (update_stmt db_topics db_topics_update p f) e s = (Inr n, s')"
  shows "db_topics (st_db s') = update_where p f (db_topics (st_db s))"
  using assms by (auto simp: db_run_Inr update_stmt_def advance_Inr split: if_splits)

lemma update_topic_lands:
  assumes f: "find_row i (db_topics (st_db s)) = Some r" and ns: "\<not> stale_version x r" and np: "\<not> topic_patch_empty p"
    and run: "update_topic i p x e s = (Inr out, s')"
  shows "out = Edited (patched_topic p r) \<and>
    db_topics (st_db s') = update_where (has_id i) (patched_topic p) (db_topics (st_db s))"
proof -
  from run f ns np obtain n s1 where
    w: "db_run (update_stmt db_topics db_topics_update (has_id i) (patched_topic p)) e s = (Inr n, s1)" and
    rest: "tbind (topic_by_id i) (\<lambda>ro'. tbind (treq TxMisuse ro') (\<lambda>fresh.
         tbind (if overwrites x then
             record_overwrite ''session_topics'' i (row_version r) (AuditTopic r) (Some (AuditTopic fresh))
           else treturn ()) (\<lambda>_. treturn (Edited fresh)))) e s1 = (Inr out, s')"
    unfolding update_topic_def
    by (auto simp: tbind_Inr [where m = "topic_by_id i"] tbind_Inr [where m = "db_run st" for st])
  note s1 = db_run_topic_update_Inr [OF w]
  have f1: "find_row i (db_topics (st_db s1)) = Some (patched_topic p r)"
    unfolding s1 by (simp add: find_row_update f)
  have "preserves e (holds db_topics (db_topics (st_db s1)))
      (if overwrites x then record_overwrite ''session_topics'' i (row_version r) (AuditTopic r)
         (Some (AuditTopic (patched_topic p r))) else treturn ())"
    by (intro keeps)
  moreover from rest f1 obtain u where "out = Edited (patched_topic p r)"
    "(if overwrites x then record_overwrite ''session_topics'' i (row_version r) (AuditTopic r)
         (Some (AuditTopic (patched_topic p r))) else treturn ()) e s1 = (Inr u, s')"
    by (auto simp: tbind_Inr treq_Inr)
  ultimately show ?thesis
    using preservesD [where J = "holds db_topics (db_topics (st_db s1))" and s = s1 and s' = s'] s1
    by (auto simp: holds_def)
qed

interpretation topic_edits: versioned_edits db_topics update_topic "\<lambda>p. \<not> topic_patch_empty p"
proof
  show "update_topic i p x e s = (Inr Missing, s)" if "find_row i (db_topics (st_db s)) = None" for i p x e s
    using that by (simp add: update_topic_def tbind_def treturn_def)
  show "(\<exists>v. out = Conflict v) \<and> s' = s"
    if "find_row i (db_topics (st_db s)) = Some r" "stale_version x r" "update_topic i p x e s = (Inr out, s')"
    for i s r x p e out s'
    using that by (auto simp: update_topic_def tbind_Inr)
  show "(\<exists>y. out = Edited y) \<and>
      (\<exists>r'. find_row i (db_topics (st_db s')) = Some r' \<and>
         row_version r' = row_version r + (if \<not> topic_patch_empty p then 1 else 0)) \<and>
      (\<forall>j. j \<noteq> i \<longrightarrow> find_row j (db_topics (st_db s')) = find_row j (db_topics (st_db s)))"
    if "find_row i (db_topics (st_db s)) = Some r" "\<not> stale_version x r" "update_topic i p x e s = (Inr out, s')"
    for i s r x p e out s'
  proof (cases "topic_patch_empty p")
    case True
    with that show ?thesis by (auto simp: update_topic_def tbind_Inr)
  next
    case False
    from update_topic_lands [OF that(1,2) False that(3)] that(1) False show ?thesis
      by (auto simp: find_row_update option.map_ident)
  qed
qed

end
