(* ===== verification/TranscriptStore.thy ===== *)
theory TranscriptStore
  imports StoreHelpers
begin

section \<open>The transcript\<close>

text \<open>
  packages/session-core/src/transcriptStore.ts: the transcript's words with their paragraphs and
  sentiment, edited one word at a time or replaced as a whole by a generation run.
\<close>

record word_data =
  wi_session_time :: string
  wi_speaker :: string
  wi_word :: string

record timed_word = word_data +
  wi_start :: num64
  wi_end :: num64

record paragraph_data =
  pi_start :: "num64 option"
  pi_end :: "num64 option"
  pi_speaker :: string
  pi_text :: string

record sentiment_data =
  si_start :: "num64 option"
  si_end :: "num64 option"
  si_sentiment :: string
  si_score :: num64
  si_text :: string

record enrichment =
  en_paragraphs :: "paragraph_data list"
  en_sentiment :: "sentiment_data list"

definition empty_enrichment :: enrichment where
  "empty_enrichment = \<lparr>en_paragraphs = [], en_sentiment = []\<rparr>"

record word_patch =
  wq_session_time :: "string option"
  wq_speaker :: "string option"
  wq_word :: "string option"

definition words_in_order :: "word_row list \<Rightarrow> word_row list" where
  "words_in_order t = order_by (\<lambda>r. (wd_ordinal r, row_id r)) t"

definition list_transcript_words :: "word_row list tx" where
  "list_transcript_words = tx_read (\<lambda>d. words_in_order (db_words d))"

definition word_by_id :: "string \<Rightarrow> word_row option tx" where
  "word_by_id i = tx_read (\<lambda>d. find_row i (db_words d))"

definition insert_transcript_word :: "word_data \<Rightarrow> word_row tx" where
  "insert_transcript_word w =
     tbind tx_uuid (\<lambda>wid.
     tbind (tx_read (\<lambda>d. next_ordinal (map wd_ordinal (db_words d)))) (\<lambda>ordinal.
     tbind now_iso (\<lambda>now.
     tbind (db_run (insert_stmt db_words db_words_update
         \<lparr>row_id = wid, row_version = 1, wd_session_time = wi_session_time w, wd_speaker = wi_speaker w,
          wd_word = wi_word w, wd_start = 0, wd_end = 0, wd_ordinal = ordinal, wd_created = now\<rparr>)) (\<lambda>_.
     tbind (word_by_id wid) (treq TxMisuse)))))"

definition word_patch_empty :: "word_patch \<Rightarrow> bool" where
  "word_patch_empty p \<longleftrightarrow> wq_session_time p = None \<and> wq_speaker p = None \<and> wq_word p = None"

definition patched_word :: "word_patch \<Rightarrow> word_row \<Rightarrow> word_row" where
  "patched_word p r = r\<lparr>wd_session_time := patched (wq_session_time p) (wd_session_time r),
     wd_speaker := patched (wq_speaker p) (wd_speaker r), wd_word := patched (wq_word p) (wd_word r),
     row_version := row_version r + 1\<rparr>"

definition update_transcript_word ::
  "string \<Rightarrow> word_patch \<Rightarrow> expectation option \<Rightarrow> (word_row, word_row) edit_result tx" where
  "update_transcript_word i p x =
     tbind (word_by_id i) (\<lambda>ro. case ro of
       None \<Rightarrow> treturn Missing
     | Some old \<Rightarrow>
         if stale_version x old then treturn (Conflict old)
         else if word_patch_empty p then treturn (Edited old) else
         tbind (db_run (update_stmt db_words db_words_update (has_id i) (patched_word p))) (\<lambda>_.
         tbind (word_by_id i) (\<lambda>ro'.
         tbind (treq TxMisuse ro') (\<lambda>fresh.
         tbind (if overwrites x then
             record_overwrite ''session_transcript_words'' i (row_version old) (AuditWord old) (Some (AuditWord fresh))
           else treturn ()) (\<lambda>_.
         treturn (Edited fresh))))))"

definition delete_transcript_word :: "string \<Rightarrow> expectation option \<Rightarrow> (word_row, bool) edit_result tx" where
  "delete_transcript_word i x = (case x of
     None \<Rightarrow>
       tbind (db_run (delete_stmt db_words db_words_update (has_id i))) (\<lambda>n. treturn (Edited (0 < n)))
   | Some ex \<Rightarrow>
       tbind (word_by_id i) (\<lambda>ro. case ro of
         None \<Rightarrow> treturn (Edited False)
       | Some old \<Rightarrow>
           if stale_version x old then treturn (Conflict old) else
           tbind (db_run (delete_stmt db_words db_words_update (has_id i))) (\<lambda>_.
           tbind (if ex_overwrite ex then
               record_overwrite ''session_transcript_words'' i (row_version old) (AuditWord old) None
             else treturn ()) (\<lambda>_.
           treturn (Edited True)))))"

text \<open>One \<open>INSERT ... SELECT\<close> of many rows: all of them or a unique violation.\<close>

fun insert_rows :: "('a id_row_scheme) list \<Rightarrow> ('a id_row_scheme) list \<Rightarrow> ('a id_row_scheme) list option" where
  "insert_rows [] t = Some t"
| "insert_rows (r # rs) t = (case insert_row r t of None \<Rightarrow> None | Some t' \<Rightarrow> insert_rows rs t')"

definition insert_many_stmt ::
  "(session_db \<Rightarrow> ('r id_row_scheme) list) \<Rightarrow> ('r id_row_scheme) table_upd \<Rightarrow> ('r id_row_scheme) list \<Rightarrow> stmt" where
  "insert_many_stmt get upd rs d = (case insert_rows rs (get d) of
     None \<Rightarrow> Inl UniqueViolation | Some t \<Rightarrow> Inr (upd (\<lambda>_. t) d, length rs))"

text \<open>The rows of an array: an id drawn for each, its position as ordinal.\<close>

definition numbered_rows :: "(string \<Rightarrow> int \<Rightarrow> 'a \<Rightarrow> 'r) \<Rightarrow> 'a list \<Rightarrow> 'r list tx" where
  "numbered_rows mk xs = tmap (\<lambda>(n, x). tbind tx_uuid (\<lambda>i. treturn (mk i (int n) x))) (enumerate 0 xs)"

definition replaced_word :: "iso \<Rightarrow> string \<Rightarrow> int \<Rightarrow> timed_word \<Rightarrow> word_row" where
  "replaced_word at_utc i n w = \<lparr>row_id = i, row_version = 1, wd_session_time = wi_session_time w,
     wd_speaker = wi_speaker w, wd_word = wi_word w, wd_start = wi_start w, wd_end = wi_end w,
     wd_ordinal = n, wd_created = at_utc\<rparr>"

definition replaced_paragraph :: "iso \<Rightarrow> string \<Rightarrow> int \<Rightarrow> paragraph_data \<Rightarrow> paragraph_row" where
  "replaced_paragraph at_utc i n p = \<lparr>row_id = i, pa_start = pi_start p, pa_end = pi_end p,
     pa_speaker = pi_speaker p, pa_text = pi_text p, pa_ordinal = n, pa_created = at_utc\<rparr>"

definition replaced_sentiment :: "iso \<Rightarrow> string \<Rightarrow> int \<Rightarrow> sentiment_data \<Rightarrow> sentiment_row" where
  "replaced_sentiment at_utc i n x = \<lparr>row_id = i, se_start = si_start x, se_end = si_end x,
     se_sentiment = si_sentiment x, se_score = si_score x, se_text = si_text x, se_ordinal = n, se_created = at_utc\<rparr>"

definition insert_numbered ::
  "(session_db \<Rightarrow> ('r id_row_scheme) list) \<Rightarrow> ('r id_row_scheme) table_upd \<Rightarrow>
   (string \<Rightarrow> int \<Rightarrow> 'a \<Rightarrow> 'r id_row_scheme) \<Rightarrow> 'a list \<Rightarrow> unit tx" where
  "insert_numbered get upd mk xs = (if xs = [] then treturn () else
     tbind (numbered_rows mk xs) (\<lambda>rows. tbind (db_run (insert_many_stmt get upd rows)) (\<lambda>_. treturn ())))"

definition replace_transcript_words :: "timed_word list \<Rightarrow> enrichment \<Rightarrow> word_row list tx" where
  "replace_transcript_words ws en =
     tbind (db_run (delete_stmt db_words db_words_update (\<lambda>_. True))) (\<lambda>_.
     tbind (db_run (delete_stmt db_paragraphs db_paragraphs_update (\<lambda>_. True))) (\<lambda>_.
     tbind (db_run (delete_stmt db_sentiment db_sentiment_update (\<lambda>_. True))) (\<lambda>_.
     tbind now_iso (\<lambda>created.
     tbind (insert_numbered db_words db_words_update (replaced_word created) ws) (\<lambda>_.
     tbind (insert_numbered db_paragraphs db_paragraphs_update (replaced_paragraph created) (en_paragraphs en)) (\<lambda>_.
     tbind (insert_numbered db_sentiment db_sentiment_update (replaced_sentiment created) (en_sentiment en)) (\<lambda>_.
     list_transcript_words)))))))"

definition list_transcript_enrichment :: "(paragraph_row list \<times> sentiment_row list) tx" where
  "list_transcript_enrichment =
     tbind (tx_read (\<lambda>d. order_by (\<lambda>r. (pa_ordinal r, row_id r)) (db_paragraphs d))) (\<lambda>ps.
     tbind (tx_read (\<lambda>d. order_by (\<lambda>r. (se_ordinal r, row_id r)) (db_sentiment d))) (\<lambda>ss.
     treturn (ps, ss)))"

subsection \<open>They keep the transaction invariant\<close>

lemma quiet_insert_many [keeps]: "quiet_table get upd \<Longrightarrow> quiet_stmt (insert_many_stmt get upd rs)"
  by (cases rs) (auto simp: quiet_stmt_def loud_stmt_def quiet_table_def loud_table_def insert_many_stmt_def split: option.splits)

lemma keeps_numbered_rows [keeps]: "preserves e (tracked d0) (numbered_rows mk xs)"
  unfolding numbered_rows_def by (intro keeps)

lemma keeps_insert_numbered [keeps]:
  "quiet_table get upd \<Longrightarrow> preserves e (tracked d0) (insert_numbered get upd mk xs)"
  unfolding insert_numbered_def by (intro keeps)

lemma keeps_transcript_store [keeps]:
  "preserves e (tracked d0) (word_by_id i)"
  "preserves e (tracked d0) list_transcript_words"
  "preserves e (tracked d0) (insert_transcript_word w)"
  "preserves e (tracked d0) (update_transcript_word i p x)"
  "preserves e (tracked d0) (delete_transcript_word i x)"
  "preserves e (tracked d0) list_transcript_enrichment"
  unfolding word_by_id_def list_transcript_words_def insert_transcript_word_def update_transcript_word_def
    delete_transcript_word_def list_transcript_enrichment_def
  by (intro keeps)+

lemma keeps_replace_transcript [keeps]: "preserves e (tracked d0) (replace_transcript_words ws en)"
  unfolding replace_transcript_words_def by (intro keeps)

subsection \<open>Edits of a word\<close>

lemma word_by_id_eval [simp]: "word_by_id i e s = (Inr (find_row i (db_words (st_db s))), s)"
  by (simp add: word_by_id_def)

lemma patched_word_id [simp]: "row_id (patched_word p r) = row_id r" "row_version (patched_word p r) = row_version r + 1"
  by (simp_all add: patched_word_def)

lemma db_run_word_update_Inr:
  assumes "db_run (update_stmt db_words db_words_update p f) e s = (Inr n, s')"
  shows "db_words (st_db s') = update_where p f (db_words (st_db s))"
  using assms by (auto simp: db_run_Inr update_stmt_def advance_Inr split: if_splits)

lemma update_word_lands:
  assumes f: "find_row i (db_words (st_db s)) = Some r" and ns: "\<not> stale_version x r" and np: "\<not> word_patch_empty p"
    and run: "update_transcript_word i p x e s = (Inr out, s')"
  shows "out = Edited (patched_word p r) \<and>
    db_words (st_db s') = update_where (has_id i) (patched_word p) (db_words (st_db s))"
proof -
  let ?audit = "if overwrites x then record_overwrite ''session_transcript_words'' i (row_version r) (AuditWord r)
         (Some (AuditWord (patched_word p r))) else treturn ()"
  from run f ns np obtain n s1 where
    w: "db_run (update_stmt db_words db_words_update (has_id i) (patched_word p)) e s = (Inr n, s1)" and
    rest: "tbind (word_by_id i) (\<lambda>ro'. tbind (treq TxMisuse ro') (\<lambda>fresh.
         tbind (if overwrites x then
             record_overwrite ''session_transcript_words'' i (row_version r) (AuditWord r) (Some (AuditWord fresh))
           else treturn ()) (\<lambda>_. treturn (Edited fresh)))) e s1 = (Inr out, s')"
    unfolding update_transcript_word_def
    by (auto simp: tbind_Inr [where m = "word_by_id i"] tbind_Inr [where m = "db_run st" for st])
  note s1 = db_run_word_update_Inr [OF w]
  have f1: "find_row i (db_words (st_db s1)) = Some (patched_word p r)"
    unfolding s1 by (simp add: find_row_update f)
  have "preserves e (holds db_words (db_words (st_db s1))) ?audit"
    by (intro keeps)
  moreover from rest f1 obtain u where "out = Edited (patched_word p r)" "?audit e s1 = (Inr u, s')"
    by (auto simp: tbind_Inr treq_Inr)
  ultimately show ?thesis
    using preservesD [where J = "holds db_words (db_words (st_db s1))" and s = s1 and s' = s'] s1
    by (auto simp: holds_def)
qed

interpretation word_edits: versioned_edits db_words update_transcript_word "\<lambda>p. \<not> word_patch_empty p"
proof
  show "update_transcript_word i p x e s = (Inr Missing, s)" if "find_row i (db_words (st_db s)) = None" for i p x e s
    using that by (simp add: update_transcript_word_def tbind_def treturn_def)
  show "(\<exists>v. out = Conflict v) \<and> s' = s"
    if "find_row i (db_words (st_db s)) = Some r" "stale_version x r" "update_transcript_word i p x e s = (Inr out, s')"
    for i s r x p e out s'
    using that by (auto simp: update_transcript_word_def tbind_Inr)
  show "(\<exists>y. out = Edited y) \<and>
      (\<exists>r'. find_row i (db_words (st_db s')) = Some r' \<and>
         row_version r' = row_version r + (if \<not> word_patch_empty p then 1 else 0)) \<and>
      (\<forall>j. j \<noteq> i \<longrightarrow> find_row j (db_words (st_db s')) = find_row j (db_words (st_db s)))"
    if "find_row i (db_words (st_db s)) = Some r" "\<not> stale_version x r" "update_transcript_word i p x e s = (Inr out, s')"
    for i s r x p e out s'
  proof (cases "word_patch_empty p")
    case True
    with that show ?thesis by (auto simp: update_transcript_word_def tbind_Inr)
  next
    case False
    from update_word_lands [OF that(1,2) False that(3)] that(1) False show ?thesis
      by (auto simp: find_row_update option.map_ident)
  qed
qed

subsection \<open>Replacing the transcript\<close>

lemma insert_rows_Some: "insert_rows rs t = Some t' \<Longrightarrow> t' = t @ rs"
proof (induction rs arbitrary: t)
  case (Cons a rs)
  then have "insert_rows rs (t @ [a]) = Some t'"
    by (auto simp: insert_row_def split: option.splits if_splits)
  from Cons.IH [OF this] show ?case by simp
qed simp

lemma tx_uuid_Inr: "tx_uuid e s = (Inr i, s') \<longleftrightarrow> i = env_uuid e (st_ids s) \<and> s' = s\<lparr>st_ids := Suc (st_ids s)\<rparr>"
  by (auto simp: tx_uuid_def)

lemma tmap_uuid:
  assumes "tmap (\<lambda>(n, x). tbind tx_uuid (\<lambda>i. treturn (mk i (int n) x))) (enumerate k xs) e s = (Inr rows, s')"
  shows "st_db s' = st_db s \<and> list_all2 (\<lambda>(n, x) r. \<exists>i. r = mk i (int n) x) (enumerate k xs) rows"
  using assms
proof (induction xs arbitrary: k s rows)
  case (Cons x xs)
  then obtain ys where
    r: "rows = mk (env_uuid e (st_ids s)) (int k) x # ys" and
    t: "tmap (\<lambda>(n, x). tbind tx_uuid (\<lambda>i. treturn (mk i (int n) x))) (enumerate (Suc k) xs) e
      (s\<lparr>st_ids := Suc (st_ids s)\<rparr>) = (Inr ys, s')"
    by (auto simp: tbind_Inr tx_uuid_Inr)
  from Cons.IH [OF t] r show ?case by auto
qed simp

lemma db_run_delete_all:
  assumes "db_run (delete_stmt get upd (\<lambda>_. True)) e s = (Inr n, s')" "catalog_free g"
  shows "g (st_db s') = g (upd (\<lambda>_. []) (st_db s))"
proof -
  from assms(1) obtain d where d: "d = upd (delete_where (\<lambda>_. True)) (st_db s)"
    and s': "if n = 0 then s' = s\<lparr>st_db := d\<rparr> else (\<exists>r. advance_revision e (s\<lparr>st_db := d\<rparr>) = (Inr r, s'))"
    unfolding db_run_Inr by (auto simp: delete_stmt_def)
  have "delete_where (\<lambda>_. True) = (\<lambda>_ :: 'a list. [])"
    by (simp add: fun_eq_iff delete_where_def)
  with s' assms(2) show ?thesis
    by (auto simp: d advance_Inr catalog_free_def split: if_splits)
qed

text \<open>Rows numbered from 0 in array position.\<close>

definition numbered :: "(string \<Rightarrow> int \<Rightarrow> 'a \<Rightarrow> 'r) \<Rightarrow> 'a list \<Rightarrow> 'r list \<Rightarrow> bool" where
  "numbered mk xs rows \<longleftrightarrow> list_all2 (\<lambda>(n, x) r. \<exists>i. r = mk i (int n) x) (enumerate 0 xs) rows"

lemma insert_numbered_Inr:
  assumes "insert_numbered get upd mk xs e s = (Inr u, s')" and "get (st_db s) = []"
    and "\<And>d f. get (upd f d) = f (get d)" "catalog_free get"
  shows "numbered mk xs (get (st_db s'))"
proof (cases "xs = []")
  case True
  with assms show ?thesis by (simp add: insert_numbered_def numbered_def)
next
  case False
  with assms(1) obtain rows s1 n where
    r: "numbered_rows mk xs e s = (Inr rows, s1)" and
    run: "db_run (insert_many_stmt get upd rows) e s1 = (Inr n, s')"
    by (auto simp: insert_numbered_def tbind_Inr)
  from tmap_uuid [OF r [unfolded numbered_rows_def]] have
    s1: "st_db s1 = st_db s" and num: "numbered mk xs rows"
    by (auto simp: numbered_def)
  from run obtain d where d: "insert_many_stmt get upd rows (st_db s1) = Inr (d, n)"
    and s': "if n = 0 then s' = s1\<lparr>st_db := d\<rparr> else (\<exists>r. advance_revision e (s1\<lparr>st_db := d\<rparr>) = (Inr r, s'))"
    unfolding db_run_Inr by blast
  from d have "get d = rows"
    using assms(2,3) s1 by (auto simp: insert_many_stmt_def split: option.splits dest: insert_rows_Some)
  moreover have "get (st_db s') = get d"
    using s' assms(4) by (auto simp: advance_Inr catalog_free_def split: if_splits)
  ultimately show ?thesis using num by simp
qed

lemma insert_numbered_alone:
  assumes "insert_numbered get upd mk xs e s = (Inr u, s')" "\<And>d f. g (upd f d) = g d" "catalog_free g"
  shows "g (st_db s') = g (st_db s)"
proof -
  have "stmt_keeps g (insert_many_stmt get upd rows)" for rows
    using assms(2) by (auto simp: stmt_keeps_def insert_many_stmt_def split: option.splits)
  then have "preserves e (holds g (g (st_db s))) (insert_numbered get upd mk xs)"
    unfolding insert_numbered_def numbered_rows_def
    by (intro keeps holds_db_run assms(3))
  from preservesD [OF this, of s] assms(1) show ?thesis by (simp add: holds_def)
qed

lemma numbered_length: "numbered mk xs rows \<Longrightarrow> length rows = length xs"
  by (auto simp: numbered_def dest: list_all2_lengthD)

lemma numbered_nth: "numbered mk xs rows \<Longrightarrow> n < length xs \<Longrightarrow> \<exists>i. rows ! n = mk i (int n) (xs ! n)"
  by (auto simp: numbered_def list_all2_conv_all_nth nth_enumerate_eq)

lemma numbered_order:
  assumes "numbered (replaced_word c) ws rows"
  shows "words_in_order rows = rows" "map wd_ordinal rows = map int [0..<length ws]"
proof -
  show m: "map wd_ordinal rows = map int [0..<length ws]"
  proof (rule nth_equalityI)
    fix i assume "i < length (map wd_ordinal rows)"
    then show "map wd_ordinal rows ! i = map int [0..<length ws] ! i"
      using numbered_nth [OF assms, of i] numbered_length [OF assms] by (auto simp: replaced_word_def)
  qed (simp add: numbered_length [OF assms])
  have "sorted (map (\<lambda>r. (wd_ordinal r, row_id r)) rows)"
    unfolding sorted_iff_nth_mono_less
  proof (intro allI impI)
    fix i j
    assume ij: "i < j" "j < length (map (\<lambda>r. (wd_ordinal r, row_id r)) rows)"
    then have "wd_ordinal (rows ! i) = int i" "wd_ordinal (rows ! j) = int j"
      using numbered_nth [OF assms, of i] numbered_nth [OF assms, of j] numbered_length [OF assms]
      by (auto simp: replaced_word_def)
    with ij show "map (\<lambda>r. (wd_ordinal r, row_id r)) rows ! i \<le> map (\<lambda>r. (wd_ordinal r, row_id r)) rows ! j"
      by (auto simp: less_eq_prod_def)
  qed
  then show "words_in_order rows = rows"
    by (simp add: words_in_order_def order_by_def sort_key_id_if_sorted)
qed

text \<open>replacing the transcript. When it returns, the stored words are exactly the given ones in the
  given order with ordinals 0, 1, 2 and so on, every one at version 1, the paragraphs and the sentiment
  are the given ones in the same way, nothing of the previous transcript is left, and the answer is the
  stored words.\<close>

theorem replace_transcript_words_correct:
  assumes "replace_transcript_words ws en e s = (Inr out, s')"
  shows "\<exists>created. out = db_words (st_db s') \<and> numbered (replaced_word created) ws out \<and>
    map wd_ordinal out = map int [0..<length ws] \<and>
    numbered (replaced_paragraph created) (en_paragraphs en) (db_paragraphs (st_db s')) \<and>
    numbered (replaced_sentiment created) (en_sentiment en) (db_sentiment (st_db s'))"
proof -
  from assms obtain n1 n2 n3 s1 s2 s3 created s4 s5 s6 where
    d1: "db_run (delete_stmt db_words db_words_update (\<lambda>_. True)) e s = (Inr n1, s1)" and
    d2: "db_run (delete_stmt db_paragraphs db_paragraphs_update (\<lambda>_. True)) e s1 = (Inr n2, s2)" and
    d3: "db_run (delete_stmt db_sentiment db_sentiment_update (\<lambda>_. True)) e s2 = (Inr n3, s3)" and
    nw: "now_iso e s3 = (Inr created, s4)" and
    i1: "insert_numbered db_words db_words_update (replaced_word created) ws e s4 = (Inr (), s5)" and
    i2: "insert_numbered db_paragraphs db_paragraphs_update (replaced_paragraph created) (en_paragraphs en) e s5 = (Inr (), s6)" and
    i3: "insert_numbered db_sentiment db_sentiment_update (replaced_sentiment created) (en_sentiment en) e s6 = (Inr (), s')" and
    out: "out = words_in_order (db_words (st_db s'))"
    by (auto simp: replace_transcript_words_def tbind_Inr list_transcript_words_def)
  note del = db_run_delete_all [OF d1] db_run_delete_all [OF d2] db_run_delete_all [OF d3]
  have s4: "st_db s4 = st_db s3" using nw by (auto simp: now_iso_def tx_now_def tbind_Inr)
  have e4: "db_words (st_db s4) = []" "db_paragraphs (st_db s4) = []" "db_sentiment (st_db s4) = []"
    unfolding s4 by (simp_all add: del catalog_free_def)
  have e5: "db_paragraphs (st_db s5) = []" "db_sentiment (st_db s5) = []"
    using insert_numbered_alone [OF i1, of db_paragraphs] insert_numbered_alone [OF i1, of db_sentiment] e4
    by (simp_all add: catalog_free_def)
  have e6: "db_sentiment (st_db s6) = []" "db_words (st_db s6) = db_words (st_db s5)"
    using insert_numbered_alone [OF i2, of db_sentiment] insert_numbered_alone [OF i2, of db_words] e5
    by (simp_all add: catalog_free_def)
  have w: "db_words (st_db s') = db_words (st_db s5)" and q: "db_paragraphs (st_db s') = db_paragraphs (st_db s6)"
    using insert_numbered_alone [OF i3, of db_words] insert_numbered_alone [OF i3, of db_paragraphs] e6
    by (simp_all add: catalog_free_def)
  have w5: "numbered (replaced_word created) ws (db_words (st_db s5))"
    by (rule insert_numbered_Inr [OF i1 e4(1)]) (simp_all add: catalog_free_def)
  have q6: "numbered (replaced_paragraph created) (en_paragraphs en) (db_paragraphs (st_db s6))"
    by (rule insert_numbered_Inr [OF i2 e5(1)]) (simp_all add: catalog_free_def)
  have z: "numbered (replaced_sentiment created) (en_sentiment en) (db_sentiment (st_db s'))"
    by (rule insert_numbered_Inr [OF i3 e6(1)]) (simp_all add: catalog_free_def)
  show ?thesis
    using numbered_order [OF w5] w5 q6 z unfolding out w q by auto
qed

theorem replace_transcript_words_correct_witness:
  "(let w = \<lparr>wi_session_time = [], wi_speaker = ''A'', wi_word = ''hello'', wi_start = 1, wi_end = 2\<rparr>;
        r = replace_transcript_words [w, w\<lparr>wi_word := ''world''\<rparr>] empty_enrichment (sample_env ''u'') (begin_tx sample_db 0 0)
    in \<exists>out s'. r = (Inr out, s') \<and> map wd_ordinal out = [0, 1] \<and> db_words (st_db s') = out)"
proof -
  let ?w = "\<lparr>wi_session_time = [], wi_speaker = ''A'', wi_word = ''hello'', wi_start = 1, wi_end = 2\<rparr> :: timed_word"
  let ?r = "replace_transcript_words [?w, ?w\<lparr>wi_word := ''world''\<rparr>] empty_enrichment (sample_env ''u'') (begin_tx sample_db 0 0)"
  have "\<not> isl (fst ?r)"
    by (simp add: replace_transcript_words_def insert_numbered_def numbered_rows_def insert_many_stmt_def
        list_transcript_words_def empty_enrichment_def replaced_word_def run_simps cong: run_bind_cong)
  from run_returns [OF this] obtain out s' where r: "?r = (Inr out, s')" by blast
  from replace_transcript_words_correct [OF r] show ?thesis
    unfolding Let_def r by auto
qed

end
