(* ===== verification/EventAnchors.thy ===== *)
theory EventAnchors
  imports SessionData
begin

section \<open>The wall time of a timecode\<close>

text \<open>
  packages/session-core/src/eventAnchors.ts: anchors between session timecodes and wall times taken
  from the stored events, and the wall time of a generated event by interpolation between them.
  Timecodes and walls are integers (frames, milliseconds); the interpolation is binary64 arithmetic.
  The model takes finite timecodes, the precondition the code states (its guards for non-finite
  input have no counterpart).
\<close>

record wall_anchor =
  an_tc :: int
  an_lo :: int
  an_hi :: int

record anchor_session =
  as_rate :: num64
  as_offset :: int
  as_started :: "string option"

subsection \<open>Normalisation\<close>

definition merge_step :: "wall_anchor list \<Rightarrow> wall_anchor \<Rightarrow> wall_anchor list" where
  "merge_step acc a = (let lo = min (an_lo a) (an_hi a); hi = max (an_lo a) (an_hi a) in
     case acc of
       [] \<Rightarrow> [\<lparr>an_tc = an_tc a, an_lo = lo, an_hi = hi\<rparr>]
     | p # ps \<Rightarrow> if an_tc p = an_tc a
         then p\<lparr>an_lo := min (an_lo p) lo, an_hi := max (an_hi p) hi\<rparr> # ps
         else \<lparr>an_tc = an_tc a, an_lo = lo, an_hi = hi\<rparr> # p # ps)"

fun clamp_anchors :: "int option \<Rightarrow> wall_anchor list \<Rightarrow> wall_anchor list" where
  "clamp_anchors m [] = []"
| "clamp_anchors m (a # as) = (let
     lo = (case m of None \<Rightarrow> an_lo a | Some w \<Rightarrow> max (an_lo a) w);
     hi = max (an_hi a) lo
   in a\<lparr>an_lo := lo, an_hi := hi\<rparr> # clamp_anchors (Some hi) as)"

definition normalize_anchors :: "wall_anchor list \<Rightarrow> wall_anchor list" where
  "normalize_anchors as = clamp_anchors None (rev (foldl merge_step [] (sort_key an_tc as)))"

text \<open>The anchors of the event rows that have a timecode and a readable wall time.\<close>

definition anchor_of_event :: "event_rpc \<Rightarrow> wall_anchor option" where
  "anchor_of_event ev = (case (timecode_total_frames ev, parse_utc_ms (Some (wall_time_utc ev))) of
     (Some tf, Some w) \<Rightarrow> Some \<lparr>an_tc = tf, an_lo = w, an_hi = w\<rparr> | _ \<Rightarrow> None)"

definition timecode_wall_anchors :: "event_rpc list \<Rightarrow> wall_anchor list" where
  "timecode_wall_anchors evs = normalize_anchors (List.map_filter anchor_of_event evs)"

subsection \<open>Interpolation\<close>

definition ms_per_frame :: "num64 \<Rightarrow> num64" where
  "ms_per_frame r = dbl_div 1000 (if 0 < r then r else 24)"

definition wall_no_anchor :: "anchor_session \<Rightarrow> int \<Rightarrow> int" where
  "wall_no_anchor se tc = (let base = (case parse_utc_ms (as_started se) of None \<Rightarrow> 0 | Some t \<Rightarrow> t) in
     js_round (dbl_add (of_int base) (dbl_mul (of_int (tc - as_offset se)) (ms_per_frame (as_rate se)))))"

definition wall_below :: "num64 \<Rightarrow> wall_anchor \<Rightarrow> int \<Rightarrow> int" where
  "wall_below mpf a tc = js_round (dbl_sub (of_int (an_lo a)) (dbl_mul (of_int (an_tc a - tc)) mpf))"

definition wall_above :: "num64 \<Rightarrow> wall_anchor \<Rightarrow> int \<Rightarrow> int" where
  "wall_above mpf a tc = js_round (dbl_add (of_int (an_hi a)) (dbl_mul (of_int (tc - an_tc a)) mpf))"

definition wall_between :: "wall_anchor \<Rightarrow> wall_anchor \<Rightarrow> int \<Rightarrow> int" where
  "wall_between a b tc = js_round (dbl_add (of_int (an_hi a))
     (dbl_mul (dbl_div (of_int (tc - an_tc a)) (of_int (an_tc b - an_tc a))) (of_int (an_lo b - an_hi a))))"

text \<open>The loop over the segments; past the last one it answers the last wall (never reached).\<close>

fun wall_segments :: "int \<Rightarrow> wall_anchor list \<Rightarrow> int" where
  "wall_segments tc (a # b # as) = (if tc \<le> an_tc b then wall_between a b tc else wall_segments tc (b # as))"
| "wall_segments tc [a] = js_round (of_int (an_hi a))"
| "wall_segments tc [] = 0"

definition wall_of_normal :: "int \<Rightarrow> wall_anchor list \<Rightarrow> anchor_session \<Rightarrow> int" where
  "wall_of_normal tc as se = (if as = [] then wall_no_anchor se tc
     else if tc \<le> an_tc (hd as) then wall_below (ms_per_frame (as_rate se)) (hd as) tc
     else if an_tc (last as) \<le> tc then wall_above (ms_per_frame (as_rate se)) (last as) tc
     else wall_segments tc as)"

definition wall_ms_for_timecode :: "int \<Rightarrow> wall_anchor list \<Rightarrow> anchor_session \<Rightarrow> int" where
  "wall_ms_for_timecode tc as se = wall_of_normal tc (normalize_anchors as) se"

text \<open>Rendered as the stored text; None is the \<open>RangeError\<close> of \<open>toISOString\<close>.\<close>

definition wall_time_utc_for_timecode :: "int \<Rightarrow> wall_anchor list \<Rightarrow> anchor_session \<Rightarrow> iso option" where
  "wall_time_utc_for_timecode tc as se = (let t = wall_ms_for_timecode tc as se in
     if valid_time t then Some (iso_z t) else None)"

subsection \<open>Normalised anchors\<close>

fun anchors_ok :: "wall_anchor list \<Rightarrow> bool" where
  "anchors_ok (a # b # as) \<longleftrightarrow> an_lo a \<le> an_hi a \<and> an_tc a < an_tc b \<and> an_hi a \<le> an_lo b \<and> anchors_ok (b # as)"
| "anchors_ok [a] \<longleftrightarrow> an_lo a \<le> an_hi a"
| "anchors_ok [] \<longleftrightarrow> True"

lemma merge_fold_tcs:
  assumes "sorted (map an_tc as)" "sorted_wrt (\<lambda>x y. y < x) (map an_tc acc)"
    and "\<forall>a\<in>set as. \<forall>p\<in>set acc. an_tc p \<le> an_tc a"
  shows "sorted_wrt (\<lambda>x y. y < x) (map an_tc (foldl merge_step acc as))"
  using assms
proof (induction as arbitrary: acc)
  case (Cons a as)
  have le: "\<forall>p\<in>set acc. an_tc p \<le> an_tc a" using Cons.prems(3) by simp
  have s: "sorted_wrt (\<lambda>x y. y < x) (map an_tc (merge_step acc a))"
  proof (cases acc)
    case Nil
    then show ?thesis by (simp add: merge_step_def Let_def)
  next
    case (Cons p ps)
    with Cons.prems(2) le show ?thesis
      by (auto simp: merge_step_def Let_def Cons less_le)
  qed
  have "\<forall>x\<in>set (merge_step acc a). an_tc x \<le> an_tc a"
    using le by (auto simp: merge_step_def Let_def split: list.splits if_splits)
  then have "\<forall>b\<in>set as. \<forall>p\<in>set (merge_step acc a). an_tc p \<le> an_tc b"
    using Cons.prems(1) by (auto intro: order_trans)
  with Cons.IH [OF _ s] Cons.prems(1) show ?case by simp
qed simp

lemma clamp_ok:
  assumes "sorted_wrt (<) (map an_tc as)"
  shows "anchors_ok (clamp_anchors m as) \<and>
    (as \<noteq> [] \<longrightarrow> an_tc (hd (clamp_anchors m as)) = an_tc (hd as) \<and>
       (\<forall>w. m = Some w \<longrightarrow> w \<le> an_lo (hd (clamp_anchors m as))))"
  using assms
proof (induction m as rule: clamp_anchors.induct)
  case (2 m a as)
  let ?lo = "case m of None \<Rightarrow> an_lo a | Some w \<Rightarrow> max (an_lo a) w"
  let ?hi = "max (an_hi a) ?lo"
  have s: "sorted_wrt (<) (map an_tc as)" using "2.prems" by simp
  from "2.IH" [OF refl refl s] show ?case
    using "2.prems" by (cases as) (auto simp: Let_def split: option.splits)
qed simp

lemma normalize_anchors_ok: "anchors_ok (normalize_anchors as)"
proof -
  have "sorted_wrt (\<lambda>x y. y < x) (map an_tc (foldl merge_step [] (sort_key an_tc as)))"
    by (rule merge_fold_tcs) simp_all
  then have "sorted_wrt (<) (map an_tc (rev (foldl merge_step [] (sort_key an_tc as))))"
    by (simp add: rev_map [symmetric] sorted_wrt_rev)
  then show ?thesis
    unfolding normalize_anchors_def using clamp_ok by blast
qed

text \<open>Normal anchors are left as they are.\<close>

lemma anchors_ok_sorted: "anchors_ok as \<Longrightarrow> sorted_wrt (<) (map an_tc as)"
proof (induction as rule: anchors_ok.induct)
  case (1 a b as)
  then show ?case by (auto intro: less_trans)
qed simp_all

lemma merge_fold_normal:
  assumes "anchors_ok as" "acc \<noteq> [] \<longrightarrow> as \<noteq> [] \<longrightarrow> an_tc (hd acc) < an_tc (hd as)"
  shows "foldl merge_step acc as = rev as @ acc"
  using assms
proof (induction as arbitrary: acc rule: anchors_ok.induct)
  case (1 a b as)
  have "merge_step acc a = a # acc"
    using "1.prems" by (cases acc) (auto simp: merge_step_def Let_def)
  with 1 show ?case by simp
next
  case (2 a)
  then show ?case by (cases acc) (auto simp: merge_step_def Let_def)
qed simp

lemma clamp_head:
  assumes "an_lo a \<le> an_hi a" "\<And>w. m = Some w \<Longrightarrow> w \<le> an_lo a"
  shows "clamp_anchors m (a # as) = a # clamp_anchors (Some (an_hi a)) as"
proof -
  have "(case m of None \<Rightarrow> an_lo a | Some w \<Rightarrow> max (an_lo a) w) = an_lo a"
    using assms(2) by (cases m) (simp_all add: max_def)
  moreover have "max (an_hi a) (an_lo a) = an_hi a"
    using assms(1) by simp
  ultimately show ?thesis by (simp add: Let_def)
qed

lemma clamp_normal:
  assumes "anchors_ok as" "\<And>w. m = Some w \<Longrightarrow> as \<noteq> [] \<Longrightarrow> w \<le> an_lo (hd as)"
  shows "clamp_anchors m as = as"
  using assms
proof (induction as arbitrary: m rule: anchors_ok.induct)
  case (1 a b as)
  have "clamp_anchors (Some (an_hi a)) (b # as) = b # as"
    by (rule "1.IH") (use "1.prems"(1) in auto)
  moreover have "clamp_anchors m (a # b # as) = a # clamp_anchors (Some (an_hi a)) (b # as)"
    by (rule clamp_head) (use "1.prems" in auto)
  ultimately show ?case by simp
next
  case (2 a)
  then show ?case by (subst clamp_head) auto
qed simp

lemma normalize_normal: "anchors_ok as \<Longrightarrow> normalize_anchors as = as"
proof -
  assume ok: "anchors_ok as"
  have "sorted (map an_tc as)"
    using anchors_ok_sorted [OF ok] by (rule strict_sorted_imp_sorted)
  then have "sort_key an_tc as = as" by (rule sort_key_id_if_sorted)
  then show ?thesis
    using merge_fold_normal [OF ok, of "[]"] clamp_normal [OF ok, of None]
    by (simp add: normalize_anchors_def)
qed

text \<open>the anchors are an increasing chain of intervals. Whatever walls the event rows carry, the
  normalised anchors have strictly increasing timecodes, each a non-empty interval of walls that starts
  no earlier than the previous one ends, and normalising them again changes nothing.\<close>

theorem normalize_anchors_correct:
  "anchors_ok (normalize_anchors as) \<and> normalize_anchors (normalize_anchors as) = normalize_anchors as"
  using normalize_normal [OF normalize_anchors_ok] normalize_anchors_ok by blast

subsection \<open>The interpolated wall is monotone\<close>

definition anchors_bounded :: "wall_anchor list \<Rightarrow> bool" where
  "anchors_bounded as \<longleftrightarrow> (\<forall>a\<in>set as. \<bar>an_lo a\<bar> \<le> 2 ^ 51 \<and> \<bar>an_hi a\<bar> \<le> 2 ^ 51)"

lemma fl_int: "\<bar>n\<bar> \<le> 2 ^ 53 \<Longrightarrow> fl (of_int n) = of_int n"
  by (rule fl_of_int)

lemma mpf_pos: "0 \<le> ms_per_frame r"
  by (simp add: ms_per_frame_def dbl_div_def fl_nonneg)

lemma wall_below_mono:
  assumes "t \<le> t'" "0 \<le> m"
  shows "wall_below m a t \<le> wall_below m a t'"
proof -
  have "dbl_mul (of_int (an_tc a - t')) m \<le> dbl_mul (of_int (an_tc a - t)) m"
    unfolding dbl_mul_def using assms by (intro fl_mono mult_right_mono) simp_all
  then show ?thesis
    unfolding wall_below_def dbl_sub_def by (intro js_round_mono fl_mono) simp
qed

lemma wall_below_le:
  assumes "t \<le> an_tc a" "0 \<le> m" "\<bar>an_lo a\<bar> \<le> 2 ^ 51"
  shows "wall_below m a t \<le> an_lo a"
proof -
  have "wall_below m a t \<le> wall_below m a (an_tc a)" by (rule wall_below_mono [OF assms(1,2)])
  also have "\<dots> = an_lo a"
    using assms(3) by (simp add: wall_below_def dbl_sub_def dbl_mul_def fl_int)
  finally show ?thesis .
qed

lemma wall_above_mono:
  assumes "t \<le> t'" "0 \<le> m"
  shows "wall_above m a t \<le> wall_above m a t'"
proof -
  have "dbl_mul (of_int (t - an_tc a)) m \<le> dbl_mul (of_int (t' - an_tc a)) m"
    unfolding dbl_mul_def using assms by (intro fl_mono mult_right_mono) simp_all
  then show ?thesis
    unfolding wall_above_def dbl_add_def by (intro js_round_mono fl_mono) simp
qed

lemma wall_above_ge:
  assumes "an_tc a \<le> t" "0 \<le> m" "\<bar>an_hi a\<bar> \<le> 2 ^ 51"
  shows "an_hi a \<le> wall_above m a t"
proof -
  have "an_hi a = wall_above m a (an_tc a)"
    using assms(3) by (simp add: wall_above_def dbl_add_def dbl_mul_def fl_int)
  also have "\<dots> \<le> wall_above m a t" by (rule wall_above_mono [OF assms(1,2)])
  finally show ?thesis .
qed

lemma wall_between_mono:
  assumes "t \<le> t'" "an_tc a < an_tc b" "an_hi a \<le> an_lo b"
  shows "wall_between a b t \<le> wall_between a b t'"
proof -
  have "dbl_div (of_int (t - an_tc a)) (of_int (an_tc b - an_tc a))
      \<le> dbl_div (of_int (t' - an_tc a)) (of_int (an_tc b - an_tc a))"
    unfolding dbl_div_def using assms by (intro fl_mono divide_right_mono) simp_all
  then have "dbl_mul (dbl_div (of_int (t - an_tc a)) (of_int (an_tc b - an_tc a))) (of_int (an_lo b - an_hi a))
      \<le> dbl_mul (dbl_div (of_int (t' - an_tc a)) (of_int (an_tc b - an_tc a))) (of_int (an_lo b - an_hi a))"
    unfolding dbl_mul_def using assms(3) by (intro fl_mono mult_right_mono) simp_all
  then show ?thesis
    unfolding wall_between_def dbl_add_def by (intro js_round_mono fl_mono) simp
qed

lemma fl_1 [simp]: "fl 1 = 1"
  using fl_int [of 1] by simp

lemma wall_between_ends:
  assumes "an_tc a < an_tc b" "an_hi a \<le> an_lo b" "\<bar>an_hi a\<bar> \<le> 2 ^ 51" "\<bar>an_lo b\<bar> \<le> 2 ^ 51"
  shows "wall_between a b (an_tc a) = an_hi a" "wall_between a b (an_tc b) = an_lo b"
proof -
  show "wall_between a b (an_tc a) = an_hi a"
    using assms(3) by (simp add: wall_between_def dbl_add_def dbl_mul_def dbl_div_def fl_int)
  have "(of_int (an_tc b - an_tc a) :: rat) / of_int (an_tc b - an_tc a) = 1"
    using assms(1) by simp
  then have "dbl_div (of_int (an_tc b - an_tc a)) (of_int (an_tc b - an_tc a)) = 1"
    by (simp add: dbl_div_def)
  moreover have "fl (of_int (an_lo b - an_hi a)) = of_int (an_lo b - an_hi a)"
    by (rule fl_int) (use assms in simp)
  ultimately show "wall_between a b (an_tc b) = an_lo b"
    using fl_int [of "an_lo b"] assms(4)
    unfolding wall_between_def dbl_add_def dbl_mul_def by simp
qed

lemma wall_between_range:
  assumes "an_tc a < an_tc b" "an_hi a \<le> an_lo b" "\<bar>an_hi a\<bar> \<le> 2 ^ 51" "\<bar>an_lo b\<bar> \<le> 2 ^ 51"
    and "an_tc a \<le> t" "t \<le> an_tc b"
  shows "an_hi a \<le> wall_between a b t" "wall_between a b t \<le> an_lo b"
  using wall_between_mono [OF assms(5,1,2)] wall_between_mono [OF assms(6,1,2)] wall_between_ends [OF assms(1-4)]
  by auto

lemma anchors_bounded_Cons [simp]:
  "anchors_bounded (a # as) \<longleftrightarrow> \<bar>an_lo a\<bar> \<le> 2 ^ 51 \<and> \<bar>an_hi a\<bar> \<le> 2 ^ 51 \<and> anchors_bounded as"
  by (auto simp: anchors_bounded_def)

lemma anchors_ok_ends:
  "anchors_ok as \<Longrightarrow> as \<noteq> [] \<Longrightarrow> an_lo (hd as) \<le> an_hi (hd as) \<and> an_lo (hd as) \<le> an_lo (last as) \<and>
     an_hi (hd as) \<le> an_hi (last as) \<and> an_tc (hd as) \<le> an_tc (last as) \<and> an_lo (last as) \<le> an_hi (last as)"
proof (induction as rule: anchors_ok.induct)
  case (1 a b as)
  then show ?case by auto
qed auto

text \<open>Between the first and the last anchor the wall lies between theirs, and grows.\<close>

lemma wall_segments_range:
  assumes "anchors_ok as" "anchors_bounded as" "as \<noteq> []" "an_tc (hd as) < t" "t < an_tc (last as)"
  shows "an_hi (hd as) \<le> wall_segments t as \<and> wall_segments t as \<le> an_lo (last as)"
  using assms
proof (induction t as rule: wall_segments.induct)
  case (1 t a b as)
  have ab: "an_tc a < an_tc b" "an_hi a \<le> an_lo b" "an_lo b \<le> an_hi b"
    "\<bar>an_hi a\<bar> \<le> 2 ^ 51" "\<bar>an_lo b\<bar> \<le> 2 ^ 51"
    using "1.prems" by (cases as; simp)+
  have lb: "an_lo b \<le> an_lo (last (b # as))"
    using anchors_ok_ends [of "b # as"] "1.prems"(1) by simp
  show ?case
  proof (cases "t \<le> an_tc b")
    case True
    with wall_between_range [OF ab(1,2,4,5), of t] lb "1.prems" show ?thesis by auto
  next
    case False
    with 1 ab show ?thesis by auto
  qed
qed auto

lemma wall_segments_mono:
  assumes "anchors_ok as" "anchors_bounded as" "as \<noteq> []" "an_tc (hd as) < t" "t \<le> t'" "t' < an_tc (last as)"
  shows "wall_segments t as \<le> wall_segments t' as"
  using assms
proof (induction t as rule: wall_segments.induct)
  case (1 t a b as)
  have ab: "an_tc a < an_tc b" "an_hi a \<le> an_lo b" "an_lo b \<le> an_hi b"
    "\<bar>an_hi a\<bar> \<le> 2 ^ 51" "\<bar>an_lo b\<bar> \<le> 2 ^ 51" "anchors_ok (b # as)" "anchors_bounded (b # as)"
    using "1.prems" by (cases as; simp)+
  consider "t' \<le> an_tc b" | "t \<le> an_tc b" "an_tc b < t'" | "an_tc b < t"
    using "1.prems"(5) by linarith
  then show ?case
  proof cases
    case 1
    with \<open>t \<le> t'\<close> wall_between_mono [OF \<open>t \<le> t'\<close> ab(1,2)] show ?thesis by simp
  next
    case 2
    have "wall_segments t (a # b # as) \<le> an_lo b"
      using 2 wall_between_range(2) [OF ab(1,2,4,5), of t] "1.prems"(4) by simp
    also have "\<dots> \<le> wall_segments t' (b # as)"
      using wall_segments_range [OF ab(6,7), of t'] 2 ab(3) "1.prems"(6) by auto
    finally show ?thesis using 2 by simp
  next
    case 3
    with "1.IH" [OF _ ab(6,7)] "1.prems" show ?thesis by auto
  qed
qed auto

lemma wall_of_normal_mono:
  assumes ok: "anchors_ok as" and bd: "anchors_bounded as" and le: "t \<le> t'"
  shows "wall_of_normal t as se \<le> wall_of_normal t' as se"
proof (cases "as = []")
  case True
  have "dbl_mul (of_int (t - as_offset se)) (ms_per_frame (as_rate se))
      \<le> dbl_mul (of_int (t' - as_offset se)) (ms_per_frame (as_rate se))"
    unfolding dbl_mul_def using le mpf_pos by (intro fl_mono mult_right_mono) simp_all
  then show ?thesis
    unfolding wall_of_normal_def wall_no_anchor_def dbl_add_def Let_def
    using True by (simp add: js_round_mono fl_mono)
next
  case False
  let ?m = "ms_per_frame (as_rate se)"
  note ends = anchors_ok_ends [OF ok False]
  have b: "\<bar>an_lo (hd as)\<bar> \<le> 2 ^ 51" "\<bar>an_hi (last as)\<bar> \<le> 2 ^ 51"
    using bd False by (auto simp: anchors_bounded_def)
  note seg = wall_segments_range [OF ok bd False]
  consider "t' \<le> an_tc (hd as)" | "t \<le> an_tc (hd as)" "an_tc (hd as) < t'" "an_tc (last as) \<le> t'"
    | "t \<le> an_tc (hd as)" "an_tc (hd as) < t'" "t' < an_tc (last as)"
    | "an_tc (hd as) < t" "an_tc (last as) \<le> t" | "an_tc (hd as) < t" "t < an_tc (last as)" "an_tc (last as) \<le> t'"
    | "an_tc (hd as) < t" "t' < an_tc (last as)"
    using le by linarith
  then show ?thesis
  proof cases
    case 1
    then show ?thesis using le False wall_below_mono [OF le mpf_pos] by (simp add: wall_of_normal_def)
  next
    case 2
    with False wall_below_le [OF 2(1) mpf_pos b(1), of "as_rate se"] wall_above_ge [OF 2(3) mpf_pos b(2), of "as_rate se"] ends show ?thesis
      unfolding wall_of_normal_def by auto
  next
    case 3
    with False wall_below_le [OF 3(1) mpf_pos b(1), of "as_rate se"] seg [OF 3(2,3)] ends show ?thesis
      unfolding wall_of_normal_def by auto
  next
    case 4
    with False le ends wall_above_mono [OF le mpf_pos] show ?thesis by (auto simp: wall_of_normal_def)
  next
    case 5
    with False seg [OF 5(1,2)] wall_above_ge [OF 5(3) mpf_pos b(2), of "as_rate se"] ends show ?thesis
      unfolding wall_of_normal_def by auto
  next
    case 6
    with False le wall_segments_mono [OF ok bd False] show ?thesis by (auto simp: wall_of_normal_def)
  qed
qed

text \<open>generated events keep their timecode order. For fixed anchors whose walls are within 2^51
  milliseconds of the epoch, the wall time computed for a timecode, in binary64 arithmetic with all its
  roundings, never decreases when the timecode grows.\<close>

theorem wall_ms_monotone:
  assumes "anchors_bounded (normalize_anchors as)" "t \<le> t'"
  shows "wall_ms_for_timecode t as se \<le> wall_ms_for_timecode t' as se"
  unfolding wall_ms_for_timecode_def by (rule wall_of_normal_mono [OF normalize_anchors_ok assms])

theorem wall_ms_monotone_witness:
  "wall_ms_for_timecode 24 [\<lparr>an_tc = 48, an_lo = 2000, an_hi = 2000\<rparr>, \<lparr>an_tc = 0, an_lo = 10, an_hi = 500\<rparr>]
      \<lparr>as_rate = 24, as_offset = 0, as_started = None\<rparr>
   \<le> wall_ms_for_timecode 47 [\<lparr>an_tc = 48, an_lo = 2000, an_hi = 2000\<rparr>, \<lparr>an_tc = 0, an_lo = 10, an_hi = 500\<rparr>]
      \<lparr>as_rate = 24, as_offset = 0, as_started = None\<rparr>"
proof (rule wall_ms_monotone)
  show "anchors_bounded (normalize_anchors [\<lparr>an_tc = 48, an_lo = 2000, an_hi = 2000\<rparr>, \<lparr>an_tc = 0, an_lo = 10, an_hi = 500\<rparr>])"
    by (simp add: normalize_anchors_def merge_step_def Let_def anchors_bounded_def)
qed simp

end
