(* ===== verification/MediaJobs.thy ===== *)
theory MediaJobs
  imports SessionData
begin

section \<open>The media job queue\<close>

text \<open>
  packages/storage/src/mediaJobs.ts over catalog.media_jobs: enqueueing, the worker's claim with its
  lease, the fenced writes of the holder (renew, finish, fail, release), the requeue of expired leases
  and the API's terminal marks. Each function is one statement on the table: it answers the table it
  leaves and whether (or how many) rows changed. Statements of different sessions and workers commit
  one after another, so an interleaving is a sequence of them (\<open>job_reach\<close>). \<open>pg_notify\<close> is not
  modelled: it only wakes a poller.
\<close>

text \<open>packages/storage/src/mediaLimits.ts.\<close>

definition media_job_lease_ms :: int where "media_job_lease_ms = 600000"
definition media_job_max_attempts :: nat where "media_job_max_attempts = 5"
definition media_job_backoff_base_ms :: int where "media_job_backoff_base_ms = 30000"
definition media_job_backoff_cap_ms :: int where "media_job_backoff_cap_ms = 3600000"

definition media_job_backoff_ms :: "int \<Rightarrow> int" where
  "media_job_backoff_ms attempts = (let n = max 1 attempts in
     min (media_job_backoff_base_ms * 2 ^ nat (n - 1)) media_job_backoff_cap_ms)"

definition live_status :: "job_status \<Rightarrow> bool" where
  "live_status st \<longleftrightarrow> st \<in> {Queued, Running, Done}"

definition same_work :: "job_kind \<Rightarrow> string \<Rightarrow> string \<Rightarrow> media_job \<Rightarrow> bool" where
  "same_work k s g j \<longleftrightarrow> jb_kind j = k \<and> jb_session j = s \<and> jb_target j = g"

record new_job =
  nj_id :: string
  nj_kind :: job_kind
  nj_session :: string
  nj_target :: string
  nj_bytes :: int
  nj_now :: int
  nj_max :: "nat option"

datatype job_error = JobKeyTaken | JobBytesNegative

text \<open>The insert with \<open>ON CONFLICT ... DO NOTHING\<close> on the live index; the primary key is not its arbiter.\<close>

definition enqueue_job :: "new_job \<Rightarrow> media_job list \<Rightarrow> job_error + (media_job list \<times> bool)" where
  "enqueue_job n t =
     (if nj_bytes n < 0 then Inl JobBytesNegative else
      if \<exists>j\<in>set t. same_work (nj_kind n) (nj_session n) (nj_target n) j \<and> live_status (jb_status j) then Inr (t, False) else
      case insert_row \<lparr>row_id = nj_id n, jb_kind = nj_kind n, jb_session = nj_session n, jb_target = nj_target n,
          jb_status = Queued, jb_attempts = 0,
          jb_max_attempts = (case nj_max n of None \<Rightarrow> media_job_max_attempts | Some m \<Rightarrow> m),
          jb_bytes = nj_bytes n, jb_run_after = nj_now n, jb_locked_by = None, jb_locked_until = None,
          jb_result = None, jb_error = None, jb_created = nj_now n, jb_updated = nj_now n, jb_applied = None\<rparr> t of
        None \<Rightarrow> Inl JobKeyTaken
      | Some t' \<Rightarrow> Inr (t', True))"

definition get_job :: "string \<Rightarrow> media_job list \<Rightarrow> media_job option" where
  "get_job i t = find_row i t"

definition live_job :: "job_kind \<Rightarrow> string \<Rightarrow> string \<Rightarrow> media_job list \<Rightarrow> media_job option" where
  "live_job k s g t = find (\<lambda>j. same_work k s g j \<and> live_status (jb_status j)) t"

definition done_jobs :: "nat \<Rightarrow> media_job list \<Rightarrow> media_job list" where
  "done_jobs limit t = take limit (order_by (\<lambda>j. (jb_updated j, row_id j)) (filter (\<lambda>j. jb_status j = Done) t))"

definition change_jobs :: "(media_job \<Rightarrow> bool) \<Rightarrow> (media_job \<Rightarrow> media_job) \<Rightarrow> media_job list \<Rightarrow> media_job list \<times> nat" where
  "change_jobs p f t = (update_where p f t, count_where p t)"

definition mark_applied :: "string \<Rightarrow> int \<Rightarrow> media_job list \<Rightarrow> media_job list \<times> nat" where
  "mark_applied i now = change_jobs (\<lambda>j. row_id j = i \<and> jb_status j = Done)
     (\<lambda>j. j\<lparr>jb_status := Applied, jb_applied := Some now, jb_updated := now\<rparr>)"

definition mark_cancelled :: "string \<Rightarrow> media_error \<Rightarrow> int \<Rightarrow> media_job list \<Rightarrow> media_job list \<times> nat" where
  "mark_cancelled i er now = change_jobs (\<lambda>j. row_id j = i \<and> live_status (jb_status j))
     (\<lambda>j. j\<lparr>jb_status := Cancelled, jb_error := Some er, jb_updated := now\<rparr>)"

definition mark_failed :: "string \<Rightarrow> media_error \<Rightarrow> int \<Rightarrow> media_job list \<Rightarrow> media_job list \<times> nat" where
  "mark_failed i er now = change_jobs (\<lambda>j. row_id j = i \<and> jb_status j = Done)
     (\<lambda>j. j\<lparr>jb_status := Failed, jb_error := Some er, jb_updated := now\<rparr>)"

definition terminal_status :: "job_status \<Rightarrow> bool" where
  "terminal_status st \<longleftrightarrow> st \<in> {Applied, Failed, Cancelled}"

definition delete_terminal_before :: "int \<Rightarrow> media_job list \<Rightarrow> media_job list \<times> nat" where
  "delete_terminal_before before t = (let p = \<lambda>j. terminal_status (jb_status j) \<and> jb_updated j < before in
     (delete_where p t, count_where p t))"

definition has_recent_terminal_merge :: "string \<Rightarrow> int \<Rightarrow> int \<Rightarrow> media_job list \<Rightarrow> bool" where
  "has_recent_terminal_merge s ro since t \<longleftrightarrow> (\<exists>j\<in>set t. same_work Merge s (int_string ro) j \<and>
     jb_status j \<in> {Failed, Cancelled} \<and> since \<le> jb_updated j)"

subsection \<open>The worker's statements\<close>

record claim_request =
  cq_worker :: string
  cq_now :: int
  cq_max_bytes :: int
  cq_kinds :: "job_kind list option"
  cq_lease :: "int option"

definition kinds_filter :: "job_kind list option \<Rightarrow> media_job \<Rightarrow> bool" where
  "kinds_filter ks j \<longleftrightarrow> (case ks of None \<Rightarrow> True | Some l \<Rightarrow> jb_kind j \<in> set l)"

definition lease_of :: "int option \<Rightarrow> int" where
  "lease_of l = (case l of None \<Rightarrow> media_job_lease_ms | Some x \<Rightarrow> x)"

definition claimable :: "claim_request \<Rightarrow> media_job \<Rightarrow> bool" where
  "claimable q j \<longleftrightarrow> jb_status j = Queued \<and> jb_run_after j \<le> cq_now q \<and> jb_bytes j \<le> cq_max_bytes q \<and>
     (case jb_locked_until j of None \<Rightarrow> True | Some u \<Rightarrow> u \<le> cq_now q) \<and> kinds_filter (cq_kinds q) j"

definition claimed :: "claim_request \<Rightarrow> media_job \<Rightarrow> media_job" where
  "claimed q j = j\<lparr>jb_status := Running, jb_locked_by := Some (cq_worker q),
     jb_locked_until := Some (cq_now q + lease_of (cq_lease q)), jb_attempts := jb_attempts j + 1,
     jb_updated := cq_now q\<rparr>"

definition claim_job :: "claim_request \<Rightarrow> media_job list \<Rightarrow> media_job list \<times> media_job option" where
  "claim_job q t = (case order_by (\<lambda>j. (jb_run_after j, jb_created j, row_id j)) (filter (claimable q) t) of
     [] \<Rightarrow> (t, None)
   | j # _ \<Rightarrow> (update_where (has_id (row_id j)) (claimed q) t, Some (claimed q j)))"

definition fence :: "string \<Rightarrow> string \<Rightarrow> media_job \<Rightarrow> bool" where
  "fence i w j \<longleftrightarrow> row_id j = i \<and> jb_locked_by j = Some w \<and> jb_status j = Running"

definition renew_job :: "string \<Rightarrow> string \<Rightarrow> int \<Rightarrow> int option \<Rightarrow> media_job list \<Rightarrow> media_job list \<times> nat" where
  "renew_job i w now lease = change_jobs (fence i w)
     (\<lambda>j. j\<lparr>jb_locked_by := Some w, jb_locked_until := Some (now + lease_of lease), jb_updated := now\<rparr>)"

definition finish_job :: "string \<Rightarrow> string \<Rightarrow> int \<Rightarrow> string \<Rightarrow> media_job list \<Rightarrow> media_job list \<times> nat" where
  "finish_job i w now result = change_jobs (fence i w)
     (\<lambda>j. j\<lparr>jb_status := Done, jb_locked_by := Some w, jb_locked_until := None, jb_result := Some result,
       jb_error := None, jb_updated := now\<rparr>)"

text \<open>The SQL backoff expression over the row's attempts.\<close>

definition backoff_after :: "int \<Rightarrow> media_job \<Rightarrow> int" where
  "backoff_after now j = now + min (media_job_backoff_base_ms * 2 ^ (jb_attempts j - 1)) media_job_backoff_cap_ms"

definition fail_job :: "string \<Rightarrow> string \<Rightarrow> int \<Rightarrow> media_error \<Rightarrow> bool \<Rightarrow> media_job list \<Rightarrow> media_job list \<times> nat" where
  "fail_job i w now er final = change_jobs (fence i w)
     (\<lambda>j. let out = jb_max_attempts j \<le> jb_attempts j \<or> final in
       j\<lparr>jb_status := (if out then Failed else Queued),
         jb_run_after := (if out then jb_run_after j else backoff_after now j),
         jb_locked_by := Some w, jb_locked_until := None, jb_error := Some er, jb_updated := now\<rparr>)"

definition release_job :: "string \<Rightarrow> string \<Rightarrow> int \<Rightarrow> int \<Rightarrow> media_error option \<Rightarrow> media_job list \<Rightarrow> media_job list \<times> nat" where
  "release_job i w now run_after er = change_jobs (fence i w)
     (\<lambda>j. j\<lparr>jb_status := Queued, jb_attempts := jb_attempts j - 1, jb_run_after := run_after,
       jb_locked_by := Some w, jb_locked_until := None, jb_error := er, jb_updated := now\<rparr>)"

definition lease_expired :: "int \<Rightarrow> media_job \<Rightarrow> bool" where
  "lease_expired now j \<longleftrightarrow> jb_status j = Running \<and> (case jb_locked_until j of None \<Rightarrow> False | Some u \<Rightarrow> u \<le> now)"

definition requeue_expired :: "int \<Rightarrow> media_job list \<Rightarrow> media_job list \<times> nat" where
  "requeue_expired now = change_jobs (lease_expired now)
     (\<lambda>j. let out = jb_max_attempts j \<le> jb_attempts j in
       j\<lparr>jb_status := (if out then Failed else Queued),
         jb_run_after := (if out then jb_run_after j else backoff_after now j),
         jb_locked_until := None, jb_error := Some Timeout, jb_updated := now\<rparr>)"

lemma backoff_after_eq: "backoff_after now j = now + media_job_backoff_ms (int (jb_attempts j))"
proof -
  have "nat (max 1 (int (jb_attempts j)) - 1) = jb_attempts j - 1" by linarith
  then show ?thesis by (simp add: backoff_after_def media_job_backoff_ms_def Let_def)
qed

subsection \<open>The queue as a step relation\<close>

datatype job_op =
    OpEnqueue new_job
  | OpClaim claim_request
  | OpRenew string string int "int option"
  | OpFinish string string int string
  | OpFail string string int media_error bool
  | OpRelease string string int int "media_error option"
  | OpRequeue int
  | OpApplied string int
  | OpCancelled string media_error int
  | OpMarkFailed string media_error int
  | OpPurge int

fun job_op_run :: "job_op \<Rightarrow> media_job list \<Rightarrow> media_job list" where
  "job_op_run (OpEnqueue n) t = (case enqueue_job n t of Inl _ \<Rightarrow> t | Inr (t', _) \<Rightarrow> t')"
| "job_op_run (OpClaim q) t = fst (claim_job q t)"
| "job_op_run (OpRenew i w now l) t = fst (renew_job i w now l t)"
| "job_op_run (OpFinish i w now r) t = fst (finish_job i w now r t)"
| "job_op_run (OpFail i w now er fin) t = fst (fail_job i w now er fin t)"
| "job_op_run (OpRelease i w now after er) t = fst (release_job i w now after er t)"
| "job_op_run (OpRequeue now) t = fst (requeue_expired now t)"
| "job_op_run (OpApplied i now) t = fst (mark_applied i now t)"
| "job_op_run (OpCancelled i er now) t = fst (mark_cancelled i er now t)"
| "job_op_run (OpMarkFailed i er now) t = fst (mark_failed i er now t)"
| "job_op_run (OpPurge before) t = fst (delete_terminal_before before t)"

text \<open>An enqueue allows at least one attempt.\<close>

definition op_ok :: "job_op \<Rightarrow> bool" where
  "op_ok op \<longleftrightarrow> (case op of OpEnqueue n \<Rightarrow> nj_max n \<noteq> Some 0 | _ \<Rightarrow> True)"

inductive job_reach :: "media_job list \<Rightarrow> bool" where
  job_reach_empty: "job_reach []"
| job_reach_step: "job_reach t \<Longrightarrow> op_ok op \<Longrightarrow> job_reach (job_op_run op t)"

text \<open>What a job row always satisfies, and what the table does.\<close>

definition job_ok :: "media_job \<Rightarrow> bool" where
  "job_ok j \<longleftrightarrow> jb_attempts j \<le> jb_max_attempts j \<and> 0 \<le> jb_bytes j \<and>
     (jb_status j = Queued \<longrightarrow> jb_attempts j < jb_max_attempts j \<and> jb_locked_until j = None) \<and>
     (jb_status j = Running \<longrightarrow> 1 \<le> jb_attempts j \<and> jb_locked_by j \<noteq> None \<and> jb_locked_until j \<noteq> None) \<and>
     (jb_status j = Done \<longrightarrow> jb_result j \<noteq> None) \<and>
     (jb_status j = Applied \<longrightarrow> jb_result j \<noteq> None \<and> jb_applied j \<noteq> None)"

definition work_of :: "media_job \<Rightarrow> job_kind \<times> string \<times> string" where
  "work_of j = (jb_kind j, jb_session j, jb_target j)"

definition live_work :: "media_job list \<Rightarrow> (job_kind \<times> string \<times> string) list" where
  "live_work t = map work_of (filter (\<lambda>j. live_status (jb_status j)) t)"

definition jobs_ok :: "media_job list \<Rightarrow> bool" where
  "jobs_ok t \<longleftrightarrow> (\<forall>j\<in>set t. job_ok j) \<and> keys_ok t \<and> distinct (live_work t)"

text \<open>A change that keeps ids and work, keeps rows well formed and revives no dead job keeps the table.\<close>

lemma jobs_ok_update:
  assumes "jobs_ok t"
    and "\<And>j. j \<in> set t \<Longrightarrow> p j \<Longrightarrow> job_ok j \<Longrightarrow> job_ok (f j)"
    and "\<And>j. row_id (f j) = row_id j" "\<And>j. work_of (f j) = work_of j"
    and "\<And>j. p j \<Longrightarrow> live_status (jb_status (f j)) \<Longrightarrow> live_status (jb_status j)"
  shows "jobs_ok (update_where p f t)"
proof -
  let ?g = "\<lambda>r. if p r then f r else r"
  have ids: "map row_id (map ?g t) = map row_id t" using assms(3) by simp
  have "distinct (live_work xs) \<Longrightarrow> distinct (live_work (map ?g xs)) \<and> set (live_work (map ?g xs)) \<subseteq> set (live_work xs)" for xs
    using assms(4,5) by (induction xs) (auto simp: live_work_def)
  with assms(1) have "distinct (live_work (map ?g t))" by (simp add: jobs_ok_def)
  with assms(1,2) show ?thesis
    unfolding jobs_ok_def update_where_def keys_ok_def ids by auto
qed

lemma jobs_ok_change:
  assumes "jobs_ok t"
    and "\<And>j. j \<in> set t \<Longrightarrow> p j \<Longrightarrow> job_ok j \<Longrightarrow> job_ok (f j)"
    and "\<And>j. row_id (f j) = row_id j" "\<And>j. work_of (f j) = work_of j"
    and "\<And>j. p j \<Longrightarrow> live_status (jb_status (f j)) \<Longrightarrow> live_status (jb_status j)"
  shows "jobs_ok (fst (change_jobs p f t))"
  using jobs_ok_update [OF assms] by (simp add: change_jobs_def)

lemma jobs_ok_delete: "jobs_ok t \<Longrightarrow> jobs_ok (delete_where p t)"
proof (induction t)
  case (Cons j t)
  then show ?case
    by (auto simp: jobs_ok_def delete_where_def keys_ok_def live_work_def split: if_splits)
qed (simp add: delete_where_def)

lemma jobs_ok_enqueue:
  assumes "jobs_ok t" "nj_max n \<noteq> Some 0" "enqueue_job n t = Inr (t', ok)"
  shows "jobs_ok t'"
  using assms
  by (auto simp: enqueue_job_def insert_row_def jobs_ok_def keys_ok_def live_work_def work_of_def same_work_def
      job_ok_def media_job_max_attempts_def live_status_def split: if_splits option.splits)

text \<open>The claim's choice is a claimable row, the first in the order.\<close>

lemma claim_job_Some:
  assumes "claim_job q t = (t', Some k)"
  obtains j where "j \<in> set t" "claimable q j" "k = claimed q j" "t' = update_where (has_id (row_id j)) (claimed q) t"
    "\<And>x. x \<in> set t \<Longrightarrow> claimable q x \<Longrightarrow> (jb_run_after j, jb_created j, row_id j) \<le> (jb_run_after x, jb_created x, row_id x)"
proof -
  let ?o = "order_by (\<lambda>j. (jb_run_after j, jb_created j, row_id j)) (filter (claimable q) t)"
  obtain j js where o: "?o = j # js" and k: "k = claimed q j" "t' = update_where (has_id (row_id j)) (claimed q) t"
    using assms by (auto simp: claim_job_def split: list.splits)
  have s: "set ?o = {x \<in> set t. claimable q x}" by (auto simp: order_by_def)
  have "sorted (map (\<lambda>j. (jb_run_after j, jb_created j, row_id j)) ?o)" by (simp add: order_by_def)
  then have "\<forall>x\<in>set ?o. (jb_run_after j, jb_created j, row_id j) \<le> (jb_run_after x, jb_created x, row_id x)"
    unfolding o by (auto)
  with s o k show thesis by (intro that) auto
qed

lemma order_by_empty: "order_by k xs = [] \<longleftrightarrow> xs = []"
  by (metis order_by_def length_0_conv length_sort)

lemma claim_job_None: "claim_job q t = (t', None) \<longleftrightarrow> t' = t \<and> (\<forall>j\<in>set t. \<not> claimable q j)"
proof (cases "order_by (\<lambda>j. (jb_run_after j, jb_created j, row_id j)) (filter (claimable q) t)")
  case Nil
  then have "\<forall>j\<in>set t. \<not> claimable q j" by (simp add: order_by_empty filter_empty_conv)
  with Nil show ?thesis by (auto simp: claim_job_def)
next
  case (Cons j js)
  then have "filter (claimable q) t \<noteq> []" by (metis list.distinct(1) order_by_empty)
  then have "\<exists>j\<in>set t. claimable q j" by (simp add: filter_empty_conv)
  with Cons show ?thesis by (auto simp: claim_job_def)
qed

lemma jobs_ok_claim:
  assumes "jobs_ok t"
  shows "jobs_ok (fst (claim_job q t))"
proof (cases "claim_job q t")
  case (Pair t' r)
  show ?thesis
  proof (cases r)
    case None
    with Pair have "claim_job q t = (t', None)" by simp
    then have "t' = t" by (simp only: claim_job_None)
    with Pair assms show ?thesis by simp
  next
    case (Some k)
    with Pair obtain j where j: "j \<in> set t" "claimable q j" "t' = update_where (has_id (row_id j)) (claimed q) t"
      by (metis claim_job_Some)
    have "x = j" if "x \<in> set t" "has_id (row_id j) x" for x
      using assms that j(1) by (auto simp: jobs_ok_def keys_ok_def distinct_map has_id_def dest: inj_onD)
    note u = this
    have "jobs_ok (update_where (\<lambda>x. has_id (row_id j) x \<and> jb_status x = Queued) (claimed q) t)"
      using assms
      by (rule jobs_ok_update) (auto simp: claimed_def work_of_def live_status_def job_ok_def)
    also have "update_where (\<lambda>x. has_id (row_id j) x \<and> jb_status x = Queued) (claimed q) t = t'"
      unfolding j(3) update_where_def using u j(2) by (auto simp: claimable_def)
    finally show ?thesis using Pair by simp
  qed
qed

lemma jobs_ok_step: "jobs_ok t \<Longrightarrow> op_ok op \<Longrightarrow> jobs_ok (job_op_run op t)"
proof (cases op)
  case (OpEnqueue n)
  assume "jobs_ok t" "op_ok op"
  with OpEnqueue show ?thesis
    by (auto simp: op_ok_def dest: jobs_ok_enqueue split: sum.split)
next
  case (OpClaim q)
  assume "jobs_ok t"
  with OpClaim show ?thesis by (simp add: jobs_ok_claim)
next
  case (OpPurge b)
  assume "jobs_ok t"
  with OpPurge show ?thesis by (simp add: delete_terminal_before_def Let_def jobs_ok_delete)
qed (auto simp: renew_job_def finish_job_def fail_job_def release_job_def requeue_expired_def mark_applied_def
    mark_cancelled_def mark_failed_def fence_def lease_expired_def job_ok_def work_of_def live_status_def Let_def
    intro!: jobs_ok_change split: option.splits)

text \<open>C29: The job table's invariant, over every interleaving of API and worker statements: ids are unique,
  no two live jobs do the same work, a queued job has attempts left and no lease, a running one has a holder,
  a lease and a counted attempt, no job is attempted more often than its limit, and a job is applied only with
  a stored result.\<close>

theorem jobs_invariant:
  assumes "job_reach t"
  shows "jobs_ok t"
  using assms
proof (induction rule: job_reach.induct)
  case job_reach_empty
  show ?case by (simp add: jobs_ok_def keys_ok_def live_work_def)
next
  case (job_reach_step t op)
  then show ?case by (intro jobs_ok_step)
qed

lemma jobs_invariant_witness:
  "jobs_ok (job_op_run (OpEnqueue \<lparr>nj_id = ''j1'', nj_kind = Ingest, nj_session = ''s1'', nj_target = ''seg'',
     nj_bytes = 10, nj_now = 5, nj_max = None\<rparr>) [])"
  by (rule jobs_invariant) (intro job_reach.intros, simp add: op_ok_def)

text \<open>A claim is fair and complete: it answers a job exactly when one is due (queued, its delay and lease
  over, within the worker's size and kinds); the job it answers is the one due longest, then the oldest; it
  is running for this worker with a fresh lease and one more attempt, every other row is untouched.\<close>

theorem claim_job_correct:
  assumes "jobs_ok t" "claim_job q t = (t', r)"
  shows "case r of
     None \<Rightarrow> t' = t \<and> (\<forall>j\<in>set t. \<not> claimable q j)
   | Some k \<Rightarrow> \<exists>j\<in>set t. claimable q j \<and> k = claimed q j \<and>
       (\<forall>x\<in>set t. claimable q x \<longrightarrow> (jb_run_after j, jb_created j, row_id j) \<le> (jb_run_after x, jb_created x, row_id x)) \<and>
       find_row (row_id j) t' = Some k \<and> (\<forall>i. i \<noteq> row_id j \<longrightarrow> find_row i t' = find_row i t)"
proof (cases r)
  case None
  with assms(2) show ?thesis by (simp add: claim_job_None)
next
  case (Some k)
  with assms(2) have c: "claim_job q t = (t', Some k)" by simp
  obtain j where j: "j \<in> set t" "claimable q j" "k = claimed q j"
    "t' = update_where (has_id (row_id j)) (claimed q) t"
    "\<And>x. x \<in> set t \<Longrightarrow> claimable q x \<Longrightarrow> (jb_run_after j, jb_created j, row_id j) \<le> (jb_run_after x, jb_created x, row_id x)"
    by (rule claim_job_Some [OF c]) (rule that)
  have "find_row (row_id j) t = Some j"
    using assms(1) j(1) by (simp add: find_row_iff jobs_ok_def)
  moreover have "find_row i t' = map_option (\<lambda>r. if i = row_id j then claimed q r else r) (find_row i t)" for i
    unfolding j(4) by (rule find_row_update) (simp add: claimed_def)
  ultimately have "find_row (row_id j) t' = Some k \<and> (\<forall>i. i \<noteq> row_id j \<longrightarrow> find_row i t' = find_row i t)"
    using j(3) by (simp add: option.map_ident)
  with j Some show ?thesis by auto
qed

text \<open>A queue of one due job.\<close>

definition sample_job :: media_job where
  "sample_job = \<lparr>row_id = ''j1'', jb_kind = Ingest, jb_session = ''s1'', jb_target = ''seg'', jb_status = Queued,
     jb_attempts = 0, jb_max_attempts = 5, jb_bytes = 10, jb_run_after = 5, jb_locked_by = None,
     jb_locked_until = None, jb_result = None, jb_error = None, jb_created = 5, jb_updated = 5, jb_applied = None\<rparr>"

definition sample_claim :: claim_request where
  "sample_claim = \<lparr>cq_worker = ''w1'', cq_now = 9, cq_max_bytes = 100, cq_kinds = None, cq_lease = None\<rparr>"

lemma claim_job_correct_witness:
  "\<exists>j\<in>set [sample_job]. claimable sample_claim j \<and> claimed sample_claim sample_job = claimed sample_claim j"
proof -
  have "jobs_ok [sample_job]"
    by (simp add: jobs_ok_def job_ok_def keys_ok_def live_work_def sample_job_def)
  moreover have "claim_job sample_claim [sample_job] = ([claimed sample_claim sample_job], Some (claimed sample_claim sample_job))"
    by (simp add: claim_job_def order_by_def claimable_def kinds_filter_def sample_claim_def sample_job_def
        update_where_def has_id_def)
  ultimately show ?thesis
    using claim_job_correct [of "[sample_job]" sample_claim "[claimed sample_claim sample_job]"
        "Some (claimed sample_claim sample_job)"] by auto
qed

subsection \<open>The lease fences the holder's work\<close>

text \<open>The statements that may touch a job running under another worker's live lease: the cancellation by the
  API, and those of its holder.\<close>

fun by_holder :: "string \<Rightarrow> string \<Rightarrow> job_op \<Rightarrow> bool" where
  "by_holder i w (OpRenew j v _ _) = (j = i \<and> v = w)"
| "by_holder i w (OpFinish j v _ _) = (j = i \<and> v = w)"
| "by_holder i w (OpFail j v _ _ _) = (j = i \<and> v = w)"
| "by_holder i w (OpRelease j v _ _ _) = (j = i \<and> v = w)"
| "by_holder i w (OpCancelled j _ _) = (j = i)"
| "by_holder i w _ = False"

fun op_expires :: "int \<Rightarrow> job_op \<Rightarrow> bool" where
  "op_expires u (OpRequeue now) = (u \<le> now)"
| "op_expires u _ = False"

lemma find_row_change:
  assumes "\<And>j. row_id (f j) = row_id j" "find_row i t = Some r" "\<not> p r" "keys_ok t"
  shows "find_row i (update_where p f t) = Some r"
proof -
  have "r \<in> set t" "row_id r = i" using find_row_Some [OF assms(2)] by auto
  moreover have "keys_ok (update_where p f t)"
    using assms(1,4) by (simp add: keys_ok_def map_update_where [of row_id f])
  ultimately show ?thesis
    using assms(3) by (subst find_row_iff) (force simp: update_where_def)+
qed

lemma find_row_claim:
  assumes "jobs_ok t" "find_row i t = Some r" "jb_status r = Running"
  shows "find_row i (fst (claim_job q t)) = Some r"
proof (cases "claim_job q t")
  case (Pair t' k)
  with claim_job_correct [OF assms(1) Pair] assms show ?thesis
  proof (cases k)
    case (Some c)
    with claim_job_correct [OF assms(1) Pair] obtain j where j: "j \<in> set t" "claimable q j"
      "\<forall>x. x \<noteq> row_id j \<longrightarrow> find_row x t' = find_row x t" by auto
    have "find_row (row_id j) t = Some j" using assms(1) j(1) by (simp add: find_row_iff jobs_ok_def)
    with assms(2,3) j(2) have "i \<noteq> row_id j" by (auto simp: claimable_def)
    with j(3) assms(2) Pair show ?thesis by simp
  qed auto
qed

text \<open>C17: Fencing: while a job runs under a lease, no statement of another worker, no claim, no enqueue, no
  purge, no apply and no requeue before the lease's end changes the job; only its holder and a cancellation
  do. So a worker whose lease was taken over can neither finish, fail, release nor renew the new run.\<close>

theorem running_job_fenced:
  assumes "jobs_ok t" "find_row i t = Some r" "jb_status r = Running" "jb_locked_by r = Some w"
    and "jb_locked_until r = Some u" "\<not> by_holder i w op" "\<not> op_expires u op"
  shows "find_row i (job_op_run op t) = Some r"
proof -
  have k: "keys_ok t" and id: "row_id r = i"
    using assms(1) find_row_Some [OF assms(2)] by (auto simp: jobs_ok_def)
  show ?thesis
  proof (cases op)
    case (OpEnqueue n)
    have "find_row i (t @ [x]) = Some r" for x
      using assms(2) by (simp add: find_row_append)
    with OpEnqueue assms(2) show ?thesis
      by (auto simp: enqueue_job_def insert_row_def split: if_splits sum.splits)
  next
    case (OpClaim q)
    with find_row_claim [OF assms(1-3)] show ?thesis by simp
  next
    case (OpPurge b)
    have "\<not> (terminal_status (jb_status r) \<and> jb_updated r < b)"
      using assms(3) by (simp add: terminal_status_def)
    then have "find_row i (delete_where (\<lambda>j. terminal_status (jb_status j) \<and> jb_updated j < b) t) = Some r"
      using assms(2) k find_row_Some [OF assms(2)]
      by (subst find_row_iff) (auto simp: keys_ok_def delete_where_def distinct_map_filter)
    with OpPurge show ?thesis by (simp add: delete_terminal_before_def Let_def)
  qed (use assms k id in \<open>auto simp: renew_job_def finish_job_def fail_job_def release_job_def
      requeue_expired_def mark_applied_def mark_cancelled_def mark_failed_def change_jobs_def fence_def
      lease_expired_def Let_def intro!: find_row_change\<close>)
qed

definition running_job :: media_job where
  "running_job = claimed sample_claim sample_job"

lemma running_job_fenced_witness:
  "find_row ''j1'' (job_op_run (OpFinish ''j1'' ''w2'' 20 ''{}'') [running_job]) = Some running_job"
  by (rule running_job_fenced [of _ _ _ "''w1''" 600009])
    (simp_all add: running_job_def claimed_def sample_claim_def sample_job_def lease_of_def media_job_lease_ms_def
      jobs_ok_def job_ok_def keys_ok_def live_work_def find_row_def)

text \<open>The retry schedule: the holder's \<open>fail\<close> of a running job, when it is not final and attempts are
  left, queues it again after exactly \<open>mediaJobBackoffMs\<close> of its attempts (30 s doubling, at most an hour);
  a final failure or the last attempt ends it as failed; either way its lease is gone and nobody else's row
  changes.\<close>

theorem fail_job_retries:
  assumes "jobs_ok t" "find_row i t = Some r" "fence i w r"
  shows "find_row i (fst (fail_job i w now er final t)) = Some
      (r\<lparr>jb_status := (if jb_max_attempts r \<le> jb_attempts r \<or> final then Failed else Queued),
         jb_run_after := (if jb_max_attempts r \<le> jb_attempts r \<or> final then jb_run_after r
           else now + media_job_backoff_ms (int (jb_attempts r))),
         jb_locked_by := Some w, jb_locked_until := None, jb_error := Some er, jb_updated := now\<rparr>) \<and>
    snd (fail_job i w now er final t) = 1 \<and>
    (\<forall>j. j \<noteq> i \<longrightarrow> find_row j (fst (fail_job i w now er final t)) = find_row j t) \<and>
    30000 \<le> media_job_backoff_ms (int (jb_attempts r)) \<and> media_job_backoff_ms (int (jb_attempts r)) \<le> 3600000"
proof -
  let ?f = "\<lambda>j. let out = jb_max_attempts j \<le> jb_attempts j \<or> final in
       j\<lparr>jb_status := (if out then Failed else Queued),
         jb_run_after := (if out then jb_run_after j else backoff_after now j),
         jb_locked_by := Some w, jb_locked_until := None, jb_error := Some er, jb_updated := now\<rparr>"
  have k: "keys_ok t" using assms(1) by (simp add: jobs_ok_def)
  have r: "r \<in> set t" "row_id r = i" using find_row_Some [OF assms(2)] by auto
  have uniq: "x = r" if "x \<in> set t" "row_id x = i" for x
    using find_row_iff [OF k, of i x] that assms(2) by simp
  have eq: "update_where (fence i w) ?f t = update_where (has_id i) ?f t"
    unfolding update_where_def using uniq assms(3) by (auto simp: has_id_def fence_def)
  have "fence i w x = (row_id x = i)" if "x \<in> set t" for x
    using uniq [OF that] assms(3) by (cases "row_id x = i") (simp_all add: fence_def)
  then have "filter (fence i w) t = filter (\<lambda>x. row_id x = i) t" by (simp cong: filter_cong)
  also have "length \<dots> = 1"
    using count_where_has_id [OF k, of i] assms(2) by (simp add: count_where_def has_id_def [abs_def])
  finally have n: "count_where (fence i w) t = 1" by (simp add: count_where_def)
  have b: "(30000::int) \<le> media_job_backoff_ms a \<and> media_job_backoff_ms a \<le> 3600000" for a
  proof -
    have "(1::int) \<le> 2 ^ nat (max 1 a - 1)" by simp
    then show ?thesis
      by (simp add: media_job_backoff_ms_def Let_def media_job_backoff_base_ms_def media_job_backoff_cap_ms_def)
  qed
  have "find_row j (update_where (has_id i) ?f t) = map_option (\<lambda>r. if j = i then ?f r else r) (find_row j t)" for j
    by (rule find_row_update) (simp add: Let_def)
  with assms(2) n b eq show ?thesis
    by (simp add: fail_job_def change_jobs_def backoff_after_eq option.map_ident)
qed

lemma fail_job_retries_witness:
  "find_row ''j1'' (fst (fail_job ''j1'' ''w1'' 20 Timeout False [running_job])) =
     Some (running_job\<lparr>jb_status := Queued, jb_run_after := 30020, jb_locked_until := None,
       jb_error := Some Timeout, jb_updated := 20\<rparr>)"
proof -
  have "jobs_ok [running_job]" "find_row ''j1'' [running_job] = Some running_job" "fence ''j1'' ''w1'' running_job"
    by (simp_all add: running_job_def claimed_def sample_claim_def sample_job_def lease_of_def
        media_job_lease_ms_def jobs_ok_def job_ok_def keys_ok_def live_work_def find_row_def fence_def)
  from fail_job_retries [OF this, of 20 Timeout False] show ?thesis
    by (simp add: running_job_def claimed_def sample_claim_def sample_job_def media_job_backoff_ms_def
        media_job_backoff_base_ms_def media_job_backoff_cap_ms_def)
qed

end
