(* ===== verification/Json.thy ===== *)
theory Json
  imports JsNumber "HOL-Library.AList"
begin

section \<open>JSON texts\<close>

text \<open>
  \<open>JSON.parse\<close> and \<open>JSON.stringify\<close>, as far as the session code uses them: on values of strings,
  numbers, arrays and objects, without a replacer. A text is a list of 8-bit characters, the code
  units below 256; an escape of a larger one is outside the model and fails to parse. Negative zero
  is zero. An object is its own properties in JavaScript's order: array indices ascending, then the
  other keys as inserted; a repeated key keeps its place and takes the last value.
\<close>

datatype json = JNull | JBool bool | JNum num64 | JStr string | JArr "json list" | JObj "(string \<times> json) list"

subsection \<open>Reading\<close>

definition json_space :: "char \<Rightarrow> bool" where
  "json_space c \<longleftrightarrow> (of_char c :: nat) \<in> {9, 10, 13, 32}"

definition skip_ws :: "string \<Rightarrow> string" where
  "skip_ws s = dropWhile json_space s"

definition hex_val :: "char \<Rightarrow> nat option" where
  "hex_val c = (let n = (of_char c :: nat) in
     if 48 \<le> n \<and> n \<le> 57 then Some (n - 48) else
     if 65 \<le> n \<and> n \<le> 70 then Some (n - 55) else
     if 97 \<le> n \<and> n \<le> 102 then Some (n - 87) else None)"

definition hex4 :: "char \<Rightarrow> char \<Rightarrow> char \<Rightarrow> char \<Rightarrow> nat option" where
  "hex4 a b c d = (case (hex_val a, hex_val b, hex_val c, hex_val d) of
     (Some w, Some x, Some y, Some z) \<Rightarrow> Some (4096 * w + 256 * x + 16 * y + z) | _ \<Rightarrow> None)"

definition quote_char :: char where "quote_char = CHR 0x22"
definition backslash :: char where "backslash = CHR 0x5C"

definition unescape :: "char \<Rightarrow> char option" where
  "unescape e = map_of [(quote_char, quote_char), (backslash, backslash), (CHR ''/'', CHR ''/''),
     (CHR ''b'', CHR 0x08), (CHR ''f'', CHR 0x0C), (CHR ''n'', CHR 0x0A),
     (CHR ''r'', CHR 0x0D), (CHR ''t'', CHR 0x09)] e"

text \<open>The characters of a string after its opening quote, and the text after its closing one.\<close>

fun parse_chars :: "string \<Rightarrow> (string \<times> string) option" where
  "parse_chars [] = None"
| "parse_chars (c # cs) =
     (if c = quote_char then Some ([], cs) else
      if c = backslash then (case cs of
          [] \<Rightarrow> None
        | e # ds \<Rightarrow> if e = CHR ''u'' then (case ds of
              a # b # x # y # rest \<Rightarrow> (case hex4 a b x y of
                  None \<Rightarrow> None
                | Some n \<Rightarrow> if n < 256 then map_option (\<lambda>(s, r). (char_of n # s, r)) (parse_chars rest) else None)
            | _ \<Rightarrow> None)
          else (case unescape e of
              None \<Rightarrow> None
            | Some u \<Rightarrow> map_option (\<lambda>(s, r). (u # s, r)) (parse_chars ds)))
      else if (of_char c :: nat) < 32 then None
      else map_option (\<lambda>(s, r). (c # s, r)) (parse_chars cs))"

definition take_digits :: "string \<Rightarrow> string \<times> string" where
  "take_digits s = (takeWhile is_digit s, dropWhile is_digit s)"

text \<open>The integer part (no leading zero), the fraction and the exponent of a number.\<close>

definition parse_int_part :: "string \<Rightarrow> (string \<times> string) option" where
  "parse_int_part s = (case take_digits s of
     ([], _) \<Rightarrow> None
   | (d # ds, r) \<Rightarrow> if d = CHR ''0'' then Some ([d], ds @ r) else Some (d # ds, r))"

definition parse_frac_part :: "string \<Rightarrow> (string \<times> string) option" where
  "parse_frac_part s = (case s of
     c # cs \<Rightarrow> if c = CHR ''.'' then (case take_digits cs of ([], _) \<Rightarrow> None | x \<Rightarrow> Some x) else Some ([], s)
   | [] \<Rightarrow> Some ([], s))"

definition parse_exp_part :: "string \<Rightarrow> (int \<times> string) option" where
  "parse_exp_part s = (case s of
     c # cs \<Rightarrow> if c \<in> {CHR ''e'', CHR ''E''} then
         (let neg = (cs \<noteq> [] \<and> hd cs = CHR ''-'');
              ds = (if cs \<noteq> [] \<and> hd cs \<in> {CHR ''-'', CHR ''+''} then tl cs else cs)
          in case take_digits ds of
               ([], _) \<Rightarrow> None
             | (x, r) \<Rightarrow> Some (if neg then - int (digits_val x) else int (digits_val x), r))
       else Some (0, s)
   | [] \<Rightarrow> Some (0, s))"

definition decimal :: "int \<Rightarrow> int \<Rightarrow> rat" where
  "decimal m e = (if 0 \<le> e then of_int (m * 10 ^ nat e) else of_int m / of_int (10 ^ nat (- e)))"

definition parse_number :: "string \<Rightarrow> (num64 \<times> string) option" where
  "parse_number s = (let neg = (s \<noteq> [] \<and> hd s = CHR ''-''); s1 = (if neg then tl s else s) in
     case parse_int_part s1 of None \<Rightarrow> None | Some (ip, s2) \<Rightarrow>
     case parse_frac_part s2 of None \<Rightarrow> None | Some (fp, s3) \<Rightarrow>
     case parse_exp_part s3 of None \<Rightarrow> None | Some (e, s4) \<Rightarrow>
     let m = int (digits_val (ip @ fp)) in
     Some (fl (decimal (if neg then - m else m) (e - int (length fp))), s4))"

text \<open>Own properties in JavaScript's order.\<close>

definition array_index :: "string \<Rightarrow> bool" where
  "array_index k \<longleftrightarrow> k \<noteq> [] \<and> list_all is_digit k \<and> nat_digits (digits_val k) = k \<and> digits_val k < 2 ^ 32 - 1"

definition js_object :: "(string \<times> json) list \<Rightarrow> (string \<times> json) list" where
  "js_object ps = (let qs = fold (\<lambda>(k, v). AList.update k v) ps [] in
     sort_key (\<lambda>(k, v). digits_val k) (filter (\<lambda>(k, v). array_index k) qs) @ filter (\<lambda>(k, v). \<not> array_index k) qs)"

text \<open>A literal name at the front.\<close>

definition strip_front :: "string \<Rightarrow> string \<Rightarrow> string option" where
  "strip_front p s = (if take (length p) s = p then Some (drop (length p) s) else None)"

definition parse_literal :: "string \<Rightarrow> (json \<times> string) option" where
  "parse_literal s = (case strip_front ''null'' s of Some r \<Rightarrow> Some (JNull, r) | None \<Rightarrow>
     case strip_front ''true'' s of Some r \<Rightarrow> Some (JBool True, r) | None \<Rightarrow>
     case strip_front ''false'' s of Some r \<Rightarrow> Some (JBool False, r) | None \<Rightarrow>
     map_option (\<lambda>(x, r). (JNum x, r)) (parse_number s))"

text \<open>The recursive descent. Its fuel bounds the nesting and the elements; every call that reads an
  element reads a character, so twice the length of the text is enough.\<close>

fun parse_value :: "nat \<Rightarrow> string \<Rightarrow> (json \<times> string) option"
and parse_elems :: "nat \<Rightarrow> string \<Rightarrow> (json list \<times> string) option"
and parse_members :: "nat \<Rightarrow> string \<Rightarrow> ((string \<times> json) list \<times> string) option" where
  "parse_value 0 s = None"
| "parse_value (Suc n) s = (case s of
     [] \<Rightarrow> None
   | c # cs \<Rightarrow>
       if c = quote_char then map_option (\<lambda>(x, r). (JStr x, r)) (parse_chars cs)
       else if c = CHR ''['' then (case skip_ws cs of
           [] \<Rightarrow> None
         | d # ds \<Rightarrow> if d = CHR '']'' then Some (JArr [], ds)
             else map_option (\<lambda>(xs, r). (JArr xs, r)) (parse_elems n (d # ds)))
       else if c = CHR ''{'' then (case skip_ws cs of
           [] \<Rightarrow> None
         | d # ds \<Rightarrow> if d = CHR ''}'' then Some (JObj [], ds)
             else map_option (\<lambda>(xs, r). (JObj (js_object xs), r)) (parse_members n (d # ds)))
       else parse_literal s)"
| "parse_elems 0 s = None"
| "parse_elems (Suc n) s = (case parse_value n s of
     None \<Rightarrow> None
   | Some (v, r) \<Rightarrow> (case skip_ws r of
       [] \<Rightarrow> None
     | d # ds \<Rightarrow>
         if d = CHR '']'' then Some ([v], ds)
         else if d = CHR '','' then map_option (\<lambda>(xs, r'). (v # xs, r')) (parse_elems n (skip_ws ds))
         else None))"
| "parse_members 0 s = None"
| "parse_members (Suc n) s = (case s of
     [] \<Rightarrow> None
   | c # cs \<Rightarrow> if c \<noteq> quote_char then None else (case parse_chars cs of
       None \<Rightarrow> None
     | Some (k, r) \<Rightarrow> (case skip_ws r of
         [] \<Rightarrow> None
       | d # ds \<Rightarrow> if d \<noteq> CHR '':'' then None else (case parse_value n (skip_ws ds) of
           None \<Rightarrow> None
         | Some (v, r') \<Rightarrow> (case skip_ws r' of
             [] \<Rightarrow> None
           | f # fs \<Rightarrow>
               if f = CHR ''}'' then Some ([(k, v)], fs)
               else if f = CHR '','' then map_option (\<lambda>(xs, r''). ((k, v) # xs, r'')) (parse_members n (skip_ws fs))
               else None)))))"

text \<open>\<open>JSON.parse\<close>; None is the \<open>SyntaxError\<close>.\<close>

definition json_parse :: "string \<Rightarrow> json option" where
  "json_parse s = (case parse_value (2 * length s + 2) (skip_ws s) of
     None \<Rightarrow> None | Some (v, r) \<Rightarrow> if skip_ws r = [] then Some v else None)"

subsection \<open>Writing\<close>

definition hex_digit :: "nat \<Rightarrow> char" where
  "hex_digit d = (if d < 10 then char_of (48 + d) else char_of (87 + d))"

definition escape_char :: "char \<Rightarrow> string" where
  "escape_char c = (let n = (of_char c :: nat) in
     if n = 34 then [backslash, quote_char] else if n = 92 then [backslash, backslash] else
     if n = 8 then [backslash, CHR ''b''] else if n = 12 then [backslash, CHR ''f''] else
     if n = 10 then [backslash, CHR ''n''] else if n = 13 then [backslash, CHR ''r''] else
     if n = 9 then [backslash, CHR ''t''] else
     if n < 32 then [backslash, CHR ''u'', CHR ''0'', CHR ''0'', hex_digit (n div 16), hex_digit (n mod 16)]
     else [c])"

definition json_quote :: "string \<Rightarrow> string" where
  "json_quote s = quote_char # concat (map escape_char s) @ [quote_char]"

text \<open>\<open>Number.prototype.toString\<close> of a positive number: the fewest digits that read back as it, nearest
  to it; \<open>decimal_exponent v\<close> is the \<open>n\<close> with \<open>10^(n-1) \<le> v < 10^n\<close>.\<close>

definition decimal_exponent :: "rat \<Rightarrow> int" where
  "decimal_exponent v = (if 1 \<le> v then int (length (nat_digits (nat \<lfloor>v\<rfloor>)))
     else 1 - int (length (nat_digits (nat (\<lceil>1 / v\<rceil> - 1)))))"

fun shortest_digits :: "nat \<Rightarrow> nat \<Rightarrow> rat \<Rightarrow> int \<Rightarrow> int \<times> nat" where
  "shortest_digits 0 k v n = (\<lfloor>v / decimal 1 (n - int k)\<rfloor>, k)"
| "shortest_digits (Suc m) k v n = (let u = n - int k; lo = \<lfloor>v / decimal 1 u\<rfloor>;
       lo_ok = (fl (decimal lo u) = v); hi_ok = (fl (decimal (lo + 1) u) = v \<and> lo + 1 < 10 ^ k)
     in if lo_ok \<and> (\<not> hi_ok \<or> v - decimal lo u \<le> decimal (lo + 1) u - v) then (lo, k)
        else if hi_ok then (lo + 1, k)
        else shortest_digits m (Suc k) v n)"

definition positive_string :: "num64 \<Rightarrow> string" where
  "positive_string v = (let n = decimal_exponent v; (s, k) = shortest_digits 17 1 v n; ds = nat_digits (nat s) in
     if int k \<le> n \<and> n \<le> 21 then ds @ replicate (nat n - k) (CHR ''0'')
     else if 0 < n \<and> n \<le> 21 then take (nat n) ds @ CHR ''.'' # drop (nat n) ds
     else if - 6 < n \<and> n \<le> 0 then ''0.'' @ replicate (nat (- n)) (CHR ''0'') @ ds
     else let ex = (if 0 < n - 1 then ''e+'' else ''e-'') @ nat_digits (nat \<bar>n - 1\<bar>)
          in if k = 1 then ds @ ex else hd ds # CHR ''.'' # tl ds @ ex)"

text \<open>Integers up to 2^53 print as their digits.\<close>

definition num_string :: "num64 \<Rightarrow> string" where
  "num_string v = (if of_int \<lfloor>v\<rfloor> = v \<and> \<bar>v\<bar> \<le> 2 ^ 53 then int_string \<lfloor>v\<rfloor>
     else if v < 0 then CHR ''-'' # positive_string (- v) else positive_string v)"

fun commas :: "string list \<Rightarrow> string" where
  "commas [] = []"
| "commas (x # xs) = (if xs = [] then x else x @ CHR '','' # commas xs)"

fun json_string :: "json \<Rightarrow> string" where
  "json_string JNull = ''null''"
| "json_string (JBool b) = (if b then ''true'' else ''false'')"
| "json_string (JNum x) = num_string x"
| "json_string (JStr s) = json_quote s"
| "json_string (JArr xs) = CHR ''['' # commas (map json_string xs) @ '']''"
| "json_string (JObj ps) = CHR ''{'' # commas (map (\<lambda>(k, v). json_quote k @ CHR '':'' # json_string v) ps) @ ''}''"

text \<open>\<open>String(x)\<close> of a parsed value.\<close>

fun js_string :: "json \<Rightarrow> string" where
  "js_string JNull = ''null''"
| "js_string (JBool b) = (if b then ''true'' else ''false'')"
| "js_string (JNum x) = num_string x"
| "js_string (JStr s) = s"
| "js_string (JArr xs) = commas (map (\<lambda>x. if x = JNull then [] else js_string x) xs)"
| "js_string (JObj ps) = ''[object Object]''"

subsection \<open>Reading what was written\<close>

lemma quote_nat [simp]: "(of_char quote_char :: nat) = 34" "(of_char backslash :: nat) = 92"
  by (simp_all add: quote_char_def backslash_def)

lemma hex_digit_val: "d < 16 \<Longrightarrow> hex_val (hex_digit d) = Some d"
  by (auto simp: hex_val_def hex_digit_def Let_def)

lemma hex4_byte:
  assumes "n < 32"
  shows "hex4 (CHR ''0'') (CHR ''0'') (hex_digit (n div 16)) (hex_digit (n mod 16)) = Some n"
proof -
  have "hex_val (CHR ''0'') = Some 0" by (simp add: hex_val_def)
  moreover have "hex_val (hex_digit (n div 16)) = Some (n div 16)" using assms by (intro hex_digit_val) simp
  moreover have "hex_val (hex_digit (n mod 16)) = Some (n mod 16)" by (intro hex_digit_val) simp
  ultimately show ?thesis by (simp add: hex4_def)
qed

lemma of_char_inject: "of_char c = (of_char d :: nat) \<Longrightarrow> c = d"
  by simp

lemma char_code:
  "of_char c = (34::nat) \<Longrightarrow> c = CHR 0x22" "of_char c = (92::nat) \<Longrightarrow> c = CHR 0x5C"
  "of_char c = (8::nat) \<Longrightarrow> c = CHR 0x08" "of_char c = (12::nat) \<Longrightarrow> c = CHR 0x0C"
  "of_char c = (10::nat) \<Longrightarrow> c = CHR 0x0A" "of_char c = (13::nat) \<Longrightarrow> c = CHR 0x0D"
  "of_char c = (9::nat) \<Longrightarrow> c = CHR 0x09"
  by (rule of_char_inject, simp)+

lemma plain_escape:
  assumes "32 \<le> (of_char c :: nat)" "(of_char c :: nat) \<noteq> 34" "(of_char c :: nat) \<noteq> 92"
  shows "parse_chars (escape_char c @ t) = map_option (\<lambda>(s, r). (c # s, r)) (parse_chars t)"
proof -
  have "c \<noteq> quote_char" "c \<noteq> backslash" using assms by auto
  with assms show ?thesis by (simp add: escape_char_def Let_def)
qed

lemma control_escape:
  assumes "(of_char c :: nat) < 32" "(of_char c :: nat) \<notin> {8, 9, 10, 12, 13}"
  shows "parse_chars (escape_char c @ t) = map_option (\<lambda>(s, r). (c # s, r)) (parse_chars t)"
proof -
  have "(of_char c :: nat) < 256" by simp
  with assms show ?thesis
    using hex4_byte [OF assms(1)] by (auto simp: escape_char_def Let_def backslash_def quote_char_def)
qed

lemma short_escape:
  assumes "c \<in> {CHR 0x22, CHR 0x5C, CHR 0x08, CHR 0x0C, CHR 0x0A, CHR 0x0D, CHR 0x09}"
  shows "parse_chars (escape_char c @ t) = map_option (\<lambda>(s, r). (c # s, r)) (parse_chars t)"
  using assms
  by (elim insertE emptyE) (simp_all add: escape_char_def Let_def unescape_def quote_char_def backslash_def)

lemma parse_escaped: "parse_chars (escape_char c @ t) = map_option (\<lambda>(s, r). (c # s, r)) (parse_chars t)"
proof (cases "(of_char c :: nat) \<in> {34, 92, 8, 12, 10, 13, 9}")
  case True
  then have "c \<in> {CHR 0x22, CHR 0x5C, CHR 0x08, CHR 0x0C, CHR 0x0A, CHR 0x0D, CHR 0x09}"
    using char_code [of c] by blast
  then show ?thesis by (rule short_escape)
next
  case False
  then show ?thesis
    by (cases "(of_char c :: nat) < 32") (auto intro: control_escape plain_escape)
qed

lemma parse_quoted: "parse_chars (concat (map escape_char s) @ quote_char # r) = Some (s, r)"
  by (induction s) (simp_all add: parse_escaped)

text \<open>What may follow a value inside a text.\<close>

definition delimited :: "string \<Rightarrow> bool" where
  "delimited r \<longleftrightarrow> r = [] \<or> hd r \<in> {CHR '','', CHR '']'', CHR ''}''}"

lemma take_digits_all:
  assumes "list_all is_digit ds" "r = [] \<or> \<not> is_digit (hd r)"
  shows "take_digits (ds @ r) = (ds, r)"
  using assms by (induction ds) (cases r; auto simp: take_digits_def)+

lemma delimited_no_digit: "delimited r \<Longrightarrow> r = [] \<or> \<not> is_digit (hd r)"
  by (auto simp: delimited_def is_digit_def)

lemma nat_digits_lead: "nat_digits n \<noteq> [CHR ''0''] \<Longrightarrow> hd (nat_digits n) \<noteq> CHR ''0''"
proof (induction n rule: nat_digits.induct)
  case (1 n)
  show ?case
  proof (cases "n < 10")
    case True
    with 1(2) show ?thesis by (simp del: nat_digits.simps add: nat_digits.simps [of n])
  next
    case False
    have "nat_digits (n div 10) \<noteq> [CHR ''0'']"
    proof
      assume "nat_digits (n div 10) = [CHR ''0'']"
      then have "n div 10 = digits_val [CHR ''0'']"
        by (metis digits_val_nat_digits)
      then have "n div 10 = 0"
        by (simp add: digits_val_def digit_val_def)
      with False show False by simp
    qed
    with 1(1) [OF False] show ?thesis
      by (subst nat_digits.simps) (simp add: False hd_append)
  qed
qed

lemma parse_int_part_digits:
  assumes "delimited r"
  shows "parse_int_part (nat_digits m @ r) = Some (nat_digits m, r)"
proof -
  obtain d ds where d: "nat_digits m = d # ds" by (meson nat_digits_nonempty neq_Nil_conv)
  have "take_digits (nat_digits m @ r) = (nat_digits m, r)"
    by (rule take_digits_all [OF nat_digits_is_digit delimited_no_digit [OF assms]])
  moreover have "d = CHR ''0'' \<Longrightarrow> ds = []"
    using nat_digits_lead [of m] d by auto
  ultimately show ?thesis using d by (auto simp: parse_int_part_def)
qed

lemma parse_rest_parts: "delimited r \<Longrightarrow> parse_frac_part r = Some ([], r) \<and> parse_exp_part r = Some (0, r)"
  by (auto simp: delimited_def parse_frac_part_def parse_exp_part_def split: list.splits)

lemma nat_digits_hd: "is_digit (hd (nat_digits m))"
  using nat_digits_is_digit [of m] by (cases "nat_digits m") auto

lemma parse_number_int:
  assumes "delimited r" "\<bar>n\<bar> \<le> 2 ^ 53"
  shows "parse_number (int_string n @ r) = Some (of_int n, r)"
proof -
  have "hd (nat_digits m @ r) \<noteq> CHR ''-''" for m
    using nat_digits_hd [of m] by (auto simp: is_digit_def)
  then show ?thesis
    using parse_int_part_digits [OF assms(1)] parse_rest_parts [OF assms(1)] fl_of_int [OF assms(2)]
    by (simp add: parse_number_def int_string_def Let_def decimal_def)
qed

text \<open>Values that print exactly: whole numbers up to 2^53, objects in their printing order.\<close>

fun json_ok :: "json \<Rightarrow> bool" where
  "json_ok (JNum x) \<longleftrightarrow> of_int \<lfloor>x\<rfloor> = x \<and> \<bar>x\<bar> \<le> 2 ^ 53"
| "json_ok (JArr xs) \<longleftrightarrow> list_all json_ok xs"
| "json_ok (JObj ps) \<longleftrightarrow> distinct (map fst ps) \<and> list_all (\<lambda>(k, v). \<not> array_index k \<and> json_ok v) ps"
| "json_ok v \<longleftrightarrow> True"

fun json_fuel :: "json \<Rightarrow> nat" where
  "json_fuel (JArr xs) = Suc (sum_list (map (\<lambda>x. Suc (json_fuel x)) xs))"
| "json_fuel (JObj ps) = Suc (sum_list (map (\<lambda>(k, v). Suc (json_fuel v)) ps))"
| "json_fuel v = 1"

lemma fold_update_distinct:
  "distinct (map fst (acc @ ps)) \<Longrightarrow> fold (\<lambda>(k, v). AList.update k v) ps acc = acc @ ps"
proof (induction ps arbitrary: acc)
  case (Cons p ps)
  obtain k v where p: "p = (k, v)" by force
  have "AList.update k v acc = acc @ [(k, v)]" if "k \<notin> fst ` set acc"
    using that by (induction acc) auto
  with Cons p show ?case by auto
qed simp

lemma js_object_ok: "json_ok (JObj ps) \<Longrightarrow> js_object ps = ps"
  using fold_update_distinct [of "[]" ps]
  by (auto simp: js_object_def Let_def list_all_iff filter_empty_conv filter_id_conv split: prod.splits)

lemma int_string_start: "int_string n = c # cs \<Longrightarrow> is_digit c \<or> c = CHR ''-''"
  using nat_digits_hd [of "nat n"] by (auto simp: int_string_def split: if_splits)

lemma num_string_ok: "json_ok (JNum x) \<Longrightarrow> num_string x = int_string \<lfloor>x\<rfloor>"
  by (simp add: num_string_def)

lemma json_string_start:
  assumes "json_ok v"
  shows "\<exists>c cs. json_string v = c # cs \<and> \<not> json_space c \<and> c \<noteq> CHR '']''"
proof (cases v)
  case (JNum x)
  obtain c cs where c: "int_string \<lfloor>x\<rfloor> = c # cs"
    by (cases "int_string \<lfloor>x\<rfloor>") (auto simp: int_string_def split: if_splits)
  with JNum assms num_string_ok int_string_start [OF c] show ?thesis
    by (auto simp: is_digit_def json_space_def)
qed (use assms in \<open>auto simp: json_quote_def json_space_def quote_char_def\<close>)

lemma skip_ws_start: "\<not> json_space c \<Longrightarrow> skip_ws (c # cs) = c # cs"
  by (simp add: skip_ws_def)

lemma parse_value_number:
  assumes "json_ok (JNum x)" "delimited r"
  shows "parse_value (Suc n) (json_string (JNum x) @ r) = Some (JNum x, r)"
proof -
  obtain c cs where c: "int_string \<lfloor>x\<rfloor> = c # cs"
    by (cases "int_string \<lfloor>x\<rfloor>") (auto simp: int_string_def split: if_splits)
  have "c \<noteq> quote_char \<and> c \<noteq> CHR ''['' \<and> c \<noteq> CHR ''{'' \<and> c \<noteq> CHR ''n'' \<and> c \<noteq> CHR ''t'' \<and> c \<noteq> CHR ''f''"
    using int_string_start [OF c] by (auto simp: is_digit_def quote_char_def)
  moreover have "parse_number (c # cs @ r) = Some (x, r)"
  proof -
    have x: "of_int \<lfloor>x\<rfloor> = x" "\<bar>x\<bar> \<le> 2 ^ 53" using assms(1) by (simp_all only: json_ok.simps)
    have "of_int \<bar>\<lfloor>x\<rfloor>\<bar> \<le> (of_int (2 ^ 53) :: rat)"
      using x(2) unfolding of_int_abs x(1) by simp
    then have "\<bar>\<lfloor>x\<rfloor>\<bar> \<le> 2 ^ 53" by (simp only: of_int_le_iff)
    from parse_number_int [OF assms(2) this] c x(1) show ?thesis by simp
  qed
  ultimately show ?thesis
    using assms(1) c by (simp add: num_string_ok parse_literal_def strip_front_def)
qed

text \<open>The text of a value, followed by anything a value may be followed by, reads back as the value.\<close>

definition reads_back :: "json \<Rightarrow> bool" where
  "reads_back v \<longleftrightarrow> (\<forall>n r. json_ok v \<longrightarrow> delimited r \<longrightarrow> json_fuel v \<le> n \<longrightarrow>
     parse_value n (json_string v @ r) = Some (v, r))"

lemma reads_back_elems:
  assumes "xs \<noteq> []" "\<And>x. x \<in> set xs \<Longrightarrow> reads_back x \<and> json_ok x"
    and "sum_list (map (\<lambda>x. Suc (json_fuel x)) xs) \<le> n"
  shows "parse_elems n (commas (map json_string xs) @ CHR '']'' # r) = Some (xs, r)"
  using assms
proof (induction xs arbitrary: n)
  case (Cons x xs)
  then obtain m where n: "n = Suc m" by (cases n) auto
  have x: "parse_value m (json_string x @ t) = Some (x, t)" if "delimited t" for t
    using Cons.prems(2) [of x] Cons.prems(3) that n by (auto simp: reads_back_def)
  show ?case
  proof (cases "xs = []")
    case True
    with x [of "CHR '']'' # r"] n show ?thesis by (simp add: delimited_def skip_ws_def json_space_def)
  next
    case False
    then obtain y ys where y: "xs = y # ys" by (cases xs) auto
    obtain c cs where c: "json_string y = c # cs" "\<not> json_space c"
      using json_string_start [of y] Cons.prems(2) [of y] y by auto
    have s: "skip_ws (commas (map json_string xs) @ CHR '']'' # r) = commas (map json_string xs) @ CHR '']'' # r"
      using c y by (simp add: skip_ws_start)
    have "parse_elems m (commas (map json_string xs) @ CHR '']'' # r) = Some (xs, r)"
      using Cons.prems n False by (intro Cons.IH) auto
    with x [of "CHR '','' # commas (map json_string xs) @ CHR '']'' # r"] n s False show ?thesis
      by (simp add: delimited_def skip_ws_def json_space_def)
  qed
qed simp

abbreviation member_string :: "string \<times> json \<Rightarrow> string" where
  "member_string \<equiv> (\<lambda>(k, v). json_quote k @ CHR '':'' # json_string v)"

lemma reads_back_members:
  assumes "ps \<noteq> []" "\<And>k v. (k, v) \<in> set ps \<Longrightarrow> reads_back v \<and> json_ok v"
    and "sum_list (map (\<lambda>(k, v). Suc (json_fuel v)) ps) \<le> n"
  shows "parse_members n (commas (map member_string ps) @ CHR ''}'' # r) = Some (ps, r)"
  using assms
proof (induction ps arbitrary: n)
  case (Cons p ps)
  obtain k v where p: "p = (k, v)" by force
  from Cons obtain m where n: "n = Suc m" by (cases n) (auto simp: p)
  have v: "parse_value m (json_string v @ t) = Some (v, t)" if "delimited t" for t
    using Cons.prems(2) [of k v] Cons.prems(3) that n p by (auto simp: reads_back_def)
  obtain c cs where c: "json_string v = c # cs" "\<not> json_space c"
    using json_string_start [of v] Cons.prems(2) [of k v] p by auto
  have q: "parse_chars (concat (map escape_char k) @ quote_char # t) = Some (k, t)" for t
    by (rule parse_quoted)
  show ?case
  proof (cases "ps = []")
    case True
    with v [of "CHR ''}'' # r"] n c show ?thesis
      by (simp add: p json_quote_def q delimited_def skip_ws_def json_space_def)
  next
    case False
    then obtain k2 w qs where y: "ps = (k2, w) # qs" by (cases ps) auto
    let ?rest = "commas (map member_string ps) @ CHR ''}'' # r"
    have s: "skip_ws ?rest = ?rest"
      using y by (simp add: json_quote_def skip_ws_def json_space_def)
    have "parse_members m ?rest = Some (ps, r)"
      using Cons.prems n p False by (intro Cons.IH) auto
    with v [of "CHR '','' # ?rest"] n c s False show ?thesis
      by (simp add: p json_quote_def q delimited_def skip_ws_def json_space_def)
  qed
qed simp

lemma reads_back_all: "reads_back v"
proof (induction v)
  case (JArr xs)
  show ?case
    unfolding reads_back_def
  proof (intro allI impI)
    fix n r
    assume ok: "json_ok (JArr xs)" and n: "json_fuel (JArr xs) \<le> n"
    then obtain m where m: "n = Suc m" by (cases n) auto
    show "parse_value n (json_string (JArr xs) @ r) = Some (JArr xs, r)"
    proof (cases "xs = []")
      case True
      then show ?thesis by (simp add: m skip_ws_def json_space_def quote_char_def)
    next
      case False
      then obtain y ys where y: "xs = y # ys" by (cases xs) auto
      obtain c cs where c: "json_string y = c # cs" "\<not> json_space c" "c \<noteq> CHR '']''"
        using json_string_start [of y] ok y by auto
      have "parse_elems m (commas (map json_string xs) @ CHR '']'' # r) = Some (xs, r)"
        using False JArr ok n m by (intro reads_back_elems) (auto simp: list_all_iff)
      moreover obtain t where "commas (map json_string xs) @ CHR '']'' # r = c # t"
        using c y by (cases "ys = []") auto
      ultimately show ?thesis using c by (simp add: m skip_ws_start quote_char_def)
    qed
  qed
next
  case (JObj ps)
  show ?case
    unfolding reads_back_def
  proof (intro allI impI)
    fix n r
    assume ok: "json_ok (JObj ps)" and n: "json_fuel (JObj ps) \<le> n"
    then obtain m where m: "n = Suc m" by (cases n) auto
    show "parse_value n (json_string (JObj ps) @ r) = Some (JObj ps, r)"
    proof (cases "ps = []")
      case True
      then show ?thesis by (simp add: m skip_ws_def json_space_def quote_char_def)
    next
      case False
      then obtain k w qs where y: "ps = (k, w) # qs" by (cases ps) auto
      have "parse_members m (commas (map member_string ps) @ CHR ''}'' # r) = Some (ps, r)"
        using False JObj ok n m by (intro reads_back_members) (auto simp: list_all_iff)
      moreover obtain t where t: "commas (map member_string ps) @ CHR ''}'' # r = quote_char # t"
        using y by (cases "qs = []") (auto simp: json_quote_def)
      moreover have "skip_ws (quote_char # t) = quote_char # t"
        by (simp add: skip_ws_def json_space_def)
      ultimately show ?thesis
        using js_object_ok [OF ok] by (simp add: m quote_char_def)
    qed
  qed
next
  case (JNum x)
  show ?case
    unfolding reads_back_def using parse_value_number by (metis Suc_le_D json_fuel.simps(5) One_nat_def)
next
  case (JStr s)
  show ?case
    unfolding reads_back_def
    by (auto simp: json_quote_def parse_quoted dest!: Suc_le_D)
qed (auto simp: reads_back_def parse_literal_def strip_front_def quote_char_def dest!: Suc_le_D)

lemma fuel_length: "json_fuel v \<le> 2 * length (json_string v)"
proof (induction v)
  case (JArr xs)
  then have "sum_list (map (\<lambda>x. Suc (json_fuel x)) xs) \<le> 2 * length (commas (map json_string xs)) + 1"
  proof (induction xs)
    case (Cons x xs)
    have "json_fuel x \<le> 2 * length (json_string x)" using Cons.prems by simp
    moreover have "sum_list (map (\<lambda>x. Suc (json_fuel x)) xs) \<le> 2 * length (commas (map json_string xs)) + 1"
      using Cons by auto
    ultimately show ?case by simp
  qed simp
  then show ?case by simp
next
  case (JObj ps)
  then have "sum_list (map (\<lambda>(k, v). Suc (json_fuel v)) ps) \<le> 2 * length (commas (map member_string ps)) + 1"
  proof (induction ps)
    case (Cons p ps)
    obtain k v where p: "p = (k, v)" by force
    have "json_fuel v \<le> 2 * length (json_string v)" using Cons.prems [of p v] by (simp add: p)
    moreover have "sum_list (map (\<lambda>(k, v). Suc (json_fuel v)) ps) \<le> 2 * length (commas (map member_string ps)) + 1"
      using Cons by auto
    ultimately show ?case by (simp add: p json_quote_def)
  qed simp
  then show ?case by simp
next
  case (JNum x)
  have "num_string x \<noteq> []"
    by (auto simp: num_string_def int_string_def positive_string_def Let_def split: prod.splits)
  then show ?case by (cases "num_string x") auto
qed (auto simp: json_quote_def)

text \<open>\<open>JSON.parse\<close> inverts \<open>JSON.stringify\<close> on every value whose numbers are whole (up to 2^53) and
  whose objects are in JavaScript's property order: strings with any quotes, backslashes and control
  characters, nested arrays and objects.\<close>

theorem json_parse_string:
  assumes "json_ok v"
  shows "json_parse (json_string v) = Some v"
proof -
  obtain c cs where c: "json_string v = c # cs" "\<not> json_space c"
    using json_string_start [OF assms] by metis
  have "parse_value (2 * length (json_string v) + 2) (json_string v @ []) = Some (v, [])"
    using reads_back_all [of v, unfolded reads_back_def, rule_format, of "[]" "2 * length (json_string v) + 2"]
      assms fuel_length [of v] by (simp add: delimited_def)
  with c show ?thesis by (simp add: json_parse_def skip_ws_start) (simp add: skip_ws_def)
qed

end
