(* ===== verification/AudioStore.thy ===== *)
theory AudioStore
  imports StoreHelpers MediaJobs Json "HOL-Library.Option_ord"
begin

section \<open>Audio segments and recording seams\<close>

text \<open>
  packages/session-core/src/audioStore.ts with the seam statements of packages/storage/src/audioSeams.ts:
  segment rows, one seam per accepted chunk window of a recording, the ingest and merge jobs that a
  change enqueues in its own transaction, and the apply of the worker's results. The media ports are
  the environment's \<open>env_media\<close>; a hub without them writes plain rows. A segment's waveform column is
  kept as the list of numbers it serialises. The two \<open>localeCompare\<close> sorts of window starts are by
  bytes here; the starts are ISO instants, on which the two orders agree.
\<close>

subsection \<open>Keys and formats\<close>

definition finalize_meta_key :: "int \<Rightarrow> string" where
  "finalize_meta_key ro = ''media_finalize:'' @ int_string ro"

definition merge_blocked_meta_key :: "int \<Rightarrow> string" where
  "merge_blocked_meta_key ro = ''media_merge_blocked:'' @ int_string ro"

definition deterministic_merge_errors :: "string list" where
  "deterministic_merge_errors = [''mixed-codecs'', ''interleaved-input'']"

text \<open>\<open>Array.prototype.join\<close>.\<close>

fun join_with :: "string \<Rightarrow> string list \<Rightarrow> string" where
  "join_with sep [] = []"
| "join_with sep (x # xs) = (if xs = [] then x else x @ sep @ join_with sep xs)"

definition merge_input_set_value :: "string list \<Rightarrow> string" where
  "merge_input_set_value ids = join_with '','' (sort ids)"

record audio_format =
  af_ext :: string
  af_tokens :: "string list"
  af_mime :: string

definition audio_formats :: "audio_format list" where
  "audio_formats = [
     \<lparr>af_ext = ''ogg'', af_tokens = [''ogg''], af_mime = ''audio/ogg''\<rparr>,
     \<lparr>af_ext = ''wav'', af_tokens = [''wav''], af_mime = ''audio/wav''\<rparr>,
     \<lparr>af_ext = ''mp3'', af_tokens = [''mp3'', ''mpeg''], af_mime = ''audio/mpeg''\<rparr>,
     \<lparr>af_ext = ''aiff'', af_tokens = [''aif''], af_mime = ''audio/aiff''\<rparr>,
     \<lparr>af_ext = ''m4a'', af_tokens = [''mp4'', ''m4a''], af_mime = ''audio/mp4''\<rparr>,
     \<lparr>af_ext = ''flac'', af_tokens = [''flac''], af_mime = ''audio/flac''\<rparr>]"

text \<open>\<open>String.prototype.includes\<close>.\<close>

fun includes_text :: "string \<Rightarrow> string \<Rightarrow> bool" where
  "includes_text t [] = (t = [])"
| "includes_text t (c # cs) = (take (length t) (c # cs) = t \<or> includes_text t cs)"

definition ext_for_mime :: "string \<Rightarrow> string" where
  "ext_for_mime m = (let mt = js_lower m in
     case find (\<lambda>f. list_ex (\<lambda>t. includes_text t mt) (af_tokens f)) audio_formats of
       Some f \<Rightarrow> af_ext f | None \<Rightarrow> ''webm'')"

definition mime_for_ext :: "string \<Rightarrow> string" where
  "mime_for_ext e = (case find (\<lambda>f. af_ext f = e) audio_formats of
     Some f \<Rightarrow> af_mime f | None \<Rightarrow> ''audio/webm'')"

definition segment_blob_key :: "string \<Rightarrow> int \<Rightarrow> string \<Rightarrow> string \<Rightarrow> string" where
  "segment_blob_key s ordinal i mime =
     ''audio/'' @ s @ ''/'' @ pad_start 4 (CHR ''0'') (int_string ordinal) @ ''_'' @ i @ ''.'' @
     ext_for_mime (if mime = [] then ''audio/webm'' else mime)"

subsection \<open>What the store answers\<close>

record segment_seam =
  ss_offset :: int
  ss_started :: iso
  ss_ended :: "iso option"

record audio_meta =
  am_id :: string
  am_ordinal :: int
  am_started :: "iso option"
  am_ended :: "iso option"
  am_mime :: string
  am_key :: string
  am_recording :: "int option"
  am_peaks :: "num64 list option"
  am_floor :: "num64 option"
  am_duration :: "int option"
  am_status :: "media_status option"
  am_error :: "string option"
  am_seams :: "segment_seam list option"

definition dict_seams :: "seam_row list \<Rightarrow> segment_seam list option" where
  "dict_seams ss = (case ss of
     [] \<Rightarrow> None
   | x # xs \<Rightarrow> if xs = [] \<and> sm_offset x = 0 then None else
       Some (map (\<lambda>x. \<lparr>ss_offset = sm_offset x, ss_started = sm_started x, ss_ended = sm_ended x\<rparr>)
         (order_by (\<lambda>x. (sm_offset x, sm_started x)) ss)))"

definition audio_row_to_meta :: "segment_row \<Rightarrow> seam_row list \<Rightarrow> audio_meta" where
  "audio_row_to_meta r ss = \<lparr>am_id = row_id r, am_ordinal = sg_ordinal r, am_started = sg_started r,
     am_ended = sg_ended r, am_mime = sg_mime r, am_key = sg_key r, am_recording = sg_recording r,
     am_peaks = (if sg_peaks r = Some [] then None else sg_peaks r), am_floor = sg_floor r,
     am_duration = sg_duration r, am_status = sg_status r, am_error = sg_error r, am_seams = dict_seams ss\<rparr>"

subsection \<open>Statements\<close>

definition tx_media :: "(string \<Rightarrow> int) option tx" where
  "tx_media = (\<lambda>e s. (Inr (env_media e), s))"

text \<open>\<open>ordinalOf\<close>: a positive whole recording ordinal.\<close>

definition ordinal_of :: "num64 option \<Rightarrow> int option" where
  "ordinal_of n = (case n of None \<Rightarrow> None | Some x \<Rightarrow> let ri = js_trunc x in if 1 \<le> ri then Some ri else None)"

definition same_window :: "int \<Rightarrow> iso \<Rightarrow> seam_row \<Rightarrow> bool" where
  "same_window ro started x \<longleftrightarrow> sm_recording x = ro \<and> sm_started x = started"

text \<open>The primary key, the check on the offset and the reference to the segment.\<close>

definition insert_seam_stmt :: "seam_row \<Rightarrow> stmt" where
  "insert_seam_stmt x d = (if sm_offset x < 0 then Inl CheckViolation else
     if list_ex (same_window (sm_recording x) (sm_started x)) (db_seams d) then Inl UniqueViolation else
     if find_row (sm_segment x) (db_segments d) = None then Inl ForeignKeyViolation else
     Inr (db_seams_update (\<lambda>t. t @ [x]) d, 1))"

definition find_window :: "int \<Rightarrow> iso \<Rightarrow> session_db \<Rightarrow> seam_row option" where
  "find_window ro started d = find (same_window ro started) (db_seams d)"

definition windows_of :: "int \<Rightarrow> session_db \<Rightarrow> seam_row list" where
  "windows_of ro d = order_by sm_started (filter (\<lambda>x. sm_recording x = ro) (db_seams d))"

definition seams_of_segment :: "string \<Rightarrow> session_db \<Rightarrow> seam_row list" where
  "seams_of_segment i d = order_by (\<lambda>x. (sm_offset x, sm_started x)) (filter (\<lambda>x. sm_segment x = i) (db_seams d))"

text \<open>The windows' new offsets, as the \<open>VALUES\<close> list.\<close>

definition repoint_stmt :: "int \<Rightarrow> string \<Rightarrow> (iso \<times> int) list \<Rightarrow> stmt" where
  "repoint_stmt ro i ws d = (let p = \<lambda>x. sm_recording x = ro \<and> map_of ws (sm_started x) \<noteq> None in
     if ws = [] then Inr (d, 0) else
     if list_ex (\<lambda>(w, off). off < 0 \<and> list_ex (same_window ro w) (db_seams d)) ws then Inl CheckViolation else
     if list_ex p (db_seams d) \<and> find_row i (db_segments d) = None then Inl ForeignKeyViolation else
     update_stmt db_seams db_seams_update p (\<lambda>x. x\<lparr>sm_segment := i,
       sm_offset := (case map_of ws (sm_started x) of None \<Rightarrow> sm_offset x | Some off \<Rightarrow> off)\<rparr>) d)"

text \<open>Deleting a segment cascades to its seams; the count is of segments.\<close>

definition delete_segment_stmt :: "string \<Rightarrow> stmt" where
  "delete_segment_stmt i d = (if find_row i (db_segments d) = None then Inr (d, 0) else
     Inr (db_seams_update (delete_where (\<lambda>x. sm_segment x = i)) (db_segments_update (delete_where (has_id i)) d),
       count_where (has_id i) (db_segments d)))"

definition enqueue_stmt :: "new_job \<Rightarrow> stmt" where
  "enqueue_stmt n d = (case enqueue_job n (db_jobs d) of
     Inl JobKeyTaken \<Rightarrow> Inl UniqueViolation
   | Inl JobBytesNegative \<Rightarrow> Inl CheckViolation
   | Inr (t, ok) \<Rightarrow> Inr (d\<lparr>db_jobs := t\<rparr>, if ok then 1 else 0))"

definition jobs_stmt :: "(media_job list \<Rightarrow> media_job list \<times> nat) \<Rightarrow> stmt" where
  "jobs_stmt f d = (case f (db_jobs d) of (t, n) \<Rightarrow> Inr (d\<lparr>db_jobs := t\<rparr>, n))"

subsection \<open>Reads\<close>

definition with_seams :: "segment_row list \<Rightarrow> audio_meta list tx" where
  "with_seams rows = (if rows = [] then treturn [] else
     tbind tx_media (\<lambda>m. case m of
       None \<Rightarrow> treturn (map (\<lambda>r. audio_row_to_meta r []) rows)
     | Some _ \<Rightarrow> tx_read (\<lambda>d. map (\<lambda>r. audio_row_to_meta r (filter (\<lambda>x. sm_segment x = row_id r) (db_seams d))) rows)))"

definition list_audio_segments :: "audio_meta list tx" where
  "list_audio_segments = tbind (tx_read (\<lambda>d. order_by (\<lambda>r. (sg_ordinal r, row_id r)) (db_segments d))) with_seams"

definition get_audio_segment :: "string \<Rightarrow> audio_meta option tx" where
  "get_audio_segment i = tbind (tx_read (\<lambda>d. filter (has_id i) (db_segments d))) (\<lambda>rows.
     tbind (with_seams rows) (\<lambda>ms. treturn (case ms of [] \<Rightarrow> None | m # _ \<Rightarrow> Some m)))"

definition get_audio_segment_key :: "string \<Rightarrow> (string \<times> string) option tx" where
  "get_audio_segment_key i = tx_read (\<lambda>d. map_option (\<lambda>r. (sg_key r, sg_mime r)) (find_row i (db_segments d)))"

text \<open>Merge input order.\<close>

definition recording_rows :: "int \<Rightarrow> session_db \<Rightarrow> segment_row list" where
  "recording_rows ro d = order_by (\<lambda>r. (sg_started r, sg_ordinal r, row_id r))
     (filter (\<lambda>r. sg_recording r = Some ro) (db_segments d))"

definition segments_of_recording :: "int \<Rightarrow> audio_meta list tx" where
  "segments_of_recording ro = tbind (tx_read (recording_rows ro)) with_seams"

definition held_window :: "int \<Rightarrow> iso \<Rightarrow> audio_meta option tx" where
  "held_window ro started = tbind tx_media (\<lambda>m. case m of
     None \<Rightarrow> treturn None
   | Some _ \<Rightarrow> tbind (tx_read (find_window ro started)) (\<lambda>w. case w of
         None \<Rightarrow> treturn None | Some x \<Rightarrow> get_audio_segment (sm_segment x)))"

definition next_segment_ordinal :: "int tx" where
  "next_segment_ordinal = tx_read (\<lambda>d. case max_of (map sg_ordinal (db_segments d)) of None \<Rightarrow> 1 | Some n \<Rightarrow> n + 1)"

definition plan_audio_segment :: "string \<Rightarrow> (string \<times> string) tx" where
  "plan_audio_segment mime = tbind tx_uuid (\<lambda>i. tbind session_id (\<lambda>s. tbind next_segment_ordinal (\<lambda>n.
     treturn (i, segment_blob_key s n i mime))))"

text \<open>The finalized windows that are held and missing, each once.\<close>

definition windows_held :: "int \<Rightarrow> iso list \<Rightarrow> (iso list \<times> iso list) tx" where
  "windows_held ro ws = tbind tx_media (\<lambda>m.
     tbind (case m of None \<Rightarrow> treturn [] | Some _ \<Rightarrow> tx_read (\<lambda>d. map sm_started (windows_of ro d))) (\<lambda>seamed.
     tbind (segments_of_recording ro) (\<lambda>segs.
     let have = seamed @ List.map_filter am_started segs; us = rev (remdups (rev ws)) in
     treturn (filter (\<lambda>w. w \<in> set have) us, filter (\<lambda>w. w \<notin> set have) us))))"

subsection \<open>Jobs\<close>

definition enqueue_ingest :: "string \<Rightarrow> int \<Rightarrow> unit tx" where
  "enqueue_ingest i bytes = tbind tx_media (\<lambda>m. case m of
     None \<Rightarrow> treturn ()
   | Some _ \<Rightarrow> tbind tx_now (\<lambda>now. tbind tx_uuid (\<lambda>jid. tbind session_id (\<lambda>s.
       tbind (raw_run (enqueue_stmt \<lparr>nj_id = jid, nj_kind = Ingest, nj_session = s, nj_target = i,
         nj_bytes = max 0 bytes, nj_now = now, nj_max = None\<rparr>)) (\<lambda>_. treturn ())))))"

definition enqueue_merge :: "int \<Rightarrow> bool tx" where
  "enqueue_merge ro = tbind tx_media (\<lambda>m. case m of
     None \<Rightarrow> treturn False
   | Some blob_bytes \<Rightarrow> tbind (segments_of_recording ro) (\<lambda>segs.
       tbind tx_uuid (\<lambda>jid. tbind session_id (\<lambda>s. tbind tx_now (\<lambda>now.
       tbind (raw_run (enqueue_stmt \<lparr>nj_id = jid, nj_kind = Merge, nj_session = s, nj_target = int_string ro,
         nj_bytes = sum_list (map (\<lambda>g. blob_bytes (am_key g)) segs), nj_now = now, nj_max = None\<rparr>))
         (\<lambda>n. treturn (0 < n)))))))"

subsection \<open>The finalize of a recording\<close>

definition pending_finalize :: "int \<Rightarrow> iso list option tx" where
  "pending_finalize ro = tbind (meta_get (finalize_meta_key ro)) (\<lambda>raw. treturn (case raw of
     None \<Rightarrow> None
   | Some t \<Rightarrow> (case json_parse t of Some (JArr xs) \<Rightarrow> Some (map js_string xs) | _ \<Rightarrow> None)))"

definition clear_finalize :: "int \<Rightarrow> unit tx" where
  "clear_finalize ro = tbind (raw_run (meta_remove (finalize_meta_key ro))) (\<lambda>_. treturn ())"

datatype finalize_outcome = FQueued | FNotNeeded | FAlreadyQueued | FWaiting

definition finalize_recording :: "int \<Rightarrow> iso list \<Rightarrow> finalize_outcome tx" where
  "finalize_recording ro ws = tbind tx_media (\<lambda>m. if m = None then treturn FNotNeeded else
     tbind (windows_held ro ws) (\<lambda>(held, missing).
     if missing \<noteq> [] then
       tbind (pending_finalize ro) (\<lambda>prior.
       let total = sort (rev (remdups (rev ((case prior of None \<Rightarrow> [] | Some p \<Rightarrow> p) @ ws)))) in
       tbind (meta_set_uncounted (finalize_meta_key ro) (json_string (JArr (map JStr total)))) (\<lambda>_. treturn FWaiting))
     else
       tbind (clear_finalize ro) (\<lambda>_.
       tbind (segments_of_recording ro) (\<lambda>segs.
       if length segs < 2 then treturn FNotNeeded else
       tbind session_id (\<lambda>s.
       tbind (tx_read (\<lambda>d. live_job Merge s (int_string ro) (db_jobs d))) (\<lambda>live.
       if live \<noteq> None then treturn FAlreadyQueued else
       tbind (enqueue_merge ro) (\<lambda>ok. treturn (if ok then FQueued else FAlreadyQueued))))))))"

text \<open>A straggler arrived.\<close>

definition merge_if_finalized :: "int \<Rightarrow> unit tx" where
  "merge_if_finalized ro = tbind (pending_finalize ro) (\<lambda>ws. case ws of
     None \<Rightarrow> treturn ()
   | Some windows \<Rightarrow> tbind (windows_held ro windows) (\<lambda>(held, missing).
       if missing \<noteq> [] then treturn () else
       tbind (clear_finalize ro) (\<lambda>_.
       tbind (segments_of_recording ro) (\<lambda>segs.
       if 2 \<le> length segs then tbind (enqueue_merge ro) (\<lambda>_. treturn ()) else treturn ()))))"

subsection \<open>Writes\<close>

record segment_input =
  si_session :: string
  si_mime :: string
  si_started :: "iso option"
  si_ended :: "iso option"
  si_recording :: "num64 option"
  si_bytes :: "int option"
  si_id :: "string option"
  si_key :: "string option"

text \<open>The stored segment, and whether it was there before.\<close>

definition add_audio_segment :: "segment_input \<Rightarrow> (audio_meta \<times> bool) tx" where
  "add_audio_segment i = tbind tx_media (\<lambda>media.
     let ro = ordinal_of (si_recording i);
         window = (case (media, ro, si_started i) of (Some _, Some r, Some st) \<Rightarrow> Some (r, st) | _ \<Rightarrow> None) in
     tbind (case window of None \<Rightarrow> treturn None | Some (r, st) \<Rightarrow> held_window r st) (\<lambda>held. case held of
       Some h \<Rightarrow> treturn (h, True)
     | None \<Rightarrow>
     tbind (case si_id i of Some x \<Rightarrow> treturn x | None \<Rightarrow> tx_uuid) (\<lambda>sid.
     tbind next_segment_ordinal (\<lambda>ordinal.
     let mime = (if si_mime i = [] then ''audio/webm'' else si_mime i);
         key = (case si_key i of Some k \<Rightarrow> k | None \<Rightarrow> segment_blob_key (si_session i) ordinal sid mime);
         status = (if media = None then None else Some MPending) in
     tbind now_iso (\<lambda>created.
     tbind (db_run (insert_stmt db_segments db_segments_update
         \<lparr>row_id = sid, sg_ordinal = ordinal, sg_started = si_started i, sg_ended = si_ended i, sg_mime = mime,
          sg_key = key, sg_recording = ro, sg_peaks = None, sg_floor = None, sg_created = created,
          sg_duration = None, sg_status = status, sg_error = None\<rparr>)) (\<lambda>_.
     let own = map_option (\<lambda>(r, st). \<lparr>sm_recording = r, sm_started = st, sm_ended = si_ended i,
           sm_segment = sid, sm_offset = 0, sm_source = key\<rparr>) window in
     tbind (case own of None \<Rightarrow> treturn () | Some x \<Rightarrow> tbind (db_run (insert_seam_stmt x)) (\<lambda>_. treturn ())) (\<lambda>_.
     tbind (enqueue_ingest sid (case si_bytes i of None \<Rightarrow> 0 | Some b \<Rightarrow> b)) (\<lambda>_.
     tbind (broadcast AudioChanged) (\<lambda>_.
     tbind (case ro of None \<Rightarrow> treturn () | Some r \<Rightarrow> if media = None then treturn () else merge_if_finalized r) (\<lambda>_.
     treturn (\<lparr>am_id = sid, am_ordinal = ordinal, am_started = si_started i, am_ended = si_ended i, am_mime = mime,
       am_key = key, am_recording = ro, am_peaks = None, am_floor = None, am_duration = None, am_status = status,
       am_error = None, am_seams = (case own of None \<Rightarrow> None | Some x \<Rightarrow> dict_seams [x])\<rparr>, False)))))))))))"

definition delete_audio_segment :: "string \<Rightarrow> unit tx" where
  "delete_audio_segment i = tbind (db_run (delete_segment_stmt i)) (\<lambda>_. treturn ())"

definition peaks_db_floor :: num64 where "peaks_db_floor = -48"

text \<open>The update of one segment row, with the frame when a row changed.\<close>

definition update_segment :: "string \<Rightarrow> (segment_row \<Rightarrow> segment_row) \<Rightarrow> bool tx" where
  "update_segment i f = tbind (db_run (update_stmt db_segments db_segments_update (has_id i) f)) (\<lambda>n.
     if 0 < n then tbind (broadcast AudioChanged) (\<lambda>_. treturn True) else treturn False)"

definition set_audio_segment_waveform :: "string \<Rightarrow> num64 list \<Rightarrow> bool tx" where
  "set_audio_segment_waveform i peaks =
     update_segment i (\<lambda>r. r\<lparr>sg_peaks := Some peaks, sg_floor := Some peaks_db_floor\<rparr>)"

record ingest_apply =
  ia_segment :: string
  ia_duration :: int
  ia_peaks :: "num64 list"
  ia_flac :: "(string \<times> string) option"

text \<open>None when the row is gone; else the replaced key, if any.\<close>

definition ingested :: "ingest_apply \<Rightarrow> segment_row \<Rightarrow> segment_row" where
  "ingested a r = (let r' = r\<lparr>sg_duration := Some (ia_duration a), sg_peaks := Some (ia_peaks a),
       sg_floor := Some peaks_db_floor, sg_status := Some MDone, sg_error := None\<rparr> in
     case ia_flac a of None \<Rightarrow> r' | Some (k, mime) \<Rightarrow> r'\<lparr>sg_key := k, sg_mime := mime\<rparr>)"

definition update_checked :: "string \<Rightarrow> bool \<Rightarrow> (segment_row \<Rightarrow> segment_row) \<Rightarrow> stmt" where
  "update_checked i ok f d = (if \<not> ok \<and> find_row i (db_segments d) \<noteq> None then Inl CheckViolation
     else update_stmt db_segments db_segments_update (has_id i) f d)"

definition apply_ingest :: "ingest_apply \<Rightarrow> string option option tx" where
  "apply_ingest a = tbind (tx_read (\<lambda>d. find_row (ia_segment a) (db_segments d))) (\<lambda>ro. case ro of
     None \<Rightarrow> treturn None
   | Some row \<Rightarrow>
       tbind (db_run (update_checked (ia_segment a) (0 \<le> ia_duration a) (ingested a))) (\<lambda>_.
       tbind (broadcast AudioChanged) (\<lambda>_.
       treturn (Some (case ia_flac a of
         Some (k, _) \<Rightarrow> if sg_key row \<noteq> k then Some (sg_key row) else None
       | None \<Rightarrow> None)))))"

definition block_merge :: "int \<Rightarrow> unit tx" where
  "block_merge ro = tbind (segments_of_recording ro) (\<lambda>segs.
     meta_set_uncounted (merge_blocked_meta_key ro) (merge_input_set_value (map am_id segs)))"

definition mark_media_failed :: "string \<Rightarrow> string \<Rightarrow> bool tx" where
  "mark_media_failed i er = update_segment i (\<lambda>r. r\<lparr>sg_status := Some MFailed, sg_error := Some (take 64 er)\<rparr>)"

subsection \<open>The apply of a merge\<close>

record merge_seam =
  ms_offset :: int
  ms_started :: iso
  ms_ended :: "iso option"
  ms_source :: string

record merge_apply =
  ma_recording :: int
  ma_merged :: string
  ma_key :: string
  ma_mime :: string
  ma_duration :: int
  ma_peaks :: "num64 list"
  ma_seams :: "merge_seam list"
  ma_inputs :: "string list"

datatype merge_outcome = MergeApplied "string list" | MergeInputsChanged | MergeInvalid

text \<open>A window the result must cover: its end and source from the database, and whether a seam holds it.\<close>

record expected_window =
  xw_ended :: "iso option"
  xw_source :: string
  xw_held :: bool

definition held_windows :: "string list \<Rightarrow> seam_row list \<Rightarrow> (iso \<times> expected_window) list" where
  "held_windows ids existing = fold (\<lambda>x. AList.update (sm_started x)
       \<lparr>xw_ended = sm_ended x, xw_source = sm_source x, xw_held = True\<rparr>)
     (filter (\<lambda>x. sm_segment x \<in> set ids) existing) []"

text \<open>The inputs without a seam add their own start; None when one has no start.\<close>

fun add_unseamed :: "string list \<Rightarrow> audio_meta list \<Rightarrow> (iso \<times> expected_window) list \<Rightarrow> (iso \<times> expected_window) list option" where
  "add_unseamed seamed [] acc = Some acc"
| "add_unseamed seamed (g # gs) acc = (if am_id g \<in> set seamed then add_unseamed seamed gs acc else
     (case am_started g of
        None \<Rightarrow> None
      | Some st \<Rightarrow> add_unseamed seamed gs (if map_of acc st \<noteq> None then acc else
          acc @ [(st, \<lparr>xw_ended = am_ended g, xw_source = am_key g, xw_held = False\<rparr>)])))"

definition expected_windows :: "audio_meta list \<Rightarrow> seam_row list \<Rightarrow> (iso \<times> expected_window) list option" where
  "expected_windows inputs existing = (let ids = map am_id inputs in
     add_unseamed (map sm_segment (filter (\<lambda>x. sm_segment x \<in> set ids) existing)) inputs (held_windows ids existing))"

definition given_windows :: "merge_seam list \<Rightarrow> (iso \<times> int) list" where
  "given_windows ss = fold (\<lambda>x. AList.update (ms_started x) (ms_offset x)) ss []"

text \<open>The loop over the ordered windows: safe integers in the duration, strictly increasing.\<close>

fun offsets_increase :: "int \<Rightarrow> int \<Rightarrow> (iso \<times> int) list \<Rightarrow> bool" where
  "offsets_increase dur prev [] = True"
| "offsets_increase dur prev ((w, off) # r) =
     (\<bar>off\<bar> \<le> 2 ^ 53 - 1 \<and> 0 \<le> off \<and> off \<le> dur \<and> prev < off \<and> offsets_increase dur off r)"

text \<open>The checked plan of a merge: None is \<open>invalid\<close>.\<close>

definition merge_plan :: "merge_apply \<Rightarrow> audio_meta list \<Rightarrow> seam_row list \<Rightarrow>
    ((iso \<times> expected_window) list \<times> (iso \<times> int) list) option" where
  "merge_plan a inputs existing = (case expected_windows inputs existing of
     None \<Rightarrow> None
   | Some expected \<Rightarrow> let given = given_windows (ma_seams a); ordered = order_by fst given in
       if length given \<noteq> length (ma_seams a) \<or> length given \<noteq> length expected then None else
       if list_ex (\<lambda>(w, _). map_of given w = None) expected then None else
       if \<not> offsets_increase (ma_duration a) (-1) ordered then None
       else Some (expected, ordered))"

definition insert_checked :: "bool \<Rightarrow> segment_row \<Rightarrow> stmt" where
  "insert_checked ok r d = (if \<not> ok then Inl CheckViolation else insert_stmt db_segments db_segments_update r d)"

text \<open>The statements of a planned merge, in order.\<close>

definition merge_writes :: "merge_apply \<Rightarrow> audio_meta list \<Rightarrow> (iso \<times> expected_window) list \<Rightarrow> (iso \<times> int) list \<Rightarrow> unit tx" where
  "merge_writes a inputs expected ordered = (case inputs of
     [] \<Rightarrow> tthrow JsTypeError
   | first # _ \<Rightarrow>
       tbind now_iso (\<lambda>created.
       tbind (db_run (insert_checked (0 \<le> ma_duration a)
         \<lparr>row_id = ma_merged a, sg_ordinal = am_ordinal first, sg_started = am_started first,
          sg_ended = am_ended (last inputs), sg_mime = ma_mime a, sg_key = ma_key a,
          sg_recording = Some (ma_recording a), sg_peaks = Some (ma_peaks a), sg_floor = Some peaks_db_floor,
          sg_created = created, sg_duration = Some (ma_duration a), sg_status = Some MDone, sg_error = None\<rparr>)) (\<lambda>_.
       tbind (db_run (repoint_stmt (ma_recording a) (ma_merged a)
         (filter (\<lambda>(w, _). case map_of expected w of Some x \<Rightarrow> xw_held x | None \<Rightarrow> False) ordered))) (\<lambda>_.
       tbind (tfor ordered (\<lambda>(w, off). case map_of expected w of
           None \<Rightarrow> treturn ()
         | Some x \<Rightarrow> if xw_held x then treturn () else
             tbind (db_run (insert_seam_stmt \<lparr>sm_recording = ma_recording a, sm_started = w, sm_ended = xw_ended x,
               sm_segment = ma_merged a, sm_offset = off, sm_source = xw_source x\<rparr>)) (\<lambda>_. treturn ()))) (\<lambda>_.
       tbind (tfor inputs (\<lambda>g. tbind (db_run (delete_segment_stmt (am_id g))) (\<lambda>_. treturn ()))) (\<lambda>_.
       broadcast AudioChanged))))))"

definition apply_merge :: "merge_apply \<Rightarrow> merge_outcome tx" where
  "apply_merge a = tbind tx_media (\<lambda>m. if m = None then treturn MergeInputsChanged else
     tbind (segments_of_recording (ma_recording a)) (\<lambda>inputs.
     let ids = map am_id inputs; nl = [CHR 0x0A] in
     if length ids \<noteq> length (ma_inputs a) \<or> join_with nl (sort ids) \<noteq> join_with nl (sort (ma_inputs a))
     then treturn MergeInputsChanged else
     tbind (tx_read (windows_of (ma_recording a))) (\<lambda>existing.
     case merge_plan a inputs existing of
       None \<Rightarrow> treturn MergeInvalid
     | Some (expected, ordered) \<Rightarrow>
         tbind (merge_writes a inputs expected ordered) (\<lambda>_. treturn (MergeApplied (map am_key inputs))))))"

subsection \<open>The reconcile with the blob store\<close>

text \<open>The match of \<open>/(\d{4})_([0-9a-f-]{36})\.(webm|...|flac)$/i\<close>: no class of it contains a slash, so it can
  only start at the last one.\<close>

definition after_last_slash :: "string \<Rightarrow> string option" where
  "after_last_slash k = (if CHR ''/'' \<in> set k then Some (rev (takeWhile (\<lambda>c. c \<noteq> CHR ''/'') (rev k))) else None)"

definition uuid_char :: "char \<Rightarrow> bool" where
  "uuid_char c \<longleftrightarrow> is_digit c \<or> c = CHR ''-'' \<or> lower_char c \<in> set ''abcdef''"

definition blob_exts :: "string list" where
  "blob_exts = [''webm'', ''ogg'', ''wav'', ''m4a'', ''mp3'', ''aiff'', ''flac'']"

definition match_blob_key :: "string \<Rightarrow> (string \<times> string) option" where
  "match_blob_key k = (case after_last_slash k of None \<Rightarrow> None | Some f \<Rightarrow>
     let digits = take 4 f; i = take 36 (drop 5 f); ext = js_lower (drop 42 f) in
     if length f > 42 \<and> list_all is_digit digits \<and> f ! 4 = CHR ''_'' \<and> list_all uuid_char i \<and>
        f ! 41 = CHR ''.'' \<and> ext \<in> set blob_exts
     then Some (i, ext) else None)"

record known_blob =
  kb_key :: string
  kb_ordinal :: int
  kb_bytes :: "int option"

definition sync_audio_from_blobs :: "known_blob list \<Rightarrow> nat tx" where
  "sync_audio_from_blobs known = tbind now_iso (\<lambda>now. tbind tx_media (\<lambda>media.
     tfold (\<lambda>inserted k.
       tbind (tx_read (\<lambda>d. list_ex (\<lambda>r. sg_key r = kb_key k) (db_segments d))) (\<lambda>known_key.
       if known_key then treturn inserted else
       case match_blob_key (kb_key k) of
         None \<Rightarrow> treturn inserted
       | Some (i, ext) \<Rightarrow>
         tbind (tx_read (\<lambda>d. find_row i (db_segments d))) (\<lambda>same.
         if same \<noteq> None then treturn inserted else
         tbind (db_run (insert_stmt db_segments db_segments_update
           \<lparr>row_id = i, sg_ordinal = kb_ordinal k, sg_started = None, sg_ended = None, sg_mime = mime_for_ext ext,
            sg_key = kb_key k, sg_recording = None, sg_peaks = None, sg_floor = None, sg_created = now,
            sg_duration = None, sg_status = (if media = None then None else Some MPending), sg_error = None\<rparr>)) (\<lambda>_.
         tbind (enqueue_ingest i (case kb_bytes k of None \<Rightarrow> 0 | Some b \<Rightarrow> b)) (\<lambda>_. treturn (inserted + 1))))))
     0 known))"

subsection \<open>They keep the transaction invariant\<close>

lemma audio_stmts [keeps]:
  "quiet_stmt (insert_seam_stmt x)" "quiet_stmt (repoint_stmt ro i ws)" "quiet_stmt (delete_segment_stmt i)"
  "silent_stmt (enqueue_stmt n)" "silent_stmt (jobs_stmt f)"
  "quiet_stmt (update_checked i ok g)" "quiet_stmt (insert_checked ok r)"
proof -
  have u: "quiet_stmt (update_stmt db_seams db_seams_update p f)" for p f by (intro keeps)
  show "quiet_stmt (insert_seam_stmt x)"
    by (auto simp: quiet_stmt_def loud_stmt_def insert_seam_stmt_def split: if_splits)
  show "quiet_stmt (repoint_stmt ro i ws)"
    using u unfolding quiet_stmt_def loud_stmt_def repoint_stmt_def by (auto simp: Let_def split: if_splits)
  show "quiet_stmt (delete_segment_stmt i)"
    by (auto simp: quiet_stmt_def loud_stmt_def delete_segment_stmt_def count_where_0 find_row_None has_id_def
        dest!: find_row_Some split: if_splits)
  show "silent_stmt (enqueue_stmt n)"
    by (auto simp: silent_stmt_def enqueue_stmt_def content_of_def split: sum.splits job_error.splits)
  show "silent_stmt (jobs_stmt f)"
    by (auto simp: silent_stmt_def jobs_stmt_def content_of_def split: prod.splits)
  have v: "quiet_stmt (update_stmt db_segments db_segments_update p f)"
    "quiet_stmt (insert_stmt db_segments db_segments_update q)" for p f q by (intro keeps)+
  show "quiet_stmt (update_checked i ok g)" "quiet_stmt (insert_checked ok r)"
    using v unfolding quiet_stmt_def loud_stmt_def update_checked_def insert_checked_def by (auto split: if_splits)
qed

lemma keeps_tx_media [keeps]: "preserves e (tracked d0) tx_media"
  by (auto intro!: preservesI simp: tx_media_def)

lemma keeps_audio_reads [keeps]:
  "preserves e (tracked d0) (with_seams rows)"
  "preserves e (tracked d0) list_audio_segments"
  "preserves e (tracked d0) (get_audio_segment i)"
  "preserves e (tracked d0) (get_audio_segment_key i)"
  "preserves e (tracked d0) (segments_of_recording ro)"
  "preserves e (tracked d0) (held_window ro st)"
  "preserves e (tracked d0) next_segment_ordinal"
  "preserves e (tracked d0) (plan_audio_segment mime)"
  "preserves e (tracked d0) (windows_held ro ws)"
  "preserves e (tracked d0) (pending_finalize ro)"
  unfolding with_seams_def list_audio_segments_def get_audio_segment_def get_audio_segment_key_def
    segments_of_recording_def held_window_def next_segment_ordinal_def plan_audio_segment_def windows_held_def
    pending_finalize_def
  by (intro keeps)+

lemma keeps_audio_jobs [keeps]:
  "preserves e (tracked d0) (enqueue_ingest i b)"
  "preserves e (tracked d0) (enqueue_merge ro)"
  "preserves e (tracked d0) (clear_finalize ro)"
  unfolding enqueue_ingest_def enqueue_merge_def clear_finalize_def by (intro keeps)+

lemma keeps_audio_finalize [keeps]:
  "preserves e (tracked d0) (finalize_recording ro ws)"
  "preserves e (tracked d0) (merge_if_finalized ro)"
  unfolding finalize_recording_def merge_if_finalized_def by (intro keeps)+

lemma keeps_audio_writes [keeps]:
  "preserves e (tracked d0) (add_audio_segment i)"
  "preserves e (tracked d0) (delete_audio_segment x)"
  "preserves e (tracked d0) (update_segment x f)"
  "preserves e (tracked d0) (set_audio_segment_waveform x ps)"
  "preserves e (tracked d0) (apply_ingest a)"
  "preserves e (tracked d0) (block_merge ro)"
  "preserves e (tracked d0) (mark_media_failed x er)"
  unfolding add_audio_segment_def delete_audio_segment_def update_segment_def set_audio_segment_waveform_def
    apply_ingest_def block_merge_def mark_media_failed_def
  by (intro keeps)+

lemma keeps_audio_merge [keeps]:
  "preserves e (tracked d0) (merge_writes a inputs ex od)"
  "preserves e (tracked d0) (apply_merge a)"
  "preserves e (tracked d0) (sync_audio_from_blobs known)"
  unfolding merge_writes_def apply_merge_def sync_audio_from_blobs_def by (intro keeps)+

subsection \<open>The tables' invariant\<close>

text \<open>Segment ids are unique, a window is held once, and every seam points at a stored segment with an
  offset that is not negative; stored jobs satisfy the queue's invariant.\<close>

definition window_of :: "seam_row \<Rightarrow> int \<times> iso" where
  "window_of x = (sm_recording x, sm_started x)"

definition seams_ok :: "session_db \<Rightarrow> bool" where
  "seams_ok d \<longleftrightarrow> distinct (map window_of (db_seams d)) \<and>
     (\<forall>x\<in>set (db_seams d). 0 \<le> sm_offset x \<and> sm_segment x \<in> row_id ` set (db_segments d))"

definition audio_ok :: "session_db \<Rightarrow> bool" where
  "audio_ok d \<longleftrightarrow> keys_ok (db_segments d) \<and> seams_ok d \<and> jobs_ok (db_jobs d)"

lemma audio_ok_catalog [keeps]: "catalog_free audio_ok"
  by (simp add: catalog_free_def audio_ok_def seams_ok_def)

lemma same_window_iff: "same_window ro st x \<longleftrightarrow> window_of x = (ro, st)"
  by (auto simp: same_window_def window_of_def)

lemma keys_ok_snoc: "keys_ok t \<Longrightarrow> row_id r \<notin> row_id ` set t \<Longrightarrow> keys_ok (t @ [r])"
  by (auto simp: keys_ok_def)

lemma ids_update_where: "(\<And>r. row_id (f r) = row_id r) \<Longrightarrow> row_id ` set (update_where p f t) = row_id ` set t"
  using map_update_where [of row_id f p t] by (metis set_map)

lemma upholds_insert_segment: "stmt_upholds audio_ok (insert_stmt db_segments db_segments_update r)"
  by (auto simp: stmt_upholds_def insert_stmt_def insert_row_def audio_ok_def seams_ok_def keys_ok_snoc
      split: if_splits option.splits)

lemma upholds_update_segment:
  assumes "\<And>r. row_id (f r) = row_id r"
  shows "stmt_upholds audio_ok (update_stmt db_segments db_segments_update p f)"
  using keys_ok_update [OF assms] ids_update_where [OF assms]
  by (auto simp: stmt_upholds_def update_stmt_def audio_ok_def seams_ok_def)

lemma upholds_insert_seam: "stmt_upholds audio_ok (insert_seam_stmt x)"
proof -
  have "row_id r \<in> row_id ` set t" if "find_row (row_id r) t = Some r" for r :: segment_row and t
    using find_row_Some [OF that] by blast
  then show ?thesis
    by (auto simp: stmt_upholds_def insert_seam_stmt_def audio_ok_def seams_ok_def list_ex_iff same_window_iff
        window_of_def find_row_None dest!: find_row_Some split: if_splits)
qed

lemma upholds_delete_segment: "stmt_upholds audio_ok (delete_segment_stmt i)"
proof -
  have "distinct (map f (filter p xs))" if "distinct (map f xs)" for f :: "seam_row \<Rightarrow> int \<times> iso" and p xs
    using that by (rule distinct_map_filter)
  moreover have "distinct (map row_id (filter p xs))" if "distinct (map row_id xs)" for p and xs :: "segment_row list"
    using that by (rule distinct_map_filter)
  ultimately show ?thesis
    by (auto simp: stmt_upholds_def delete_segment_stmt_def audio_ok_def seams_ok_def keys_ok_def delete_where_def
        has_id_def split: if_splits)
qed

lemma upholds_repoint: "stmt_upholds audio_ok (repoint_stmt ro i ws)"
  unfolding stmt_upholds_def
proof (intro allI impI)
  fix d d' n
  assume ok: "audio_ok d" and r: "repoint_stmt ro i ws d = Inr (d', n)"
  let ?p = "\<lambda>x. sm_recording x = ro \<and> map_of ws (sm_started x) \<noteq> None"
  let ?f = "\<lambda>x. x\<lparr>sm_segment := i, sm_offset := (case map_of ws (sm_started x) of None \<Rightarrow> sm_offset x | Some off \<Rightarrow> off)\<rparr>"
  show "audio_ok d'"
  proof (cases "ws = []")
    case True
    with ok r show ?thesis by (simp add: repoint_stmt_def)
  next
    case False
    with r have neg: "\<not> list_ex (\<lambda>(w, off). off < 0 \<and> list_ex (same_window ro w) (db_seams d)) ws"
      and fk: "list_ex ?p (db_seams d) \<longrightarrow> find_row i (db_segments d) \<noteq> None"
      and d': "d' = db_seams_update (update_where ?p ?f) d"
      by (auto simp: repoint_stmt_def Let_def update_stmt_def split: if_splits)
    have off: "0 \<le> sm_offset (?f x)" if "x \<in> set (db_seams d)" "?p x" for x
    proof -
      from that(2) obtain y where y: "map_of ws (sm_started x) = Some y" "sm_recording x = ro" by auto
      have "\<not> y < 0"
        using neg map_of_SomeD [OF y(1)] that(1) y(2) by (force simp: list_ex_iff same_window_def)
      with y show ?thesis by simp
    qed
    have w: "map window_of (update_where ?p ?f (db_seams d)) = map window_of (db_seams d)"
      by (rule map_update_where) (simp add: window_of_def)
    have seg: "i \<in> row_id ` set (db_segments d)" if "x \<in> set (db_seams d)" "?p x" for x
      using fk that by (auto simp: list_ex_iff find_row_None)
    have "0 \<le> sm_offset y \<and> sm_segment y \<in> row_id ` set (db_segments d)"
      if "y \<in> set (update_where ?p ?f (db_seams d))" for y
    proof -
      obtain x where x: "x \<in> set (db_seams d)" "y = (if ?p x then ?f x else x)"
        using \<open>y \<in> _\<close> by (auto simp: update_where_def)
      show ?thesis
      proof (cases "?p x")
        case True
        with x off [OF x(1) True] seg [OF x(1) True] show ?thesis by simp
      next
        case False
        have "y = x" unfolding x(2) by (rule if_not_P [OF False])
        with x(1) ok show ?thesis by (simp add: audio_ok_def seams_ok_def)
      qed
    qed
    moreover have "distinct (map window_of (update_where ?p ?f (db_seams d)))"
      unfolding w using ok by (simp add: audio_ok_def seams_ok_def)
    moreover have "db_segments d' = db_segments d" "db_jobs d' = db_jobs d"
      "db_seams d' = update_where ?p ?f (db_seams d)"
      by (simp_all add: d')
    ultimately show ?thesis
      using ok unfolding audio_ok_def seams_ok_def by metis
  qed
qed

lemma upholds_enqueue: "nj_max n \<noteq> Some 0 \<Longrightarrow> stmt_upholds audio_ok (enqueue_stmt n)"
  by (auto simp: stmt_upholds_def enqueue_stmt_def audio_ok_def seams_ok_def
      dest: jobs_ok_enqueue split: sum.splits job_error.splits)

lemma upholds_meta: "stmt_upholds audio_ok (meta_upsert k v)" "stmt_upholds audio_ok (meta_remove k)"
  by (auto simp: stmt_upholds_def meta_upsert_def meta_remove_def audio_ok_def seams_ok_def)

lemma upholds_update_checked:
  assumes "\<And>r. row_id (f r) = row_id r"
  shows "stmt_upholds audio_ok (update_checked i ok f)"
proof -
  have "stmt_upholds audio_ok (update_stmt db_segments db_segments_update (has_id i) f)"
    by (rule upholds_update_segment) (rule assms)
  then show ?thesis
    unfolding stmt_upholds_def update_checked_def by (metis Inl_Inr_False)
qed

lemma upholds_insert_checked: "stmt_upholds audio_ok (insert_checked ok q)"
  using upholds_insert_segment [of q] unfolding stmt_upholds_def insert_checked_def by (metis Inl_Inr_False)

lemma ingested_id [simp]: "row_id (ingested a r) = row_id r"
  by (simp add: ingested_def Let_def split: option.split)

lemmas audio_upholds =
  upholds_db_run [OF upholds_insert_segment audio_ok_catalog]
  upholds_db_run [OF upholds_update_segment audio_ok_catalog]
  upholds_db_run [OF upholds_insert_seam audio_ok_catalog]
  upholds_db_run [OF upholds_delete_segment audio_ok_catalog]
  upholds_db_run [OF upholds_repoint audio_ok_catalog]
  upholds_db_run [OF upholds_update_checked audio_ok_catalog]
  upholds_db_run [OF upholds_insert_checked audio_ok_catalog]
  upholds_raw_run [OF upholds_enqueue]
  upholds_raw_run [OF upholds_meta(1)]
  upholds_raw_run [OF upholds_meta(2)]

lemma upholds_audio_reads [keeps]:
  "preserves e (upholds P) tx_media"
  "preserves e (upholds P) (with_seams rows)"
  "preserves e (upholds P) (get_audio_segment i)"
  "preserves e (upholds P) (segments_of_recording ro)"
  "preserves e (upholds P) (held_window ro st)"
  "preserves e (upholds P) next_segment_ordinal"
  "preserves e (upholds P) (windows_held ro ws)"
  "preserves e (upholds P) (pending_finalize ro)"
proof -
  show m [keeps]: "preserves e (upholds P) tx_media" by (auto intro!: preservesI simp: tx_media_def)
  show w [keeps]: "preserves e (upholds P) (with_seams rows)" for rows unfolding with_seams_def by (intro keeps)+
  show g [keeps]: "preserves e (upholds P) (get_audio_segment i)" for i unfolding get_audio_segment_def by (intro keeps)+
  show r [keeps]: "preserves e (upholds P) (segments_of_recording ro)" for ro unfolding segments_of_recording_def by (intro keeps)+
  show "preserves e (upholds P) (held_window ro st)" "preserves e (upholds P) next_segment_ordinal"
    "preserves e (upholds P) (windows_held ro ws)" "preserves e (upholds P) (pending_finalize ro)"
    unfolding held_window_def next_segment_ordinal_def windows_held_def pending_finalize_def by (intro keeps)+
qed

lemma audio_ok_jobs [keeps]:
  "preserves e (upholds audio_ok) (enqueue_ingest i b)"
  "preserves e (upholds audio_ok) (enqueue_merge ro)"
  "preserves e (upholds audio_ok) (clear_finalize ro)"
  "preserves e (upholds audio_ok) (meta_set_uncounted k v)"
  unfolding enqueue_ingest_def enqueue_merge_def clear_finalize_def meta_set_uncounted_def
  by (intro keeps audio_upholds | simp)+

lemma audio_ok_finalize [keeps]:
  "preserves e (upholds audio_ok) (finalize_recording ro ws)"
  "preserves e (upholds audio_ok) (merge_if_finalized ro)"
  unfolding finalize_recording_def merge_if_finalized_def by (intro keeps)+

lemma audio_ok_writes [keeps]:
  "preserves e (upholds audio_ok) (add_audio_segment i)"
  "preserves e (upholds audio_ok) (delete_audio_segment x)"
  "preserves e (upholds audio_ok) (set_audio_segment_waveform x ps)"
  "preserves e (upholds audio_ok) (apply_ingest a)"
  "preserves e (upholds audio_ok) (block_merge ro)"
  "preserves e (upholds audio_ok) (mark_media_failed x er)"
  unfolding add_audio_segment_def delete_audio_segment_def update_segment_def set_audio_segment_waveform_def
    apply_ingest_def block_merge_def mark_media_failed_def
  by (intro keeps audio_upholds | simp)+

lemma audio_ok_merge [keeps]:
  "preserves e (upholds audio_ok) (merge_writes a inputs ex od)"
  "preserves e (upholds audio_ok) (apply_merge a)"
  "preserves e (upholds audio_ok) (sync_audio_from_blobs known)"
  unfolding merge_writes_def apply_merge_def sync_audio_from_blobs_def by (intro keeps audio_upholds)+

text \<open>The writing methods of the audio store.\<close>

datatype audio_op =
    AddSegment segment_input
  | DeleteSegment string
  | SetWaveform string "num64 list"
  | FinalizeRecording int "iso list"
  | ApplyIngest ingest_apply
  | ApplyMerge merge_apply
  | BlockMerge int
  | MarkMediaFailed string string
  | SyncFromBlobs "known_blob list"

fun audio_op_tx :: "audio_op \<Rightarrow> unit tx" where
  "audio_op_tx (AddSegment i) = tbind (add_audio_segment i) (\<lambda>_. treturn ())"
| "audio_op_tx (DeleteSegment x) = delete_audio_segment x"
| "audio_op_tx (SetWaveform x ps) = tbind (set_audio_segment_waveform x ps) (\<lambda>_. treturn ())"
| "audio_op_tx (FinalizeRecording ro ws) = tbind (finalize_recording ro ws) (\<lambda>_. treturn ())"
| "audio_op_tx (ApplyIngest a) = tbind (apply_ingest a) (\<lambda>_. treturn ())"
| "audio_op_tx (ApplyMerge a) = tbind (apply_merge a) (\<lambda>_. treturn ())"
| "audio_op_tx (BlockMerge ro) = block_merge ro"
| "audio_op_tx (MarkMediaFailed x er) = tbind (mark_media_failed x er) (\<lambda>_. treturn ())"
| "audio_op_tx (SyncFromBlobs ks) = tbind (sync_audio_from_blobs ks) (\<lambda>_. treturn ())"


lemma sample_audio_ok: "audio_ok sample_db"
  by (simp add: audio_ok_def seams_ok_def sample_db_def keys_ok_def jobs_ok_def live_work_def)


end
