(* ===== verification/AudioMerge.thy ===== *)
theory AudioMerge
  imports AudioStore
begin

section \<open>What the audio store's composite writes do\<close>

text \<open>
  The properties of packages/session-core/src/audioStore.ts that span several statements: the apply of a
  merge keeps every recorded window and forges none, storing a chunk is idempotent per window, and a
  finalize always ends in a live merge, a pending marker or nothing to merge.
\<close>

subsection \<open>The effect of the statements\<close>

lemma segments_of_recording_Inr:
  assumes "segments_of_recording ro e s = (Inr ms, s')"
  shows "s' = s \<and> map am_id ms = map row_id (recording_rows ro (st_db s)) \<and>
    map am_key ms = map sg_key (recording_rows ro (st_db s)) \<and>
    map am_started ms = map sg_started (recording_rows ro (st_db s)) \<and>
    map am_ended ms = map sg_ended (recording_rows ro (st_db s))"
  using assms
  by (auto simp: segments_of_recording_def with_seams_def tbind_Inr tx_media_def audio_row_to_meta_def
      split: if_splits option.splits)

lemma recording_rows_set: "set (recording_rows ro d) = {r \<in> set (db_segments d). sg_recording r = Some ro}"
  by (simp add: recording_rows_def order_by_def)

lemma delete_segment_effect:
  assumes "audio_ok (st_db s)" "db_run (delete_segment_stmt i) e s = (Inr n, s')"
  shows "db_segments (st_db s') = filter (\<lambda>r. row_id r \<noteq> i) (db_segments (st_db s)) \<and>
    db_seams (st_db s') = filter (\<lambda>x. sm_segment x \<noteq> i) (db_seams (st_db s)) \<and> audio_ok (st_db s')"
proof -
  have ok: "audio_ok (st_db s')"
    using preservesD [OF audio_upholds(4) _ assms(2)] assms(1) by (simp add: upholds_def)
  from assms(2) obtain d c where d: "delete_segment_stmt i (st_db s) = Inr (d, n)" "st_db s' = d\<lparr>db_catalog := c\<rparr>"
    by (rule db_run_effect)
  show ?thesis
  proof (cases "find_row i (db_segments (st_db s)) = None")
    case True
    then have n: "i \<notin> row_id ` set (db_segments (st_db s))" by (simp add: find_row_None)
    then have "\<forall>x\<in>set (db_seams (st_db s)). sm_segment x \<noteq> i"
      using assms(1) by (auto simp: audio_ok_def seams_ok_def)
    moreover have "\<forall>r\<in>set (db_segments (st_db s)). row_id r \<noteq> i" using n by auto
    ultimately show ?thesis
      using d True ok by (simp add: delete_segment_stmt_def filter_id_conv)
  next
    case False
    with d ok show ?thesis
      by (auto simp: delete_segment_stmt_def delete_where_def has_id_def)
  qed
qed

lemma delete_inputs_effect:
  assumes "audio_ok (st_db s)"
    and "tfor inputs (\<lambda>g. tbind (db_run (delete_segment_stmt (am_id g))) (\<lambda>_. treturn ())) e s = (Inr (), s')"
  shows "db_segments (st_db s') = filter (\<lambda>r. row_id r \<notin> am_id ` set inputs) (db_segments (st_db s)) \<and>
    db_seams (st_db s') = filter (\<lambda>x. sm_segment x \<notin> am_id ` set inputs) (db_seams (st_db s))"
  using assms
proof (induction inputs arbitrary: s)
  case (Cons g gs)
  then obtain n s1 where r: "db_run (delete_segment_stmt (am_id g)) e s = (Inr n, s1)"
    "tfor gs (\<lambda>g. tbind (db_run (delete_segment_stmt (am_id g))) (\<lambda>_. treturn ())) e s1 = (Inr (), s')"
    by (auto simp: tbind_Inr)
  note 1 = delete_segment_effect [OF Cons.prems(1) r(1)]
  with Cons.IH [of s1] r(2) show ?case by (simp add: conj_commute)
qed simp

text \<open>The seams inserted for the inputs that had none.\<close>

definition fresh_seams :: "merge_apply \<Rightarrow> (iso \<times> expected_window) list \<Rightarrow> (iso \<times> int) list \<Rightarrow> seam_row list" where
  "fresh_seams a expected ordered = List.map_filter (\<lambda>(w, off). case map_of expected w of
     None \<Rightarrow> None
   | Some x \<Rightarrow> if xw_held x then None else
       Some \<lparr>sm_recording = ma_recording a, sm_started = w, sm_ended = xw_ended x, sm_segment = ma_merged a,
         sm_offset = off, sm_source = xw_source x\<rparr>) ordered"

lemma upholds_fresh_seams:
  "preserves e (upholds audio_ok) (tfor ordered (\<lambda>(w, off). case map_of expected w of
           None \<Rightarrow> treturn ()
         | Some x \<Rightarrow> if xw_held x then treturn () else
             tbind (db_run (insert_seam_stmt \<lparr>sm_recording = ma_recording a, sm_started = w, sm_ended = xw_ended x,
               sm_segment = ma_merged a, sm_offset = off, sm_source = xw_source x\<rparr>)) (\<lambda>_. treturn ())))"
  by (intro keeps audio_upholds)

lemma fresh_seams_effect:
  assumes "tfor ordered (\<lambda>(w, off). case map_of expected w of
           None \<Rightarrow> treturn ()
         | Some x \<Rightarrow> if xw_held x then treturn () else
             tbind (db_run (insert_seam_stmt \<lparr>sm_recording = ma_recording a, sm_started = w, sm_ended = xw_ended x,
               sm_segment = ma_merged a, sm_offset = off, sm_source = xw_source x\<rparr>)) (\<lambda>_. treturn ())) e s = (Inr (), s')"
  shows "db_segments (st_db s') = db_segments (st_db s) \<and>
    db_seams (st_db s') = db_seams (st_db s) @ fresh_seams a expected ordered"
  using assms
proof (induction ordered arbitrary: s)
  case Nil
  then show ?case by (simp add: fresh_seams_def List.map_filter_def)
next
  case (Cons p ps)
  obtain w off where p: "p = (w, off)" by force
  show ?case
  proof (cases "map_of expected w = None \<or> (\<exists>x. map_of expected w = Some x \<and> xw_held x)")
    case True
    with Cons p show ?thesis
      by (auto simp: tbind_Inr fresh_seams_def List.map_filter_def split: if_splits)
  next
    case False
    then obtain x where x: "map_of expected w = Some x" "\<not> xw_held x" by auto
    with Cons.prems obtain n s1 where r: "db_run (insert_seam_stmt \<lparr>sm_recording = ma_recording a, sm_started = w,
        sm_ended = xw_ended x, sm_segment = ma_merged a, sm_offset = off, sm_source = xw_source x\<rparr>) e s = (Inr n, s1)"
      "tfor ps (\<lambda>(w, off). case map_of expected w of
           None \<Rightarrow> treturn ()
         | Some x \<Rightarrow> if xw_held x then treturn () else
             tbind (db_run (insert_seam_stmt \<lparr>sm_recording = ma_recording a, sm_started = w, sm_ended = xw_ended x,
               sm_segment = ma_merged a, sm_offset = off, sm_source = xw_source x\<rparr>)) (\<lambda>_. treturn ())) e s1 = (Inr (), s')"
      by (auto simp: p tbind_Inr)
    from r(1) obtain d c where "insert_seam_stmt \<lparr>sm_recording = ma_recording a, sm_started = w,
        sm_ended = xw_ended x, sm_segment = ma_merged a, sm_offset = off, sm_source = xw_source x\<rparr> (st_db s) = Inr (d, n)"
      "st_db s1 = d\<lparr>db_catalog := c\<rparr>"
      by (rule db_run_effect)
    with Cons.IH [OF r(2)] x show ?thesis
      by (auto simp: insert_seam_stmt_def fresh_seams_def List.map_filter_def p split: if_splits)
  qed
qed

text \<open>The repointed seam of a window.\<close>

definition repointed :: "string \<Rightarrow> (iso \<times> int) list \<Rightarrow> seam_row \<Rightarrow> seam_row" where
  "repointed i ws x = x\<lparr>sm_segment := i, sm_offset := (case map_of ws (sm_started x) of None \<Rightarrow> sm_offset x | Some off \<Rightarrow> off)\<rparr>"

lemma repoint_effect:
  assumes "db_run (repoint_stmt ro i ws) e s = (Inr n, s')"
  shows "db_segments (st_db s') = db_segments (st_db s) \<and>
    db_seams (st_db s') = update_where (\<lambda>x. sm_recording x = ro \<and> map_of ws (sm_started x) \<noteq> None) (repointed i ws) (db_seams (st_db s))"
proof -
  from assms obtain d c where d: "repoint_stmt ro i ws (st_db s) = Inr (d, n)" "st_db s' = d\<lparr>db_catalog := c\<rparr>"
    by (rule db_run_effect)
  show ?thesis
  proof (cases "ws = []")
    case True
    with d show ?thesis by (simp add: repoint_stmt_def update_where_def)
  next
    case False
    with d show ?thesis
      by (auto simp: repoint_stmt_def Let_def update_stmt_def repointed_def [abs_def] split: if_splits)
  qed
qed

text \<open>The windows of a plan that a seam already holds.\<close>

definition held_part :: "(iso \<times> expected_window) list \<Rightarrow> (iso \<times> int) list \<Rightarrow> (iso \<times> int) list" where
  "held_part expected ordered =
     filter (\<lambda>(w, _). case map_of expected w of Some x \<Rightarrow> xw_held x | None \<Rightarrow> False) ordered"

lemma merge_writes_effect:
  assumes "audio_ok (st_db s)" "merge_writes a inputs expected ordered e s = (Inr (), s')"
  obtains m where "row_id m = ma_merged a" "sg_recording m = Some (ma_recording a)" "sg_key m = ma_key a"
    "sg_duration m = Some (ma_duration a)" "ma_merged a \<notin> row_id ` set (db_segments (st_db s))"
    "db_segments (st_db s') = filter (\<lambda>r. row_id r \<notin> am_id ` set inputs) (db_segments (st_db s) @ [m])"
    "db_seams (st_db s') = filter (\<lambda>x. sm_segment x \<notin> am_id ` set inputs)
       (update_where (\<lambda>x. sm_recording x = ma_recording a \<and> map_of (held_part expected ordered) (sm_started x) \<noteq> None)
          (repointed (ma_merged a) (held_part expected ordered)) (db_seams (st_db s)) @ fresh_seams a expected ordered)"
proof -
  from assms(2) obtain first rest where inp: "inputs = first # rest"
    by (auto simp: merge_writes_def split: list.splits)
  with assms(2) obtain created s0 m n1 s1 n2 s2 s3 s4 where
    t: "now_iso e s = (Inr created, s0)" and
    m: "m = \<lparr>row_id = ma_merged a, sg_ordinal = am_ordinal first, sg_started = am_started first,
          sg_ended = am_ended (last inputs), sg_mime = ma_mime a, sg_key = ma_key a,
          sg_recording = Some (ma_recording a), sg_peaks = Some (ma_peaks a), sg_floor = Some peaks_db_floor,
          sg_created = created, sg_duration = Some (ma_duration a), sg_status = Some MDone, sg_error = None\<rparr>" and
    r1: "db_run (insert_checked (0 \<le> ma_duration a) m) e s0 = (Inr n1, s1)" and
    r2: "db_run (repoint_stmt (ma_recording a) (ma_merged a) (held_part expected ordered)) e s1 = (Inr n2, s2)" and
    r3: "tfor ordered (\<lambda>(w, off). case map_of expected w of
           None \<Rightarrow> treturn ()
         | Some x \<Rightarrow> if xw_held x then treturn () else
             tbind (db_run (insert_seam_stmt \<lparr>sm_recording = ma_recording a, sm_started = w, sm_ended = xw_ended x,
               sm_segment = ma_merged a, sm_offset = off, sm_source = xw_source x\<rparr>)) (\<lambda>_. treturn ())) e s2 = (Inr (), s3)" and
    r4: "tfor inputs (\<lambda>g. tbind (db_run (delete_segment_stmt (am_id g))) (\<lambda>_. treturn ())) e s3 = (Inr (), s4)" and
    s': "st_db s' = st_db s4"
    by (auto simp: merge_writes_def tbind_Inr held_part_def broadcast_def)
  have s0: "st_db s0 = st_db s"
    using t by (auto simp: now_iso_def tbind_Inr tx_now_def)
  from r1 obtain d c where d: "insert_checked (0 \<le> ma_duration a) m (st_db s0) = Inr (d, n1)" "st_db s1 = d\<lparr>db_catalog := c\<rparr>"
    by (rule db_run_effect)
  then have s1: "db_segments (st_db s1) = db_segments (st_db s) @ [m]" "db_seams (st_db s1) = db_seams (st_db s)"
    "ma_merged a \<notin> row_id ` set (db_segments (st_db s))"
    by (auto simp: insert_checked_def insert_stmt_def insert_row_def s0 m split: if_splits option.splits)
  have ok0: "upholds audio_ok s0" using assms(1) s0 by (simp add: upholds_def)
  have ok1: "upholds audio_ok s1"  by (rule preservesD [OF audio_upholds(7) ok0 r1])
  have ok2: "upholds audio_ok s2"  by (rule preservesD [OF audio_upholds(5) ok1 r2])
  have ok3: "upholds audio_ok s3"
    by (rule preservesD [OF upholds_fresh_seams ok2 r3])
  note e2 = repoint_effect [OF r2] and e3 = fresh_seams_effect [OF r3]
    and e4 = delete_inputs_effect [OF ok3 [unfolded upholds_def] r4]
  show thesis
    by (rule that [of m]) (use s1 e2 e3 e4 s' in \<open>simp_all add: m\<close>)
qed

subsection \<open>The plan of a merge\<close>

lemma fold_update_Some:
  "map_of (fold (\<lambda>x. AList.update (k x) (f x)) xs acc) w = Some v \<Longrightarrow>
     map_of acc w = Some v \<or> (\<exists>x\<in>set xs. k x = w \<and> v = f x)"
  by (induction xs arbitrary: acc) (fastforce simp: update_conv' split: if_splits)+

lemma fold_update_keeps:
  "map_of acc w \<noteq> None \<Longrightarrow> map_of (fold (\<lambda>x. AList.update (k x) (f x)) xs acc) w \<noteq> None"
  by (induction xs arbitrary: acc) (auto simp: update_conv')

lemma fold_update_dom:
  "x \<in> set xs \<Longrightarrow> map_of (fold (\<lambda>x. AList.update (k x) (f x)) xs acc) (k x) \<noteq> None"
proof (induction xs arbitrary: acc)
  case (Cons y ys)
  show ?case
  proof (cases "x = y")
    case True
    then show ?thesis
      using fold_update_keeps [of "AList.update (k y) (f y) acc" "k x" k f ys] by (simp add: update_conv')
  next
    case False
    with Cons show ?thesis by simp
  qed
qed simp

lemma fold_update_keys_distinct:
  "distinct (map fst acc) \<Longrightarrow> distinct (map fst (fold (\<lambda>x. AList.update (k x) (f x)) xs acc))"
  by (induction xs arbitrary: acc) (simp_all add: distinct_update)

lemma held_windows_Some:
  "map_of (held_windows ids ex) w = Some v \<Longrightarrow>
     \<exists>x\<in>set ex. sm_segment x \<in> set ids \<and> sm_started x = w \<and>
       v = \<lparr>xw_ended = sm_ended x, xw_source = sm_source x, xw_held = True\<rparr>"
  unfolding held_windows_def by (drule fold_update_Some) auto

lemma held_windows_dom:
  "x \<in> set ex \<Longrightarrow> sm_segment x \<in> set ids \<Longrightarrow> map_of (held_windows ids ex) (sm_started x) \<noteq> None"
  unfolding held_windows_def by (rule fold_update_dom) simp

lemma add_unseamed_keeps:
  "add_unseamed seamed gs acc = Some ex \<Longrightarrow> map_of acc w = Some v \<Longrightarrow> map_of ex w = Some v"
  by (induction seamed gs acc rule: add_unseamed.induct)
    (auto simp: map_add_Some_iff split: if_splits option.splits)

lemma add_unseamed_Some:
  "add_unseamed seamed gs acc = Some ex \<Longrightarrow> map_of ex w = Some v \<Longrightarrow> map_of acc w = Some v \<or>
     (\<exists>g\<in>set gs. am_id g \<notin> set seamed \<and> am_started g = Some w \<and>
        v = \<lparr>xw_ended = am_ended g, xw_source = am_key g, xw_held = False\<rparr>)"
proof (induction seamed gs acc rule: add_unseamed.induct)
  case (2 seamed g gs acc)
  then show ?case
    by (cases "am_id g \<in> set seamed"; cases "am_started g")
      (fastforce simp: map_add_Some_iff split: if_splits)+
qed simp

lemma add_unseamed_dom:
  "add_unseamed seamed gs acc = Some ex \<Longrightarrow> g \<in> set gs \<Longrightarrow> am_id g \<notin> set seamed \<Longrightarrow>
     \<exists>w. am_started g = Some w \<and> map_of ex w \<noteq> None"
proof (induction seamed gs acc rule: add_unseamed.induct)
  case (2 seamed h gs acc)
  show ?case
  proof (cases "g = h \<and> am_id h \<notin> set seamed")
    case True
    with "2.prems"(1) obtain w where w: "am_started g = Some w"
      and ex: "add_unseamed seamed gs (if map_of acc w \<noteq> None then acc else
          acc @ [(w, \<lparr>xw_ended = am_ended h, xw_source = am_key h, xw_held = False\<rparr>)]) = Some ex"
      by (auto split: option.splits)
    let ?acc = "if map_of acc w \<noteq> None then acc else
          acc @ [(w, \<lparr>xw_ended = am_ended h, xw_source = am_key h, xw_held = False\<rparr>)]"
    obtain v where "map_of ?acc w = Some v"
      by (cases "map_of acc w") (auto simp: map_add_def)
    with add_unseamed_keeps [OF ex this] w show ?thesis by auto
  next
    case False
    with 2 show ?thesis
      by (auto split: if_splits option.splits)
  qed
qed simp

lemma offsets_increase_bounds:
  "offsets_increase dur prev ws \<Longrightarrow> (w, off) \<in> set ws \<Longrightarrow> 0 \<le> off \<and> off \<le> dur"
  by (induction dur prev ws rule: offsets_increase.induct) auto

text \<open>What a plan that passed the checks guarantees.\<close>

lemma merge_plan_Some:
  assumes "merge_plan a inputs existing = Some (expected, ordered)"
  shows "add_unseamed (map sm_segment (filter (\<lambda>x. sm_segment x \<in> set (map am_id inputs)) existing)) inputs
      (held_windows (map am_id inputs) existing) = Some expected"
    and "distinct (map fst ordered)"
    and "\<And>w x. map_of expected w = Some x \<Longrightarrow> \<exists>off. (w, off) \<in> set ordered"
    and "\<And>w off. (w, off) \<in> set ordered \<Longrightarrow> 0 \<le> off \<and> off \<le> ma_duration a"
proof -
  let ?given = "given_windows (ma_seams a)"
  have d: "distinct (map fst ?given)"
    unfolding given_windows_def by (rule fold_update_keys_distinct) simp
  from assms have ex: "expected_windows inputs existing = Some expected" and
    o: "ordered = order_by fst ?given" and
    all: "\<not> list_ex (\<lambda>(w, _). map_of ?given w = None) expected" and
    inc: "offsets_increase (ma_duration a) (-1) ordered"
    by (auto simp: merge_plan_def Let_def split: option.splits if_splits)
  show "add_unseamed (map sm_segment (filter (\<lambda>x. sm_segment x \<in> set (map am_id inputs)) existing)) inputs
      (held_windows (map am_id inputs) existing) = Some expected"
    using ex by (simp add: expected_windows_def Let_def)
  show "distinct (map fst ordered)"
    using d by (simp add: o order_by_def distinct_map)
  show "\<exists>off. (w, off) \<in> set ordered" if "map_of expected w = Some x" for w x
    using all map_of_SomeD [OF that] by (force simp: list_ex_iff o order_by_def map_of_eq_None_iff)
  show "0 \<le> off \<and> off \<le> ma_duration a" if "(w, off) \<in> set ordered" for w off
    using offsets_increase_bounds [OF inc that] .
qed

lemma held_part_Some:
  assumes "distinct (map fst ordered)"
  shows "map_of (held_part expected ordered) w = Some off \<longleftrightarrow>
    (w, off) \<in> set ordered \<and> (\<exists>x. map_of expected w = Some x \<and> xw_held x)"
proof -
  have "distinct (map fst (held_part expected ordered))"
    unfolding held_part_def using assms by (rule distinct_map_filter)
  then show ?thesis
    by (auto simp: held_part_def split: option.splits)
qed

subsection \<open>The applied merge\<close>

definition input_ids :: "int \<Rightarrow> session_db \<Rightarrow> string set" where
  "input_ids ro d = row_id ` set (filter (\<lambda>r. sg_recording r = Some ro) (db_segments d))"

text \<open>Two seams that stand for the same recorded window: its recording, start, end and source.\<close>

definition same_chunk :: "seam_row \<Rightarrow> seam_row \<Rightarrow> bool" where
  "same_chunk x y \<longleftrightarrow> sm_recording y = sm_recording x \<and> sm_started y = sm_started x \<and>
     sm_ended y = sm_ended x \<and> sm_source y = sm_source x"

lemma repointed_segment [simp]: "sm_segment (repointed i ws x) = i"
  by (simp add: repointed_def)

lemma in_update_where: "x \<in> set t \<Longrightarrow> p x \<Longrightarrow> f x \<in> set (update_where p f t)"
  by (force simp: update_where_def)

lemma same_chunk_repointed [simp]: "same_chunk x (repointed i ws x)"
  by (simp add: same_chunk_def repointed_def)

lemma apply_merge_Inr:
  assumes "apply_merge a e s = (Inr (MergeApplied keys), s')"
  obtains inputs expected ordered where
    "map am_id inputs = map row_id (recording_rows (ma_recording a) (st_db s))"
    "map am_key inputs = map sg_key (recording_rows (ma_recording a) (st_db s))"
    "map am_started inputs = map sg_started (recording_rows (ma_recording a) (st_db s))"
    "map am_ended inputs = map sg_ended (recording_rows (ma_recording a) (st_db s))"
    "merge_plan a inputs (windows_of (ma_recording a) (st_db s)) = Some (expected, ordered)"
    "merge_writes a inputs expected ordered e s = (Inr (), s')"
    "keys = map am_key inputs"
proof -
  from assms obtain inputs s1 where 1: "segments_of_recording (ma_recording a) e s = (Inr inputs, s1)"
    and 2: "tbind (tx_read (windows_of (ma_recording a))) (\<lambda>existing.
     case merge_plan a inputs existing of
       None \<Rightarrow> treturn MergeInvalid
     | Some (expected, ordered) \<Rightarrow>
         tbind (merge_writes a inputs expected ordered) (\<lambda>_. treturn (MergeApplied (map am_key inputs)))) e s1
       = (Inr (MergeApplied keys), s')"
    by (auto simp: apply_merge_def tbind_Inr tx_media_def Let_def split: if_splits)
  note i = segments_of_recording_Inr [OF 1]
  from 2 i show thesis
    by (auto simp: tbind_Inr split: option.splits intro!: that)
qed

lemma input_row:
  assumes "map am_id inputs = map row_id rows" "map am_key inputs = map sg_key rows"
    "map am_started inputs = map sg_started rows" "map am_ended inputs = map sg_ended rows" "g \<in> set inputs"
  shows "\<exists>r\<in>set rows. row_id r = am_id g \<and> sg_key r = am_key g \<and> sg_started r = am_started g \<and> sg_ended r = am_ended g"
proof -
  from assms(5) obtain n where n: "n < length inputs" "g = inputs ! n" by (auto simp: in_set_conv_nth)
  then have l: "n < length rows" using map_eq_imp_length_eq [OF assms(1)] by simp
  have "row_id (rows ! n) = am_id g \<and> sg_key (rows ! n) = am_key g \<and> sg_started (rows ! n) = am_started g \<and>
    sg_ended (rows ! n) = am_ended g"
    using assms(1-4) n l by (metis nth_map)
  with l show ?thesis by (metis nth_mem)
qed

lemma keys_ok_same: "keys_ok t \<Longrightarrow> x \<in> set t \<Longrightarrow> y \<in> set t \<Longrightarrow> row_id x = row_id y \<Longrightarrow> x = y"
  by (auto simp: keys_ok_def distinct_map dest: inj_onD)

lemma seams_ok_same:
  "seams_ok d \<Longrightarrow> x \<in> set (db_seams d) \<Longrightarrow> y \<in> set (db_seams d) \<Longrightarrow> sm_recording x = sm_recording y \<Longrightarrow>
     sm_started x = sm_started y \<Longrightarrow> x = y"
  unfolding seams_ok_def distinct_map by (elim conjE, erule inj_onD) (simp_all add: window_of_def)

lemma in_map_filter: "y \<in> set (List.map_filter f xs) \<longleftrightarrow> (\<exists>x\<in>set xs. f x = Some y)"
  by (force simp: List.map_filter_def)

lemma fresh_seams_in:
  "y \<in> set (fresh_seams a expected ordered) \<longleftrightarrow> (\<exists>w off x. (w, off) \<in> set ordered \<and> map_of expected w = Some x \<and>
     \<not> xw_held x \<and> y = \<lparr>sm_recording = ma_recording a, sm_started = w, sm_ended = xw_ended x,
         sm_segment = ma_merged a, sm_offset = off, sm_source = xw_source x\<rparr>)"
  unfolding fresh_seams_def in_map_filter Bex_def split_paired_Ex case_prod_conv
  by (rule ex_cong1, rule ex_cong1) (auto split: option.splits)

lemma windows_of_set: "set (windows_of ro d) = {x \<in> set (db_seams d). sm_recording x = ro}"
  by (simp add: windows_of_def)

text \<open>Every seam of the merged segment stands for a window of the inputs, at an offset inside it.\<close>

lemma expected_held:
  assumes pl: "merge_plan a inputs (windows_of ro d) = Some (expected, ordered)"
    and w: "map_of expected w = Some v" "xw_held v"
  shows "\<exists>x\<in>set (db_seams d). sm_recording x = ro \<and> sm_segment x \<in> am_id ` set inputs \<and> sm_started x = w \<and>
    xw_ended v = sm_ended x \<and> xw_source v = sm_source x"
  using add_unseamed_Some [OF merge_plan_Some(1) [OF pl] w(1)] w(2)
  by (auto dest!: held_windows_Some simp: windows_of_set)

lemma expected_fresh:
  assumes pl: "merge_plan a inputs (windows_of ro d) = Some (expected, ordered)"
    and w: "map_of expected w = Some v" "\<not> xw_held v"
  shows "\<exists>g\<in>set inputs. am_started g = Some w \<and> xw_ended v = am_ended g \<and> xw_source v = am_key g"
  using add_unseamed_Some [OF merge_plan_Some(1) [OF pl] w(1)] w(2)
  by (auto dest!: held_windows_Some)

lemma expected_seam:
  assumes pl: "merge_plan a inputs (windows_of ro d) = Some (expected, ordered)" and ok: "seams_ok d"
    and x: "x \<in> set (db_seams d)" "sm_recording x = ro" "sm_segment x \<in> am_id ` set inputs"
  shows "map_of expected (sm_started x) = Some \<lparr>xw_ended = sm_ended x, xw_source = sm_source x, xw_held = True\<rparr>"
proof -
  have "map_of (held_windows (map am_id inputs) (windows_of ro d)) (sm_started x) \<noteq> None"
    by (rule held_windows_dom) (use x in \<open>auto simp: windows_of_set\<close>)
  then obtain v where v: "map_of (held_windows (map am_id inputs) (windows_of ro d)) (sm_started x) = Some v" by auto
  from held_windows_Some [OF v] obtain z where z: "z \<in> set (db_seams d)" "sm_recording z = ro"
    "sm_started z = sm_started x" "v = \<lparr>xw_ended = sm_ended z, xw_source = sm_source z, xw_held = True\<rparr>"
    by (auto simp: windows_of_set)
  with seams_ok_same [OF ok z(1) x(1)] x(2) have "z = x" by simp
  with z v add_unseamed_keeps [OF merge_plan_Some(1) [OF pl] v] show ?thesis by simp
qed

lemma repointed_inputs:
  assumes pl: "merge_plan a inputs (windows_of (ma_recording a) d) = Some (expected, ordered)" and ok: "seams_ok d"
    and x: "x \<in> set (db_seams d)"
  shows "sm_recording x = ma_recording a \<and> map_of (held_part expected ordered) (sm_started x) \<noteq> None \<longleftrightarrow>
    sm_recording x = ma_recording a \<and> sm_segment x \<in> am_id ` set inputs" (is "?l \<longleftrightarrow> ?r")
proof
  assume ?l
  then obtain v where v: "map_of expected (sm_started x) = Some v" "xw_held v" "sm_recording x = ma_recording a"
    by (auto simp: held_part_Some [OF merge_plan_Some(2) [OF pl]])
  from expected_held [OF pl v(1,2)] obtain z where z: "z \<in> set (db_seams d)" "sm_recording z = ma_recording a"
    "sm_segment z \<in> am_id ` set inputs" "sm_started z = sm_started x" by auto
  with seams_ok_same [OF ok z(1) x] v(3) show ?r by simp
next
  assume r: ?r
  note v = expected_seam [OF pl ok x]
  from v r merge_plan_Some(3) [OF pl v] held_part_Some [OF merge_plan_Some(2) [OF pl], of expected "sm_started x"]
  show ?l by fastforce
qed

lemma repointed_offset:
  assumes pl: "merge_plan a inputs ex = Some (expected, ordered)"
    and h: "map_of (held_part expected ordered) (sm_started x) = Some off"
  shows "sm_offset (repointed i (held_part expected ordered) x) = off \<and> 0 \<le> off \<and> off \<le> ma_duration a"
proof -
  have "(sm_started x, off) \<in> set ordered"
    using h by (simp add: held_part_Some [OF merge_plan_Some(2) [OF pl]])
  with merge_plan_Some(4) [OF pl this] h show ?thesis by (simp add: repointed_def)
qed


subsection \<open>A concrete merge\<close>

text \<open>Two chunks of recording 1: the first holds its window, the second predates seams.\<close>

definition sample_segment :: "string \<Rightarrow> int \<Rightarrow> iso \<Rightarrow> segment_row" where
  "sample_segment i n st = \<lparr>row_id = i, sg_ordinal = n, sg_started = Some st, sg_ended = None, sg_mime = ''audio/webm'',
     sg_key = ''k/'' @ i, sg_recording = Some 1, sg_peaks = None, sg_floor = None, sg_created = ''t0'',
     sg_duration = None, sg_status = Some MDone, sg_error = None\<rparr>"

definition sample_audio_db :: session_db where
  "sample_audio_db = sample_db\<lparr>db_segments := [sample_segment ''a'' 1 ''t1'', sample_segment ''b'' 2 ''t2''],
     db_seams := [\<lparr>sm_recording = 1, sm_started = ''t1'', sm_ended = None, sm_segment = ''a'', sm_offset = 0, sm_source = ''k/a''\<rparr>]\<rparr>"

definition sample_merge :: merge_apply where
  "sample_merge = \<lparr>ma_recording = 1, ma_merged = ''m'', ma_key = ''k/m'', ma_mime = ''audio/flac'', ma_duration = 1000,
     ma_peaks = [], ma_seams = [\<lparr>ms_offset = 0, ms_started = ''t1'', ms_ended = None, ms_source = ''k/a''\<rparr>,
       \<lparr>ms_offset = 500, ms_started = ''t2'', ms_ended = None, ms_source = ''k/b''\<rparr>], ma_inputs = [''b'', ''a'']\<rparr>"

lemma sample_audio_db_ok: "audio_ok sample_audio_db"
  by (simp add: audio_ok_def seams_ok_def sample_audio_db_def sample_db_def keys_ok_def jobs_ok_def live_work_def
      sample_segment_def window_of_def)

lemma sample_merge_applies:
  "fst (apply_merge sample_merge (sample_env ''u'') (begin_tx sample_audio_db 0 0)) = Inr (MergeApplied [''k/a'', ''k/b''])"
  by (simp add: apply_merge_def segments_of_recording_def recording_rows_def with_seams_def tx_media_def tx_read_def
      audio_row_to_meta_def dict_seams_def sample_audio_db_def sample_segment_def sample_merge_def windows_of_def
      merge_plan_def expected_windows_def held_windows_def given_windows_def merge_writes_def
      insert_checked_def repoint_stmt_def insert_seam_stmt_def delete_segment_stmt_def same_window_def Let_def
      run_simps cong: run_bind_cong)


subsection \<open>Storing a chunk is idempotent per window\<close>

lemma get_audio_segment_run:
  assumes "env_media e = Some b"
  shows "get_audio_segment i e s = (Inr (case filter (has_id i) (db_segments (st_db s)) of [] \<Rightarrow> None
    | r # _ \<Rightarrow> Some (audio_row_to_meta r (filter (\<lambda>x. sm_segment x = row_id r) (db_seams (st_db s))))), s)"
  using assms
  by (cases "filter (has_id i) (db_segments (st_db s))")
    (simp_all add: get_audio_segment_def with_seams_def tx_media_def tx_read_def tbind_def treturn_def)

lemma held_window_run:
  assumes ok: "audio_ok (st_db s)" and media: "env_media e = Some b"
    and x: "x \<in> set (db_seams (st_db s))" "window_of x = (ro, st)"
  shows "\<exists>m. held_window ro st e s = (Inr (Some m), s) \<and> am_id m = sm_segment x"
proof -
  have sok: "seams_ok (st_db s)" using ok by (simp add: audio_ok_def)
  obtain y where y: "find_window ro st (st_db s) = Some y"
    using x by (cases "find_window ro st (st_db s)") (auto simp: find_window_def find_None_iff same_window_iff)
  then have "y \<in> set (db_seams (st_db s))" "window_of y = (ro, st)"
    by (auto simp: find_window_def find_Some_iff same_window_iff)
  with seams_ok_same [OF sok _ x(1)] x(2) have [simp]: "y = x" by (simp add: window_of_def)
  from sok x(1) have "sm_segment x \<in> row_id ` set (db_segments (st_db s))" by (simp add: seams_ok_def)
  then obtain r rs where r: "filter (has_id (sm_segment x)) (db_segments (st_db s)) = r # rs"
    by (cases "filter (has_id (sm_segment x)) (db_segments (st_db s))") (auto simp: filter_empty_conv has_id_def)
  then have "row_id r = sm_segment x"
    by (metis Cons_eq_filterD has_id_def)
  with r y media show ?thesis
    by (simp add: held_window_def tx_media_def tx_read_def tbind_def get_audio_segment_run [OF media] audio_row_to_meta_def)
qed

lemma add_held_segment:
  assumes "audio_ok (st_db s)" "env_media e = Some b" "x \<in> set (db_seams (st_db s))" "window_of x = (ro, st)"
    and "ordinal_of (si_recording i) = Some ro" "si_started i = Some st"
  shows "\<exists>m. add_audio_segment i e s = (Inr (m, True), s) \<and> am_id m = sm_segment x"
proof -
  obtain m where "held_window ro st e s = (Inr (Some m), s)" "am_id m = sm_segment x"
    using held_window_run [OF assms(1-4)] by auto
  with assms show ?thesis
    by (simp add: add_audio_segment_def tx_media_def Let_def run_bind treturn_def cong: run_bind_cong)
qed

text \<open>A straggler's finalize touches only the meta values and the jobs.\<close>

definition seams_are :: "seam_row list \<Rightarrow> session_db \<Rightarrow> bool" where
  "seams_are xs d \<longleftrightarrow> db_seams d = xs"

lemma seams_are_stmts:
  "stmt_upholds (seams_are xs) (enqueue_stmt n)" "stmt_upholds (seams_are xs) (meta_upsert k v)"
  "stmt_upholds (seams_are xs) (meta_remove k)"
  by (auto simp: stmt_upholds_def seams_are_def enqueue_stmt_def meta_upsert_def meta_remove_def
      split: sum.splits job_error.splits)

lemma seams_are_jobs [keeps]:
  "preserves e (upholds (seams_are xs)) (enqueue_ingest i b)"
  "preserves e (upholds (seams_are xs)) (merge_if_finalized ro)"
  unfolding enqueue_ingest_def merge_if_finalized_def clear_finalize_def enqueue_merge_def
  by (intro keeps upholds_raw_run seams_are_stmts)+

lemma add_new_segment_seam:
  assumes "env_media e = Some b" "ordinal_of (si_recording i) = Some ro" "si_started i = Some st"
    and r: "add_audio_segment i e s = (Inr (m, False), s')"
  shows "\<exists>x\<in>set (db_seams (st_db s')). window_of x = (ro, st) \<and> sm_segment x = am_id m"
proof -
  from assms obtain sid mime key ordinal n s0 s1 u s2 u' s3 u'' s4 where
    ins: "db_run (insert_seam_stmt \<lparr>sm_recording = ro, sm_started = st, sm_ended = si_ended i,
              sm_segment = sid, sm_offset = 0, sm_source = key\<rparr>) e s0 = (Inr n, s1)" and
    rest: "enqueue_ingest sid (case si_bytes i of None \<Rightarrow> 0 | Some b \<Rightarrow> b) e s1 = (Inr u, s2)"
      "broadcast AudioChanged e s2 = (Inr u', s3)" "merge_if_finalized ro e s3 = (Inr u'', s4)" and
    s': "s' = s4" "am_id m = sid"
    by (auto simp: add_audio_segment_def tbind_Inr tx_media_def Let_def split: option.splits)
  let ?x = "\<lparr>sm_recording = ro, sm_started = st, sm_ended = si_ended i, sm_segment = sid, sm_offset = 0, sm_source = key\<rparr>"
  from ins obtain d c where "insert_seam_stmt ?x (st_db s0) = Inr (d, n)" "st_db s1 = d\<lparr>db_catalog := c\<rparr>"
    by (rule db_run_effect)
  then have x: "?x \<in> set (db_seams (st_db s1))" by (auto simp: insert_seam_stmt_def split: if_splits)
  have "upholds (seams_are (db_seams (st_db s1))) s1" by (simp add: upholds_def seams_are_def)
  from preservesD [OF seams_are_jobs(1) this rest(1)] rest(2)
  have "upholds (seams_are (db_seams (st_db s1))) s3" by (auto simp: broadcast_def upholds_def)
  from preservesD [OF seams_are_jobs(2) this rest(3)] x s' show ?thesis
    by (intro bexI [of _ ?x]) (simp_all add: upholds_def seams_are_def window_of_def)
qed

text \<open>Storing a chunk is idempotent per recording window. After any successful add for a window the window
  is held by the answered segment, and a retry of the same window, whatever its other fields, answers that
  segment as a duplicate and leaves the state as it is; an add that was itself answered as a duplicate
  changed nothing.\<close>

theorem add_audio_segment_once:
  assumes "audio_ok (st_db s)" "env_media e = Some b"
    and "ordinal_of (si_recording i) = Some ro" "si_started i = Some st"
    and "ordinal_of (si_recording j) = Some ro" "si_started j = Some st"
    and r: "add_audio_segment i e s = (Inr (m, dup), s')"
  shows "(dup \<longrightarrow> s' = s) \<and>
    (\<exists>x\<in>set (db_seams (st_db s')). window_of x = (ro, st) \<and> sm_segment x = am_id m) \<and>
    (\<exists>m2. add_audio_segment j e s' = (Inr (m2, True), s') \<and> am_id m2 = am_id m)"
proof -
  have ok: "audio_ok (st_db s')"
    using preservesD [OF audio_ok_writes(1) _ r] assms(1) by (simp add: upholds_def)
  have held: "\<exists>x\<in>set (db_seams (st_db s')). window_of x = (ro, st) \<and> sm_segment x = am_id m" and same: "dup \<longrightarrow> s' = s"
  proof (atomize (full), cases "\<exists>x\<in>set (db_seams (st_db s)). window_of x = (ro, st)")
    case True
    then obtain x where x: "x \<in> set (db_seams (st_db s))" "window_of x = (ro, st)" by auto
    from add_held_segment [OF assms(1,2) x assms(3,4)] r x
    show "(\<exists>x\<in>set (db_seams (st_db s')). window_of x = (ro, st) \<and> sm_segment x = am_id m) \<and> (dup \<longrightarrow> s' = s)"
      by fastforce
  next
    case False
    then have "find_window ro st (st_db s) = None"
      by (auto simp: find_window_def find_None_iff same_window_iff)
    then have h: "held_window ro st e s = (Inr None, s)"
      using assms(2) by (simp add: held_window_def tx_media_def tx_read_def tbind_def treturn_def)
    have "\<not> dup"
      using r h assms(2,3,4) by (auto simp: add_audio_segment_def tbind_Inr tx_media_def Let_def)
    with add_new_segment_seam [OF assms(2-4)] r
    show "(\<exists>x\<in>set (db_seams (st_db s')). window_of x = (ro, st) \<and> sm_segment x = am_id m) \<and> (dup \<longrightarrow> s' = s)" by auto
  qed
  from held obtain x where "x \<in> set (db_seams (st_db s'))" "window_of x = (ro, st)" "sm_segment x = am_id m" by auto
  from add_held_segment [OF ok assms(2) this(1,2) assms(5,6)] this(3) held same show ?thesis by auto
qed

definition sample_chunk :: segment_input where
  "sample_chunk = \<lparr>si_session = ''s1'', si_mime = [], si_started = Some ''t1'', si_ended = None, si_recording = Some 1,
     si_bytes = Some 10, si_id = None, si_key = None\<rparr>"

lemma add_audio_segment_once_witness:
  "\<exists>m. add_audio_segment sample_chunk (sample_env ''u'') (begin_tx sample_audio_db 0 0) =
     (Inr (m, True), begin_tx sample_audio_db 0 0) \<and> am_id m = ''a''"
proof -
  let ?s = "begin_tx sample_audio_db 0 0"
  have d: "st_db ?s = sample_audio_db" by (simp add: begin_tx_def)
  have ok: "audio_ok (st_db ?s)" by (simp only: d sample_audio_db_ok)
  have media: "env_media (sample_env ''u'') = Some (\<lambda>key. 1000)" by (simp add: sample_env_def)
  have w: "ordinal_of (si_recording sample_chunk) = Some 1" "si_started sample_chunk = Some ''t1''"
    by (simp_all add: sample_chunk_def ordinal_of_def js_trunc_def)
  obtain m where m: "add_audio_segment sample_chunk (sample_env ''u'') ?s = (Inr (m, True), ?s)"
    using add_held_segment [OF ok media _ _ w, of "hd (db_seams sample_audio_db)"]
    by (auto simp: d sample_audio_db_def window_of_def)
  from add_audio_segment_once [OF ok media w w m] have "am_id m = ''a''"
    by (simp add: d sample_audio_db_def)
  with m show ?thesis by blast
qed

subsection \<open>A finalize always settles\<close>

text \<open>A window the recording has: a seam holds it or a segment starts there.\<close>

definition window_seen :: "int \<Rightarrow> session_db \<Rightarrow> iso \<Rightarrow> bool" where
  "window_seen ro d w \<longleftrightarrow> list_ex (same_window ro w) (db_seams d) \<or> list_ex (\<lambda>r. sg_started r = Some w) (recording_rows ro d)"

lemma segments_of_recording_run:
  "env_media e = Some b \<Longrightarrow> \<exists>ms. segments_of_recording ro e s = (Inr ms, s)"
  by (simp add: segments_of_recording_def with_seams_def tbind_def tx_read_def tx_media_def treturn_def)

lemma windows_held_run:
  assumes "env_media e = Some b"
  shows "windows_held ro ws e s = (Inr (filter (window_seen ro (st_db s)) (rev (remdups (rev ws))),
    filter (\<lambda>w. \<not> window_seen ro (st_db s) w) (rev (remdups (rev ws)))), s)"
proof -
  from segments_of_recording_run [OF assms] obtain ms where ms: "segments_of_recording ro e s = (Inr ms, s)" by blast
  have "map am_started ms = map sg_started (recording_rows ro (st_db s))"
    using segments_of_recording_Inr [OF ms] by simp
  then have "Some w \<in> am_started ` set ms \<longleftrightarrow> Some w \<in> sg_started ` set (recording_rows ro (st_db s))" for w
    by (metis list.set_map)
  then have eq: "w \<in> sm_started ` set (windows_of ro (st_db s)) \<or> w \<in> set (List.map_filter am_started ms) \<longleftrightarrow>
      window_seen ro (st_db s) w" for w
    by (auto simp: window_seen_def windows_of_set in_map_filter list_ex_iff same_window_def image_iff) (metis+)
  then show ?thesis
    using assms by (simp add: windows_held_def tx_media_def tx_read_def tbind_def treturn_def Let_def ms eq del: de_Morgan_disj)
qed

lemma pending_after_clear:
  assumes "clear_finalize ro e s = (Inr u, s')"
  shows "map_of (db_meta (st_db s')) (finalize_meta_key ro) = None"
  using assms by (auto simp: clear_finalize_def tbind_Inr raw_run_Inr meta_remove_def map_of_eq_None_iff)

lemma pending_finalize_run:
  "pending_finalize ro e s = (Inr (case map_of (db_meta (st_db s)) (finalize_meta_key ro) of
     None \<Rightarrow> None
   | Some t \<Rightarrow> (case json_parse t of Some (JArr xs) \<Rightarrow> Some (map js_string xs) | _ \<Rightarrow> None)), s)"
  by (simp add: pending_finalize_def meta_get_def tx_read_def tbind_def treturn_def)

lemma pending_after_set:
  assumes "meta_set_uncounted (finalize_meta_key ro) (json_string (JArr (map JStr ts))) e s = (Inr u, s')"
  shows "pending_finalize ro e s' = (Inr (Some ts), s')"
proof -
  have "map_of (db_meta (st_db s')) (finalize_meta_key ro) = Some (json_string (JArr (map JStr ts)))"
    using assms by (auto simp: meta_set_uncounted_def tbind_Inr raw_run_Inr meta_upsert_def update_conv')
  moreover have "json_parse (json_string (JArr (map JStr ts))) = Some (JArr (map JStr ts))"
    by (rule json_parse_string) (simp add: list_all_iff)
  moreover have "map js_string (map JStr ts) = ts"
    by (induction ts) (simp_all)
  ultimately show ?thesis
    by (simp add: pending_finalize_run)
qed

lemma live_job_exists:
  "live_job k g t js \<noteq> None \<longleftrightarrow> (\<exists>j\<in>set js. same_work k g t j \<and> live_status (jb_status j))"
  by (auto simp: live_job_def find_None_iff simp del: not_None_eq)

lemma enqueue_merge_live:
  assumes "env_media e = Some b" "enqueue_merge ro e s = (Inr ok, s')"
  shows "live_job Merge (env_session e) (int_string ro) (db_jobs (st_db s')) \<noteq> None \<and> db_meta (st_db s') = db_meta (st_db s)"
  using assms unfolding live_job_exists
  by (auto simp: enqueue_merge_def tbind_Inr tx_media_def raw_run_Inr tx_uuid_def session_id_def tx_now_def
      enqueue_stmt_def enqueue_job_def insert_row_def same_work_def live_status_def
      dest!: segments_of_recording_Inr split: sum.splits job_error.splits if_splits option.splits)

text \<open>A finalize settles. It waits exactly when one of the given windows is not there yet, and then the marker it
  leaves reads back as the sorted union, without duplicates, of the windows given now and those given before.
  Otherwise the marker is gone and either the recording has fewer than two segments or a live merge job for it
  is in the queue, also when the answer is that one was there already.\<close>

theorem finalize_recording_settles:
  assumes media: "env_media e = Some b" and r: "finalize_recording ro ws e s = (Inr out, s')"
  shows "(out = FWaiting \<longleftrightarrow> (\<exists>w\<in>set ws. \<not> window_seen ro (st_db s) w)) \<and>
    (case out of
       FWaiting \<Rightarrow> \<exists>ts prior. pending_finalize ro e s = (Inr prior, s) \<and> pending_finalize ro e s' = (Inr (Some ts), s') \<and>
         sorted ts \<and> distinct ts \<and> set ts = set ws \<union> (case prior of None \<Rightarrow> {} | Some p \<Rightarrow> set p)
     | FNotNeeded \<Rightarrow> length (recording_rows ro (st_db s)) < 2 \<and> pending_finalize ro e s' = (Inr None, s')
     | _ \<Rightarrow> live_job Merge (env_session e) (int_string ro) (db_jobs (st_db s')) \<noteq> None \<and>
         pending_finalize ro e s' = (Inr None, s'))"
proof (cases "\<exists>w\<in>set ws. \<not> window_seen ro (st_db s) w")
  case True
  obtain prior where p: "pending_finalize ro e s = (Inr prior, s)"
    by (simp add: pending_finalize_run)
  let ?ts = "sort (rev (remdups (rev ((case prior of None \<Rightarrow> [] | Some p \<Rightarrow> p) @ ws))))"
  from True have "filter (\<lambda>w. \<not> window_seen ro (st_db s) w) (rev (remdups (rev ws))) \<noteq> []"
    by (auto simp: filter_empty_conv)
  with r media have "out = FWaiting"
    and m: "meta_set_uncounted (finalize_meta_key ro) (json_string (JArr (map JStr ?ts))) e s = (Inr (), s')"
    by (auto simp: finalize_recording_def tbind_Inr tx_media_def windows_held_run [OF media] p Let_def)
  have "distinct ?ts" "set ?ts = set ws \<union> (case prior of None \<Rightarrow> {} | Some p \<Rightarrow> set p)"
    by (cases prior; auto)+
  with True p pending_after_set [OF m] \<open>out = FWaiting\<close> show ?thesis
    by (auto simp del: set_sort)
next
  case False
  then have none: "filter (\<lambda>w. \<not> window_seen ro (st_db s) w) (rev (remdups (rev ws))) = []"
    by (auto simp: filter_empty_conv)
  let ?rest = "\<lambda>ms. if length ms < 2 then treturn FNotNeeded else
       tbind session_id (\<lambda>s. tbind (tx_read (\<lambda>d. live_job Merge s (int_string ro) (db_jobs d))) (\<lambda>live.
       if live \<noteq> None then treturn FAlreadyQueued else
       tbind (enqueue_merge ro) (\<lambda>ok. treturn (if ok then FQueued else FAlreadyQueued))))"
  have "finalize_recording ro ws e s = tbind (clear_finalize ro) (\<lambda>_. tbind (segments_of_recording ro) ?rest) e s"
    using media windows_held_run [OF media, of ro ws s] none
    by (simp add: finalize_recording_def tx_media_def run_bind cong: run_bind_cong)
  with r have "tbind (clear_finalize ro) (\<lambda>_. tbind (segments_of_recording ro) ?rest) e s = (Inr out, s')" by simp
  then obtain u s1 ms s2 where c: "clear_finalize ro e s = (Inr u, s1)"
    and ms0: "segments_of_recording ro e s1 = (Inr ms, s2)" and rest0: "?rest ms e s2 = (Inr out, s')"
    unfolding tbind_Inr [of "clear_finalize ro"] tbind_Inr [of "segments_of_recording ro"] by blast
  have "s2 = s1" using segments_of_recording_Inr [OF ms0] by simp
  note ms = ms0 [unfolded this] and rest = rest0 [unfolded this]
  have "db_segments (st_db s1) = db_segments (st_db s)"
    using c by (auto simp: clear_finalize_def tbind_Inr raw_run_Inr meta_remove_def)
  then have len: "length ms = length (recording_rows ro (st_db s))"
    using segments_of_recording_Inr [OF ms] by (auto simp: recording_rows_def dest: map_eq_imp_length_eq)
  have clr: "map_of (db_meta (st_db s1)) (finalize_meta_key ro) = None" by (rule pending_after_clear [OF c])
  show ?thesis
  proof (cases "length ms < 2")
    case True
    with rest len clr False show ?thesis by (auto simp: pending_finalize_run)
  next
    case two: False
    show ?thesis
    proof (cases "live_job Merge (env_session e) (int_string ro) (db_jobs (st_db s1))")
      case (Some j)
      with two rest clr False show ?thesis by (auto simp: tbind_Inr session_id_def pending_finalize_run)
    next
      case None
      with two rest obtain ok where ok: "enqueue_merge ro e s1 = (Inr ok, s')"
        and out: "out = (if ok then FQueued else FAlreadyQueued)"
        by (auto simp: tbind_Inr session_id_def)
      from enqueue_merge_live [OF media ok] out clr False show ?thesis
        by (auto simp: pending_finalize_run)
    qed
  qed
qed

lemma finalize_recording_settles_witness:
  "\<exists>out s'. finalize_recording 1 [''t1'', ''t9''] (sample_env ''u'') (begin_tx sample_audio_db 0 0) = (Inr out, s') \<and> out = FWaiting"
proof -
  let ?e = "sample_env ''u''" and ?s = "begin_tx sample_audio_db 0 0"
  have media: "env_media ?e = Some (\<lambda>key. 1000)" by (simp add: sample_env_def)
  have w: "\<not> window_seen 1 (st_db ?s) ''t9''" "window_seen 1 (st_db ?s) ''t1''"
    by (simp_all add: window_seen_def begin_tx_def sample_audio_db_def same_window_def sample_segment_def
        recording_rows_def order_by_def)
  have h: "windows_held 1 [''t1'', ''t9''] ?e ?s = (Inr ([''t1''], [''t9'']), ?s)"
    using w by (simp add: windows_held_run [OF media])
  have "\<not> isl (fst (finalize_recording 1 [''t1'', ''t9''] ?e ?s))"
    by (simp add: finalize_recording_def tx_media_def media run_bind h pending_finalize_run treturn_def
        meta_set_uncounted_def raw_run_def meta_upsert_def Let_def cong: run_bind_cong)
  from run_returns [OF this] obtain out s' where r: "finalize_recording 1 [''t1'', ''t9''] ?e ?s = (Inr out, s')" by blast
  from finalize_recording_settles [OF media r] w(1) have "out = FWaiting" by auto
  with r show ?thesis by blast
qed

end
