(* ===== verification/FrameBus.thy ===== *)
theory FrameBus
  imports SessionCore
begin

section \<open>The frame bus\<close>

text \<open>
  packages/session-core/src/frameBus.ts: the messages between a hub's transactions and the sockets,
  the commands that are relayed, and the bucket that limits them to ten a second. The local bus delivers
  a message at once, so \<open>afterCommit\<close> and \<open>publishNow\<close> are applications of the receiver.
\<close>

datatype named_sessions = AllSessions | Sessions "string list"

datatype bus_message = FrameMsg string frame | CloseMsg string named_sessions int

definition names_session :: "named_sessions \<Rightarrow> string \<Rightarrow> bool" where
  "names_session ss i = (case ss of AllSessions \<Rightarrow> True | Sessions xs \<Rightarrow> i \<in> set xs)"

definition session_frame_types :: "string list" where
  "session_frame_types = [''event.changed'', ''transport.changed'', ''audio.changed'', ''lease.changed'', ''command'']"

text \<open>The type a frame carries.\<close>

definition frame_type :: "frame \<Rightarrow> string" where
  "frame_type f = (case f of EventChanged _ \<Rightarrow> ''event.changed'' | TransportChanged _ _ \<Rightarrow> ''transport.changed''
     | AudioChanged \<Rightarrow> ''audio.changed'' | LeaseChanged \<Rightarrow> ''lease.changed'' | CommandFrame _ \<Rightarrow> ''command'')"

text \<open>\<open>companionCommandBodySchema\<close> of packages/contract.\<close>

definition session_commands :: "string list" where
  "session_commands = [''record-start'', ''record-stop'', ''record-toggle'', ''play-toggle'']"

definition is_session_command :: "string \<Rightarrow> bool" where
  "is_session_command c \<longleftrightarrow> c \<in> set session_commands"

definition after_commit :: "(bus_message \<Rightarrow> 'w \<Rightarrow> 'w) \<Rightarrow> bus_message list \<Rightarrow> 'w \<Rightarrow> 'w" where
  "after_commit recv msgs w = fold recv msgs w"

definition publish_now :: "(bus_message \<Rightarrow> 'w \<Rightarrow> 'w) \<Rightarrow> bus_message \<Rightarrow> 'w \<Rightarrow> 'w" where
  "publish_now recv m w = recv m w"

subsection \<open>The command bucket\<close>

definition command_limit :: nat where "command_limit = 10"
definition command_window_ms :: int where "command_window_ms = 1000"

text \<open>\<open>CommandBucket.take\<close>: the tokens still out (when each was spent, oldest first) and the outcome.\<close>

definition bucket_take :: "int \<Rightarrow> int list \<Rightarrow> bool \<times> int list" where
  "bucket_take now spent = (let out = dropWhile (\<lambda>t. command_window_ms \<le> now - t) spent in
     if command_limit \<le> length out then (False, out) else (True, out @ [now]))"

text \<open>A run of messages at the given times: the times at which a command was relayed.\<close>

fun bucket_run :: "int list \<Rightarrow> int list \<Rightarrow> int list" where
  "bucket_run b [] = []"
| "bucket_run b (t # ts) = (case bucket_take t b of (ok, b') \<Rightarrow>
     if ok then t # bucket_run b' ts else bucket_run b' ts)"

definition in_window :: "int \<Rightarrow> int \<Rightarrow> bool" where
  "in_window a t \<longleftrightarrow> a \<le> t \<and> t < a + command_window_ms"

lemma frame_types_listed: "frame_type f \<in> set session_frame_types"
  by (cases f) (simp_all add: frame_type_def session_frame_types_def)

text \<open>The relay times of a list that are less than a second before \<open>now\<close>.\<close>

definition still_out :: "int \<Rightarrow> int list \<Rightarrow> int list" where
  "still_out now ts = filter (\<lambda>t. now < t + command_window_ms) ts"

lemma still_out_append: "still_out now (xs @ ys) = still_out now xs @ still_out now ys"
  by (simp add: still_out_def)

lemma still_out_now [simp]: "still_out now [now] = [now]"
  by (simp add: still_out_def command_window_ms_def)

lemma still_out_later: "t0 \<le> now \<Longrightarrow> still_out now (still_out t0 ts) = still_out now ts"
  by (auto simp: still_out_def intro!: filter_cong)

lemma still_out_set: "set (still_out now ts) \<subseteq> set ts"
  by (auto simp: still_out_def)

lemma still_out_length: "length (still_out now ts) \<le> length ts"
  by (simp add: still_out_def)

lemma still_out_sorted: "sorted ts \<Longrightarrow> sorted (still_out now ts)"
  using sorted_filter [of "\<lambda>x. x" ts "\<lambda>t. now < t + command_window_ms"] by (simp add: still_out_def)

lemma dropWhile_expired:
  assumes "sorted (b :: int list)"
  shows "dropWhile (\<lambda>t. command_window_ms \<le> now - t) b = still_out now b"
  using assms
proof (induction b)
  case (Cons x b)
  show ?case
  proof (cases "command_window_ms \<le> now - x")
    case True
    with Cons show ?thesis by (auto simp: still_out_def)
  next
    case False
    with Cons.prems have "\<forall>t\<in>set (x # b). now < t + command_window_ms" by force
    with False show ?thesis by (simp add: still_out_def filter_id_conv [THEN iffD2])
  qed
qed (simp add: still_out_def)

text \<open>The bucket holds every command relayed less than a second before a time not earlier than the last.\<close>

definition bucket_inv :: "int list \<Rightarrow> int list \<Rightarrow> int \<Rightarrow> bool" where
  "bucket_inv relayed b now \<longleftrightarrow> sorted b \<and> length b \<le> command_limit \<and> (\<forall>t\<in>set b. t \<le> now) \<and>
     still_out now relayed = still_out now b"

lemma bucket_take_inv:
  assumes inv: "bucket_inv relayed b t0" and t: "t0 \<le> now" and run: "bucket_take now b = (ok, b')"
  shows "bucket_inv (if ok then relayed @ [now] else relayed) b' now"
proof -
  have b': "ok = (length (still_out now b) < command_limit)"
      "b' = (if ok then still_out now b @ [now] else still_out now b)"
    using run inv by (auto simp: bucket_take_def Let_def bucket_inv_def dropWhile_expired split: if_splits)
  have eq: "still_out now relayed = still_out now b"
    using inv still_out_later [OF t] unfolding bucket_inv_def by metis
  have "\<forall>x\<in>set (still_out now b). x \<le> now"
    using inv t still_out_set [of now b] by (force simp: bucket_inv_def)
  moreover have "sorted (still_out now b)" "length (still_out now b) \<le> command_limit"
    using inv still_out_sorted order_trans [OF still_out_length] by (auto simp: bucket_inv_def)
  ultimately show ?thesis
    using b' eq still_out_later [of now now b]
    by (auto simp: bucket_inv_def sorted_append still_out_append)
qed

text \<open>Along a run, no window of a second holds more than the limit.\<close>

lemma bucket_run_window:
  assumes "bucket_inv relayed b t0" "sorted (t0 # ts)" "\<forall>t\<in>set relayed. t \<le> t0"
    and "\<And>a. length (filter (in_window a) relayed) \<le> command_limit"
  shows "length (filter (in_window a) (relayed @ bucket_run b ts)) \<le> command_limit"
  using assms
proof (induction ts arbitrary: relayed b t0)
  case (Cons t ts)
  obtain ok b' where b': "bucket_take t b = (ok, b')" by force
  let ?r = "if ok then relayed @ [t] else relayed"
  have t: "t0 \<le> t" "sorted (t # ts)" using Cons.prems(2) by auto
  note inv = bucket_take_inv [OF Cons.prems(1) t(1) b']
  have ub: "\<forall>x\<in>set ?r. x \<le> t" using Cons.prems(3) t(1) by auto
  have win: "length (filter (in_window c) ?r) \<le> command_limit" for c
  proof (cases "ok \<and> in_window c t")
    case True
    have "filter (in_window c) (relayed @ [t]) = filter (in_window c) (still_out t (relayed @ [t]))"
      using True by (auto simp: in_window_def still_out_def intro!: filter_cong)
    also have "still_out t (relayed @ [t]) = still_out t b'"
      using inv True by (simp add: bucket_inv_def)
    finally have "length (filter (in_window c) (relayed @ [t])) \<le> length b'"
      using le_trans [OF length_filter_le still_out_length] by metis
    moreover have "length b' \<le> command_limit" using inv by (simp add: bucket_inv_def)
    ultimately show ?thesis using True by simp
  next
    case False
    then show ?thesis using Cons.prems(4) [of c] by auto
  qed
  from Cons.IH [OF inv t(2) ub win] b' show ?case by (cases ok) simp_all
qed simp

text \<open>The reference: a log of every relay, and a command passes when fewer than ten of them are less
  than a second old.\<close>

fun sliding_log :: "int list \<Rightarrow> int list \<Rightarrow> int list" where
  "sliding_log relayed [] = []"
| "sliding_log relayed (t # ts) =
     (if length (filter (\<lambda>x. t - 1000 < x) relayed) < 10 then t # sliding_log (relayed @ [t]) ts
      else sliding_log relayed ts)"

lemma bucket_take_accepts:
  assumes "bucket_inv relayed b t0" "t0 \<le> now"
  shows "fst (bucket_take now b) \<longleftrightarrow> length (filter (\<lambda>x. now - 1000 < x) relayed) < 10"
proof -
  have "filter (\<lambda>x. now - 1000 < x) relayed = still_out now relayed"
    by (auto simp: still_out_def command_window_ms_def intro!: filter_cong)
  also have "\<dots> = still_out now b"
    using assms still_out_later [OF assms(2)] unfolding bucket_inv_def by metis
  finally show ?thesis
    using assms(1) by (auto simp: bucket_take_def Let_def bucket_inv_def dropWhile_expired command_limit_def)
qed

lemma bucket_run_sliding_log:
  "bucket_inv relayed b t0 \<Longrightarrow> sorted (t0 # ts) \<Longrightarrow> bucket_run b ts = sliding_log relayed ts"
proof (induction ts arbitrary: relayed b t0)
  case (Cons t ts)
  obtain ok b' where b': "bucket_take t b = (ok, b')" by force
  have t: "t0 \<le> t" "sorted (t # ts)" using Cons.prems(2) by auto
  have "ok \<longleftrightarrow> length (filter (\<lambda>x. t - 1000 < x) relayed) < 10"
    using bucket_take_accepts [OF Cons.prems(1) t(1)] b' by simp
  with Cons.IH [OF bucket_take_inv [OF Cons.prems(1) t(1) b'] t(2)] b' show ?case
    by (cases ok) simp_all
qed simp

text \<open>C37: The command bucket implements a sliding window exactly: for the non-decreasing times of one
  socket's messages it relays precisely the commands that a full log of relays with at most ten in the
  last 1000 ms would let through, and so no window of 1000 ms ever holds more than ten relayed commands.\<close>

theorem command_rate_limited:
  assumes "sorted ts"
  shows "bucket_run [] ts = sliding_log [] ts \<and> length (filter (in_window a) (bucket_run [] ts)) \<le> 10"
proof (cases ts)
  case (Cons t ts')
  have "bucket_inv [] [] t" by (simp add: bucket_inv_def still_out_def)
  from bucket_run_window [OF this, of ts a] bucket_run_sliding_log [OF this, of ts] assms Cons show ?thesis
    by (simp add: command_limit_def)
qed simp

lemma command_rate_limited_witness:
  "bucket_run [] (replicate 12 (5::int)) = sliding_log [] (replicate 12 5) \<and>
   length (filter (in_window 0) (bucket_run [] (replicate 12 (5::int)))) \<le> 10 \<and>
   length (bucket_run [] (replicate 12 (5::int))) = 10"
proof -
  have s: "sorted (replicate 12 (5::int))" by (simp add: sorted_replicate)
  have "length (bucket_run [] (replicate 12 (5::int))) = 10" by code_simp
  with command_rate_limited [OF s, of 0] show ?thesis by blast
qed

end
