(* ===== verification/SessionHub.thy ===== *)
theory SessionHub
  imports TxLogic FrameBus
begin

section \<open>The session hub: calls, transactions, alarm, sockets\<close>

text \<open>
  packages/session-core/src/SessionHub.ts, class SessionHub. A hub serialises the calls on its session
  under one lock, so the model runs one call at a time on a \<open>world\<close>: the committed database, the hub
  in memory and the positions of the clock's and the id stream. A write is one storage transaction: its
  body runs once per attempt (a deadlock runs it again on a fresh core), the projection is written after
  the body and before COMMIT, the held frames go to the sockets after COMMIT, and the held alarm is
  armed after that. What the storage does with each attempt is an input of the model (\<open>attempt list\<close>).
\<close>

subsection \<open>A storage transaction\<close>

text \<open>How the storage ends an attempt whose body returned: COMMIT succeeds, the attempt is a deadlock
  victim and runs again, or COMMIT fails for good.\<close>

datatype attempt = Commits | Deadlocks | CommitFails

text \<open>The body as the hub wraps it: projection, then the held frames are taken (to be published).\<close>

definition tx_body :: "'a tx \<Rightarrow> ('a \<times> frame list) tx" where
  "tx_body b = tbind b (\<lambda>x. tbind write_projection_if_dirty (\<lambda>_. tbind take_held_broadcasts (\<lambda>fs. treturn (x, fs))))"

record 'a tx_result =
  tr_value :: "terr + 'a"
  tr_db :: session_db
  tr_frames :: "frame list"
  tr_alarm :: "int option"
  tr_ticks :: nat
  tr_ids :: nat

definition failed_tx :: "terr \<Rightarrow> session_db \<Rightarrow> nat \<Rightarrow> nat \<Rightarrow> 'a tx_result" where
  "failed_tx er d t i = \<lparr>tr_value = Inl er, tr_db = d, tr_frames = [], tr_alarm = None, tr_ticks = t, tr_ids = i\<rparr>"

text \<open>\<open>storage.tx\<close> of the hub's \<open>transaction\<close>: every attempt starts from the committed database with a
  fresh core; an error or a failed COMMIT leaves the database as it was.\<close>

fun storage_tx :: "attempt list \<Rightarrow> tx_env \<Rightarrow> 'a tx \<Rightarrow> session_db \<Rightarrow> nat \<Rightarrow> nat \<Rightarrow> 'a tx_result" where
  "storage_tx [] e b d t i = failed_tx Deadlock d t i"
| "storage_tx (a # as) e b d t i = (case tx_body b e (begin_tx d t i) of
     (Inl er, s) \<Rightarrow> failed_tx er d (st_ticks s) (st_ids s)
   | (Inr (x, fs), s) \<Rightarrow> (case a of
       Commits \<Rightarrow> \<lparr>tr_value = Inr x, tr_db = st_db s, tr_frames = fs, tr_alarm = st_alarm s,
         tr_ticks = st_ticks s, tr_ids = st_ids s\<rparr>
     | Deadlocks \<Rightarrow> storage_tx as e b d (st_ticks s) (st_ids s)
     | CommitFails \<Rightarrow> failed_tx StorageFailed d (st_ticks s) (st_ids s)))"

subsection \<open>The hub\<close>

datatype hub_status = Open | Closing | Closed

datatype role = Browser | Companion

text \<open>An attached socket; \<open>so_broken\<close> is a socket whose \<open>send\<close> throws.\<close>

record socket =
  so_id :: nat
  so_role :: role
  so_user :: "string option"
  so_broken :: bool

record hub =
  hb_session :: string
  hb_status :: hub_status
  hb_media :: "(string \<Rightarrow> int) option"
  hb_sockets :: "socket list"
  hb_alarm :: "int option" \<comment> \<open>the armed timer's delay in milliseconds\<close>
  hb_backoff :: int
  hb_in_flight :: nat
  hb_lock_waits :: nat
  hb_touched :: int
  hb_sent :: "(nat \<times> frame) list" \<comment> \<open>what reached which socket, in order\<close>
  hb_closed :: "(nat \<times> int) list" \<comment> \<open>sockets the hub closed, with the code\<close>
  hb_buckets :: "(nat option \<times> int list) list" \<comment> \<open>command buckets per socket; None is the hub's own\<close>

record world =
  w_db :: session_db
  w_hub :: hub
  w_clock :: "nat \<Rightarrow> int"
  w_uuid :: "nat \<Rightarrow> string"
  w_ticks :: nat
  w_ids :: nat

definition call_env :: "world \<Rightarrow> session_caller \<Rightarrow> tx_env" where
  "call_env w c = \<lparr>env_session = hb_session (w_hub w), env_caller = Some c, env_clock = w_clock w, env_uuid = w_uuid w,
     env_media = hb_media (w_hub w)\<rparr>"

definition clock_now :: "world \<Rightarrow> int \<times> world" where
  "clock_now w = (w_clock w (w_ticks w), w\<lparr>w_ticks := Suc (w_ticks w)\<rparr>)"

text \<open>\<open>sendToSockets\<close>: every attached socket, a broken one skipped.\<close>

definition send_frame :: "frame \<Rightarrow> hub \<Rightarrow> hub" where
  "send_frame f h = h\<lparr>hb_sent := hb_sent h @ map (\<lambda>s. (so_id s, f)) (filter (\<lambda>s. \<not> so_broken s) (hb_sockets h))\<rparr>"

text \<open>\<open>scheduleAlarm\<close> and \<open>armAlarm\<close>: one slot, replaced by each arming; a hub that is not open arms nothing.\<close>

definition schedule_alarm :: "int \<Rightarrow> hub \<Rightarrow> hub" where
  "schedule_alarm delay h = h\<lparr>hb_alarm := (if hb_status h = Open then Some delay else None)\<rparr>"

definition arm_alarm :: "int \<Rightarrow> world \<Rightarrow> world" where
  "arm_alarm at_ms w = (case clock_now w of (now, w') \<Rightarrow>
     w'\<lparr>w_hub := schedule_alarm (max 0 (at_ms - now)) (w_hub w')\<rparr>)"

definition stop_alarm :: "hub \<Rightarrow> hub" where
  "stop_alarm h = h\<lparr>hb_alarm := None\<rparr>"

text \<open>\<open>deliver\<close>: a message of the frame bus.\<close>

definition close_user_sockets :: "string \<Rightarrow> int \<Rightarrow> hub \<Rightarrow> nat \<times> hub" where
  "close_user_sockets u code h = (let gone = filter (\<lambda>s. so_user s = Some u) (hb_sockets h) in
     (length gone, h\<lparr>hb_sockets := filter (\<lambda>s. so_user s \<noteq> Some u) (hb_sockets h),
        hb_closed := hb_closed h @ map (\<lambda>s. (so_id s, code)) gone\<rparr>))"

definition hub_deliver :: "bus_message \<Rightarrow> hub \<Rightarrow> hub" where
  "hub_deliver m h = (case m of
     FrameMsg s f \<Rightarrow> if s = hb_session h then send_frame f h else h
   | CloseMsg u ss code \<Rightarrow> if names_session ss (hb_session h) then snd (close_user_sockets u code h) else h)"

text \<open>\<open>transaction\<close>: run, then deliver the committed frames and arm the committed alarm. A session
  without a catalog row rejects before the body runs.\<close>

definition hub_transaction :: "attempt list \<Rightarrow> session_caller \<Rightarrow> 'a tx \<Rightarrow> world \<Rightarrow> (terr + 'a) \<times> world" where
  "hub_transaction as c b w =
     (if db_catalog (w_db w) = None then (Inl SessionNotFound, w) else
      let r = storage_tx as (call_env w c) b (w_db w) (w_ticks w) (w_ids w);
          w1 = w\<lparr>w_db := tr_db r, w_ticks := tr_ticks r, w_ids := tr_ids r,
                 w_hub := after_commit hub_deliver (map (FrameMsg (hb_session (w_hub w))) (tr_frames r)) (w_hub w)\<rparr>;
          w2 = (case tr_alarm r of None \<Rightarrow> w1 | Some t \<Rightarrow> arm_alarm t w1)
      in (tr_value r, w2))"

definition hub_snapshot :: "session_caller \<Rightarrow> 'a tx \<Rightarrow> world \<Rightarrow> (terr + 'a) \<times> world" where
  "hub_snapshot c b w =
     (if db_catalog (w_db w) = None then (Inl SessionNotFound, w) else
      case b (call_env w c) (begin_tx (w_db w) (w_ticks w) (w_ids w)) of
        (r, s) \<Rightarrow> (r, w\<lparr>w_ticks := st_ticks s, w_ids := st_ids s\<rparr>))"

datatype call_mode = ReadCall | WriteCall

text \<open>\<open>call\<close>, with the other calls in flight when it arrives already counted by \<open>hb_in_flight\<close>.\<close>

definition hub_call :: "attempt list \<Rightarrow> session_caller \<Rightarrow> call_mode \<Rightarrow> 'a tx \<Rightarrow> world \<Rightarrow> (terr + 'a) \<times> world" where
  "hub_call as c m b w =
     (if hb_status (w_hub w) \<noteq> Open then (Inl HubClosed, w) else
      case clock_now w of (now, w0) \<Rightarrow>
        let h = w_hub w0;
            w1 = w0\<lparr>w_hub := h\<lparr>hb_lock_waits := (if 0 < hb_in_flight h then hb_lock_waits h + 1 else hb_lock_waits h),
                   hb_in_flight := hb_in_flight h + 1, hb_touched := now\<rparr>\<rparr>
        in (case (case m of WriteCall \<Rightarrow> hub_transaction as c b w1 | ReadCall \<Rightarrow> hub_snapshot c b w1) of
              (r, w2) \<Rightarrow> (r, w2\<lparr>w_hub := (w_hub w2)\<lparr>hb_in_flight := hb_in_flight (w_hub w2) - 1\<rparr>\<rparr>)))"

text \<open>\<open>close\<close>: refuses new calls and clears the alarm; the calls already admitted still run. Once the
  last has left (\<open>lock.run\<close>), the hub is closed.\<close>

definition hub_close :: "hub \<Rightarrow> hub" where
  "hub_close h = (if hb_status h \<noteq> Open then h else (stop_alarm h)\<lparr>hb_status := Closing\<rparr>)"

definition hub_closed :: "hub \<Rightarrow> hub" where
  "hub_closed h = (if hb_status h = Closing \<and> hb_in_flight h = 0 then h\<lparr>hb_status := Closed\<rparr> else h)"

subsection \<open>Sockets\<close>

definition attach_socket :: "socket \<Rightarrow> hub \<Rightarrow> hub" where
  "attach_socket s h = h\<lparr>hb_sockets := hb_sockets h @ [s]\<rparr>"

definition detach_socket :: "nat \<Rightarrow> hub \<Rightarrow> hub" where
  "detach_socket i h = h\<lparr>hb_sockets := filter (\<lambda>s. so_id s \<noteq> i) (hb_sockets h)\<rparr>"

definition close_all_sockets :: "int \<Rightarrow> hub \<Rightarrow> nat \<times> hub" where
  "close_all_sockets code h = (length (hb_sockets h), h\<lparr>hb_sockets := [],
     hb_closed := hb_closed h @ map (\<lambda>s. (so_id s, code)) (hb_sockets h)\<rparr>)"

definition presence :: "hub \<Rightarrow> nat \<times> nat" where
  "presence h = (length (filter (\<lambda>s. so_role s \<noteq> Companion) (hb_sockets h)),
     length (filter (\<lambda>s. so_role s = Companion) (hb_sockets h)))"

text \<open>\<open>handleSocketMessage\<close> of a parsed message, and \<open>broadcastCommand\<close>, over the local bus.\<close>

definition relay_command :: "string \<Rightarrow> hub \<Rightarrow> hub" where
  "relay_command cmd h = publish_now hub_deliver (FrameMsg (hb_session h) (CommandFrame cmd)) h"

definition bucket_of :: "nat option \<Rightarrow> hub \<Rightarrow> int list" where
  "bucket_of k h = (case map_of (hb_buckets h) k of None \<Rightarrow> [] | Some b \<Rightarrow> b)"

definition handle_socket_command :: "string \<Rightarrow> nat option \<Rightarrow> int \<Rightarrow> hub \<Rightarrow> hub" where
  "handle_socket_command cmd sock now h =
     (if \<not> is_session_command cmd then h else
      case bucket_take now (bucket_of sock h) of (ok, b) \<Rightarrow>
        let h1 = h\<lparr>hb_buckets := AList.update sock b (hb_buckets h)\<rparr>
        in if ok then relay_command cmd h1 else h1)"

definition broadcast_command :: "string \<Rightarrow> hub \<Rightarrow> hub" where
  "broadcast_command cmd h = (if is_session_command cmd then relay_command cmd h else h)"

subsection \<open>The contract of write bodies, and what the hub gives for it\<close>

text \<open>The catalog's projection columns agree with the session's rows.\<close>

definition projection_current :: "session_db \<Rightarrow> bool" where
  "projection_current d \<longleftrightarrow> map_option ct_projection (db_catalog d) = Some (live_projection d) \<and> db_transport d \<noteq> None"

lemma projection_write_frame:
  assumes "write_projection_if_dirty e s = (Inr u, s')"
  shows "content_of (st_db s') = content_of (st_db s)" "revision_of (st_db s') = revision_of (st_db s)"
    "st_frames s' = st_frames s" "st_alarm s' = st_alarm s" "db_leases (st_db s') = db_leases (st_db s)"
    "db_jobs (st_db s') = db_jobs (st_db s)" "db_meta (st_db s') = db_meta (st_db s)"
  using assms
  by (auto simp: write_projection_if_dirty_def tbind_Inr raw_run_Inr projection_stmt_def revision_of_def
      split: option.splits if_splits)

lemma projection_written:
  assumes "tracked d0 s" "projection_current d0" "write_projection_if_dirty e s = (Inr u, s')"
  shows "projection_current (st_db s')"
proof (cases "st_dirty s")
  case False
  with assms show ?thesis
    by (auto simp: write_projection_if_dirty_def tracked_def projection_current_def split: option.splits)
next
  case True
  with assms(3) show ?thesis
    by (auto simp: write_projection_if_dirty_def tbind_Inr raw_run_Inr projection_stmt_def projection_current_def
        split: option.splits if_splits)
qed

text \<open>What a committed body did, seen from the database it started from.\<close>

definition commit_ok :: "session_db \<Rightarrow> session_db \<Rightarrow> bool" where
  "commit_ok d d' \<longleftrightarrow> projection_current d' \<and>
     (revision_of d' = revision_of d \<and> content_of d' = content_of d \<or> revision_of d' = revision_of d + 1)"

lemma tx_body_Inr:
  "tx_body b e s = (Inr (x, fs), s') \<longleftrightarrow> (\<exists>s1 s2. b e s = (Inr x, s1) \<and>
     write_projection_if_dirty e s1 = (Inr (), s2) \<and> fs = st_frames s2 \<and> s' = s2\<lparr>st_frames := []\<rparr>)"
  by (auto simp: tx_body_def tbind_Inr take_held_broadcasts_def)

lemma tx_body_commits:
  assumes "preserves e (tracked d) b" "projection_current d"
    and "tx_body b e (begin_tx d t i) = (Inr (x, fs), s)"
  shows "commit_ok d (st_db s)"
proof -
  obtain s1 s2 where b: "b e (begin_tx d t i) = (Inr x, s1)" "write_projection_if_dirty e s1 = (Inr (), s2)"
    "st_db s = st_db s2"
    using assms(3) by (auto simp: tx_body_Inr)
  have t: "tracked d s1"
    using preservesD [OF assms(1) _ b(1)] tracked_start [of "begin_tx d t i"] by simp
  from projection_written [OF t assms(2) b(2)] projection_write_frame [OF b(2)] t show ?thesis
    by (auto simp: commit_ok_def b(3) tracked_def split: option.splits)
qed

lemma commit_ok_refl: "projection_current d \<Longrightarrow> commit_ok d d"
  by (simp add: commit_ok_def)

lemma storage_tx_ok:
  assumes "\<And>d0. preserves e (tracked d0) b" "projection_current d"
  shows "commit_ok d (tr_db (storage_tx as e b d t i))"
proof (induction as arbitrary: t i)
  case Nil
  then show ?case using assms(2) by (simp add: failed_tx_def commit_ok_refl)
next
  case (Cons a as)
  show ?case
  proof (cases "tx_body b e (begin_tx d t i)")
    case (Pair r s)
    show ?thesis
    proof (cases r)
      case (Inl er)
      with Pair assms(2) show ?thesis by (simp add: failed_tx_def commit_ok_refl)
    next
      case (Inr xf)
      with Pair tx_body_commits [OF assms(1,2)] Cons.IH assms(2) show ?thesis
        by (cases xf; cases a) (auto simp: failed_tx_def commit_ok_refl)
    qed
  qed
qed

text \<open>What the sockets get of a committed write's frames: each frame in order, to every working socket.\<close>

definition fanned_out :: "hub \<Rightarrow> frame list \<Rightarrow> (nat \<times> frame) list" where
  "fanned_out h fs = concat (map (\<lambda>f. map (\<lambda>s. (so_id s, f)) (filter (\<lambda>s. \<not> so_broken s) (hb_sockets h))) fs)"

lemma deliver_frames:
  "after_commit hub_deliver (map (FrameMsg (hb_session h)) fs) h = h\<lparr>hb_sent := hb_sent h @ fanned_out h fs\<rparr>"
proof (induction fs arbitrary: h)
  case Nil
  then show ?case by (simp add: after_commit_def fanned_out_def)
next
  case (Cons f fs)
  have "after_commit hub_deliver (map (FrameMsg (hb_session h)) (f # fs)) h =
      after_commit hub_deliver (map (FrameMsg (hb_session (send_frame f h))) fs) (send_frame f h)"
    by (simp add: after_commit_def hub_deliver_def send_frame_def)
  also have "\<dots> = h\<lparr>hb_sent := hb_sent h @ fanned_out h (f # fs)\<rparr>"
    unfolding Cons.IH by (simp add: send_frame_def fanned_out_def)
  finally show ?case .
qed

text \<open>The attempt a transaction committed: the first that was not a deadlock victim.\<close>

lemma storage_tx_Inr:
  assumes "tr_value (storage_tx as e b d t i) = Inr x"
  shows "\<exists>t' i' s. tx_body b e (begin_tx d t' i') = (Inr (x, tr_frames (storage_tx as e b d t i)), s) \<and>
    tr_db (storage_tx as e b d t i) = st_db s \<and> tr_alarm (storage_tx as e b d t i) = st_alarm s"
  using assms
proof (induction as arbitrary: t i)
  case (Cons a as)
  obtain r s where rs: "tx_body b e (begin_tx d t i) = (r, s)" by force
  with Cons.prems obtain y fs where r: "r = Inr (y, fs)" by (cases r) (auto simp: failed_tx_def)
  show ?case
  proof (cases a)
    case Commits
    with Cons.prems rs r show ?thesis by auto
  next
    case Deadlocks
    with Cons rs r show ?thesis by auto
  next
    case CommitFails
    with Cons.prems rs r show ?thesis by (simp add: failed_tx_def)
  qed
qed (simp add: failed_tx_def)

lemma storage_tx_Inl:
  assumes "tr_value (storage_tx as e b d t i) = Inl er"
  shows "tr_db (storage_tx as e b d t i) = d \<and> tr_frames (storage_tx as e b d t i) = [] \<and>
    tr_alarm (storage_tx as e b d t i) = None"
  using assms
proof (induction as arbitrary: t i)
  case (Cons a as)
  then show ?case
    by (cases "tx_body b e (begin_tx d t i)"; cases "fst (tx_body b e (begin_tx d t i))"; cases a)
      (auto simp: failed_tx_def)
qed (simp add: failed_tx_def)

subsection \<open>Atomicity of a write\<close>


text \<open>A deadlocked write is retried and answers: when the body and the projection's write return on
  the committed database whatever the clock and the ids, and one attempt within the storage's tries
  commits after any number of deadlocks, the transaction answers a value and never the deadlock.\<close>

theorem deadlock_retried:
  assumes "db_catalog (w_db w) \<noteq> None"
    and "\<And>t i. \<not> isl (fst (tx_body b (call_env w c) (begin_tx (w_db w) t i)))"
  shows "\<not> isl (fst (hub_transaction (replicate k Deadlocks @ Commits # as) c b w))"
proof -
  have "\<not> isl (tr_value (storage_tx (replicate k Deadlocks @ Commits # as) (call_env w c) b (w_db w) t i))" for t i
  proof (induction k arbitrary: t i)
    case 0
    show ?case
      using assms(2) [of t i] by (auto split: prod.split sum.split)
  next
    case (Suc k)
    show ?case
      using assms(2) [of t i] Suc by (auto split: prod.split sum.split)
  qed
  with assms(1) show ?thesis
    by (simp add: hub_transaction_def Let_def)
qed

text \<open>A hub over the sample session with two browsers, one of them broken, and a Companion.\<close>

definition sample_world :: world where
  "sample_world = \<lparr>w_db = sample_db,
     w_hub = \<lparr>hb_session = ''s1'', hb_status = Open, hb_media = Some (\<lambda>key. 1000),
       hb_sockets = [\<lparr>so_id = 1, so_role = Browser, so_user = Some ''ann'', so_broken = False\<rparr>,
         \<lparr>so_id = 2, so_role = Browser, so_user = Some ''bob'', so_broken = True\<rparr>,
         \<lparr>so_id = 3, so_role = Companion, so_user = None, so_broken = False\<rparr>],
       hb_alarm = None, hb_backoff = 0, hb_in_flight = 0, hb_lock_waits = 0, hb_touched = 0,
       hb_sent = [], hb_closed = [], hb_buckets = []\<rparr>,
     w_clock = (\<lambda>n. 1700000000000 + int n), w_uuid = (\<lambda>n. CHR ''i'' # nat_digits n), w_ticks = 0, w_ids = 0\<rparr>"

lemma deadlock_retried_witness:
  "\<not> isl (fst (hub_transaction [Deadlocks, Deadlocks, Commits] (UserCaller ''ann'') (meta_set ''k'' ''v'') sample_world))"
proof -
  have 1: "db_catalog (w_db sample_world) \<noteq> None"
    by (simp add: sample_world_def sample_db_def)
  have 2: "\<not> isl (fst (tx_body (meta_set ''k'' ''v'') (call_env sample_world (UserCaller ''ann''))
      (begin_tx (w_db sample_world) t i)))" for t i
    by (simp add: sample_world_def sample_db_def tx_body_def tbind_def meta_set_def db_run_def raw_run_def
        meta_upsert_def advance_revision_def bump_revision_once_def write_projection_if_dirty_def
        take_held_broadcasts_def treturn_def begin_tx_def)
  show ?thesis
    using deadlock_retried [OF 1 2, of 2 "[]"] by (simp add: numeral_2_eq_2)
qed

subsection \<open>The contract of a family of write bodies\<close>

text \<open>
  Every mutating method of the facade is a body that keeps the transaction invariant. \<open>session_writes\<close>
  states that for a family of bodies and derives what any sequence of the family's calls keeps: the
  projection in the catalog row is current after every commit, and the revision counts the commits that
  changed content.
\<close>

definition commits_from :: "session_db \<Rightarrow> session_db \<Rightarrow> bool" where
  "commits_from d d' \<longleftrightarrow> projection_current d' \<and> revision_of d \<le> revision_of d' \<and>
     (revision_of d' = revision_of d \<longrightarrow> content_of d' = content_of d)"

lemma commit_ok_commits_from: "commit_ok d d' \<Longrightarrow> commits_from d d'"
  by (auto simp: commit_ok_def commits_from_def)

lemma commits_from_trans: "commits_from d d' \<Longrightarrow> commits_from d' d'' \<Longrightarrow> commits_from d d''"
  unfolding commits_from_def by (metis order_antisym order_trans)

text \<open>A write of the storage: which attempts it takes, who calls, which body.\<close>

fun run_writes :: "('r \<Rightarrow> 'a tx) \<Rightarrow> (attempt list \<times> session_caller \<times> 'r) list \<Rightarrow> world \<Rightarrow> world" where
  "run_writes body [] w = w"
| "run_writes body ((as, c, r) # cs) w = run_writes body cs (snd (hub_call as c WriteCall (body r) w))"

locale session_writes =
  fixes body :: "'r \<Rightarrow> 'a tx"
  assumes body_tracked: "preserves e (tracked d0) (body r)"
begin

lemma transaction_ok:
  assumes "projection_current (w_db w)"
  shows "commit_ok (w_db w) (w_db (snd (hub_transaction as c (body r) w)))"
  using storage_tx_ok [where b = "body r" and e = "call_env w c" and d = "w_db w", OF body_tracked assms] assms
  by (simp add: hub_transaction_def Let_def arm_alarm_def clock_now_def commit_ok_refl split: option.split)

lemma call_ok:
  assumes "projection_current (w_db w)"
  shows "commit_ok (w_db w) (w_db (snd (hub_call as c WriteCall (body r) w)))"
proof (cases "hb_status (w_hub w) = Open")
  case True
  define w1 where "w1 = (snd (clock_now w))\<lparr>w_hub := (w_hub w)\<lparr>hb_lock_waits :=
      (if 0 < hb_in_flight (w_hub w) then hb_lock_waits (w_hub w) + 1 else hb_lock_waits (w_hub w)),
      hb_in_flight := hb_in_flight (w_hub w) + 1, hb_touched := fst (clock_now w)\<rparr>\<rparr>"
  have db: "w_db w1 = w_db w" by (simp add: w1_def clock_now_def)
  have "w_db (snd (hub_call as c WriteCall (body r) w)) = w_db (snd (hub_transaction as c (body r) w1))"
    using True by (simp add: hub_call_def w1_def clock_now_def Let_def split: prod.split)
  with transaction_ok [of w1 as c r] assms db show ?thesis by simp
qed (simp add: hub_call_def commit_ok_refl assms)

lemma writes_ok:
  "projection_current (w_db w) \<Longrightarrow> commits_from (w_db w) (w_db (run_writes body cs w))"
proof (induction cs arbitrary: w)
  case Nil
  then show ?case by (simp add: commits_from_def)
next
  case (Cons x cs)
  obtain as c r where x: "x = (as, c, r)" by (cases x)
  have 1: "commits_from (w_db w) (w_db (snd (hub_call as c WriteCall (body r) w)))"
    by (rule commit_ok_commits_from [OF call_ok [OF Cons.prems]])
  then have "projection_current (w_db (snd (hub_call as c WriteCall (body r) w)))"
    by (simp add: commits_from_def)
  from commits_from_trans [OF 1 Cons.IH [OF this]] show ?case by (simp add: x)
qed

end

end
