(* ===== verification/EventStore.thy ===== *)
theory EventStore
  imports StoreHelpers
begin

section \<open>The event log\<close>

text \<open>
  packages/session-core/src/eventStore.ts: inserts at the transport's position or at an explicit
  anchor, the paged feed, the export, edits and deletes under an expected version, bulk deletion.
  A row's timecode is derived on every read, so a read throws \<open>FrameRateError\<close> for a stored rate
  that is not positive.
\<close>

definition event_row_to_rpc :: "event_row \<Rightarrow> event_rpc option" where
  "event_row_to_rpc r = (case ev_total r of
     None \<Rightarrow> Some \<lparr>event_id = row_id r, wall_time_utc = ev_wall r, ev_timecode = None, frame_rate = None,
       timecode_total_frames = None, category = ev_category r, message = ev_message r,
       metadata_json = ev_metadata r, version = row_version r\<rparr>
   | Some tf \<Rightarrow> map_option (\<lambda>tc. \<lparr>event_id = row_id r, wall_time_utc = ev_wall r,
       ev_timecode = Some (format_smpte tc), frame_rate = Some (ev_rate r),
       timecode_total_frames = Some tf, category = ev_category r, message = ev_message r,
       metadata_json = ev_metadata r, version = row_version r\<rparr>) (from_total_frames tf (ev_rate r)))"

definition event_rpc_of :: "event_row \<Rightarrow> event_rpc tx" where
  "event_rpc_of r = treq FrameRateError (event_row_to_rpc r)"

record event_input =
  ei_category :: string
  ei_message :: string
  ei_metadata :: string
  ei_marked :: "string option"
  ei_ctx :: timecode_ctx
  ei_anchor :: "(int \<times> iso) option"
  ei_stored_wall :: "iso option"
  ei_suppress :: bool

definition event_by_id :: "string \<Rightarrow> event_row option tx" where
  "event_by_id i = tx_read (\<lambda>d. find_row i (db_events d))"

text \<open>The wall time, frame rate and total frames of a new event.\<close>

definition mark_wall_ms :: "string option \<Rightarrow> int tx" where
  "mark_wall_ms marked = (case marked of
     None \<Rightarrow> tx_now
   | Some m \<Rightarrow> if m = [] then tx_now else (case parse_utc_ms (Some m) of None \<Rightarrow> tx_now | Some t \<Rightarrow> treturn t))"

definition event_position :: "event_input \<Rightarrow> (iso \<times> num64 \<times> int) tx" where
  "event_position i = (case ei_anchor i of
     Some (tf, wall) \<Rightarrow>
       tbind (treq FrameRateError (from_total_frames tf (ctx_rate (ei_ctx i)))) (\<lambda>tc. treturn (wall, tc_rate tc, tf))
   | None \<Rightarrow>
       tbind (mark_wall_ms (ei_marked i)) (\<lambda>wall_ms.
       tbind get_transport_row (\<lambda>tr.
       tbind (treq FrameRateError
           (timecode_for_mark (ctx_rate (ei_ctx i)) (ctx_offset (ei_ctx i)) tr wall_ms)) (\<lambda>tc.
       treturn (case ei_stored_wall i of Some w \<Rightarrow> w | None \<Rightarrow> iso_z wall_ms, tc_rate tc, to_total_frames tc)))))"

definition add_event :: "event_input \<Rightarrow> (event_rpc \<times> session_projection) tx" where
  "add_event i =
     tbind (event_position i) (\<lambda>(wall, rate, total_frames).
     tbind tx_uuid (\<lambda>eid.
     tbind (db_run (insert_stmt db_events db_events_update
         \<lparr>row_id = eid, row_version = 1, ev_wall = wall, ev_rate = rate, ev_total = Some total_frames,
          ev_category = ei_category i, ev_message = ei_message i,
          ev_metadata = (if ei_metadata i = [] then ''{}'' else ei_metadata i)\<rparr>)) (\<lambda>_.
     tbind mark_projection_dirty (\<lambda>_.
     tbind (if ei_suppress i then treturn () else broadcast_event_changed) (\<lambda>_.
     tbind (event_by_id eid) (\<lambda>ro.
     tbind (treq TxMisuse ro) (\<lambda>r.
     tbind (event_rpc_of r) (\<lambda>ev.
     tbind projection (\<lambda>p. treturn (ev, p))))))))))"

record placed_event =
  pe_category :: string
  pe_message :: string
  pe_metadata :: string
  pe_total :: int
  pe_ctx :: timecode_ctx

definition add_event_at_total_frames :: "placed_event \<Rightarrow> (event_rpc \<times> session_projection) tx" where
  "add_event_at_total_frames i =
     tbind now_iso (\<lambda>wall.
     add_event \<lparr>ei_category = pe_category i, ei_message = pe_message i, ei_metadata = pe_metadata i,
       ei_marked = None, ei_ctx = pe_ctx i, ei_anchor = Some (max 0 (pe_total i), wall),
       ei_stored_wall = None, ei_suppress = False\<rparr>)"

definition feed_order :: "event_row list \<Rightarrow> event_row list" where
  "feed_order t = order_by (\<lambda>r. (ev_wall r, row_id r)) t"

record event_page =
  ep_events :: "event_rpc list"
  ep_total :: nat
  ep_logged :: nat
  ep_revision :: int

definition list_events :: "nat \<Rightarrow> nat \<Rightarrow> event_page tx" where
  "list_events limit offset =
     tbind (tx_read (\<lambda>d. take limit (drop offset (feed_order (db_events d))))) (\<lambda>rows.
     tbind event_counts (\<lambda>(tot, logged).
     tbind (tmap event_rpc_of rows) (\<lambda>evs.
     tbind revision (\<lambda>r.
     treturn \<lparr>ep_events = evs, ep_total = tot, ep_logged = logged, ep_revision = r\<rparr>))))"

definition get_event :: "string \<Rightarrow> event_rpc option tx" where
  "get_event i = tbind (event_by_id i) (\<lambda>ro. case ro of
     None \<Rightarrow> treturn None | Some r \<Rightarrow> tbind (event_rpc_of r) (\<lambda>ev. treturn (Some ev)))"

definition export_events :: "event_rpc list tx" where
  "export_events = tbind (tx_read (\<lambda>d. feed_order (db_events d))) (tmap event_rpc_of)"

record event_change =
  ec_category :: string
  ec_message :: string
  ec_wall :: iso
  ec_total :: int
  ec_merge :: "string \<Rightarrow> string"

definition changed_event :: "event_change \<Rightarrow> string \<Rightarrow> event_row \<Rightarrow> event_row" where
  "changed_event c meta r = r\<lparr>ev_category := ec_category c, ev_message := ec_message c, ev_wall := ec_wall c,
     ev_total := Some (ec_total c), ev_metadata := (if meta = [] then ''{}'' else meta),
     row_version := row_version r + 1\<rparr>"

definition update_event ::
  "string \<Rightarrow> event_change \<Rightarrow> expectation option \<Rightarrow>
   (event_rpc, event_rpc \<times> session_projection) edit_result tx" where
  "update_event i c x =
     tbind (event_by_id i) (\<lambda>ro. case ro of
       None \<Rightarrow> treturn Missing
     | Some old \<Rightarrow>
         if stale_version x old then tbind (event_rpc_of old) (\<lambda>ev. treturn (Conflict ev)) else
         tbind (event_rpc_of old) (\<lambda>before.
         tbind (db_run (update_stmt db_events db_events_update (has_id i)
             (changed_event c (ec_merge c (metadata_json before))))) (\<lambda>_.
         tbind mark_projection_dirty (\<lambda>_.
         tbind broadcast_event_changed (\<lambda>_.
         tbind (event_by_id i) (\<lambda>ro'.
         tbind (treq TxMisuse ro') (\<lambda>r.
         tbind (event_rpc_of r) (\<lambda>ev.
         tbind (if overwrites x then
             record_overwrite ''session_events'' i (row_version old) (AuditEvent before) (Some (AuditEvent ev))
           else treturn ()) (\<lambda>_.
         tbind projection (\<lambda>p. treturn (Edited (ev, p))))))))))))"

text \<open>The answer of a delete: the conflict, or whether the row existed with the projection.\<close>

datatype 'c delete_result = DeleteConflict 'c | Deleted bool session_projection

definition delete_event :: "string \<Rightarrow> expectation option \<Rightarrow> event_rpc delete_result tx" where
  "delete_event i x =
     tbind (event_by_id i) (\<lambda>ro. case ro of
       None \<Rightarrow> tbind projection (\<lambda>p. treturn (Deleted False p))
     | Some r \<Rightarrow>
         if stale_version x r then tbind (event_rpc_of r) (\<lambda>ev. treturn (DeleteConflict ev)) else
         tbind (db_run (delete_stmt db_events db_events_update (has_id i))) (\<lambda>_.
         tbind mark_projection_dirty (\<lambda>_.
         tbind broadcast_event_changed (\<lambda>_.
         tbind (if overwrites x then
             tbind (event_rpc_of r) (\<lambda>before.
               record_overwrite ''session_events'' i (row_version r) (AuditEvent before) None)
           else treturn ()) (\<lambda>_.
         tbind projection (\<lambda>p. treturn (Deleted True p)))))))"

definition delete_events_by_ids :: "string list \<Rightarrow> nat tx" where
  "delete_events_by_ids ids = (if ids = [] then treturn 0 else
     tbind (db_run (delete_stmt db_events db_events_update (\<lambda>r. row_id r \<in> set ids))) (\<lambda>n.
     if 0 < n then tbind mark_projection_dirty (\<lambda>_. tbind broadcast_event_changed (\<lambda>_. treturn n))
     else treturn n))"

subsection \<open>They keep the transaction invariant\<close>

lemma keeps_event_reads [keeps]:
  "preserves e (tracked d0) (event_by_id i)"
  "preserves e (tracked d0) (event_rpc_of r)"
  "preserves e (tracked d0) (mark_wall_ms m)"
  "preserves e (tracked d0) (event_position inp)"
  unfolding event_by_id_def event_rpc_of_def mark_wall_ms_def event_position_def by (intro keeps)+

lemma keeps_event_store [keeps]:
  "preserves e (tracked d0) (add_event inp)"
  "preserves e (tracked d0) (update_event i c x)"
  "preserves e (tracked d0) (delete_event i x)"
  "preserves e (tracked d0) (delete_events_by_ids ids)"
  "preserves e (tracked d0) (get_event i)"
  "preserves e (tracked d0) export_events"
  "preserves e (tracked d0) (list_events l off)"
  unfolding add_event_def update_event_def delete_event_def delete_events_by_ids_def get_event_def
    export_events_def list_events_def
  by (rule marks | rule keeps)+

lemma keeps_add_event_at [keeps]: "preserves e (tracked d0) (add_event_at_total_frames i)"
  unfolding add_event_at_total_frames_def by (intro keeps)

subsection \<open>Inserts\<close>

text \<open>The row \<open>addEvent\<close> writes, and what it leaves of the table.\<close>

lemma holds_event_reads [keeps]:
  "preserves e (holds g v) (event_by_id i)"
  "preserves e (holds g v) (event_rpc_of r)"
  "preserves e (holds g v) (mark_wall_ms m)"
  "preserves e (holds g v) (event_position inp)"
  unfolding event_by_id_def event_rpc_of_def mark_wall_ms_def event_position_def by (intro keeps)+

lemma event_by_id_eval [simp]: "event_by_id i e s = (Inr (find_row i (db_events (st_db s))), s)"
  by (simp add: event_by_id_def)

lemma event_rpc_of_Inr: "event_rpc_of r e s = (Inr v, s') \<longleftrightarrow> event_row_to_rpc r = Some v \<and> s' = s"
  by (auto simp: event_rpc_of_def treq_Inr)

lemma event_rpc_fields:
  "event_row_to_rpc r = Some v \<Longrightarrow> event_id v = row_id r \<and> wall_time_utc v = ev_wall r \<and>
     timecode_total_frames v = ev_total r \<and> category v = ev_category r \<and> message v = ev_message r \<and>
     metadata_json v = ev_metadata r \<and> version v = row_version r"
  by (auto simp: event_row_to_rpc_def split: option.splits)

lemma db_run_insert_Inr:
  "db_run (insert_stmt db_events db_events_update r) e s = (Inr n, s') \<Longrightarrow>
   row_id r \<notin> row_id ` set (db_events (st_db s)) \<and> db_events (st_db s') = db_events (st_db s) @ [r]"
  by (auto simp: db_run_Inr insert_stmt_def insert_row_Some advance_Inr split: option.splits if_splits)

lemma db_run_event_update_Inr:
  "db_run (update_stmt db_events db_events_update p f) e s = (Inr n, s') \<Longrightarrow>
   db_events (st_db s') = update_where p f (db_events (st_db s))"
  by (auto simp: db_run_Inr update_stmt_def advance_Inr split: if_splits)

lemma db_run_event_delete_Inr:
  "db_run (delete_stmt db_events db_events_update p) e s = (Inr n, s') \<Longrightarrow>
   db_events (st_db s') = delete_where p (db_events (st_db s)) \<and> n = count_where p (db_events (st_db s))"
  by (auto simp: db_run_Inr delete_stmt_def advance_Inr split: if_splits)

lemma add_event_stores:
  assumes "add_event inp e s = (Inr (ev, p), s')"
  shows "\<exists>r. db_events (st_db s') = db_events (st_db s) @ [r] \<and> row_id r \<notin> row_id ` set (db_events (st_db s)) \<and>
     row_version r = 1 \<and> ev_category r = ei_category inp \<and> ev_message r = ei_message inp \<and>
     event_row_to_rpc r = Some ev \<and> p = live_projection (st_db s')"
proof -
  from assms obtain wall rate tf s1 s2 eid n s3 s4 where
    p: "event_position inp e s = (Inr (wall, rate, tf), s1)" and u: "tx_uuid e s1 = (Inr eid, s2)" and
    run: "db_run (insert_stmt db_events db_events_update
         \<lparr>row_id = eid, row_version = 1, ev_wall = wall, ev_rate = rate, ev_total = Some tf,
          ev_category = ei_category inp, ev_message = ei_message inp,
          ev_metadata = (if ei_metadata inp = [] then ''{}'' else ei_metadata inp)\<rparr>) e s2 = (Inr n, s3)" and
    rest: "tbind mark_projection_dirty (\<lambda>_.
       tbind (if ei_suppress inp then treturn () else broadcast_event_changed) (\<lambda>_.
       tbind (event_by_id eid) (\<lambda>ro. tbind (treq TxMisuse ro) (\<lambda>r. tbind (event_rpc_of r) (\<lambda>ev.
       tbind projection (\<lambda>p. treturn (ev, p))))))) e s3 = (Inr (ev, p), s')"
    unfolding add_event_def by (auto simp: tbind_Inr [where m = "event_position inp"] tbind_Inr [where m = tx_uuid]
      tbind_Inr [where m = "db_run st" for st] split: prod.splits)
  let ?r = "\<lparr>row_id = eid, row_version = 1, ev_wall = wall, ev_rate = rate, ev_total = Some tf,
          ev_category = ei_category inp, ev_message = ei_message inp,
          ev_metadata = (if ei_metadata inp = [] then ''{}'' else ei_metadata inp)\<rparr>"
  have "holds db_events (db_events (st_db s)) s2"
  proof -
    have "preserves e (holds db_events (db_events (st_db s))) (event_position inp)"
      by (intro keeps)
    from preserved [OF p _ this] have "holds db_events (db_events (st_db s)) s1"
      by (simp add: holds_def)
    with u show ?thesis by (auto simp: tx_uuid_def holds_def)
  qed
  with db_run_insert_Inr [OF run] have s3: "db_events (st_db s3) = db_events (st_db s) @ [?r]"
    "eid \<notin> row_id ` set (db_events (st_db s))"
    by (simp_all add: holds_def)
  have "preserves e (holds db_events (db_events (st_db s3))) (tbind mark_projection_dirty (\<lambda>_.
       tbind (if ei_suppress inp then treturn () else broadcast_event_changed) (\<lambda>_.
       tbind (event_by_id eid) (\<lambda>ro. tbind (treq TxMisuse ro) (\<lambda>r. tbind (event_rpc_of r) (\<lambda>ev.
       tbind projection (\<lambda>p. treturn (ev, p))))))))"
    by (intro keeps)
  from preserved [OF rest _ this] have s': "db_events (st_db s') = db_events (st_db s3)"
    by (simp add: holds_def)
  from s3 have f: "find_row eid (db_events (st_db s3)) = Some ?r"
    using find_row_snoc [of ?r "db_events (st_db s)"] by simp
  from rest f s' have "event_row_to_rpc ?r = Some ev \<and> p = live_projection (st_db s')"
    by (auto simp: tbind_Inr treq_Inr event_rpc_of_Inr mark_projection_dirty_def broadcast_event_changed_def
        broadcast_def revision_def projection_def split: if_splits)
  with s3 s' show ?thesis
    by (intro exI [of _ ?r]) simp
qed

subsection \<open>Edits\<close>

lemma changed_event_id [simp]: "row_id (changed_event c m r) = row_id r"
  by (simp add: changed_event_def)

lemma update_event_lands:
  assumes f: "find_row i (db_events (st_db s)) = Some r" and ns: "\<not> stale_version x r"
    and run: "update_event i c x e s = (Inr out, s')"
  shows "\<exists>before ev. event_row_to_rpc r = Some before \<and>
     event_row_to_rpc (changed_event c (ec_merge c (metadata_json before)) r) = Some ev \<and>
     out = Edited (ev, live_projection (st_db s')) \<and>
     db_events (st_db s') =
       update_where (has_id i) (changed_event c (ec_merge c (metadata_json before))) (db_events (st_db s))"
proof -
  from run obtain before n s1 where
    b: "event_row_to_rpc r = Some before" and
    w: "db_run (update_stmt db_events db_events_update (has_id i)
             (changed_event c (ec_merge c (metadata_json before)))) e s = (Inr n, s1)" and
    rest: "tbind mark_projection_dirty (\<lambda>_. tbind broadcast_event_changed (\<lambda>_.
         tbind (event_by_id i) (\<lambda>ro'. tbind (treq TxMisuse ro') (\<lambda>r'. tbind (event_rpc_of r') (\<lambda>ev.
         tbind (if overwrites x then
             record_overwrite ''session_events'' i (row_version r) (AuditEvent before) (Some (AuditEvent ev))
           else treturn ()) (\<lambda>_. tbind projection (\<lambda>p. treturn (Edited (ev, p))))))))) e s1 = (Inr out, s')"
    unfolding update_event_def using f ns
    by (auto simp: tbind_Inr [where m = "event_by_id i"] tbind_Inr [where m = "event_rpc_of r"] event_rpc_of_Inr
      tbind_Inr [where m = "db_run st" for st])
  let ?c = "changed_event c (ec_merge c (metadata_json before))"
  note s1 = db_run_event_update_Inr [OF w]
  have "preserves e (holds db_events (db_events (st_db s1))) (tbind mark_projection_dirty (\<lambda>_. tbind broadcast_event_changed (\<lambda>_.
         tbind (event_by_id i) (\<lambda>ro'. tbind (treq TxMisuse ro') (\<lambda>r'. tbind (event_rpc_of r') (\<lambda>ev.
         tbind (if overwrites x then
             record_overwrite ''session_events'' i (row_version r) (AuditEvent before) (Some (AuditEvent ev))
           else treturn ()) (\<lambda>_. tbind projection (\<lambda>p. treturn (Edited (ev, p))))))))))"
    by (intro keeps)
  from preserved [OF rest _ this] have s': "db_events (st_db s') = db_events (st_db s1)"
    by (simp add: holds_def)
  have f1: "find_row i (db_events (st_db s1)) = Some (?c r)"
    unfolding s1 by (simp add: find_row_update f)
  from rest f1 obtain ev where "event_row_to_rpc (?c r) = Some ev" "out = Edited (ev, live_projection (st_db s'))"
    by (auto simp: tbind_Inr treq_Inr event_rpc_of_Inr mark_projection_dirty_def broadcast_event_changed_def
        broadcast_def revision_def projection_def)
  with b s' s1 show ?thesis by auto
qed

interpretation event_edits: versioned_edits db_events update_event "\<lambda>_. True"
proof
  show "update_event i c x e s = (Inr Missing, s)" if "find_row i (db_events (st_db s)) = None" for i c x e s
    using that by (simp add: update_event_def tbind_def)
  show "(\<exists>v. out = Conflict v) \<and> s' = s"
    if "find_row i (db_events (st_db s)) = Some r" "stale_version x r" "update_event i c x e s = (Inr out, s')"
    for i s r x c e out s'
    using that by (auto simp: update_event_def tbind_Inr event_rpc_of_Inr)
  show "(\<exists>y. out = Edited y) \<and>
      (\<exists>r'. find_row i (db_events (st_db s')) = Some r' \<and> row_version r' = row_version r + (if True then 1 else 0)) \<and>
      (\<forall>j. j \<noteq> i \<longrightarrow> find_row j (db_events (st_db s')) = find_row j (db_events (st_db s)))"
    if "find_row i (db_events (st_db s)) = Some r" "\<not> stale_version x r" "update_event i c x e s = (Inr out, s')"
    for i s r x c e out s'
    using update_event_lands [OF that] that(1)
    by (auto simp: find_row_update option.map_ident) (auto simp: changed_event_def)
qed

end
