(* ===== verification/EventRelink.thy ===== *)
theory EventRelink
  imports EventStore Json
begin

section \<open>Generated events and orphan relinking\<close>

text \<open>
  The rest of packages/session-core/src/eventStore.ts: the two operations that read the events' metadata
  as JSON. Postgres reads it as \<open>jsonb\<close>, which unlike JavaScript rejects a NUL escape; the relink
  loop itself uses \<open>JSON.parse\<close>. The map of labels is a JavaScript object, so the lookup of the label
  \<open>constructor\<close> finds the function \<open>Object\<close>, whose length is 1 and whose element 0 is undefined; a
  statement with an undefined parameter is refused by the driver.
\<close>

subsection \<open>Metadata as jsonb\<close>

fun json_has_nul :: "json \<Rightarrow> bool" where
  "json_has_nul (JStr s) = (CHR 0x00 \<in> set s)"
| "json_has_nul (JArr xs) = list_ex json_has_nul xs"
| "json_has_nul (JObj ps) = list_ex (\<lambda>(k, v). CHR 0x00 \<in> set k \<or> json_has_nul v) ps"
| "json_has_nul v = False"

definition pg_jsonb :: "string \<Rightarrow> json option" where
  "pg_jsonb t = (case json_parse t of None \<Rightarrow> None | Some v \<Rightarrow> if json_has_nul v then None else Some v)"

text \<open>The operator \<open>-> key\<close>: None is SQL's NULL.\<close>

definition json_field :: "string \<Rightarrow> json option \<Rightarrow> json option" where
  "json_field k v = (case v of Some (JObj ps) \<Rightarrow> map_of ps k | _ \<Rightarrow> None)"

definition ui_snapshot_label_key :: string where
  "ui_snapshot_label_key = ''al_category_label_snapshot''"

definition ui_snapshot_color_key :: string where
  "ui_snapshot_color_key = ''al_category_color_snapshot''"

definition has_auto_generated_events :: "bool tx" where
  "has_auto_generated_events = tx_read (\<lambda>d. list_ex (\<lambda>r.
     json_field ''auto_generated'' (pg_jsonb (ev_metadata r)) = Some (JBool True)) (db_events d))"

subsection \<open>The relink\<close>

record relink_input =
  rl_valid :: "string list"
  rl_labels :: "(string \<times> string list) list"

text \<open>What the loop does with one row: skip it, write a category and metadata, or send a statement with
  an undefined category.\<close>

datatype relink_step = KeepRow | RelinkRow string string | RelinkUndefined

text \<open>\<open>input.labelToIds[key] ?? []\<close>, when it has exactly one element: that element, None for undefined.\<close>

definition sole_candidate :: "(string \<times> string list) list \<Rightarrow> string \<Rightarrow> string option option" where
  "sole_candidate labels key = (case map_of labels key of
     Some ids \<Rightarrow> (case ids of [i] \<Rightarrow> Some (Some i) | _ \<Rightarrow> None)
   | None \<Rightarrow> if key = ''constructor'' then Some None else None)"

definition relink_row :: "relink_input \<Rightarrow> event_row \<Rightarrow> relink_step" where
  "relink_row inp r =
     (if js_lower (ev_category r) = ''internal'' \<or> ev_category r \<in> set (rl_valid inp) then KeepRow else
      case json_parse (ev_metadata r) of
        Some (JObj ps) \<Rightarrow> (case map_of ps ui_snapshot_label_key of
            Some (JStr snap) \<Rightarrow> (case sole_candidate (rl_labels inp) (js_lower (js_trim snap)) of
                None \<Rightarrow> KeepRow
              | Some None \<Rightarrow> RelinkUndefined
              | Some (Some i) \<Rightarrow> RelinkRow i (json_string (JObj
                  (filter (\<lambda>(k, _). k \<noteq> ui_snapshot_label_key \<and> k \<noteq> ui_snapshot_color_key) ps))))
          | _ \<Rightarrow> KeepRow)
      | _ \<Rightarrow> KeepRow)"

definition relinked_row :: "string \<Rightarrow> string \<Rightarrow> event_row \<Rightarrow> event_row" where
  "relinked_row c m r = r\<lparr>ev_category := c, ev_metadata := m, row_version := row_version r + 1\<rparr>"

definition snapshot_present :: "event_row \<Rightarrow> bool" where
  "snapshot_present r \<longleftrightarrow> (case json_field ui_snapshot_label_key (pg_jsonb (ev_metadata r)) of
     None \<Rightarrow> False | Some v \<Rightarrow> v \<noteq> JNull)"

definition relink_loop :: "relink_input \<Rightarrow> nat \<Rightarrow> event_row list \<Rightarrow> nat tx" where
  "relink_loop inp n rows = tfold (\<lambda>n r. case relink_row inp r of
       KeepRow \<Rightarrow> treturn n
     | RelinkUndefined \<Rightarrow> tthrow StorageFailed
     | RelinkRow c m \<Rightarrow> tbind (db_run (update_stmt db_events db_events_update (has_id (row_id r)) (relinked_row c m)))
         (\<lambda>_. treturn (n + 1))) n rows"

text \<open>The guard compares \<open>Number(lastRaw)\<close> with the revision; the value is only ever written as
  \<open>String(rev)\<close>.\<close>

definition maybe_relink_orphans :: "relink_input \<Rightarrow> nat tx" where
  "maybe_relink_orphans inp =
     tbind revision (\<lambda>rev.
     tbind (meta_get ''relink_checked_rev'') (\<lambda>last_raw.
     if last_raw = Some (int_string rev) then treturn 0 else
     tbind (meta_set_uncounted ''relink_checked_rev'' (int_string rev)) (\<lambda>_.
     tbind (tx_read (\<lambda>d. list_ex snapshot_present (db_events d))) (\<lambda>has_snap.
     if \<not> has_snap then treturn 0 else
     tbind (tx_read (\<lambda>d. feed_order (db_events d))) (\<lambda>rows.
     tbind (relink_loop inp 0 rows) (\<lambda>n.
     tbind (if n \<noteq> 0 then mark_projection_dirty else treturn ()) (\<lambda>_. treturn n)))))))"

subsection \<open>They keep the transaction invariant\<close>

text \<open>Inside the loop the projection may be stale; the mark follows when a row was relinked.\<close>

definition tracked_dirty :: "session_db \<Rightarrow> tx_state \<Rightarrow> bool" where
  "tracked_dirty d0 s \<longleftrightarrow> tracked d0 (s\<lparr>st_dirty := True\<rparr>)"

lemma db_run_dirty:
  "db_run st e s = (Inr n, s') \<Longrightarrow> db_run st e (s\<lparr>st_dirty := b\<rparr>) = (Inr n, s'\<lparr>st_dirty := b\<rparr>)"
proof -
  assume "db_run st e s = (Inr n, s')"
  then obtain d where d: "st (st_db s) = Inr (d, n)"
    and c: "if n = 0 then s' = s\<lparr>st_db := d\<rparr> else (\<exists>r. advance_revision e (s\<lparr>st_db := d\<rparr>) = (Inr r, s'))"
    by (auto simp: db_run_Inr)
  have a: "advance_revision e (t\<lparr>st_dirty := b\<rparr>) = (Inr r, s'\<lparr>st_dirty := b\<rparr>)"
    if "advance_revision e t = (Inr r, s')" for t r
    using that by (cases "st_rev t") (auto simp: advance_Inr)
  show ?thesis
  proof (cases "n = 0")
    case True
    with d c show ?thesis by (simp add: db_run_Inr)
  next
    case False
    with c obtain r where "advance_revision e (s\<lparr>st_db := d\<rparr>) = (Inr r, s')" by auto
    moreover have "(s\<lparr>st_dirty := b\<rparr>)\<lparr>st_db := d\<rparr> = (s\<lparr>st_db := d\<rparr>)\<lparr>st_dirty := b\<rparr>" by simp
    ultimately have "advance_revision e ((s\<lparr>st_dirty := b\<rparr>)\<lparr>st_db := d\<rparr>) = (Inr r, s'\<lparr>st_dirty := b\<rparr>)"
      by (simp only: a)
    with d False show ?thesis unfolding db_run_Inr by auto
  qed
qed

lemma db_run_tracked_dirty: "loud_stmt st \<Longrightarrow> preserves e (tracked_dirty d0) (db_run st)"
proof (rule preservesI)
  fix s n s'
  assume st: "loud_stmt st" and t: "tracked_dirty d0 s" and r: "db_run st e s = (Inr n, s')"
  from db_run_advances(1) [OF t [unfolded tracked_dirty_def] st db_run_dirty [OF r]]
  show "tracked_dirty d0 s'" by (simp add: tracked_dirty_def)
qed

lemma relink_loop_dirty: "preserves e (tracked_dirty d0) (relink_loop inp n rows)"
  unfolding relink_loop_def
proof (rule keeps_tfold)
  fix n r
  show "preserves e (tracked_dirty d0) (case relink_row inp r of
       KeepRow \<Rightarrow> treturn n
     | RelinkUndefined \<Rightarrow> tthrow StorageFailed
     | RelinkRow c m \<Rightarrow> tbind (db_run (update_stmt db_events db_events_update (has_id (row_id r)) (relinked_row c m)))
         (\<lambda>_. treturn (n + 1)))"
    by (cases "relink_row inp r") (auto intro!: keeps_tbind keeps_treturn keeps_tthrow db_run_tracked_dirty loud_update tables)
qed

text \<open>The loop counts the relinked rows; without one it leaves the state alone.\<close>

definition relinks :: "relink_input \<Rightarrow> event_row \<Rightarrow> bool" where
  "relinks inp r \<longleftrightarrow> (\<exists>c m. relink_row inp r = RelinkRow c m)"

lemma relink_loop_simps:
  "relink_loop inp n [] = treturn n"
  "relink_loop inp n (r # rs) = (case relink_row inp r of
       KeepRow \<Rightarrow> relink_loop inp n rs
     | RelinkUndefined \<Rightarrow> tthrow StorageFailed
     | RelinkRow c m \<Rightarrow> tbind (db_run (update_stmt db_events db_events_update (has_id (row_id r)) (relinked_row c m)))
         (\<lambda>_. relink_loop inp (n + 1) rs))"
  by (simp_all add: relink_loop_def tbind_assoc split: relink_step.split)

lemma relink_loop_count:
  "relink_loop inp n rows e s = (Inr m, s') \<Longrightarrow> m = n + count_where (relinks inp) rows \<and>
     (\<forall>r\<in>set rows. relink_row inp r \<noteq> RelinkUndefined) \<and> (m = n \<longrightarrow> s' = s)"
proof (induction rows arbitrary: n s)
  case Nil
  then show ?case by (simp add: relink_loop_simps count_where_def)
next
  case (Cons r rs)
  show ?case
  proof (cases "relink_row inp r")
    case KeepRow
    with Cons show ?thesis by (auto simp: relink_loop_simps count_where_def relinks_def)
  next
    case RelinkUndefined
    with Cons.prems show ?thesis by (simp add: relink_loop_simps)
  next
    case (RelinkRow c mt)
    with Cons.prems obtain k s1 where "relink_loop inp (n + 1) rs e s1 = (Inr m, s')"
      by (auto simp: relink_loop_simps tbind_Inr)
    from Cons.IH [OF this] RelinkRow show ?thesis
      by (auto simp: count_where_def relinks_def)
  qed
qed

lemma relink_loop_marked:
  "preserves e (tracked d0) (tbind (relink_loop inp 0 rows) (\<lambda>n.
     tbind (if n \<noteq> 0 then mark_projection_dirty else treturn ()) (\<lambda>_. treturn n)))"
proof (rule preservesI)
  fix s x s'
  assume t: "tracked d0 s" and r: "tbind (relink_loop inp 0 rows) (\<lambda>n.
     tbind (if n \<noteq> 0 then mark_projection_dirty else treturn ()) (\<lambda>_. treturn n)) e s = (Inr x, s')"
  then obtain s1 where l: "relink_loop inp 0 rows e s = (Inr x, s1)"
    and m: "tbind (if x \<noteq> 0 then mark_projection_dirty else treturn ()) (\<lambda>_. treturn x) e s1 = (Inr x, s')"
    by (auto simp: tbind_Inr split: if_splits)
  show "tracked d0 s'"
  proof (cases "x = 0")
    case True
    with relink_loop_count [OF l] m t show ?thesis by simp
  next
    case False
    have "tracked_dirty d0 s"
      using t by (auto simp: tracked_dirty_def tracked_def split: option.splits)
    from preservesD [OF relink_loop_dirty this l] have "tracked_dirty d0 s1" .
    with False m show ?thesis by (auto simp: tracked_dirty_def tbind_Inr mark_projection_dirty_def)
  qed
qed

lemma keeps_relink [keeps]:
  "preserves e (tracked d0) has_auto_generated_events"
  "preserves e (tracked d0) (maybe_relink_orphans inp)"
  unfolding has_auto_generated_events_def maybe_relink_orphans_def
  by (rule relink_loop_marked | rule keeps)+

subsection \<open>The relink is a map over the table\<close>

definition relinked :: "relink_input \<Rightarrow> event_row \<Rightarrow> event_row" where
  "relinked inp r = (case relink_row inp r of RelinkRow c m \<Rightarrow> relinked_row c m r | _ \<Rightarrow> r)"

lemma relinked_id [simp]: "row_id (relinked inp r) = row_id r"
  by (simp add: relinked_def relinked_row_def split: relink_step.split)

lemma relink_loop_map:
  assumes "keys_ok (db_events (st_db s))" "set rows \<subseteq> set (db_events (st_db s))" "distinct (map row_id rows)"
    and "relink_loop inp n rows e s = (Inr m, s')"
  shows "db_events (st_db s') =
    map (\<lambda>r. if row_id r \<in> row_id ` set rows then relinked inp r else r) (db_events (st_db s))"
  using assms
proof (induction rows arbitrary: n s)
  case Nil
  then show ?case by (simp add: relink_loop_simps)
next
  case (Cons r rs)
  let ?T = "db_events (st_db s)"
  have only: "x = r" if "x \<in> set ?T" "row_id x = row_id r" for x
    using Cons.prems(1,2) that by (auto simp: keys_ok_def distinct_map dest: inj_onD)
  have rest: "row_id x \<noteq> row_id r" if "x \<in> set rs" for x
    using Cons.prems(3) that by (metis distinct.simps(2) image_eqI list.simps(9) list.set_map)
  show ?case
  proof (cases "relink_row inp r")
    case KeepRow
    then have "relinked inp r = r" by (simp add: relinked_def)
    with Cons.IH [of s n] Cons.prems KeepRow show ?thesis
      by (auto simp: relink_loop_simps dest!: only intro!: map_cong)
  next
    case RelinkUndefined
    with Cons.prems(4) show ?thesis by (simp add: relink_loop_simps)
  next
    case (RelinkRow c mt)
    with Cons.prems(4) obtain k s1 where
      u: "db_run (update_stmt db_events db_events_update (has_id (row_id r)) (relinked_row c mt)) e s = (Inr k, s1)"
      and l: "relink_loop inp (n + 1) rs e s1 = (Inr m, s')"
      by (auto simp: relink_loop_simps tbind_Inr)
    have rl: "relinked inp r = relinked_row c mt r" using RelinkRow by (simp add: relinked_def)
    have s1: "db_events (st_db s1) = map (\<lambda>x. if row_id x = row_id r then relinked inp x else x) ?T"
      unfolding db_run_event_update_Inr [OF u] update_where_def
      by (rule map_cong) (auto simp: has_id_def rl dest!: only)
    have "keys_ok (db_events (st_db s1))"
      using Cons.prems(1) by (simp add: s1 keys_ok_def comp_def if_distrib [of row_id] cong: if_cong)
    moreover have "set rs \<subseteq> set (db_events (st_db s1))"
      using Cons.prems(2) rest by (force simp: s1)
    moreover have "distinct (map row_id rs)" using Cons.prems(3) by simp
    ultimately have "db_events (st_db s') =
        map (\<lambda>x. if row_id x \<in> row_id ` set rs then relinked inp x else x) (db_events (st_db s1))"
      using l by (rule Cons.IH)
    moreover have "row_id r \<notin> row_id ` set rs" using Cons.prems(3) by simp
    ultimately show ?thesis
      unfolding s1 by (auto intro!: map_cong)
  qed
qed

lemma tracked_meta_events: "meta_set_uncounted k v e s = (Inr u, s') \<Longrightarrow> db_events (st_db s') = db_events (st_db s)"
  by (auto simp: meta_set_uncounted_def tbind_Inr raw_run_Inr meta_upsert_def)


text \<open>C39: A label snapshot \<open>constructor\<close> makes the relink fail for the whole session. Although no category has
  that label, the object's inherited property answers as one candidate, whose id is undefined, and the
  statement is refused: the pass never returns while such an orphan is stored and the guard has not
  reached the revision.\<close>

theorem relink_constructor_fails:
  assumes fresh: "st_rev s = None"
    and open_guard: "map_of (db_meta (st_db s)) ''relink_checked_rev'' \<noteq> Some (int_string (revision_of (st_db s)))"
    and row: "r \<in> set (db_events (st_db s))" "js_lower (ev_category r) \<noteq> ''internal''"
      "ev_category r \<notin> set (rl_valid inp)" "snapshot_present r"
    and snap: "json_parse (ev_metadata r) = Some (JObj ps)" "map_of ps ui_snapshot_label_key = Some (JStr label)"
      "js_lower (js_trim label) = ''constructor''"
    and none: "map_of (rl_labels inp) ''constructor'' = None"
  shows "isl (fst (maybe_relink_orphans inp e s))"
proof (rule ccontr)
  assume "\<not> isl (fst (maybe_relink_orphans inp e s))"
  then obtain n s' where run: "maybe_relink_orphans inp e s = (Inr n, s')"
    using run_returns by blast
  have bad: "relink_row inp r = RelinkUndefined"
    using row snap none by (simp add: relink_row_def sole_candidate_def)
  have rev: "revision e s = (Inr (revision_of (st_db s)), s)" using fresh by (simp add: revision_def)
  from run rev open_guard obtain s1 where
    m: "meta_set_uncounted ''relink_checked_rev'' (int_string (revision_of (st_db s))) e s = (Inr (), s1)"
    and b: "tbind (tx_read (\<lambda>d. list_ex snapshot_present (db_events d))) (\<lambda>has_snap.
         if \<not> has_snap then treturn 0 else
         tbind (tx_read (\<lambda>d. feed_order (db_events d))) (\<lambda>rows.
         tbind (relink_loop inp 0 rows) (\<lambda>n.
         tbind (if n \<noteq> 0 then mark_projection_dirty else treturn ()) (\<lambda>_. treturn n)))) e s1 = (Inr n, s')"
    unfolding maybe_relink_orphans_def meta_get_def
    by (auto simp: run_bind tbind_Inr [where m = "meta_set_uncounted k v" for k v])
  have "list_ex snapshot_present (db_events (st_db s1))"
    using row(1,4) by (auto simp: tracked_meta_events [OF m] list_ex_iff)
  with b obtain k s2 where l: "relink_loop inp 0 (feed_order (db_events (st_db s1))) e s1 = (Inr k, s2)"
    by (auto simp: tbind_Inr)
  from relink_loop_count [OF l] have "\<forall>x\<in>set (feed_order (db_events (st_db s))). relink_row inp x \<noteq> RelinkUndefined"
    by (simp add: tracked_meta_events [OF m])
  with row(1) bad show False by (simp add: feed_order_def)
qed

subsection \<open>One orphan\<close>

definition orphan_event :: "string \<Rightarrow> event_row" where
  "orphan_event label = \<lparr>row_id = ''e1'', row_version = 1, ev_wall = ''2024-01-01T00:00:00.000Z'', ev_rate = 25,
     ev_total = Some 100, ev_category = ''gone'', ev_message = ''a goal'',
     ev_metadata = json_string (JObj [(ui_snapshot_label_key, JStr label), (''note'', JStr ''x'')])\<rparr>"

definition orphan_db :: "string \<Rightarrow> session_db" where
  "orphan_db label = sample_db\<lparr>db_events := [orphan_event label]\<rparr>"

definition sample_relink :: relink_input where
  "sample_relink = \<lparr>rl_valid = [''c1''], rl_labels = [(''goal'', [''c1''])]\<rparr>"

lemma orphan_metadata:
  "json_parse (ev_metadata (orphan_event label)) = Some (JObj [(ui_snapshot_label_key, JStr label), (''note'', JStr ''x'')])"
proof -
  have "json_parse (json_string (JObj [(ui_snapshot_label_key, JStr label), (''note'', JStr ''x'')])) =
      Some (JObj [(ui_snapshot_label_key, JStr label), (''note'', JStr ''x'')])"
    by (rule json_parse_string) (simp add: ui_snapshot_label_key_def array_index_def is_digit_def)
  then show ?thesis by (simp add: orphan_event_def)
qed

lemma orphan_snapshot: "CHR 0x00 \<notin> set label \<Longrightarrow> snapshot_present (orphan_event label)"
  by (simp add: snapshot_present_def pg_jsonb_def orphan_metadata json_field_def ui_snapshot_label_key_def)

lemma orphan_relinked:
  "relink_row sample_relink (orphan_event '' Goal '') = RelinkRow ''c1'' (json_string (JObj [(''note'', JStr ''x'')]))"
proof -
  have t: "js_lower (js_trim '' Goal '') = ''goal''" by code_simp
  show ?thesis
    by (simp add: relink_row_def orphan_metadata t)
      (simp add: orphan_event_def sample_relink_def js_lower_def lower_char_def sole_candidate_def ui_snapshot_label_key_def
        ui_snapshot_color_key_def)
qed


lemma relink_constructor_fails_witness:
  "isl (fst (maybe_relink_orphans sample_relink (sample_env ''u'') (begin_tx (orphan_db ''Constructor'') 0 0)))"
proof -
  let ?s = "begin_tx (orphan_db ''Constructor'') 0 0"
  have t: "js_lower (js_trim ''Constructor'') = ''constructor''" by code_simp
  have "js_lower (ev_category (orphan_event ''Constructor'')) \<noteq> ''internal''"
    "ev_category (orphan_event ''Constructor'') \<notin> set (rl_valid sample_relink)"
    by (simp_all add: orphan_event_def js_lower_def sample_relink_def)
  then show ?thesis
    by (intro relink_constructor_fails [where r = "orphan_event ''Constructor''" and s = ?s, OF _ _ _ _ _ _ orphan_metadata])
      (simp_all add: begin_tx_def orphan_db_def sample_db_def orphan_snapshot sample_relink_def,
        simp_all only: t)
qed

end
