(* ===== verification/JsonNumber.thy ===== *)
theory JsonNumber
  imports Json
begin

section \<open>Numbers from text\<close>

text \<open>
  \<open>Number(x)\<close> as the program applies it to a JSON value or to a string, None where the result is NaN
  or infinite. In the 8-bit range of the model.
\<close>

subsection \<open>\<open>Number(x)\<close> of a JSON value\<close>

definition finite64 :: "num64 \<Rightarrow> num64 option" where
  "finite64 x = (if \<bar>x\<bar> < 2 ^ 1024 then Some x else None)"

text \<open>A string: white space trimmed, empty is zero, a radix prefix, or a decimal literal with an optional
  sign whose digits may be missing on one side of the point.\<close>

definition radix_value :: "nat \<Rightarrow> string \<Rightarrow> num64 option" where
  "radix_value b ds = (if ds = [] then None else
     case foldl (\<lambda>acc c. case (acc, hex_val c) of (Some n, Some d) \<Rightarrow> if d < b then Some (b * n + d) else None | _ \<Rightarrow> None)
       (Some 0) ds of None \<Rightarrow> None | Some n \<Rightarrow> finite64 (fl (of_nat n)))"

definition decimal_literal :: "string \<Rightarrow> num64 option" where
  "decimal_literal s = (let neg = (s \<noteq> [] \<and> hd s = CHR ''-'');
       s1 = (if s \<noteq> [] \<and> hd s \<in> {CHR ''-'', CHR ''+''} then tl s else s);
       (ip, s2) = take_digits s1;
       (fp, s3) = (case s2 of c # cs \<Rightarrow> if c = CHR ''.'' then take_digits cs else ([], s2) | [] \<Rightarrow> ([], s2)) in
     if ip = [] \<and> fp = [] then None else
     case parse_exp_part s3 of
       Some (e, []) \<Rightarrow> let m = int (digits_val (ip @ fp)) in
         finite64 (fl (decimal (if neg then - m else m) (e - int (length fp))))
     | _ \<Rightarrow> None)"

definition string_number :: "string \<Rightarrow> num64 option" where
  "string_number t = (let s = js_trim t; p = take 2 s in
     if s = [] then Some 0 else
     if p \<in> {''0x'', ''0X''} then radix_value 16 (drop 2 s) else
     if p \<in> {''0o'', ''0O''} then radix_value 8 (drop 2 s) else
     if p \<in> {''0b'', ''0B''} then radix_value 2 (drop 2 s) else decimal_literal s)"

fun js_number :: "json \<Rightarrow> num64 option" where
  "js_number JNull = Some 0"
| "js_number (JBool b) = Some (if b then 1 else 0)"
| "js_number (JNum x) = finite64 x"
| "js_number (JStr s) = string_number s"
| "js_number (JArr xs) = string_number (js_string (JArr xs))"
| "js_number (JObj ps) = None"

subsection \<open>Digits\<close>

lemma digit_no_space: "is_digit c \<Longrightarrow> \<not> is_space c"
  by (auto simp: is_digit_def is_space_def)

lemma digits_number:
  assumes "ds \<noteq> []" "list_all is_digit ds"
  shows "string_number ds = finite64 (fl (of_nat (digits_val ds)))"
proof -
  have d: "is_digit (hd ds)" "is_digit (last ds)" using assms by (auto simp: list_all_iff)
  have trim: "js_trim ds = ds" using assms(1) d digit_no_space by (intro js_trim_id) auto
  have "\<forall>c\<in>set (take 2 ds). is_digit c" using assms(2) by (auto simp: list_all_iff dest: in_set_takeD)
  then have "take 2 ds \<notin> {''0x'', ''0X'', ''0o'', ''0O'', ''0b'', ''0B''}" by (auto simp: is_digit_def)
  moreover have "hd ds \<noteq> CHR ''-'' \<and> hd ds \<noteq> CHR ''+''" using d by (auto simp: is_digit_def)
  moreover have "take_digits ds = (ds, [])" using take_digits_all [OF assms(2), of "[]"] by simp
  ultimately show ?thesis
    using assms(1) by (simp add: string_number_def trim decimal_literal_def Let_def parse_exp_part_def decimal_def)
qed

lemma digits_number_exact:
  assumes "ds \<noteq> []" "list_all is_digit ds" "digits_val ds \<le> 2 ^ 53"
  shows "string_number ds = Some (of_nat (digits_val ds))"
proof -
  have "(of_nat (digits_val ds) :: rat) \<le> of_nat (2 ^ 53)" using assms(3) by (simp only: of_nat_le_iff)
  also have "(of_nat (2 ^ 53) :: rat) < 2 ^ 1024"
    unfolding of_nat_power of_nat_numeral by (rule power_strict_increasing) simp_all
  finally have "finite64 (of_nat (digits_val ds)) = Some (of_nat (digits_val ds))" by (simp add: finite64_def)
  moreover have "fl (of_nat (digits_val ds)) = of_nat (digits_val ds)"
    using fl_of_int [of "int (digits_val ds)"] assms(3) by simp
  ultimately show ?thesis using digits_number [OF assms(1,2)] by simp
qed

end
