(* ===== verification/AudioSeamParts.thy ===== *)
theory AudioSeamParts
  imports StoreHelpers JsonNumber
begin

section \<open>The parts of an imported audio timeline\<close>

text \<open>
  packages/session-core/src/audioSeamParts.ts: the durations of the parts of a session's imported audio,
  read from a request header or from the session's meta value, and extended by every further import.
  \<open>js_number\<close> is the language's \<open>Number(x)\<close> of a parsed JSON value; None stands for NaN and the infinities.
\<close>

subsection \<open>Parts\<close>

record seam_part =
  sp_duration :: num64

datatype seam_parts_error =
    SeamsNotJson | SeamsNotArray | SeamEntryNotObject | SeamDurationInvalid | SeamSumMismatch num64 num64

definition sum_tolerance_s :: num64 where "sum_tolerance_s = 1 / 2"

text \<open>\<open>Number(item.duration_s)\<close> of an entry that is an object; a missing member is NaN.\<close>

definition entry_duration :: "(string \<times> json) list \<Rightarrow> num64 option" where
  "entry_duration ps = (case map_of ps ''duration_s'' of None \<Rightarrow> None | Some v \<Rightarrow> js_number v)"

fun header_entries :: "json list \<Rightarrow> seam_parts_error + seam_part list" where
  "header_entries [] = Inr []"
| "header_entries (x # xs) = (case x of
     JObj ps \<Rightarrow> (case entry_duration ps of
         None \<Rightarrow> Inl SeamDurationInvalid
       | Some n \<Rightarrow> if n \<le> 0 then Inl SeamDurationInvalid else
           (case header_entries xs of Inl er \<Rightarrow> Inl er | Inr r \<Rightarrow> Inr (\<lparr>sp_duration = n\<rparr> # r)))
   | _ \<Rightarrow> Inl SeamEntryNotObject)"

definition parts_sum :: "seam_part list \<Rightarrow> num64" where
  "parts_sum ps = foldl (\<lambda>acc p. dbl_add acc (sp_duration p)) 0 ps"

definition parse_audio_seam_parts_header :: "string option \<Rightarrow> num64 \<Rightarrow> seam_parts_error + seam_part list" where
  "parse_audio_seam_parts_header raw dur = (case raw of
     None \<Rightarrow> Inr [\<lparr>sp_duration = dur\<rparr>]
   | Some t \<Rightarrow> if js_trim t = [] then Inr [\<lparr>sp_duration = dur\<rparr>] else
       (case json_parse t of
          None \<Rightarrow> Inl SeamsNotJson
        | Some (JArr xs) \<Rightarrow> if xs = [] then Inl SeamsNotArray else
            (case header_entries xs of
               Inl er \<Rightarrow> Inl er
             | Inr ps \<Rightarrow> if sum_tolerance_s < \<bar>dbl_sub (parts_sum ps) dur\<bar>
                 then Inl (SeamSumMismatch (parts_sum ps) dur) else Inr ps)
        | _ \<Rightarrow> Inl SeamsNotArray))"

definition serialize_audio_seam_parts :: "seam_part list \<Rightarrow> string" where
  "serialize_audio_seam_parts ps = json_string (JArr (map (\<lambda>p. JObj [(''duration_s'', JNum (sp_duration p))]) ps))"

fun stored_entries :: "json list \<Rightarrow> seam_part list option" where
  "stored_entries [] = Some []"
| "stored_entries (x # xs) = (case x of
     JObj ps \<Rightarrow> (case entry_duration ps of
         None \<Rightarrow> None
       | Some n \<Rightarrow> if n \<le> 0 then None else map_option (\<lambda>r. \<lparr>sp_duration = n\<rparr> # r) (stored_entries xs))
   | _ \<Rightarrow> None)"

definition deserialize_audio_seam_parts :: "string option \<Rightarrow> seam_part list option" where
  "deserialize_audio_seam_parts raw = (case raw of
     None \<Rightarrow> None
   | Some t \<Rightarrow> if t = [] then None else
       (case json_parse t of
          Some (JArr xs) \<Rightarrow> if xs = [] then None else stored_entries xs
        | _ \<Rightarrow> None))"

definition append_serialized_audio_seam_parts :: "string option \<Rightarrow> seam_part list \<Rightarrow> string" where
  "append_serialized_audio_seam_parts raw ps =
     serialize_audio_seam_parts ((case deserialize_audio_seam_parts raw of None \<Rightarrow> [] | Some old \<Rightarrow> old) @ ps)"

subsection \<open>Every import extends the timeline\<close>

text \<open>Durations whose decimal text reads back: whole seconds.\<close>

definition whole_part :: "seam_part \<Rightarrow> bool" where
  "whole_part p \<longleftrightarrow> of_int \<lfloor>sp_duration p\<rfloor> = sp_duration p \<and> 0 < sp_duration p \<and> sp_duration p \<le> 2 ^ 53"

lemma stored_entries_parts:
  "list_all whole_part ps \<Longrightarrow> stored_entries (map (\<lambda>p. JObj [(''duration_s'', JNum (sp_duration p))]) ps) = Some ps"
proof (induction ps)
  case (Cons p ps)
  then have "\<bar>sp_duration p\<bar> < 2 ^ 1024" by (simp add: whole_part_def)
  with Cons show ?case by (simp add: entry_duration_def finite64_def whole_part_def)
qed simp

lemma deserialize_serialize:
  assumes "list_all whole_part ps" "ps \<noteq> []"
  shows "deserialize_audio_seam_parts (Some (serialize_audio_seam_parts ps)) = Some ps"
proof -
  let ?v = "JArr (map (\<lambda>p. JObj [(''duration_s'', JNum (sp_duration p))]) ps)"
  have "json_ok ?v"
    using assms(1) by (auto simp: list_all_iff whole_part_def array_index_def is_digit_def)
  then have "json_parse (json_string ?v) = Some ?v" by (rule json_parse_string)
  moreover have "json_string ?v \<noteq> []" by simp
  ultimately show ?thesis
    using assms stored_entries_parts [OF assms(1)]
    by (simp add: deserialize_audio_seam_parts_def serialize_audio_seam_parts_def)
qed

text \<open>The meta value after a sequence of imports.\<close>

fun imports_meta :: "seam_part list list \<Rightarrow> string option \<Rightarrow> string option" where
  "imports_meta [] raw = raw"
| "imports_meta (ps # is) raw = imports_meta is (Some (append_serialized_audio_seam_parts raw ps))"

lemma append_parts:
  assumes "list_all whole_part ps" "ps \<noteq> []" "deserialize_audio_seam_parts raw = old"
    "list_all whole_part (case old of None \<Rightarrow> [] | Some o' \<Rightarrow> o')"
  shows "deserialize_audio_seam_parts (Some (append_serialized_audio_seam_parts raw ps)) =
    Some ((case old of None \<Rightarrow> [] | Some o' \<Rightarrow> o') @ ps)"
  unfolding append_serialized_audio_seam_parts_def assms(3)
  by (rule deserialize_serialize) (use assms(1,2,4) in auto)

lemma imports_from:
  assumes "deserialize_audio_seam_parts raw = Some old" "list_all whole_part old"
    "\<forall>ps\<in>set is. ps \<noteq> [] \<and> list_all whole_part ps"
  shows "deserialize_audio_seam_parts (imports_meta is raw) = Some (old @ concat is)"
  using assms
proof (induction "is" arbitrary: raw old)
  case (Cons ps "is")
  then have "deserialize_audio_seam_parts (Some (append_serialized_audio_seam_parts raw ps)) = Some (old @ ps)"
    using append_parts [of ps raw "Some old"] by simp
  from Cons.IH [OF this] Cons.prems show ?case by simp
qed simp

text \<open>The stored parts are the whole timeline: after any sequence of imports on a session with no readable
  value, reading the meta value answers the parts of every import, in order, none replaced.\<close>

theorem imports_extend_timeline:
  assumes "deserialize_audio_seam_parts raw = None" "is \<noteq> []"
    and "\<forall>ps\<in>set is. ps \<noteq> [] \<and> list_all whole_part ps"
  shows "deserialize_audio_seam_parts (imports_meta is raw) = Some (concat is)"
proof -
  obtain ps rest where is_: "is = ps # rest" using assms(2) by (cases "is") auto
  with assms have "deserialize_audio_seam_parts (Some (append_serialized_audio_seam_parts raw ps)) = Some ps"
    using append_parts [of ps raw None] by simp
  from imports_from [OF this] assms(3) is_ show ?thesis by simp
qed

lemma imports_extend_timeline_witness:
  "deserialize_audio_seam_parts (imports_meta [[\<lparr>sp_duration = 60\<rparr>, \<lparr>sp_duration = 90\<rparr>], [\<lparr>sp_duration = 5\<rparr>]] None) =
     Some [\<lparr>sp_duration = 60\<rparr>, \<lparr>sp_duration = 90\<rparr>, \<lparr>sp_duration = 5\<rparr>]"
  using imports_extend_timeline [of None "[[\<lparr>sp_duration = 60\<rparr>, \<lparr>sp_duration = 90\<rparr>], [\<lparr>sp_duration = 5\<rparr>]]"]
  by (simp add: whole_part_def deserialize_audio_seam_parts_def)

subsection \<open>The header\<close>

lemma header_entries_positive:
  "header_entries xs = Inr ps \<Longrightarrow> length ps = length xs \<and> (\<forall>p\<in>set ps. 0 < sp_duration p)"
  by (induction xs arbitrary: ps) (auto split: json.splits option.splits if_splits sum.splits)

text \<open>An accepted header describes the import: its parts are all positive, there is at least one, and their
  sum is within half a second of the imported duration (exactly it when the header is absent).\<close>

theorem header_parts_cover:
  assumes "parse_audio_seam_parts_header raw dur = Inr ps" "0 < dur" "fl dur = dur"
  shows "ps \<noteq> [] \<and> (\<forall>p\<in>set ps. 0 < sp_duration p) \<and> \<bar>dbl_sub (parts_sum ps) dur\<bar> \<le> 1 / 2"
proof (cases "raw = None \<or> (\<exists>t. raw = Some t \<and> js_trim t = [])")
  case True
  with assms(1) have "ps = [\<lparr>sp_duration = dur\<rparr>]" by (auto simp: parse_audio_seam_parts_header_def)
  with assms(2,3) show ?thesis by (simp add: parts_sum_def dbl_add_def dbl_sub_def fl_def)
next
  case False
  then obtain t where t: "raw = Some t" "js_trim t \<noteq> []" by auto
  with assms(1) obtain xs where xs: "xs \<noteq> []" "header_entries xs = Inr ps"
    "\<not> sum_tolerance_s < \<bar>dbl_sub (parts_sum ps) dur\<bar>"
    by (auto simp: parse_audio_seam_parts_header_def split: option.splits json.splits if_splits sum.splits)
  from header_entries_positive [OF xs(2)] xs(1,3) show ?thesis
    by (auto simp: sum_tolerance_s_def)
qed

lemma header_parts_cover_witness:
  "\<bar>dbl_sub (parts_sum [\<lparr>sp_duration = 60\<rparr>]) 60\<bar> \<le> 1 / 2"
proof -
  have "parse_audio_seam_parts_header None 60 = Inr [\<lparr>sp_duration = 60\<rparr>]"
    by (simp add: parse_audio_seam_parts_header_def)
  moreover have "fl 60 = 60" by code_simp
  ultimately show ?thesis
    using header_parts_cover [of None 60 "[\<lparr>sp_duration = 60\<rparr>]"] by simp
qed

end
