(* ===== verification/DashboardStore.thy ===== *)
theory DashboardStore
  imports StoreHelpers Json
begin

section \<open>Saved dashboards\<close>

text \<open>
  packages/session-core/src/dashboardStore.ts. The validation of a configuration is a schema of the
  validation library (packages/contract), so it is a parameter: it answers the issues it found or the
  parsed configuration. Nothing about it is assumed.
\<close>

definition max_dashboards_per_session :: nat where
  "max_dashboards_per_session = 20"

record stored_dashboard =
  sd_id :: string
  sd_config :: json
  sd_created_by :: "string option"
  sd_turn :: "string option"
  sd_created :: iso
  sd_updated :: iso

text \<open>A stored text that is no JSON makes \<open>JSON.parse\<close> throw.\<close>

definition dashboard_of_row :: "dashboard_row \<Rightarrow> stored_dashboard tx" where
  "dashboard_of_row r = tbind (treq JsTypeError (json_parse (da_config r))) (\<lambda>cfg.
     treturn \<lparr>sd_id = row_id r, sd_config = cfg, sd_created_by = da_created_by r, sd_turn = da_turn r,
       sd_created = da_created r, sd_updated = da_updated r\<rparr>)"

definition get_dashboard :: "string \<Rightarrow> stored_dashboard option tx" where
  "get_dashboard i = tbind (tx_read (\<lambda>d. find_row i (db_dashboards d))) (\<lambda>ro. case ro of
     None \<Rightarrow> treturn None
   | Some r \<Rightarrow> tbind (dashboard_of_row r) (\<lambda>sd. treturn (Some sd)))"

definition list_dashboards :: "stored_dashboard list tx" where
  "list_dashboards =
     tbind (tx_read (\<lambda>d. order_by (\<lambda>r. (da_created r, row_id r)) (db_dashboards d))) (tmap dashboard_of_row)"

record dashboard_input =
  di_id :: string
  di_config :: json
  di_created_by :: "string option"
  di_turn :: "string option"

text \<open>\<open>INSERT ... ON CONFLICT DO UPDATE\<close>: a stored dashboard keeps who created it and when.\<close>

definition upsert_dashboard_stmt :: "dashboard_row \<Rightarrow> stmt" where
  "upsert_dashboard_stmt r d = (case find_row (row_id r) (db_dashboards d) of
     None \<Rightarrow> Inr (db_dashboards_update (\<lambda>t. t @ [r]) d, 1)
   | Some _ \<Rightarrow> update_stmt db_dashboards db_dashboards_update (has_id (row_id r))
       (\<lambda>x. x\<lparr>da_config := da_config r, da_updated := da_updated r\<rparr>) d)"

definition save_dashboard :: "(json \<Rightarrow> string list + json) \<Rightarrow> dashboard_input \<Rightarrow> stored_dashboard tx" where
  "save_dashboard validate i = (case validate (di_config i) of
     Inl issues \<Rightarrow> tthrow (DashboardInvalid issues)
   | Inr cfg \<Rightarrow>
       tbind (tx_read (\<lambda>d. find_row (di_id i) (db_dashboards d))) (\<lambda>existing.
       tbind (if existing = None then tbind (tx_read (\<lambda>d. length (db_dashboards d))) (\<lambda>n.
           if max_dashboards_per_session \<le> n then tthrow DashboardBounds else treturn ()) else treturn ()) (\<lambda>_.
       tbind now_iso (\<lambda>now.
       tbind (db_run (upsert_dashboard_stmt \<lparr>row_id = di_id i, da_config = json_string cfg,
         da_created_by = di_created_by i, da_turn = di_turn i, da_created = now, da_updated = now\<rparr>)) (\<lambda>_.
       tbind (get_dashboard (di_id i)) (\<lambda>sd. treq JsTypeError sd))))))"

definition delete_dashboard :: "string \<Rightarrow> bool tx" where
  "delete_dashboard i = tbind (db_run (delete_stmt db_dashboards db_dashboards_update (has_id i))) (\<lambda>n. treturn (0 < n))"

lemma quiet_upsert [keeps]: "quiet_stmt (upsert_dashboard_stmt r)"
proof -
  have u: "quiet_stmt (update_stmt db_dashboards db_dashboards_update p f)" for p f by (intro keeps)
  then show ?thesis
    unfolding quiet_stmt_def loud_stmt_def upsert_dashboard_stmt_def by (auto split: option.splits)
qed

lemma keeps_dashboards [keeps]:
  "preserves e (tracked d0) (dashboard_of_row r)"
  "preserves e (tracked d0) (get_dashboard i)"
  "preserves e (tracked d0) list_dashboards"
  "preserves e (tracked d0) (delete_dashboard i)"
proof -
  show 1 [keeps]: "preserves e (tracked d0) (dashboard_of_row r)" for r
    unfolding dashboard_of_row_def by (intro keeps)
  show "preserves e (tracked d0) (get_dashboard i)" "preserves e (tracked d0) list_dashboards"
    "preserves e (tracked d0) (delete_dashboard i)"
    unfolding get_dashboard_def list_dashboards_def delete_dashboard_def by (intro keeps)+
qed

lemma keeps_save_dashboard [keeps]: "preserves e (tracked d0) (save_dashboard validate i)"
  unfolding save_dashboard_def by (intro keeps)

subsection \<open>A save\<close>

lemma dashboard_of_row_Inr:
  "dashboard_of_row r e s = (Inr sd, s') \<longleftrightarrow> s' = s \<and> (\<exists>cfg. json_parse (da_config r) = Some cfg \<and>
     sd = \<lparr>sd_id = row_id r, sd_config = cfg, sd_created_by = da_created_by r, sd_turn = da_turn r,
       sd_created = da_created r, sd_updated = da_updated r\<rparr>)"
  by (auto simp: dashboard_of_row_def tbind_Inr treq_Inr)

lemma upsert_effect:
  assumes "db_run (upsert_dashboard_stmt r) e s = (Inr n, s')"
  shows "(case find_row (row_id r) (db_dashboards (st_db s)) of
      None \<Rightarrow> db_dashboards (st_db s') = db_dashboards (st_db s) @ [r] \<and>
        find_row (row_id r) (db_dashboards (st_db s')) = Some r
    | Some x \<Rightarrow> length (db_dashboards (st_db s')) = length (db_dashboards (st_db s)) \<and>
        find_row (row_id r) (db_dashboards (st_db s')) = Some (x\<lparr>da_config := da_config r, da_updated := da_updated r\<rparr>))"
proof -
  from assms obtain d c where d: "upsert_dashboard_stmt r (st_db s) = Inr (d, n)" "st_db s' = d\<lparr>db_catalog := c\<rparr>"
    by (rule db_run_effect)
  show ?thesis
  proof (cases "find_row (row_id r) (db_dashboards (st_db s))")
    case None
    then have "find_row (row_id r) (db_dashboards (st_db s) @ [r]) = Some r"
      by (intro find_row_snoc) (simp add: find_row_None)
    with d None show ?thesis by (auto simp: upsert_dashboard_stmt_def simp del: find_row_None)
  next
    case (Some x)
    with d show ?thesis
      by (auto simp: upsert_dashboard_stmt_def update_stmt_def find_row_update)
  qed
qed

text \<open>What a save of a dashboard answers is what is stored: the validated configuration, read back. A new
  dashboard is stored only below the session's bound, with its creator and turn; a stored one keeps its
  creator, its turn and its creation time whoever saves it, and the number of dashboards never grows past
  the bound.\<close>

theorem save_dashboard_correct:
  assumes vld: "validate (di_config i) = Inr cfg" and ok: "json_ok cfg"
    and r: "save_dashboard validate i e s = (Inr sd, s')"
  shows "sd_id sd = di_id i \<and> sd_config sd = cfg \<and>
    (case find_row (di_id i) (db_dashboards (st_db s)) of
       None \<Rightarrow> length (db_dashboards (st_db s)) < max_dashboards_per_session \<and>
         sd_created_by sd = di_created_by i \<and> sd_turn sd = di_turn i \<and> sd_created sd = sd_updated sd
     | Some x \<Rightarrow> sd_created_by sd = da_created_by x \<and> sd_turn sd = da_turn x \<and> sd_created sd = da_created x) \<and>
    length (db_dashboards (st_db s')) \<le> max max_dashboards_per_session (length (db_dashboards (st_db s)))"
proof -
  let ?old = "db_dashboards (st_db s)"
  let ?row = "\<lambda>now. \<lparr>row_id = di_id i, da_config = json_string cfg,
         da_created_by = di_created_by i, da_turn = di_turn i, da_created = now, da_updated = now\<rparr>"
  from r vld obtain now s1 n s2 row where
    bound: "find_row (di_id i) ?old = None \<Longrightarrow> length ?old < max_dashboards_per_session" and
    t: "now_iso e s = (Inr now, s1)" and
    u: "db_run (upsert_dashboard_stmt (?row now)) e s1 = (Inr n, s2)" and
    f: "find_row (di_id i) (db_dashboards (st_db s2)) = Some row" and
    sd: "dashboard_of_row row e s2 = (Inr sd, s')"
    by (auto simp: save_dashboard_def tbind_Inr get_dashboard_def treq_Inr split: if_splits option.splits)
  have s1: "st_db s1 = st_db s" using t by (auto simp: now_iso_def tbind_Inr tx_now_def)
  from sd have s': "st_db s' = st_db s2" by (auto simp: dashboard_of_row_Inr)
  note rb = json_parse_string [OF ok]
  show ?thesis
  proof (cases "find_row (di_id i) ?old")
    case None
    with upsert_effect [OF u] f sd rb bound s1 s' show ?thesis
      by (auto simp: dashboard_of_row_Inr)
  next
    case (Some x)
    then have "row_id x = di_id i" using find_row_Some [OF Some] by simp
    with Some upsert_effect [OF u] f sd rb s1 s' show ?thesis
      by (auto simp: dashboard_of_row_Inr)
  qed
qed

lemma save_dashboard_correct_witness:
  "\<exists>sd s'. save_dashboard Inr \<lparr>di_id = ''main'', di_config = JObj [(''version'', JNum 1)], di_created_by = Some ''u'',
       di_turn = None\<rparr> (sample_env ''u'') (begin_tx sample_db 0 0) = (Inr sd, s') \<and>
     sd_config sd = JObj [(''version'', JNum 1)] \<and> sd_created_by sd = Some ''u''"
proof -
  let ?cfg = "JObj [(''version'', JNum 1)]"
  let ?i = "\<lparr>di_id = ''main'', di_config = ?cfg, di_created_by = Some ''u'', di_turn = None\<rparr>"
  have ok: "json_ok ?cfg" by (simp add: array_index_def is_digit_def)
  have "\<not> isl (fst (save_dashboard Inr ?i (sample_env ''u'') (begin_tx sample_db 0 0)))"
    using json_parse_string [OF ok]
    by (simp add: save_dashboard_def get_dashboard_def dashboard_of_row_def upsert_dashboard_stmt_def
        max_dashboards_per_session_def run_simps del: json_string.simps cong: run_bind_cong)
  then obtain sd s' where r: "save_dashboard Inr ?i (sample_env ''u'') (begin_tx sample_db 0 0) = (Inr sd, s')"
    using run_returns by blast
  have "sd_config sd = ?cfg \<and> sd_created_by sd = Some ''u''"
    using save_dashboard_correct [OF _ ok r]
    by (simp add: begin_tx_def sample_db_def find_row_def)
  with r show ?thesis by blast
qed

end
