(* ===== verification/HubRpcs.thy ===== *)
theory HubRpcs
  imports SessionHub AudioStore EventRelink AudioSeamParts DashboardStore TransportStore LeaseStore TopicStore
    TranscriptStore EventAnchors
begin

section \<open>The session hub's storage calls\<close>

text \<open>
  packages/session-core/src/SessionHub.ts, class SessionHubView and the functions it uses: the composite
  calls (one transaction over several store methods), the media applies, and the list of all writing calls
  as the type \<open>rpc\<close> with its bodies. The bodies satisfy the contract of \<open>SessionHub.session_writes\<close>.
\<close>

subsection \<open>Composite event calls\<close>

definition add_event_at_total_frames_if_absent :: "placed_event \<Rightarrow> (event_rpc \<times> session_projection) option tx" where
  "add_event_at_total_frames_if_absent i =
     tbind (tx_read (\<lambda>d. filter (\<lambda>r. ev_total r = Some (pe_total i) \<and> ev_message r = pe_message i) (db_events d))) (\<lambda>same.
     if list_ex (\<lambda>r. js_lower (ev_category r) \<noteq> ''internal'') same then treturn None else
     tbind (add_event_at_total_frames i) (\<lambda>r. treturn (Some r)))"

record imported_take =
  it_ordinal :: int
  it_duration :: num64
  it_ctx :: timecode_ctx
  it_started :: "iso option"

text \<open>\<open>isoZ(new Date(parseUtcMs(startedAtUtc) + durationS * 1000))\<close>, computed before the transaction: None is
  the \<open>RangeError\<close> of an invalid date.\<close>

definition stopped_at :: "iso \<Rightarrow> num64 \<Rightarrow> iso option" where
  "stopped_at started dur = (case parse_utc_ms (Some started) of
     None \<Rightarrow> None
   | Some ms \<Rightarrow> let t = js_trunc (dbl_add (of_int ms) (dbl_mul dur 1000)) in
       if valid_time t then Some (iso_z t) else None)"

definition take_event :: "imported_take \<Rightarrow> string \<Rightarrow> iso option \<Rightarrow> event_input" where
  "take_event i what wall = \<lparr>ei_category = ''internal'', ei_message = ''Recording '' @ int_string (it_ordinal i) @ what,
     ei_metadata = ''{}'', ei_marked = None, ei_ctx = it_ctx i, ei_anchor = None, ei_stored_wall = wall, ei_suppress = True\<rparr>"

definition anchor_take_body :: "imported_take \<Rightarrow> iso option \<Rightarrow> (event_rpc \<times> event_rpc \<times> session_projection) tx" where
  "anchor_take_body i stopped_wall =
     tbind get_transport_row (\<lambda>tr.
     if is_rolling tr then tthrow ImportWhileRolling else
     tbind (add_event (take_event i '' Started'' (it_started i))) (\<lambda>(started, _).
     tbind (stop_take_with_duration (it_duration i) (it_ctx i) True) (\<lambda>_.
     tbind (add_event (take_event i '' Stopped'' stopped_wall)) (\<lambda>(stopped, p).
     tbind revision (\<lambda>rev.
     tbind (broadcast (EventChanged rev)) (\<lambda>_.
     tbind (broadcast (TransportChanged False (pr_take p))) (\<lambda>_.
     treturn (started, stopped, p))))))))"

definition anchor_imported_take :: "imported_take \<Rightarrow> (event_rpc \<times> event_rpc \<times> session_projection) tx" where
  "anchor_imported_take i = (case it_started i of
     None \<Rightarrow> anchor_take_body i None
   | Some st \<Rightarrow> if st = [] then anchor_take_body i None else
       (case stopped_at st (it_duration i) of
          None \<Rightarrow> tthrow InvalidDate
        | Some w \<Rightarrow> anchor_take_body i (Some w)))"

record anchored_event =
  ae_category :: string
  ae_message :: string
  ae_metadata :: string
  ae_total :: int
  ae_rate :: num64
  ae_offset :: int
  ae_started :: "string option"
  ae_exclude :: "string list option"

definition create_anchored_event :: "anchored_event \<Rightarrow> (event_rpc \<times> session_projection) tx" where
  "create_anchored_event i =
     tbind export_events (\<lambda>live.
     let evs = (case ae_exclude i of None \<Rightarrow> live | Some ids \<Rightarrow> filter (\<lambda>v. event_id v \<notin> set ids) live);
         anchors = timecode_wall_anchors evs in
     tbind (treq InvalidDate (wall_time_utc_for_timecode (ae_total i) anchors
         \<lparr>as_rate = ae_rate i, as_offset = ae_offset i, as_started = ae_started i\<rparr>)) (\<lambda>wall.
     add_event \<lparr>ei_category = ae_category i, ei_message = ae_message i, ei_metadata = ae_metadata i, ei_marked = None,
       ei_ctx = \<lparr>ctx_rate = ae_rate i, ctx_offset = ae_offset i\<rparr>, ei_anchor = Some (ae_total i, wall),
       ei_stored_wall = None, ei_suppress = False\<rparr>))"

subsection \<open>Recording ordinals\<close>

text \<open>The match of \<open>/^Recording (\d+) (?:Started|Stopped)$/\<close>: its number, when finite.\<close>

definition recording_event_number :: "string \<Rightarrow> num64 option" where
  "recording_event_number m = (case strip_front ''Recording '' m of
     None \<Rightarrow> None
   | Some r \<Rightarrow> (case take_digits r of (ds, rest) \<Rightarrow>
       if ds \<noteq> [] \<and> rest \<in> {'' Started'', '' Stopped''} then finite64 (fl (of_nat (digits_val ds))) else None))"

definition max_num :: "num64 \<Rightarrow> num64 \<Rightarrow> num64" where
  "max_num a b = (if a < b then b else a)"

definition next_recording_ordinal :: "num64 tx" where
  "next_recording_ordinal =
     tbind list_audio_segments (\<lambda>segs.
     let m0 = fold (\<lambda>g m. case am_recording g of None \<Rightarrow> m | Some n \<Rightarrow> max_num m (of_int n)) segs 0 in
     tbind export_events (\<lambda>evs.
     let m1 = fold (\<lambda>v m. if js_lower (category v) \<noteq> ''internal'' then m else
           (case recording_event_number (message v) of None \<Rightarrow> m | Some n \<Rightarrow> max_num m n)) evs m0
     in treturn (dbl_add m1 1)))"

definition add_imported_audio_segment :: "segment_input \<Rightarrow> ((audio_meta \<times> bool) \<times> num64) tx" where
  "add_imported_audio_segment i = tbind next_recording_ordinal (\<lambda>n.
     tbind (add_audio_segment (i\<lparr>si_recording := Some n\<rparr>)) (\<lambda>seg. treturn (seg, n)))"

subsection \<open>The media worker's results\<close>

definition run_lease_held :: "bool tx" where
  "run_lease_held = tbind tx_now (\<lambda>now. tx_read (\<lambda>d. list_ex (\<lambda>r.
     ls_kind r \<in> {TranscriptGeneration, YoutubeImport} \<and> now < ls_expires r) (db_leases d)))"

text \<open>A job's mark, on the uncounted handle; a job that is no longer in the expected state throws.\<close>

definition mark_job :: "(media_job list \<Rightarrow> media_job list \<times> nat) \<Rightarrow> unit tx" where
  "mark_job f = tbind (raw_run (jobs_stmt f)) (\<lambda>n. if n = 0 then tthrow MediaJobStale else treturn ())"

definition require_media :: "unit tx" where
  "require_media = tbind tx_media (\<lambda>m. if m = None then tthrow NoMediaPorts else treturn ())"

datatype ingest_outcome = IngestApplied "string option" | IngestCancelled | IngestStale

definition apply_media_ingest_body :: "string \<Rightarrow> ingest_apply \<Rightarrow> ingest_outcome tx" where
  "apply_media_ingest_body job a =
     tbind require_media (\<lambda>_.
     tbind tx_now (\<lambda>now.
     tbind (apply_ingest a) (\<lambda>out. case out of
       None \<Rightarrow> tbind (mark_job (mark_cancelled job InputsChanged now)) (\<lambda>_. treturn IngestCancelled)
     | Some replaced \<Rightarrow> tbind (mark_job (mark_applied job now)) (\<lambda>_. treturn (IngestApplied replaced)))))"

datatype merge_apply_outcome = MApplied "string list" | MDeferred | MCancelled | MInvalid | MStale

definition apply_media_merge_body :: "string \<Rightarrow> merge_apply \<Rightarrow> merge_apply_outcome tx" where
  "apply_media_merge_body job a =
     tbind require_media (\<lambda>_.
     tbind tx_now (\<lambda>now.
     tbind run_lease_held (\<lambda>held. if held then treturn MDeferred else
     tbind (apply_merge a) (\<lambda>out. case out of
       MergeInputsChanged \<Rightarrow>
         tbind (mark_job (mark_cancelled job InputsChanged now)) (\<lambda>_.
         tbind (segments_of_recording (ma_recording a)) (\<lambda>segs.
         tbind (if 2 \<le> length segs then tbind (enqueue_merge (ma_recording a)) (\<lambda>_. treturn ()) else treturn ()) (\<lambda>_.
         treturn MCancelled)))
     | MergeInvalid \<Rightarrow> tbind (mark_job (mark_failed job InvalidResult now)) (\<lambda>_. treturn MInvalid)
     | MergeApplied keys \<Rightarrow> tbind (mark_job (mark_applied job now)) (\<lambda>_. treturn (MApplied keys))))))"

text \<open>\<open>staleSafe\<close>.\<close>

definition stale_safe :: "'a \<Rightarrow> (terr + 'a) \<times> world \<Rightarrow> (terr + 'a) \<times> world" where
  "stale_safe stale r = (case r of (Inl MediaJobStale, w) \<Rightarrow> (Inr stale, w) | _ \<Rightarrow> r)"

definition apply_media_ingest ::
  "attempt list \<Rightarrow> session_caller \<Rightarrow> string \<Rightarrow> ingest_apply \<Rightarrow> world \<Rightarrow> (terr + ingest_outcome) \<times> world" where
  "apply_media_ingest as c job a w = stale_safe IngestStale (hub_call as c WriteCall (apply_media_ingest_body job a) w)"

definition apply_media_merge ::
  "attempt list \<Rightarrow> session_caller \<Rightarrow> string \<Rightarrow> merge_apply \<Rightarrow> world \<Rightarrow> (terr + merge_apply_outcome) \<times> world" where
  "apply_media_merge as c job a w = stale_safe MStale (hub_call as c WriteCall (apply_media_merge_body job a) w)"

text \<open>The window's lookup with the ordinal as given: a fraction is no value of an integer parameter.\<close>

definition held_window_num :: "num64 \<Rightarrow> iso \<Rightarrow> audio_meta option tx" where
  "held_window_num ro st = (if of_int \<lfloor>ro\<rfloor> = ro then held_window \<lfloor>ro\<rfloor> st else tthrow StorageFailed)"

text \<open>\<open>addAudioSegment\<close>: a lost race on the window's seam answers the segment that won.\<close>

definition add_audio_segment_rpc ::
  "attempt list \<Rightarrow> session_caller \<Rightarrow> segment_input \<Rightarrow> world \<Rightarrow> (terr + (audio_meta \<times> bool)) \<times> world" where
  "add_audio_segment_rpc as c i w = (case hub_call as c WriteCall (add_audio_segment i) w of
     (Inl UniqueViolation, w1) \<Rightarrow> (case (si_recording i, si_started i) of
         (Some ro, Some st) \<Rightarrow> (case hub_call as c ReadCall (held_window_num ro st) w1 of
             (Inr (Some m), w2) \<Rightarrow> (Inr (m, True), w2)
           | (Inr None, w2) \<Rightarrow> (Inl UniqueViolation, w2)
           | (Inl er, w2) \<Rightarrow> (Inl er, w2))
       | _ \<Rightarrow> (Inl UniqueViolation, w1))
   | r \<Rightarrow> r)"

subsection \<open>Seam parts and the remapped transcript\<close>

definition audio_seam_parts_meta_key :: string where
  "audio_seam_parts_meta_key = ''audio_seam_parts_json''"

definition append_audio_seam_parts :: "seam_part list \<Rightarrow> unit tx" where
  "append_audio_seam_parts ps = tbind (meta_get audio_seam_parts_meta_key) (\<lambda>raw.
     meta_set audio_seam_parts_meta_key (append_serialized_audio_seam_parts raw ps))"

definition get_audio_seam_parts :: "seam_part list option tx" where
  "get_audio_seam_parts = tbind (meta_get audio_seam_parts_meta_key) (\<lambda>raw. treturn (deserialize_audio_seam_parts raw))"

definition replace_transcript_words_remapped ::
  "(event_rpc list \<Rightarrow> terr + (timed_word list \<times> enrichment)) \<Rightarrow> word_row list tx" where
  "replace_transcript_words_remapped remap = tbind export_events (\<lambda>evs. case remap evs of
     Inl er \<Rightarrow> tthrow er
   | Inr (ws, en) \<Rightarrow> replace_transcript_words ws en)"

text \<open>\<open>refusedOverwrite\<close>: only a signed-in user overwrites.\<close>

definition refused_overwrite :: "session_caller \<Rightarrow> expectation option \<Rightarrow> bool" where
  "refused_overwrite c x \<longleftrightarrow> overwrites x \<and> (case c of UserCaller _ \<Rightarrow> False | SystemCaller _ \<Rightarrow> True)"

subsection \<open>The writing calls\<close>

text \<open>Every writing method of the view, with its arguments. The validator of configurations and the remap of a
  transcript are functions the caller passes.\<close>

datatype rpc =
    AddEvent event_input
  | AddEventAtTotalFrames placed_event
  | AddEventIfAbsent placed_event
  | UpdateEvent string event_change "expectation option"
  | DeleteEvent string "expectation option"
  | DeleteEventsByIds "string list"
  | MaybeRelinkOrphans relink_input
  | StartTake timecode_ctx
  | StopTake timecode_ctx
  | ToggleTake timecode_ctx
  | StopTakeWithDuration num64 timecode_ctx bool
  | AnchorImportedTake imported_take
  | CreateAnchoredEvent anchored_event
  | LeaseOp lease_op
  | AddAudioSegment segment_input
  | AddImportedAudioSegment segment_input
  | FinalizeRecordingRpc int "iso list"
  | ApplyMediaIngest string ingest_apply
  | ApplyMediaMerge string merge_apply
  | MarkMediaFailedRpc string string
  | BlockMergeRpc int
  | DeleteAudioSegment string
  | SetAudioSegmentWaveform string "num64 list"
  | SyncAudioFromBlobs "known_blob list"
  | AppendAudioSeamParts "seam_part list"
  | InsertTranscriptWord word_data
  | UpdateTranscriptWord string word_patch "expectation option"
  | DeleteTranscriptWord string "expectation option"
  | ReplaceTranscriptWords "timed_word list" enrichment
  | ReplaceTranscriptWordsRemapped "event_rpc list \<Rightarrow> terr + (timed_word list \<times> enrichment)"
  | InsertTopic topic_data
  | UpdateTopic string topic_patch "expectation option"
  | DeleteTopic string "expectation option"
  | DeleteTopics "string list"
  | SaveDashboard "json \<Rightarrow> string list + json" dashboard_input
  | DeleteDashboard string

definition quietly :: "'a tx \<Rightarrow> unit tx" where
  "quietly m = tbind m (\<lambda>_. treturn ())"

fun rpc_body :: "rpc \<Rightarrow> unit tx" where
  "rpc_body (AddEvent i) = quietly (add_event i)"
| "rpc_body (AddEventAtTotalFrames i) = quietly (add_event_at_total_frames i)"
| "rpc_body (AddEventIfAbsent i) = quietly (add_event_at_total_frames_if_absent i)"
| "rpc_body (UpdateEvent i c x) = quietly (update_event i c x)"
| "rpc_body (DeleteEvent i x) = quietly (delete_event i x)"
| "rpc_body (DeleteEventsByIds ids) = quietly (delete_events_by_ids ids)"
| "rpc_body (MaybeRelinkOrphans i) = quietly (maybe_relink_orphans i)"
| "rpc_body (StartTake ctx) = quietly (start_take ctx)"
| "rpc_body (StopTake ctx) = quietly (stop_take ctx)"
| "rpc_body (ToggleTake ctx) = quietly (toggle_take ctx)"
| "rpc_body (StopTakeWithDuration d ctx b) = quietly (stop_take_with_duration d ctx b)"
| "rpc_body (AnchorImportedTake i) = quietly (anchor_imported_take i)"
| "rpc_body (CreateAnchoredEvent i) = quietly (create_anchored_event i)"
| "rpc_body (LeaseOp a) = lease_op_tx a"
| "rpc_body (AddAudioSegment i) = quietly (add_audio_segment i)"
| "rpc_body (AddImportedAudioSegment i) = quietly (add_imported_audio_segment i)"
| "rpc_body (FinalizeRecordingRpc ro ws) = quietly (finalize_recording ro ws)"
| "rpc_body (ApplyMediaIngest j a) = quietly (apply_media_ingest_body j a)"
| "rpc_body (ApplyMediaMerge j a) = quietly (apply_media_merge_body j a)"
| "rpc_body (MarkMediaFailedRpc i er) = quietly (mark_media_failed i er)"
| "rpc_body (BlockMergeRpc ro) = block_merge ro"
| "rpc_body (DeleteAudioSegment i) = delete_audio_segment i"
| "rpc_body (SetAudioSegmentWaveform i ps) = quietly (set_audio_segment_waveform i ps)"
| "rpc_body (SyncAudioFromBlobs ks) = quietly (sync_audio_from_blobs ks)"
| "rpc_body (AppendAudioSeamParts ps) = append_audio_seam_parts ps"
| "rpc_body (InsertTranscriptWord w) = quietly (insert_transcript_word w)"
| "rpc_body (UpdateTranscriptWord i p x) = quietly (update_transcript_word i p x)"
| "rpc_body (DeleteTranscriptWord i x) = quietly (delete_transcript_word i x)"
| "rpc_body (ReplaceTranscriptWords ws en) = quietly (replace_transcript_words ws en)"
| "rpc_body (ReplaceTranscriptWordsRemapped f) = quietly (replace_transcript_words_remapped f)"
| "rpc_body (InsertTopic t) = quietly (insert_topic t)"
| "rpc_body (UpdateTopic i p x) = quietly (update_topic i p x)"
| "rpc_body (DeleteTopic i x) = quietly (delete_topic i x)"
| "rpc_body (DeleteTopics ids) = delete_topics ids"
| "rpc_body (SaveDashboard v i) = quietly (save_dashboard v i)"
| "rpc_body (DeleteDashboard i) = quietly (delete_dashboard i)"

text \<open>The call of an edit by the view: refused before the transaction.\<close>

fun rpc_expectation :: "rpc \<Rightarrow> expectation option" where
  "rpc_expectation (UpdateEvent _ _ x) = x"
| "rpc_expectation (DeleteEvent _ x) = x"
| "rpc_expectation (UpdateTranscriptWord _ _ x) = x"
| "rpc_expectation (DeleteTranscriptWord _ x) = x"
| "rpc_expectation (UpdateTopic _ _ x) = x"
| "rpc_expectation (DeleteTopic _ x) = x"
| "rpc_expectation _ = None"

definition view_write :: "attempt list \<Rightarrow> session_caller \<Rightarrow> rpc \<Rightarrow> world \<Rightarrow> (terr + unit) \<times> world" where
  "view_write as c r w = (if refused_overwrite c (rpc_expectation r) then (Inl TxMisuse, w)
     else hub_call as c WriteCall (rpc_body r) w)"

subsection \<open>They keep the transaction invariant\<close>

lemma keeps_composites [keeps]:
  "preserves e (tracked d0) (add_event_at_total_frames_if_absent pe)"
  "preserves e (tracked d0) (anchor_imported_take it)"
  "preserves e (tracked d0) (create_anchored_event ae)"
  "preserves e (tracked d0) (append_audio_seam_parts sps)"
  "preserves e (tracked d0) (replace_transcript_words_remapped f)"
  unfolding add_event_at_total_frames_if_absent_def anchor_imported_take_def anchor_take_body_def
    create_anchored_event_def append_audio_seam_parts_def replace_transcript_words_remapped_def
  by (intro keeps)+

lemma keeps_audio_composites [keeps]:
  "preserves e (tracked d0) (add_imported_audio_segment i)"
  "preserves e (tracked d0) (apply_media_ingest_body job ia)"
  "preserves e (tracked d0) (apply_media_merge_body job ma)"
proof -
  show "preserves e (tracked d0) (add_imported_audio_segment i)"
    unfolding add_imported_audio_segment_def next_recording_ordinal_def by (intro keeps)
  have 1 [keeps]: "preserves e (tracked d0) (mark_job f)" for f
    unfolding mark_job_def by (intro keeps)
  have 2 [keeps]: "preserves e (tracked d0) require_media" unfolding require_media_def by (intro keeps)
  have 3 [keeps]: "preserves e (tracked d0) run_lease_held" unfolding run_lease_held_def by (intro keeps)
  show "preserves e (tracked d0) (apply_media_ingest_body job ia)"
    unfolding apply_media_ingest_body_def by (intro keeps)
  show "preserves e (tracked d0) (apply_media_merge_body job ma)"
    unfolding apply_media_merge_body_def
    by (intro keeps; rename_tac x out; case_tac out; simp; intro keeps)
qed

lemma keeps_lease_op: "preserves e (tracked d0) (lease_op_tx a)"
  by (cases a; simp only: lease_op_tx.simps; intro keeps)

lemma keeps_done [keeps]: "preserves e J m \<Longrightarrow> preserves e J (quietly m)"
  unfolding quietly_def by (intro keeps)

lemma rpc_body_tracked: "preserves e (tracked d0) (rpc_body r)"
  by (cases r; simp only: rpc_body.simps; intro keeps keeps_lease_op)

interpretation session_rpcs: session_writes rpc_body
  by unfold_locales (rule rpc_body_tracked)

end
