(* ===== verification/HubProperties.thy ===== *)
theory HubProperties
  imports HubRpcs
begin

section \<open>What the hub's calls guarantee together\<close>

text \<open>
  Properties that span the hub and its stores: the catalog projection and the revision over any sequence of
  the view's writes, the second of two editors, the imported take, the recording ordinals and the worker's
  results.
\<close>

subsection \<open>Any sequence of writes\<close>

fun view_writes :: "(attempt list \<times> session_caller \<times> rpc) list \<Rightarrow> world \<Rightarrow> world" where
  "view_writes [] w = w"
| "view_writes ((as, c, r) # cs) w = view_writes cs (snd (view_write as c r w))"

lemma view_write_ok:
  "projection_current (w_db w) \<Longrightarrow> commit_ok (w_db w) (w_db (snd (view_write as c r w)))"
  using session_rpcs.call_ok by (simp add: view_write_def commit_ok_refl)

text \<open>C2: Whatever the callers write and however the storage treats their attempts, after every call the
  projection columns of the catalog row equal the projection of the session's rows, the revision never
  falls and rises by at most one per call, and as long as it stands still no content has changed.\<close>

theorem session_projection_current:
  assumes "projection_current (w_db w)"
  shows "projection_current (w_db (view_writes cs w)) \<and>
    revision_of (w_db w) \<le> revision_of (w_db (view_writes cs w)) \<and>
    revision_of (w_db (view_writes cs w)) \<le> revision_of (w_db w) + int (length cs) \<and>
    (revision_of (w_db (view_writes cs w)) = revision_of (w_db w) \<longrightarrow>
       content_of (w_db (view_writes cs w)) = content_of (w_db w))"
  using assms
proof (induction cs arbitrary: w)
  case (Cons x cs)
  obtain as c r where x: "x = (as, c, r)" by (cases x)
  let ?w = "snd (view_write as c r w)"
  have ok: "commit_ok (w_db w) (w_db ?w)" by (rule view_write_ok [OF Cons.prems])
  then have "projection_current (w_db ?w)" by (simp add: commit_ok_def)
  from Cons.IH [OF this] ok show ?case by (auto simp: x commit_ok_def)
qed simp

lemma sample_projection_current: "projection_current (w_db sample_world)"
  by (simp add: sample_world_def projection_current_def sample_db_def live_projection_def sample_projection_def
      transport_of_def default_transport_def max_of_def List.map_filter_def)

lemma session_projection_current_witness:
  "projection_current (w_db (view_writes [([Commits], UserCaller ''ann'', StartTake \<lparr>ctx_rate = 25, ctx_offset = 0\<rparr>),
     ([Deadlocks, Commits], UserCaller ''bob'', DeleteTopics [''t''])] sample_world))"
  using session_projection_current [OF sample_projection_current] by blast

subsection \<open>Two editors\<close>

text \<open>What an answered transaction ran, and the content it left.\<close>

lemma transaction_ran:
  assumes "hub_transaction as c b w = (Inr x, w')"
  shows "\<exists>t i s. b (call_env w c) (begin_tx (w_db w) t i) = (Inr x, s) \<and> content_of (w_db w') = content_of (st_db s) \<and>
    db_jobs (w_db w') = db_jobs (st_db s) \<and> db_leases (w_db w') = db_leases (st_db s) \<and> db_meta (w_db w') = db_meta (st_db s)"
proof -
  let ?r = "storage_tx as (call_env w c) b (w_db w) (w_ticks w) (w_ids w)"
  have v: "tr_value ?r = Inr x" and d: "w_db w' = tr_db ?r"
    using assms by (auto simp: hub_transaction_def Let_def arm_alarm_def clock_now_def split: if_splits option.splits)
  from storage_tx_Inr [OF v] obtain t i s where
    "tx_body b (call_env w c) (begin_tx (w_db w) t i) = (Inr (x, tr_frames ?r), s)" "tr_db ?r = st_db s" by blast
  then obtain s1 s2 where b: "b (call_env w c) (begin_tx (w_db w) t i) = (Inr x, s1)"
    and p: "write_projection_if_dirty (call_env w c) s1 = (Inr (), s2)" and "tr_db ?r = st_db s2"
    by (auto simp: tx_body_Inr)
  with d projection_write_frame [OF p] show ?thesis by auto
qed

lemma content_events: "content_of d = content_of d' \<Longrightarrow> db_events d = db_events d'"
  by (simp add: content_of_def)

text \<open>C14: No edit of an event is lost. Of two editors who read the same version of an event and send their edits
  with it, in whatever attempts the storage runs them, the one whose transaction comes second is answered
  the conflict and changes no content.\<close>

theorem second_editor_conflicts:
  assumes r: "find_row i (db_events (w_db w)) = Some r"
    and x: "ex_version x = row_version r" and y: "ex_version y = row_version r"
    and first_edit: "hub_transaction as c (update_event i p (Some x)) w = (Inr out1, w1)"
    and second_edit: "hub_transaction as' c' (update_event i q (Some y)) w1 = (Inr out2, w2)"
  shows "(\<exists>a. out1 = Edited a) \<and> (\<exists>v. out2 = Conflict v) \<and> content_of (w_db w2) = content_of (w_db w1)"
proof -
  obtain t1 i1 s1 where 1: "update_event i p (Some x) (call_env w c) (begin_tx (w_db w) t1 i1) = (Inr out1, s1)"
    "content_of (w_db w1) = content_of (st_db s1)"
    using transaction_ran [OF first_edit] by blast
  obtain t2 i2 s2 where 2: "update_event i q (Some y) (call_env w1 c') (begin_tx (w_db w1) t2 i2) = (Inr out2, s2)"
    "content_of (w_db w2) = content_of (st_db s2)"
    using transaction_ran [OF second_edit] by blast
  have b: "st_db (begin_tx d t i) = d" for d t i by (simp add: begin_tx_def)
  from event_edits.edit_lands [OF _ _ 1(1), of r] r x obtain r' where
    o1: "\<exists>a. out1 = Edited a" and r': "find_row i (db_events (st_db s1)) = Some r'" "row_version r' = row_version r + 1"
    by (auto simp: b)
  have "find_row i (db_events (w_db w1)) = Some r'"
    using r'(1) content_events [OF 1(2)] by simp
  then have "(\<exists>v. out2 = Conflict v) \<and> s2 = begin_tx (w_db w1) t2 i2"
    using event_edits.edit_stale [OF _ _ 2(1), of r'] r'(2) y by (auto simp: b)
  with o1 2(2) show ?thesis by (auto simp: b)
qed

text \<open>A session with one event, and two edits of it.\<close>

definition stored_goal :: event_row where
  "stored_goal = \<lparr>row_id = ''e1'', row_version = 3, ev_wall = ''2024-01-01T00:00:00.000Z'', ev_rate = 25,
     ev_total = Some 100, ev_category = ''goal'', ev_message = ''a goal'', ev_metadata = ''{}''\<rparr>"

definition goal_world :: world where
  "goal_world = sample_world\<lparr>w_db := sample_db\<lparr>db_events := [stored_goal]\<rparr>\<rparr>"

definition retitle :: "string \<Rightarrow> event_change" where
  "retitle m = \<lparr>ec_category = ''goal'', ec_message = m, ec_wall = ''2024-01-01T00:00:00.000Z'', ec_total = 100,
     ec_merge = (\<lambda>old. old)\<rparr>"

text \<open>An edit without an overwrite of a stored event with a positive rate answers, and so does its
  transaction.\<close>

lemma rpc_defined: "0 < ev_rate r \<Longrightarrow> \<exists>v. event_row_to_rpc r = Some v"
  by (auto simp: event_row_to_rpc_def from_total_frames_def Let_def split: option.split)

lemma db_run_answers:
  assumes "st (st_db s) = Inr (d, n)" "db_catalog d \<noteq> None"
  shows "\<exists>s'. db_run st e s = (Inr n, s') \<and> db_catalog (st_db s') \<noteq> None"
  using assms by (cases "n = 0"; cases "st_rev s") (fastforce simp: db_run_Inr advance_Inr)+

lemma update_event_answers:
  assumes f: "find_row i (db_events (st_db s)) = Some r" and rate: "0 < ev_rate r"
    and cat: "db_catalog (st_db s) \<noteq> None" and x: "\<not> overwrites x"
  shows "\<exists>out s'. update_event i c x e s = (Inr out, s') \<and> db_catalog (st_db s') \<noteq> None"
proof -
  from rpc_defined [OF rate] obtain v where v: "event_row_to_rpc r = Some v" by blast
  show ?thesis
  proof (cases "stale_version x r")
    case True
    with f v cat show ?thesis
      by (simp add: update_event_def tbind_def event_rpc_of_def treq_def treturn_def)
  next
    case False
    let ?f = "changed_event c (ec_merge c (metadata_json v))"
    obtain n s1 where w: "db_run (update_stmt db_events db_events_update (has_id i) ?f) e s = (Inr n, s1)"
      "db_catalog (st_db s1) \<noteq> None"
      using db_run_answers [of "update_stmt db_events db_events_update (has_id i) ?f" s
          "db_events_update (update_where (has_id i) ?f) (st_db s)" "count_where (has_id i) (db_events (st_db s))" e] cat
      by (force simp: update_stmt_def)
    have f1: "find_row i (db_events (st_db s1)) = Some (?f r)"
      unfolding db_run_event_update_Inr [OF w(1)] by (simp add: find_row_update f)
    have "0 < ev_rate (?f r)" using rate by (simp add: changed_event_def)
    from rpc_defined [OF this] obtain v' where "event_row_to_rpc (?f r) = Some v'" by blast
    with f False v w f1 x show ?thesis
      by (simp add: update_event_def tbind_def event_rpc_of_def treq_def treturn_def mark_projection_dirty_def
          broadcast_event_changed_def revision_def broadcast_def projection_def)
  qed
qed

lemma transaction_answers:
  assumes k: "\<And>d0. preserves (call_env w c) (tracked d0) b"
    and d: "db_catalog (w_db w) \<noteq> None" "db_transport (w_db w) \<noteq> None"
    and b: "b (call_env w c) (begin_tx (w_db w) (w_ticks w) (w_ids w)) = (Inr out, s)"
  shows "\<exists>w'. hub_transaction [Commits] c b w = (Inr out, w') \<and> db_catalog (w_db w') \<noteq> None \<and> db_transport (w_db w') \<noteq> None"
proof -
  have "tracked (w_db w) s"
    using preservesD [OF k _ b] tracked_start [of "begin_tx (w_db w) (w_ticks w) (w_ids w)"] by (simp add: begin_tx_def)
  then have s: "db_catalog (st_db s) \<noteq> None" "db_transport (st_db s) \<noteq> None"
    using d by (auto simp: tracked_def)
  then obtain cat tr where ct: "db_catalog (st_db s) = Some cat" "db_transport (st_db s) = Some tr" by auto
  let ?s2 = "if st_dirty s then s\<lparr>st_db := (st_db s)\<lparr>db_catalog := Some (cat\<lparr>ct_projection := live_projection (st_db s)\<rparr>)\<rparr>,
      st_dirty := False\<rparr> else s"
  have "write_projection_if_dirty (call_env w c) s = (Inr (), ?s2)"
    by (simp add: write_projection_if_dirty_def tbind_def raw_run_def projection_stmt_def ct)
  with b have "tx_body b (call_env w c) (begin_tx (w_db w) (w_ticks w) (w_ids w)) =
      (Inr (out, st_frames ?s2), ?s2\<lparr>st_frames := []\<rparr>)"
    unfolding tx_body_Inr by blast
  then show ?thesis
    using d ct by (auto simp: hub_transaction_def Let_def arm_alarm_def clock_now_def split: option.split)
qed

lemma second_editor_conflicts_witness:
  "\<exists>out1 w1 out2 w2 v. hub_transaction [Commits] (UserCaller ''ann'')
       (update_event ''e1'' (retitle ''A'') (Some \<lparr>ex_version = 3, ex_overwrite = False\<rparr>)) goal_world = (Inr out1, w1) \<and>
     hub_transaction [Commits] (UserCaller ''bob'')
       (update_event ''e1'' (retitle ''B'') (Some \<lparr>ex_version = 3, ex_overwrite = False\<rparr>)) w1 = (Inr out2, w2) \<and>
     out2 = Conflict v"
proof -
  let ?x = "\<lparr>ex_version = 3, ex_overwrite = False\<rparr>"
  let ?u = "\<lambda>m. update_event ''e1'' (retitle m) (Some ?x)"
  have b: "st_db (begin_tx d t i) = d" for d t i by (simp add: begin_tx_def)
  have k: "preserves e (tracked d0) (?u m)" for e d0 m by (rule keeps)
  have f: "find_row ''e1'' (db_events (w_db goal_world)) = Some stored_goal"
    by (simp add: goal_world_def find_row_def stored_goal_def)
  have rate: "0 < ev_rate stored_goal" by (simp add: stored_goal_def)
  have d: "db_catalog (w_db goal_world) \<noteq> None" "db_transport (w_db goal_world) \<noteq> None"
    by (simp_all add: goal_world_def sample_db_def)
  have "\<exists>out s'. ?u ''A'' (call_env goal_world (UserCaller ''ann''))
      (begin_tx (w_db goal_world) (w_ticks goal_world) (w_ids goal_world)) = (Inr out, s') \<and> db_catalog (st_db s') \<noteq> None"
    by (rule update_event_answers [where r = stored_goal]) (use f rate d in \<open>simp_all add: b\<close>)
  then obtain out1 s1 where r1: "?u ''A'' (call_env goal_world (UserCaller ''ann''))
      (begin_tx (w_db goal_world) (w_ticks goal_world) (w_ids goal_world)) = (Inr out1, s1)" by blast
  obtain w1 where w1: "hub_transaction [Commits] (UserCaller ''ann'') (?u ''A'') goal_world = (Inr out1, w1)"
    "db_catalog (w_db w1) \<noteq> None" "db_transport (w_db w1) \<noteq> None"
    using transaction_answers [OF k d r1] by blast
  obtain t i s where run: "?u ''A'' (call_env goal_world (UserCaller ''ann'')) (begin_tx (w_db goal_world) t i) = (Inr out1, s)"
    "content_of (w_db w1) = content_of (st_db s)"
    using transaction_ran [OF w1(1)] by blast
  have ns: "\<not> stale_version (Some ?x) stored_goal" by (simp add: stored_goal_def)
  from update_event_lands [OF _ ns run(1)] f obtain m where
    "db_events (st_db s) = update_where (has_id ''e1'') (changed_event (retitle ''A'') m) (db_events (w_db goal_world))"
    by (auto simp: b)
  then have f1: "find_row ''e1'' (db_events (w_db w1)) = Some (changed_event (retitle ''A'') m stored_goal)"
    using content_events [OF run(2)] f by (simp add: find_row_update)
  have rate1: "0 < ev_rate (changed_event (retitle ''A'') m stored_goal)" by (simp add: changed_event_def rate)
  have "\<exists>out s'. ?u ''B'' (call_env w1 (UserCaller ''bob'')) (begin_tx (w_db w1) (w_ticks w1) (w_ids w1)) = (Inr out, s') \<and>
      db_catalog (st_db s') \<noteq> None"
    by (rule update_event_answers [OF _ rate1]) (use f1 w1(2) in \<open>simp_all add: b\<close>)
  then obtain out2 s2 where r2: "?u ''B'' (call_env w1 (UserCaller ''bob'')) (begin_tx (w_db w1) (w_ticks w1) (w_ids w1)) = (Inr out2, s2)"
    by blast
  obtain w2 where w2: "hub_transaction [Commits] (UserCaller ''bob'') (?u ''B'') w1 = (Inr out2, w2)"
    using transaction_answers [OF k w1(2,3) r2] by blast
  have "ex_version ?x = row_version stored_goal" by (simp add: stored_goal_def)
  from second_editor_conflicts [OF f this this w1(1) w2] w1(1) w2 show ?thesis by blast
qed

subsection \<open>The worker's results\<close>

lemma rejected_unchanged:
  "hub_transaction as c b w = (Inl er, w') \<Longrightarrow> w_db w' = w_db w"
  using storage_tx_Inl [of as "call_env w c" b "w_db w" "w_ticks w" "w_ids w" er]
  by (auto simp: hub_transaction_def Let_def split: if_splits)

text \<open>A write call runs its body on the committed database, or is refused.\<close>

lemma call_Inr:
  assumes "hub_call as c WriteCall b w = (Inr x, w')"
  shows "\<exists>e t i s. b e (begin_tx (w_db w) t i) = (Inr x, s) \<and> content_of (w_db w') = content_of (st_db s) \<and>
    db_jobs (w_db w') = db_jobs (st_db s)"
proof -
  from assms obtain w1 w2 where "hub_transaction as c b w1 = (Inr x, w2)" "w_db w1 = w_db w" "w_db w' = w_db w2"
    by (fastforce simp: hub_call_def clock_now_def Let_def split: if_splits prod.splits)
  with transaction_ran [OF this(1)] show ?thesis by metis
qed

lemma call_Inl: "hub_call as c WriteCall b w = (Inl er, w') \<Longrightarrow> w_db w' = w_db w"
  using rejected_unchanged [of as c b _ er]
  by (fastforce simp: hub_call_def clock_now_def Let_def split: if_splits prod.splits)

text \<open>A job that no worker result can move any more.\<close>

definition job_closed :: "string \<Rightarrow> media_job list \<Rightarrow> bool" where
  "job_closed i t \<longleftrightarrow> (\<forall>j\<in>set t. row_id j = i \<longrightarrow> \<not> live_status (jb_status j))"

lemma mark_job_Inr:
  "mark_job f e s = (Inr u, s') \<longleftrightarrow> (\<exists>t n. f (db_jobs (st_db s)) = (t, n) \<and> n \<noteq> 0 \<and>
     s' = s\<lparr>st_db := (st_db s)\<lparr>db_jobs := t\<rparr>\<rparr>)"
  by (auto simp: mark_job_def tbind_Inr raw_run_Inr jobs_stmt_def split: prod.splits if_splits)

lemma closed_job_throws:
  "job_closed i (db_jobs (st_db s)) \<Longrightarrow> mark_job (mark_applied i now) e s \<noteq> (Inr u, s')"
  "job_closed i (db_jobs (st_db s)) \<Longrightarrow> mark_job (mark_failed i er now) e s \<noteq> (Inr u, s')"
  "job_closed i (db_jobs (st_db s)) \<Longrightarrow> mark_job (mark_cancelled i er now) e s \<noteq> (Inr u, s')"
  by (auto simp: mark_job_Inr mark_applied_def mark_failed_def mark_cancelled_def change_jobs_def job_closed_def
      count_where_def filter_empty_conv live_status_def)

lemma applied_job_closed:
  assumes "keys_ok (db_jobs (st_db s))" "mark_job (mark_applied i now) e s = (Inr u, s')"
  shows "job_closed i (db_jobs (st_db s')) \<and> (\<exists>j\<in>set (db_jobs (st_db s)). row_id j = i \<and> jb_status j = Done)"
proof -
  from assms(2) have t: "db_jobs (st_db s') = update_where (\<lambda>j. row_id j = i \<and> jb_status j = Done)
      (\<lambda>j. j\<lparr>jb_status := Applied, jb_applied := Some now, jb_updated := now\<rparr>) (db_jobs (st_db s))"
    and n: "count_where (\<lambda>j. row_id j = i \<and> jb_status j = Done) (db_jobs (st_db s)) \<noteq> 0"
    by (auto simp: mark_job_Inr mark_applied_def change_jobs_def)
  from n obtain j where j: "j \<in> set (db_jobs (st_db s))" "row_id j = i" "jb_status j = Done"
    by (auto simp: count_where_def filter_empty_conv)
  have only: "k = j" if "k \<in> set (db_jobs (st_db s))" "row_id k = i" for k
    using assms(1) that j by (auto simp: keys_ok_def distinct_map dest: inj_onD)
  have "job_closed i (db_jobs (st_db s'))"
    using j by (auto simp: t job_closed_def update_where_def live_status_def dest!: only split: if_splits)
  with j show ?thesis by blast
qed

lemma stmt_keeps_jobs:
  "stmt_keeps db_jobs (insert_seam_stmt x)" "stmt_keeps db_jobs (repoint_stmt ro i ws)"
  "stmt_keeps db_jobs (delete_segment_stmt i)" "stmt_keeps db_jobs (update_checked i ok g)"
  "stmt_keeps db_jobs (insert_checked ok r)"
  by (auto simp: stmt_keeps_def insert_seam_stmt_def repoint_stmt_def delete_segment_stmt_def update_checked_def
      insert_checked_def update_stmt_def insert_stmt_def Let_def split: if_splits option.splits)

lemma holds_audio [keeps]:
  "preserves e (holds g v) tx_media"
  "preserves e (holds g v) (with_seams rows)"
  "preserves e (holds g v) (segments_of_recording ro)"
  "preserves e (holds db_jobs t) (apply_ingest a)"
  "preserves e (holds db_jobs t) (apply_merge ma)"
  "preserves e (holds g v) require_media"
  "preserves e (holds g v) run_lease_held"
proof -
  show 1 [keeps]: "preserves e (holds g v) tx_media" for g :: "session_db \<Rightarrow> 'v" and v
    by (auto intro!: preservesI simp: tx_media_def)
  show 2 [keeps]: "preserves e (holds g v) (with_seams rows)" for g :: "session_db \<Rightarrow> 'v" and v and rows
    unfolding with_seams_def by (intro keeps)
  show 3 [keeps]: "preserves e (holds g v) (segments_of_recording ro)" for g :: "session_db \<Rightarrow> 'v" and v and ro
    unfolding segments_of_recording_def by (intro keeps)
  show "preserves e (holds g v) require_media" "preserves e (holds g v) run_lease_held"
    unfolding require_media_def run_lease_held_def by (intro keeps)+
  show "preserves e (holds db_jobs t) (apply_ingest a)"
    unfolding apply_ingest_def by (intro keeps holds_db_run stmt_keeps_jobs)
  show "preserves e (holds db_jobs t) (apply_merge ma)"
    unfolding apply_merge_def merge_writes_def by (intro keeps holds_db_run stmt_keeps_jobs)
qed

text \<open>A closed job's apply: an ingest never returns, a merge only when it is deferred, changing nothing.\<close>

lemma closed_ingest_throws:
  assumes "job_closed job (db_jobs (st_db s))"
  shows "apply_media_ingest_body job a e s \<noteq> (Inr out, s')"
proof
  assume r: "apply_media_ingest_body job a e s = (Inr out, s')"
  then obtain now s1 res s2 where m: "require_media e s = (Inr (), s1)"
    and i: "apply_ingest a e (s1\<lparr>st_ticks := Suc (st_ticks s1)\<rparr>) = (Inr res, s2)"
    and rest: "(case res of
       None \<Rightarrow> tbind (mark_job (mark_cancelled job InputsChanged now)) (\<lambda>_. treturn IngestCancelled)
     | Some replaced \<Rightarrow> tbind (mark_job (mark_applied job now)) (\<lambda>_. treturn (IngestApplied replaced))) e s2 = (Inr out, s')"
    by (auto simp: apply_media_ingest_body_def tbind_Inr [where m = require_media] tbind_Inr [where m = tx_now]
        tbind_Inr [where m = "apply_ingest a"] tx_now_Inr)
  have "holds db_jobs (db_jobs (st_db s)) s1"
    by (rule preservesD [OF holds_audio(6) _ m]) (simp add: holds_def)
  then have "holds db_jobs (db_jobs (st_db s)) (s1\<lparr>st_ticks := Suc (st_ticks s1)\<rparr>)" by (simp add: holds_def)
  from preservesD [OF holds_audio(4) this i] assms have "job_closed job (db_jobs (st_db s2))" by (simp add: holds_def)
  with rest closed_job_throws show False
    by (auto simp: tbind_Inr split: option.splits)
qed

lemma applied_ingest_closes:
  assumes "keys_ok (db_jobs (st_db s))" "apply_media_ingest_body job a e s = (Inr (IngestApplied k), s')"
  shows "job_closed job (db_jobs (st_db s')) \<and> (\<exists>j\<in>set (db_jobs (st_db s)). row_id j = job \<and> jb_status j = Done)"
proof -
  from assms(2) obtain now s1 res s2 where m: "require_media e s = (Inr (), s1)"
    and i: "apply_ingest a e (s1\<lparr>st_ticks := Suc (st_ticks s1)\<rparr>) = (Inr res, s2)"
    and mk: "mark_job (mark_applied job now) e s2 = (Inr (), s')"
    by (auto simp: apply_media_ingest_body_def tbind_Inr tx_now_Inr split: option.splits)
  have "holds db_jobs (db_jobs (st_db s)) s1"
    by (rule preservesD [OF holds_audio(6) _ m]) (simp add: holds_def)
  then have "holds db_jobs (db_jobs (st_db s)) (s1\<lparr>st_ticks := Suc (st_ticks s1)\<rparr>)" by (simp add: holds_def)
  from preservesD [OF holds_audio(4) this i] have "db_jobs (st_db s2) = db_jobs (st_db s)" by (simp add: holds_def)
  with applied_job_closed [OF _ mk] assms(1) show ?thesis by simp
qed

lemma stale_safe_Inr: "stale_safe st r = (Inr x, w) \<longleftrightarrow> r = (Inr x, w) \<or> (r = (Inl MediaJobStale, w) \<and> x = st)"
  by (auto simp: stale_safe_def split: prod.splits sum.splits terr.splits)


text \<open>A call on an open hub is its transaction.\<close>

definition admitted :: "world \<Rightarrow> world" where
  "admitted w = w\<lparr>w_ticks := Suc (w_ticks w), w_hub := (w_hub w)\<lparr>
      hb_lock_waits := (if 0 < hb_in_flight (w_hub w) then hb_lock_waits (w_hub w) + 1 else hb_lock_waits (w_hub w)),
      hb_in_flight := hb_in_flight (w_hub w) + 1, hb_touched := w_clock w (w_ticks w)\<rparr>\<rparr>"

lemma call_answers:
  assumes "hub_transaction as c b (admitted w) = (r, w1)" "hb_status (w_hub w) = Open"
  shows "hub_call as c WriteCall b w = (r, w1\<lparr>w_hub := (w_hub w1)\<lparr>hb_in_flight := hb_in_flight (w_hub w1) - 1\<rparr>\<rparr>)"
proof -
  let ?in = "\<lambda>w1. w1\<lparr>w_hub := (w_hub w1)\<lparr>hb_in_flight := hb_in_flight (w_hub w1) - 1\<rparr>\<rparr>"
  have "hub_call as c WriteCall b w = (case hub_transaction as c b (admitted w) of (r, w2) \<Rightarrow> (r, ?in w2))"
    using assms(2) unfolding hub_call_def admitted_def clock_now_def Let_def by (simp del: if_split)
  then show ?thesis by (simp add: assms(1))
qed

lemma admitted_simps [simp]: "w_db (admitted w) = w_db w" "hb_status (w_hub (admitted w)) = hb_status (w_hub w)"
  "hb_media (w_hub (admitted w)) = hb_media (w_hub w)"
  by (simp_all add: admitted_def)

text \<open>A done ingest job for a stored segment.\<close>

definition done_job :: media_job where
  "done_job = \<lparr>row_id = ''j1'', jb_kind = Ingest, jb_session = ''s1'', jb_target = ''a'', jb_status = Done, jb_attempts = 1,
     jb_max_attempts = 3, jb_bytes = 10, jb_run_after = 0, jb_locked_by = None, jb_locked_until = None,
     jb_result = None, jb_error = None, jb_created = 0, jb_updated = 0, jb_applied = None\<rparr>"

definition ingest_segment :: segment_row where
  "ingest_segment = \<lparr>row_id = ''a'', sg_ordinal = 1, sg_started = None, sg_ended = None, sg_mime = ''audio/webm'',
     sg_key = ''k'', sg_recording = None, sg_peaks = None, sg_floor = None, sg_created = ''t0'', sg_duration = None,
     sg_status = Some MPending, sg_error = None\<rparr>"

definition worker_world :: world where
  "worker_world = sample_world\<lparr>w_db := sample_db\<lparr>db_jobs := [done_job], db_segments := [ingest_segment]\<rparr>\<rparr>"

definition lost_result :: ingest_apply where
  "lost_result = \<lparr>ia_segment = ''gone'', ia_duration = 10, ia_peaks = [], ia_flac = None\<rparr>"

definition good_result :: ingest_apply where
  "good_result = \<lparr>ia_segment = ''a'', ia_duration = 10, ia_peaks = [], ia_flac = None\<rparr>"

lemma good_result_applies:
  "\<exists>s. apply_media_ingest_body ''j1'' good_result (call_env (admitted worker_world) c)
     (begin_tx (w_db worker_world) t i) = (Inr (IngestApplied None), s) \<and>
     find_row ''gone'' (db_segments (st_db s)) = None"
  by (simp add: apply_media_ingest_body_def require_media_def tx_media_def apply_ingest_def update_checked_def
      mark_job_def jobs_stmt_def mark_applied_def change_jobs_def call_env_def admitted_def worker_world_def
      sample_world_def done_job_def ingest_segment_def good_result_def run_simps cong: run_bind_cong)

lemma transaction_hub:
  "hub_transaction as c b w = (r, w') \<Longrightarrow> hb_status (w_hub w') = hb_status (w_hub w) \<and> hb_media (w_hub w') = hb_media (w_hub w)"
  by (auto simp: hub_transaction_def Let_def deliver_frames arm_alarm_def clock_now_def schedule_alarm_def
      split: if_splits option.splits)

lemma lost_result_stale:
  assumes "job_closed job (db_jobs (w_db w))" "find_row ''gone'' (db_segments (w_db w)) = None"
    "hb_media (w_hub w) \<noteq> None" "db_catalog (w_db w) \<noteq> None"
  shows "\<exists>w'. hub_transaction [Commits] c (apply_media_ingest_body job lost_result) w = (Inl MediaJobStale, w')"
proof -
  have n: "count_where (\<lambda>j. row_id j = job \<and> live_status (jb_status j)) (db_jobs (w_db w)) = 0"
    using assms(1) by (auto simp: job_closed_def count_where_def filter_empty_conv)
  have "\<exists>s. apply_media_ingest_body job lost_result (call_env w c) (begin_tx (w_db w) t i) = (Inl MediaJobStale, s)" for t i
    using assms(2,3) n
    by (auto simp: apply_media_ingest_body_def require_media_def tx_media_def apply_ingest_def lost_result_def
        mark_job_def jobs_stmt_def mark_cancelled_def change_jobs_def call_env_def run_bind run_bind_error
        tx_now_def treturn_def tthrow_def raw_run_def begin_tx_def)
  then obtain s where "apply_media_ingest_body job lost_result (call_env w c) (begin_tx (w_db w) (w_ticks w) (w_ids w)) =
      (Inl MediaJobStale, s)" by blast
  then show ?thesis
    using assms(4) by (simp add: hub_transaction_def tx_body_def run_bind_error failed_tx_def Let_def)
qed


subsection \<open>Recording ordinals\<close>

text \<open>The whole numbers below 2^53, on which the arithmetic of the ordinals is exact.\<close>

definition small_int :: "num64 \<Rightarrow> bool" where
  "small_int x \<longleftrightarrow> (\<exists>m::int. x = of_int m \<and> 0 \<le> m \<and> m < 2 ^ 53)"

lemma small_int_of_int [simp]: "small_int (of_int m) \<longleftrightarrow> 0 \<le> m \<and> m < 2 ^ 53"
  by (auto simp: small_int_def)

lemma small_int_max: "small_int a \<Longrightarrow> small_int b \<Longrightarrow> small_int (max_num a b)"
  by (simp add: max_num_def)

lemma recording_event_number_small:
  assumes "recording_event_number m = Some k" "k < 2 ^ 53"
  shows "small_int k"
proof -
  from assms(1) obtain n :: nat where k: "k = fl (of_nat n)"
    by (auto simp: recording_event_number_def finite64_def take_digits_def split: option.splits if_splits prod.splits)
  have "n < 2 ^ 53"
  proof (rule ccontr)
    assume "\<not> n < 2 ^ 53"
    then have "(2::rat) ^ 53 \<le> of_nat n" by (metis linorder_not_less of_nat_le_iff of_nat_numeral of_nat_power)
    then have "fl (2 ^ 53) \<le> k" unfolding k by (rule fl_mono)
    moreover have "fl (of_int (2 ^ 53)) = of_int (2 ^ 53)" by (rule fl_of_int) simp
    ultimately show False using assms(2) by simp
  qed
  then have "int n < 2 ^ 53" by (metis of_nat_less_iff of_nat_numeral of_nat_power)
  moreover have "k = of_int (int n)"
    unfolding k using fl_of_int [of "int n"] \<open>int n < 2 ^ 53\<close> by simp
  ultimately show ?thesis unfolding small_int_def by (intro exI [of _ "int n"]) simp
qed

definition fold_max :: "('x \<Rightarrow> num64 option) \<Rightarrow> 'x list \<Rightarrow> num64 \<Rightarrow> num64" where
  "fold_max f = fold (\<lambda>x m. case f x of None \<Rightarrow> m | Some y \<Rightarrow> max_num m y)"

lemma fold_max_small:
  assumes "small_int m0" "\<And>x y. x \<in> set xs \<Longrightarrow> f x = Some y \<Longrightarrow> small_int y"
  shows "small_int (fold_max f xs m0) \<and> m0 \<le> fold_max f xs m0 \<and>
    (\<forall>x\<in>set xs. \<forall>y. f x = Some y \<longrightarrow> y \<le> fold_max f xs m0)"
  using assms
proof (induction xs arbitrary: m0)
  case Nil
  then show ?case by (simp add: fold_max_def)
next
  case (Cons x xs)
  let ?m = "case f x of None \<Rightarrow> m0 | Some y \<Rightarrow> max_num m0 y"
  have step: "fold_max f (x # xs) m0 = fold_max f xs ?m" by (simp add: fold_max_def)
  have m: "small_int ?m" using Cons.prems(1) Cons.prems(2) [of x] by (auto simp: small_int_max split: option.split)
  have le: "m0 \<le> ?m" "f x = Some y \<Longrightarrow> y \<le> ?m" for y
    by (auto simp: max_num_def split: option.split)
  have ih: "small_int (fold_max f xs ?m) \<and> ?m \<le> fold_max f xs ?m \<and>
      (\<forall>z\<in>set xs. \<forall>y. f z = Some y \<longrightarrow> y \<le> fold_max f xs ?m)"
    by (rule Cons.IH [OF m]) (use Cons.prems(2) in auto)
  then show ?case
    unfolding step using order_trans [OF le(1)] order_trans [OF le(2)] by auto
qed

lemma list_segments_Inr:
  assumes "list_audio_segments e s = (Inr ms, s')"
  shows "s' = s \<and> am_recording ` set ms = sg_recording ` set (db_segments (st_db s))"
proof -
  let ?rows = "order_by (\<lambda>r. (sg_ordinal r, row_id r)) (db_segments (st_db s))"
  from assms have "with_seams ?rows e s = (Inr ms, s')" by (simp add: list_audio_segments_def)
  then have "s' = s \<and> map am_recording ms = map sg_recording ?rows"
    by (auto simp: with_seams_def tbind_Inr tx_media_def audio_row_to_meta_def split: if_splits option.splits)
  then show ?thesis by (metis list.set_map set_order_by)
qed

lemma export_events_Inr:
  assumes "export_events e s = (Inr vs, s')"
  shows "s' = s \<and>
     (\<lambda>v. (category v, message v)) ` set vs = (\<lambda>r. (ev_category r, ev_message r)) ` set (db_events (st_db s))"
proof -
  have tm: "tmap event_rpc_of rs e s = (Inr vs, s') \<Longrightarrow> s' = s \<and>
      map (\<lambda>v. (category v, message v)) vs = map (\<lambda>r. (ev_category r, ev_message r)) rs" for rs vs s s'
    by (induction rs arbitrary: vs) (auto simp: tbind_Inr event_rpc_of_Inr dest: event_rpc_fields)
  from assms have "tmap event_rpc_of (feed_order (db_events (st_db s))) e s = (Inr vs, s')" by (simp add: export_events_def)
  from tm [OF this] have "s' = s" and
    "set (map (\<lambda>v. (category v, message v)) vs) = set (map (\<lambda>r. (ev_category r, ev_message r)) (feed_order (db_events (st_db s))))"
    by simp_all
  then show ?thesis by (simp add: feed_order_def)
qed

text \<open>A new recording never shares an ordinal. The ordinal of an imported take is a whole number above the
  recording ordinal of every stored segment and above the number of every internal recording event, also
  of recordings whose segments are gone; nothing is written by computing it.\<close>

theorem recording_ordinal_fresh:
  assumes r: "next_recording_ordinal e s = (Inr n, s')"
    and segs: "\<forall>g\<in>set (db_segments (st_db s)). \<forall>k. sg_recording g = Some k \<longrightarrow> 0 \<le> k \<and> k < 2 ^ 53"
    and evs: "\<forall>ev\<in>set (db_events (st_db s)). \<forall>k. recording_event_number (ev_message ev) = Some k \<longrightarrow> k < 2 ^ 53"
  shows "s' = s \<and> (\<exists>m::int. n = of_int m \<and> 1 \<le> m) \<and>
    (\<forall>g\<in>set (db_segments (st_db s)). \<forall>k. sg_recording g = Some k \<longrightarrow> of_int k < n) \<and>
    (\<forall>ev\<in>set (db_events (st_db s)). \<forall>k. js_lower (ev_category ev) = ''internal'' \<longrightarrow>
       recording_event_number (ev_message ev) = Some k \<longrightarrow> k < n)"
proof -
  let ?f = "\<lambda>g. map_option of_int (am_recording g)"
  let ?g = "\<lambda>v. if js_lower (category v) \<noteq> ''internal'' then None else recording_event_number (message v)"
  have f1: "fold (\<lambda>g m. case am_recording g of None \<Rightarrow> m | Some n \<Rightarrow> max_num m (of_int n)) = fold_max ?f"
    unfolding fold_max_def by (rule arg_cong [where f = fold]) (auto simp: fun_eq_iff split: option.split)
  have f2: "fold (\<lambda>v m. if js_lower (category v) \<noteq> ''internal'' then m else
      (case recording_event_number (message v) of None \<Rightarrow> m | Some n \<Rightarrow> max_num m n)) = fold_max ?g"
    unfolding fold_max_def by (rule arg_cong [where f = fold]) (auto simp: fun_eq_iff split: option.split)
  from r obtain ms s1 vs where m: "list_audio_segments e s = (Inr ms, s1)" and v: "export_events e s1 = (Inr vs, s')"
    and n: "n = dbl_add (fold_max ?g vs (fold_max ?f ms 0)) 1"
    unfolding next_recording_ordinal_def Let_def f1 f2 by (auto simp: tbind_Inr)
  note m' = list_segments_Inr [OF m] and v' = export_events_Inr [OF v]
  let ?m0 = "fold_max ?f ms 0" and ?m1 = "fold_max ?g vs (fold_max ?f ms 0)"
  have z: "small_int 0" using small_int_of_int [of 0] by simp
  have sm1: "small_int y" if "x \<in> set ms" "?f x = Some y" for x y
  proof -
    from that obtain k where k: "am_recording x = Some k" "y = of_int k" by auto
    with m' imageI [OF that(1), of am_recording] have "Some k \<in> sg_recording ` set (db_segments (st_db s))" by simp
    with segs k(2) show ?thesis by auto
  qed
  have "small_int ?m0 \<and> 0 \<le> ?m0 \<and> (\<forall>x\<in>set ms. \<forall>y. ?f x = Some y \<longrightarrow> y \<le> ?m0)"
    by (rule fold_max_small [OF z sm1])
  then have a: "small_int ?m0" "\<forall>x\<in>set ms. \<forall>y. ?f x = Some y \<longrightarrow> y \<le> ?m0" by blast+
  have sm2: "small_int y" if "x \<in> set vs" "?g x = Some y" for x y
  proof -
    from imageI [OF that(1), of "\<lambda>v. (category v, message v)"] v' m' obtain ev where
      "ev \<in> set (db_events (st_db s))" "message x = ev_message ev" by auto
    with that(2) evs recording_event_number_small show ?thesis by (auto split: if_splits)
  qed
  have "small_int ?m1 \<and> ?m0 \<le> ?m1 \<and> (\<forall>x\<in>set vs. \<forall>y. ?g x = Some y \<longrightarrow> y \<le> ?m1)"
    by (rule fold_max_small [OF a(1) sm2])
  then have b: "small_int ?m1" "?m0 \<le> ?m1" "\<forall>x\<in>set vs. \<forall>y. ?g x = Some y \<longrightarrow> y \<le> ?m1" by blast+
  from b(1) obtain k :: int where k: "?m1 = of_int k" "0 \<le> k" "k < 2 ^ 53" by (auto simp: small_int_def)
  have n1: "n = of_int (k + 1)"
    unfolding n k(1) dbl_add_def using fl_of_int [of "k + 1"] k(2,3) by simp
  have "of_int k' < n" if "g \<in> set (db_segments (st_db s))" "sg_recording g = Some k'" for g k'
  proof -
    have "Some k' \<in> am_recording ` set ms" using imageI [OF that(1), of sg_recording] that(2) m' by simp
    then obtain x where "x \<in> set ms" "am_recording x = Some k'" by auto
    with a(2) have "of_int k' \<le> ?m0" by auto
    with b(2) k(1) have "of_int k' \<le> (of_int k :: rat)" by linarith
    with n1 show ?thesis by simp
  qed
  moreover have "k' < n"
    if "ev \<in> set (db_events (st_db s))" "js_lower (ev_category ev) = ''internal''" "recording_event_number (ev_message ev) = Some k'" for ev k'
  proof -
    have "(ev_category ev, ev_message ev) \<in> (\<lambda>v. (category v, message v)) ` set vs"
      using imageI [OF that(1), of "\<lambda>r. (ev_category r, ev_message r)"] v' m' by simp
    then obtain x where "x \<in> set vs" "category x = ev_category ev" "message x = ev_message ev" by auto
    with that(2,3) b(3) have "k' \<le> ?m1" by auto
    with n1 k(1) show ?thesis by simp
  qed
  ultimately show ?thesis
    using m' v' n1 k(2) by (auto intro: exI [of _ "k + 1"])
qed

lemma list_segments_run: "env_media e = Some b \<Longrightarrow> \<exists>ms. list_audio_segments e s = (Inr ms, s)"
  by (simp add: list_audio_segments_def with_seams_def tbind_def tx_read_def tx_media_def treturn_def)

definition recorded_db :: session_db where
  "recorded_db = sample_db\<lparr>db_segments := [ingest_segment\<lparr>sg_recording := Some 4\<rparr>]\<rparr>"

lemma recording_ordinal_fresh_witness:
  "\<exists>n. next_recording_ordinal (sample_env ''u'') (begin_tx recorded_db 0 0) = (Inr n, begin_tx recorded_db 0 0) \<and> 4 < n"
proof -
  let ?e = "sample_env ''u''" and ?s = "begin_tx recorded_db 0 0"
  have b: "st_db ?s = recorded_db" by (simp add: begin_tx_def)
  have "env_media ?e = Some (\<lambda>key. 1000)" by (simp add: sample_env_def)
  from list_segments_run [OF this] obtain ms where "list_audio_segments ?e ?s = (Inr ms, ?s)" by blast
  moreover have "export_events ?e ?s = (Inr [], ?s)"
    by (simp add: export_events_def b recorded_db_def sample_db_def feed_order_def treturn_def order_by_def)
  ultimately obtain n s' where r: "next_recording_ordinal ?e ?s = (Inr n, s')"
    by (simp add: next_recording_ordinal_def run_bind treturn_def)
  have "s' = ?s \<and> of_int 4 < n"
    using recording_ordinal_fresh [OF r] by (simp add: b recorded_db_def ingest_segment_def sample_db_def)
  with r show ?thesis by auto
qed

subsection \<open>The imported take\<close>

definition frames_are :: "frame list \<Rightarrow> tx_state \<Rightarrow> bool" where
  "frames_are fs s \<longleftrightarrow> st_frames s = fs"

lemma frames_core [keeps]:
  "preserves e (frames_are fs) (tx_read f)"
  "preserves e (frames_are fs) tx_now"
  "preserves e (frames_are fs) tx_uuid"
  "preserves e (frames_are fs) mark_projection_dirty"
  "preserves e (frames_are fs) get_transport_row"
  "preserves e (frames_are fs) projection"
  by (auto intro!: preservesI simp: frames_are_def tx_now_def tx_uuid_def mark_projection_dirty_def
      get_transport_row_def tx_read_def projection_def)

lemma frames_run [keeps]:
  "preserves e (frames_are fs) (raw_run st)"
  "preserves e (frames_are fs) (db_run st)"
proof -
  show raw [keeps]: "preserves e (frames_are fs) (raw_run st)" for st
    by (rule preservesI) (auto simp: frames_are_def raw_run_Inr)
  have [keeps]: "preserves e (frames_are fs) advance_revision"
    by (rule preservesI) (auto simp: frames_are_def advance_Inr)
  show "preserves e (frames_are fs) (db_run st)"
    unfolding db_run_def by (intro keeps)
qed

lemma frames_add_event:
  assumes "ei_suppress inp"
  shows "preserves e (frames_are fs) (add_event inp)"
proof -
  have m [keeps]: "preserves e (frames_are fs) (mark_wall_ms x)" for x unfolding mark_wall_ms_def by (intro keeps)
  have p [keeps]: "preserves e (frames_are fs) (event_position inp)" unfolding event_position_def by (intro keeps)
  have r [keeps]: "preserves e (frames_are fs) (event_rpc_of x)" "preserves e (frames_are fs) (event_by_id y)" for x y
    unfolding event_rpc_of_def event_by_id_def by (intro keeps)+
  show ?thesis
    unfolding add_event_def using assms by (simp only: if_True) (intro keeps)
qed

lemma transport_add_event: "preserves e (holds db_transport tr) (add_event inp)"
proof -
  have "stmt_keeps db_transport (insert_stmt db_events db_events_update r)" for r by (rule stmt_keeps_table) simp
  then show ?thesis unfolding add_event_def by (intro keeps holds_db_run)
qed

lemma stop_with_duration_effect:
  assumes "stop_take_with_duration dur ctx True e s = (Inr p, s')" "db_transport (st_db s) = Some tr"
  shows "db_events (st_db s') = db_events (st_db s) \<and> st_frames s' = st_frames s \<and>
    db_transport (st_db s') = Some (tr\<lparr>is_rolling := False, roll_started_at_utc := None,
      elapsed_frames := elapsed_frames tr + duration_frames dur (ctx_rate ctx)\<rparr>)"
proof -
  from assms obtain n s1 where run: "db_run (transport_stmt (\<lambda>r. r\<lparr>is_rolling := False, roll_started_at_utc := None,
         elapsed_frames := elapsed_frames tr + duration_frames dur (ctx_rate ctx)\<rparr>)) e s = (Inr n, s1)"
    and s': "s' = s1\<lparr>st_dirty := True\<rparr>"
    by (auto simp: stop_take_with_duration_def transport_of_def tbind_Inr mark_projection_dirty_def projection_def)
  have "frames_are (st_frames s) s1" by (rule preservesD [OF frames_run(2) _ run]) (simp add: frames_are_def)
  with db_run_transport_Inr [OF run] assms(2) s' show ?thesis by (simp add: frames_are_def)
qed

text \<open>An imported take is anchored as one recorded take. It is refused while the transport rolls; otherwise
  exactly its \<open>Started\<close> and \<open>Stopped\<close> events are appended, in that order, under its ordinal, the elapsed
  frames grow by the take's duration and nothing else of the transport moves, and the sockets get one
  event frame with the final revision and one transport frame, instead of the three of the single steps.\<close>

theorem imported_take_anchored:
  assumes tr: "db_transport (st_db s) = Some tr"
    and r: "anchor_imported_take i e s = (Inr (started, stopped, p), s')"
  shows "\<not> is_rolling tr \<and>
    (\<exists>r1 r2. db_events (st_db s') = db_events (st_db s) @ [r1, r2] \<and>
       event_row_to_rpc r1 = Some started \<and> event_row_to_rpc r2 = Some stopped \<and>
       ev_message r1 = ''Recording '' @ int_string (it_ordinal i) @ '' Started'' \<and>
       ev_message r2 = ''Recording '' @ int_string (it_ordinal i) @ '' Stopped'' \<and>
       ev_category r1 = ''internal'' \<and> ev_category r2 = ''internal'') \<and>
    db_transport (st_db s') = Some (tr\<lparr>is_rolling := False, roll_started_at_utc := None,
      elapsed_frames := elapsed_frames tr + duration_frames (it_duration i) (ctx_rate (it_ctx i))\<rparr>) \<and>
    (\<exists>rev. st_frames s' = st_frames s @ [EventChanged rev, TransportChanged False (pr_take p)] \<and>
       revision e s' = (Inr rev, s'))"
proof -
  from r obtain sw where body: "anchor_take_body i sw e s = (Inr (started, stopped, p), s')"
    by (auto simp: anchor_imported_take_def split: option.splits if_splits)
  have nr: "\<not> is_rolling tr" using body tr by (auto simp: anchor_take_body_def transport_of_def split: if_splits)
  with body tr obtain p1 s1 p2 s2 s3 where
    a1: "add_event (take_event i '' Started'' (it_started i)) e s = (Inr (started, p1), s1)" and
    st: "stop_take_with_duration (it_duration i) (it_ctx i) True e s1 = (Inr p2, s2)" and
    a2: "add_event (take_event i '' Stopped'' sw) e s2 = (Inr (stopped, p), s3)" and
    s': "s' = s3\<lparr>st_frames := st_frames s3 @ [EventChanged (case st_rev s3 of Some r \<Rightarrow> r | None \<Rightarrow> revision_of (st_db s3)),
      TransportChanged False (pr_take p)]\<rparr>"
    by (auto simp: anchor_take_body_def transport_of_def tbind_Inr revision_def broadcast_def)
  have t1: "db_transport (st_db s1) = Some tr"
    using preservesD [OF transport_add_event _ a1, of "Some tr"] tr by (simp add: holds_def)
  note stop = stop_with_duration_effect [OF st t1]
  have t3: "db_transport (st_db s3) = db_transport (st_db s2)"
    using preservesD [OF transport_add_event _ a2, of "db_transport (st_db s2)"] by (simp add: holds_def)
  have f: "st_frames s3 = st_frames s"
    using preservesD [OF frames_add_event _ a1, of "st_frames s"] preservesD [OF frames_add_event _ a2, of "st_frames s2"] stop
    by (simp add: frames_are_def take_event_def)
  from add_event_stores [OF a1] add_event_stores [OF a2] stop obtain r1 r2 where
    "db_events (st_db s3) = db_events (st_db s) @ [r1, r2]" "event_row_to_rpc r1 = Some started"
    "event_row_to_rpc r2 = Some stopped" "ev_message r1 = ''Recording '' @ int_string (it_ordinal i) @ '' Started''"
    "ev_message r2 = ''Recording '' @ int_string (it_ordinal i) @ '' Stopped''"
    "ev_category r1 = ''internal''" "ev_category r2 = ''internal''"
    by (auto simp: take_event_def)
  then have ev: "\<exists>r1 r2. db_events (st_db s') = db_events (st_db s) @ [r1, r2] \<and>
       event_row_to_rpc r1 = Some started \<and> event_row_to_rpc r2 = Some stopped \<and>
       ev_message r1 = ''Recording '' @ int_string (it_ordinal i) @ '' Started'' \<and>
       ev_message r2 = ''Recording '' @ int_string (it_ordinal i) @ '' Stopped'' \<and>
       ev_category r1 = ''internal'' \<and> ev_category r2 = ''internal''"
    unfolding s' by auto
  have fr: "\<exists>rev. st_frames s' = st_frames s @ [EventChanged rev, TransportChanged False (pr_take p)] \<and>
       revision e s' = (Inr rev, s')"
    by (intro exI [of _ "case st_rev s3 of Some r \<Rightarrow> r | None \<Rightarrow> revision_of (st_db s3)"]) (simp add: s' f revision_def split: option.split)
  have "db_transport (st_db s') = db_transport (st_db s2)" using t3 by (simp add: s')
  with nr stop ev fr show ?thesis by simp
qed

text \<open>A take imported into an idle session of 25 frames a second.\<close>

lemma add_take_event_answers:
  assumes rate: "0 < ctx_rate (it_ctx i)" "0 < round_rate (ctx_rate (it_ctx i))" and cat: "db_catalog (st_db s) \<noteq> None"
    and fresh: "env_uuid e (st_ids s) \<notin> row_id ` set (db_events (st_db s))"
  shows "\<exists>v p s' r. add_event (take_event i what wall) e s = (Inr (v, p), s') \<and> db_catalog (st_db s') \<noteq> None \<and>
    st_ids s' = Suc (st_ids s) \<and> db_events (st_db s') = db_events (st_db s) @ [r] \<and> row_id r = env_uuid e (st_ids s)"
proof -
  obtain tc where tc: "timecode_for_mark (ctx_rate (it_ctx i)) (ctx_offset (it_ctx i)) (transport_of (st_db s))
      (env_clock e (st_ticks s)) = Some tc" "0 < tc_rate tc"
    using rate by (auto simp: timecode_for_mark_def from_total_frames_def Let_def)
  let ?w = "case wall of Some w \<Rightarrow> w | None \<Rightarrow> iso_z (env_clock e (st_ticks s))"
  let ?s2 = "s\<lparr>st_ticks := Suc (st_ticks s), st_ids := Suc (st_ids s)\<rparr>"
  have pos: "event_position (take_event i what wall) e s = (Inr (?w, tc_rate tc, to_total_frames tc), s\<lparr>st_ticks := Suc (st_ticks s)\<rparr>)"
    using tc(1) by (simp add: event_position_def take_event_def mark_wall_ms_def tx_now_def tbind_def get_transport_row_def
        tx_read_def treq_def treturn_def)
  let ?r = "\<lparr>row_id = env_uuid e (st_ids s), row_version = 1, ev_wall = ?w, ev_rate = tc_rate tc,
     ev_total = Some (to_total_frames tc), ev_category = ''internal'',
     ev_message = ''Recording '' @ int_string (it_ordinal i) @ what, ev_metadata = ''{}''\<rparr>"
  let ?st = "insert_stmt db_events db_events_update ?r"
  have "?st (st_db ?s2) = Inr (db_events_update (\<lambda>_. db_events (st_db s) @ [?r]) (st_db s), 1)"
    using fresh by (simp add: insert_stmt_def insert_row_def)
  from db_run_answers [of ?st ?s2, OF this] cat obtain s3 where
    run: "db_run ?st e ?s2 = (Inr 1, s3)" "db_catalog (st_db s3) \<noteq> None" by auto
  have ids: "st_ids s3 = Suc (st_ids s)" using run(1) by (auto simp: db_run_Inr advance_Inr)
  have ev: "db_events (st_db s3) = db_events (st_db s) @ [?r]"
    using db_run_insert_Inr [OF run(1)] by simp
  have find: "find_row (env_uuid e (st_ids s)) (db_events (st_db s3)) = Some ?r"
    using find_row_snoc [of ?r] fresh by (simp add: ev)
  from rpc_defined [of ?r] tc(2) obtain v where v: "event_row_to_rpc ?r = Some v" by auto
  have "add_event (take_event i what wall) e s = (Inr (v, live_projection (st_db s3)), s3\<lparr>st_dirty := True\<rparr>)"
    using pos run(1) find v
    by (simp add: add_event_def take_event_def tbind_def tx_uuid_def mark_projection_dirty_def treturn_def event_by_id_def
        treq_def event_rpc_of_def projection_def tx_read_def)
  with run(2) ids ev show ?thesis by force
qed

definition sample_take :: imported_take where
  "sample_take = \<lparr>it_ordinal = 4, it_duration = 2, it_ctx = \<lparr>ctx_rate = 25, ctx_offset = 0\<rparr>, it_started = None\<rparr>"

lemma imported_take_anchored_witness:
  "\<exists>v1 v2 p s'. anchor_imported_take sample_take (sample_env ''u'') (begin_tx sample_db 0 0) = (Inr (v1, v2, p), s') \<and>
     map ev_message (db_events (st_db s')) = [''Recording 4 Started'', ''Recording 4 Stopped'']"
proof -
  let ?e = "sample_env ''u''" and ?s = "begin_tx sample_db 0 0"
  have rr: "round_rate 25 = 25" by code_simp
  have tr: "db_transport (st_db ?s) = Some default_transport" by (simp add: begin_tx_def sample_db_def)
  obtain v1 p1 s1 r1 where a1: "add_event (take_event sample_take '' Started'' None) ?e ?s = (Inr (v1, p1), s1)"
    "db_catalog (st_db s1) \<noteq> None" "st_ids s1 = 1" "db_events (st_db s1) = [r1]" "row_id r1 = env_uuid ?e 0"
    using add_take_event_answers [of sample_take ?s ?e "'' Started''" None]
    by (force simp: sample_take_def begin_tx_def sample_db_def rr)
  have t1: "db_transport (st_db s1) = Some default_transport"
    using preservesD [OF transport_add_event _ a1(1), of "Some default_transport"] tr by (simp add: holds_def)
  let ?f = "\<lambda>r::transport_row. r\<lparr>is_rolling := False, roll_started_at_utc := None,
     elapsed_frames := elapsed_frames (transport_of (st_db s1)) + duration_frames (it_duration sample_take) (ctx_rate (it_ctx sample_take))\<rparr>"
  obtain d n where st: "transport_stmt ?f (st_db s1) = Inr (d, n)" "db_catalog d = db_catalog (st_db s1)"
    "db_events d = db_events (st_db s1)"
    by (auto simp: transport_stmt_def t1)
  from db_run_answers [of "transport_stmt ?f" s1, OF st(1)] st(2) a1(2) obtain s2 where
    s2: "db_run (transport_stmt ?f) ?e s1 = (Inr n, s2)" "db_catalog (st_db s2) \<noteq> None" by auto
  have e2: "db_events (st_db s2) = [r1]" "st_ids s2 = 1"
    using s2(1) st a1(3,4) by (auto simp: db_run_Inr advance_Inr split: if_splits)
  have stop: "stop_take_with_duration (it_duration sample_take) (it_ctx sample_take) True ?e s1 =
      (Inr (live_projection (st_db s2)), s2\<lparr>st_dirty := True\<rparr>)"
    using s2(1) by (simp add: stop_take_with_duration_def tbind_def get_transport_row_def tx_read_def
        mark_projection_dirty_def treturn_def projection_def)
  obtain v2 p2 s3 where a2: "add_event (take_event sample_take '' Stopped'' None) ?e (s2\<lparr>st_dirty := True\<rparr>) = (Inr (v2, p2), s3)"
    using add_take_event_answers [of sample_take "s2\<lparr>st_dirty := True\<rparr>" ?e "'' Stopped''" None] s2(2) e2 a1(5)
    by (force simp: sample_take_def sample_env_def rr)
  obtain s' where run: "anchor_imported_take sample_take ?e ?s = (Inr (v1, v2, p2), s')"
    using a1(1) stop a2 tr
    by (simp add: anchor_imported_take_def anchor_take_body_def tbind_def get_transport_row_def tx_read_def transport_of_def
        default_transport_def revision_def broadcast_def treturn_def sample_take_def)
  have "int_string 4 = ''4''" by code_simp
  with imported_take_anchored [OF tr run] run show ?thesis
    by (force simp: sample_take_def begin_tx_def sample_db_def)
qed

end
