(* ===== verification/TranscriptRemap.thy ===== *)
theory TranscriptRemap
  imports HubRpcs JsSort
begin

section \<open>Remapping a transcript onto the session's timeline\<close>

text \<open>
  packages/transcription/src/transcriptRemap.ts, and the part of generateTranscript.ts that feeds it:
  the provider's words, paragraphs and sentiment, timed within a group's audio file, are placed on the
  session's timeline through the \<open>Recording N Started\<close> events. A comparison of two instants of which one
  does not parse is NaN, which \<open>Array.prototype.sort\<close> reads as equal; the order such a comparison gives is
  the engine's, here that of a stable insertion. Paths are strings without a NUL character.
\<close>

subsection \<open>Anchors\<close>

record start_anchor =
  ra_ordinal :: num64
  ra_seconds :: num64
  ra_wall :: "iso option"

text \<open>\<open>Number\<close> of a run of digits; \<open>infinity64\<close> stands for the infinity of a run too long.\<close>

definition infinity64 :: num64 where "infinity64 = 2 ^ 1024"

definition digits_number :: "string \<Rightarrow> num64" where
  "digits_number ds = (case finite64 (fl (of_nat (digits_val ds))) of None \<Rightarrow> infinity64 | Some x \<Rightarrow> x)"

text \<open>\<open>/^Recording (\d+) Started$/\<close>.\<close>

definition recording_started :: "string \<Rightarrow> num64 option" where
  "recording_started m = (case strip_front ''Recording '' m of
     None \<Rightarrow> None
   | Some r \<Rightarrow> (case take_digits r of (ds, rest) \<Rightarrow>
       if ds \<noteq> [] \<and> rest = '' Started'' then Some (digits_number ds) else None))"

definition start_anchor_of :: "event_rpc \<Rightarrow> start_anchor option" where
  "start_anchor_of ev = (if js_lower (category ev) \<noteq> ''internal'' then None else
     (case recording_started (js_trim (message ev)) of
        None \<Rightarrow> None
      | Some n \<Rightarrow> (case (frame_rate ev, timecode_total_frames ev) of
          (Some r, Some tf) \<Rightarrow> if 0 < r then
              Some \<lparr>ra_ordinal = n, ra_seconds = dbl_div (of_int tf) r, ra_wall = Some (wall_time_utc ev)\<rparr> else None
        | _ \<Rightarrow> None)))"

definition recording_start_anchors :: "event_rpc list \<Rightarrow> start_anchor list" where
  "recording_start_anchors evs = List.map_filter start_anchor_of evs"

text \<open>\<open>Date.parse\<close> of a text that may be missing or empty.\<close>

definition instant :: "iso option \<Rightarrow> int option" where
  "instant t = (case t of None \<Rightarrow> None | Some s \<Rightarrow> date_parse s)"

subsection \<open>Segments and their seams\<close>

record remap_seam =
  rs_offset :: num64
  rs_started :: "iso option"

record segment_info =
  gi_path :: string
  gi_ordinal :: int
  gi_recording :: "int option"
  gi_started :: "iso option"
  gi_seams :: "remap_seam list option"

definition seam_key :: "string \<Rightarrow> nat \<Rightarrow> string" where
  "seam_key p i = p @ CHR 0x00 # ''seam:'' @ nat_digits i"

definition seams_of_info :: "segment_info \<Rightarrow> remap_seam list" where
  "seams_of_info s = (case gi_seams s of None \<Rightarrow> [] | Some ss \<Rightarrow> ss)"

definition expand_seams :: "segment_info list \<Rightarrow> segment_info list" where
  "expand_seams infos = concat (map (\<lambda>s. if seams_of_info s = [] then [s] else
     map (\<lambda>(i, x). \<lparr>gi_path = seam_key (gi_path s) i, gi_ordinal = gi_ordinal s, gi_recording = gi_recording s,
         gi_started = rs_started x, gi_seams = None\<rparr>) (enumerate 0 (seams_of_info s))) infos)"

subsection \<open>Chunk groups\<close>

record chunk_group =
  cg_base :: segment_info
  cg_members :: "segment_info list"
  cg_paired :: "nat option"

text \<open>A \<open>Map\<close> of lists, in insertion order.\<close>

fun push :: "'k \<Rightarrow> 'v \<Rightarrow> ('k \<times> 'v list) list \<Rightarrow> ('k \<times> 'v list) list" where
  "push k v [] = [(k, [v])]"
| "push k v ((k', vs) # m) = (if k' = k then (k', vs @ [v]) # m else (k', vs) # push k v m)"

definition group_by :: "('v \<Rightarrow> 'k) \<Rightarrow> 'v list \<Rightarrow> ('k \<times> 'v list) list" where
  "group_by f vs = fold (\<lambda>v. push (f v) v) vs []"

definition instants_apart :: "int option \<Rightarrow> int option \<Rightarrow> int" where
  "instants_apart a b = (case (a, b) of (Some x, Some y) \<Rightarrow> x - y | _ \<Rightarrow> 0)"

definition anchor_wall :: "start_anchor list \<Rightarrow> nat \<Rightarrow> int option" where
  "anchor_wall anchors i = instant (ra_wall (anchors ! i))"

definition anchors_of_ordinal :: "start_anchor list \<Rightarrow> int \<Rightarrow> nat list" where
  "anchors_of_ordinal anchors n = filter (\<lambda>i. ra_ordinal (anchors ! i) = of_int n) [0..<length anchors]"

definition cycle_anchors :: "start_anchor list \<Rightarrow> int \<Rightarrow> nat list" where
  "cycle_anchors anchors n = js_sort (\<lambda>i j. instants_apart (anchor_wall anchors i) (anchor_wall anchors j))
     (anchors_of_ordinal anchors n)"

text \<open>The last candidate whose wall time is at or before the segment's.\<close>

definition nearest_preceding :: "start_anchor list \<Rightarrow> nat list \<Rightarrow> int \<Rightarrow> nat option" where
  "nearest_preceding anchors cand seg = fold (\<lambda>(i, c) chosen. case anchor_wall anchors c of
      Some ev \<Rightarrow> if ev \<le> seg then Some i else chosen
    | None \<Rightarrow> chosen) (enumerate 0 cand) None"

definition first_free :: "'a list list \<Rightarrow> nat" where
  "first_free cycles = (case find (\<lambda>i. cycles ! i = []) [0..<length cycles] of None \<Rightarrow> 0 | Some i \<Rightarrow> i)"

definition add_to_cycle ::
  "start_anchor list \<Rightarrow> nat list \<Rightarrow> segment_info \<Rightarrow> segment_info list list \<Rightarrow> segment_info list list" where
  "add_to_cycle anchors cand s cycles =
     (let chosen = (case (case instant (gi_started s) of None \<Rightarrow> None | Some t \<Rightarrow> nearest_preceding anchors cand t) of
          Some i \<Rightarrow> i | None \<Rightarrow> first_free cycles)
      in cycles[chosen := cycles ! chosen @ [s]])"

definition by_ordinal :: "segment_info list \<Rightarrow> segment_info list" where
  "by_ordinal ms = order_by gi_ordinal ms"

definition groups_of_ordinal :: "start_anchor list \<Rightarrow> int option \<times> segment_info list \<Rightarrow> chunk_group list" where
  "groups_of_ordinal anchors g = (case g of (ordinal, found) \<Rightarrow> let members = by_ordinal found in
     (case ordinal of
        None \<Rightarrow> map (\<lambda>s. \<lparr>cg_base = s, cg_members = [s], cg_paired = None\<rparr>) members
      | Some n \<Rightarrow> let cand = cycle_anchors anchors n in
          if length cand \<le> 1 then [\<lparr>cg_base = hd members, cg_members = members, cg_paired = None\<rparr>] else
          let cycles = fold (add_to_cycle anchors cand) members (map (\<lambda>_. []) cand) in
          List.map_filter (\<lambda>(i, c). if c = [] then None else
            Some (let ms = by_ordinal c in \<lparr>cg_base = hd ms, cg_members = ms, cg_paired = Some (cand ! i)\<rparr>))
            (enumerate 0 cycles)))"

definition build_chunk_groups :: "segment_info list \<Rightarrow> start_anchor list \<Rightarrow> chunk_group list" where
  "build_chunk_groups infos anchors = concat (map (groups_of_ordinal anchors) (group_by gi_recording infos))"

subsection \<open>Resolving the groups' anchors\<close>

record claims =
  cl_used :: "bool list"
  cl_resolved :: "(nat \<times> nat) list" \<comment> \<open>group, anchor\<close>
  cl_unmatched :: "nat list"

text \<open>Step 1: the base of a group claims its paired anchor, or the first free one of its ordinal.\<close>

definition claim_candidate :: "start_anchor list \<Rightarrow> bool list \<Rightarrow> chunk_group \<Rightarrow> nat option" where
  "claim_candidate anchors used g = (case cg_paired g of
     Some p \<Rightarrow> if used ! p then None else Some p
   | None \<Rightarrow> (case gi_recording (cg_base g) of
       None \<Rightarrow> None
     | Some n \<Rightarrow> find (\<lambda>i. \<not> used ! i) (order_by (\<lambda>i. ra_seconds (anchors ! i)) (anchors_of_ordinal anchors n))))"

definition claim_group :: "start_anchor list \<Rightarrow> nat \<times> chunk_group \<Rightarrow> claims \<Rightarrow> claims" where
  "claim_group anchors g c = (case claim_candidate anchors (cl_used c) (snd g) of
     None \<Rightarrow> c\<lparr>cl_unmatched := cl_unmatched c @ [fst g]\<rparr>
   | Some i \<Rightarrow> c\<lparr>cl_used := (cl_used c)[i := True], cl_resolved := cl_resolved c @ [(fst g, i)]\<rparr>)"

text \<open>Step 2: the groups left over and the anchors left over are paired in order.\<close>

definition free_anchors :: "start_anchor list \<Rightarrow> bool list \<Rightarrow> nat list" where
  "free_anchors anchors used = order_by (\<lambda>i. (ra_seconds (anchors ! i), ra_ordinal (anchors ! i)))
     (filter (\<lambda>i. \<not> used ! i) [0..<length anchors])"

definition resolve_groups :: "start_anchor list \<Rightarrow> chunk_group list \<Rightarrow> (nat \<times> nat) list" where
  "resolve_groups anchors groups =
     (let sorted_groups = order_by (\<lambda>g. gi_ordinal (cg_base (snd g))) (enumerate 0 groups);
          c = fold (claim_group anchors) sorted_groups
            \<lparr>cl_used = map (\<lambda>_. False) anchors, cl_resolved = [], cl_unmatched = []\<rparr>
      in cl_resolved c @ zip (cl_unmatched c) (free_anchors anchors (cl_used c)))"

text \<open>A member's own anchor, from its wall time and the event's.\<close>

definition seconds_after :: "num64 \<Rightarrow> int \<Rightarrow> int \<Rightarrow> num64" where
  "seconds_after a t t0 = dbl_add a (max 0 (dbl_div (of_int (t - t0)) 1000))"

definition member_anchor :: "start_anchor \<Rightarrow> chunk_group \<Rightarrow> bool \<Rightarrow> segment_info \<Rightarrow> num64 option" where
  "member_anchor a g is_base m = (case (instant (ra_wall a), instant (gi_started m)) of
     (Some ev, Some t) \<Rightarrow> Some (seconds_after (ra_seconds a) t ev)
   | (None, mt) \<Rightarrow> if is_base then Some (ra_seconds a) else
       (case (mt, instant (gi_started (cg_base g))) of
          (Some t, Some b) \<Rightarrow> Some (seconds_after (ra_seconds a) t b)
        | _ \<Rightarrow> None)
   | (Some ev, None) \<Rightarrow> if length (cg_members g) = 1 then Some (ra_seconds a) else None)"

definition set_member_anchors :: "start_anchor \<Rightarrow> chunk_group \<Rightarrow> (string \<rightharpoonup> num64) \<Rightarrow> (string \<rightharpoonup> num64)" where
  "set_member_anchors a g = fold (\<lambda>(i, m) res. case member_anchor a g (i = 0) m of
      None \<Rightarrow> res | Some x \<Rightarrow> res(gi_path m \<mapsto> x)) (enumerate 0 (cg_members g))"

definition resolve_anchors :: "segment_info list \<Rightarrow> start_anchor list \<Rightarrow> (string \<rightharpoonup> num64)" where
  "resolve_anchors infos anchors =
     (let groups = build_chunk_groups infos anchors; resolved = resolve_groups anchors groups in
      fold (\<lambda>(k, g) res. case map_of resolved k of
          None \<Rightarrow> res | Some i \<Rightarrow> set_member_anchors (anchors ! i) g res) (enumerate 0 groups) Map.empty)"

subsection \<open>Placing an interval\<close>

record segment_offset =
  so_path :: string
  so_offset :: num64
  so_duration :: num64

definition seam_fuzz :: num64 where "seam_fuzz = fl (1 / 1000000)"

definition segment_for_offset :: "segment_offset list \<Rightarrow> num64 \<Rightarrow> segment_offset option" where
  "segment_for_offset segs t = (case takeWhile (\<lambda>s. so_offset s \<le> dbl_add t seam_fuzz) segs of
     [] \<Rightarrow> (case segs of [] \<Rightarrow> None | s # _ \<Rightarrow> Some s)
   | p # ps \<Rightarrow> Some (last (p # ps)))"

definition seam_index :: "remap_seam list \<Rightarrow> num64 \<Rightarrow> nat" where
  "seam_index seams inner = length (takeWhile (\<lambda>x. rs_offset x \<le> dbl_add inner seam_fuzz) seams) - 1"

record placement =
  at_start :: "num64 option"
  at_end :: "num64 option"
  at_info :: "segment_info option"

definition place_on :: "(string \<rightharpoonup> num64) \<Rightarrow> string \<Rightarrow> num64 \<Rightarrow> num64 \<Rightarrow> num64 \<Rightarrow> segment_info \<Rightarrow> placement" where
  "place_on anchors key unit_start t0 t1 info = (case anchors key of
     None \<Rightarrow> \<lparr>at_start = None, at_end = None, at_info = Some info\<rparr>
   | Some a \<Rightarrow> \<lparr>at_start = Some (dbl_add a (dbl_sub t0 unit_start)), at_end = Some (dbl_add a (dbl_sub t1 unit_start)),
       at_info = Some info\<rparr>)"

definition resolve_group_interval :: "num64 \<Rightarrow> num64 \<Rightarrow> segment_offset list \<Rightarrow> (string \<rightharpoonup> num64) \<Rightarrow>
    (string \<rightharpoonup> segment_info) \<Rightarrow> placement" where
  "resolve_group_interval t0 t1 segs anchors info_by_path = (case segment_for_offset segs t0 of
     None \<Rightarrow> \<lparr>at_start = None, at_end = None, at_info = None\<rparr>
   | Some seg \<Rightarrow> (case info_by_path (so_path seg) of
       None \<Rightarrow> \<lparr>at_start = None, at_end = None, at_info = None\<rparr>
     | Some info \<Rightarrow> let seams = seams_of_info info in
         if seams = [] then place_on anchors (gi_path info) (so_offset seg) t0 t1 info else
         let k = seam_index seams (dbl_sub t0 (so_offset seg)) in
         place_on anchors (seam_key (gi_path info) k) (dbl_add (so_offset seg) (rs_offset (seams ! k))) t0 t1 info))"

subsection \<open>The words\<close>

record provider_word =
  pw_word :: string
  pw_start :: num64
  pw_end :: num64
  pw_speaker :: num64

record provider_paragraph =
  pp_speaker :: num64
  pp_start :: num64
  pp_end :: num64
  pp_text :: string

record provider_sentiment =
  ps_text :: string
  ps_start_word :: num64
  ps_end_word :: num64
  ps_sentiment :: string
  ps_score :: num64

record word_group =
  wg_segments :: "segment_offset list"
  wg_words :: "provider_word list"
  wg_paragraphs :: "provider_paragraph list"
  wg_sentiments :: "provider_sentiment list"

definition max_safe_integer :: int where "max_safe_integer = 2 ^ 53 - 1"

record 'a placed =
  pl_ordinal :: int
  pl_order :: nat
  pl_start :: "num64 option"
  pl_end :: "num64 option"
  pl_item :: 'a

definition info_ordinal :: "placement \<Rightarrow> int" where
  "info_ordinal p = (case at_info p of None \<Rightarrow> max_safe_integer | Some s \<Rightarrow> gi_ordinal s)"

definition sorted_segments :: "word_group \<Rightarrow> segment_offset list" where
  "sorted_segments g = order_by so_offset (wg_segments g)"

definition info_by_path :: "segment_info list \<Rightarrow> (string \<rightharpoonup> segment_info)" where
  "info_by_path infos = map_of (rev (map (\<lambda>s. (gi_path s, s)) infos))"

text \<open>Anchored items by their start, then the anchorless by segment; both stable.\<close>

definition anchored_first :: "'a placed list \<Rightarrow> 'a placed list" where
  "anchored_first ps = order_by (\<lambda>p. (the (pl_start p), pl_order p)) (filter (\<lambda>p. pl_start p \<noteq> None) ps)"

definition anchorless_last :: "'a placed list \<Rightarrow> 'a placed list" where
  "anchorless_last ps = order_by (\<lambda>p. (pl_ordinal p, pl_order p)) (filter (\<lambda>p. pl_start p = None) ps)"

definition two_bucket_order :: "'a placed list \<Rightarrow> 'a placed list" where
  "two_bucket_order ps = anchored_first ps @ anchorless_last ps"

definition render_smpte :: "num64 \<Rightarrow> num64 \<Rightarrow> string option" where
  "render_smpte sec rate = map_option format_smpte (from_total_frames (max 0 (js_round (dbl_mul sec rate))) rate)"

definition place_words :: "word_group list \<Rightarrow> segment_info list \<Rightarrow> start_anchor list \<Rightarrow> provider_word placed list" where
  "place_words groups infos anchors =
     (let am = resolve_anchors (expand_seams infos) anchors; im = info_by_path infos in
      map (\<lambda>(n, segs, w). let p = resolve_group_interval (pw_start w) (pw_end w) segs am im in
          \<lparr>pl_ordinal = info_ordinal p, pl_order = n, pl_start = at_start p, pl_end = at_end p, pl_item = w\<rparr>)
        (enumerate 0 (concat (map (\<lambda>g. map (Pair (sorted_segments g)) (wg_words g)) groups))))"

definition anchored_word :: "num64 \<Rightarrow> provider_word placed \<Rightarrow> timed_word option" where
  "anchored_word rate p = map_option (\<lambda>t. \<lparr>wi_session_time = t, wi_speaker = num_string (pw_speaker (pl_item p)),
      wi_word = pw_word (pl_item p), wi_start = the (pl_start p), wi_end = the (pl_end p)\<rparr>)
     (render_smpte (the (pl_start p)) rate)"

definition anchorless_word :: "provider_word placed \<Rightarrow> timed_word" where
  "anchorless_word p = \<lparr>wi_session_time = [], wi_speaker = num_string (pw_speaker (pl_item p)),
      wi_word = pw_word (pl_item p), wi_start = 0, wi_end = 0\<rparr>"

definition remap_transcript_words ::
  "word_group list \<Rightarrow> segment_info list \<Rightarrow> start_anchor list \<Rightarrow> num64 \<Rightarrow> terr + timed_word list" where
  "remap_transcript_words groups infos anchors rate = (let ps = place_words groups infos anchors in
     case those (map (anchored_word rate) (anchored_first ps)) of
       None \<Rightarrow> Inl FrameRateError
     | Some ws \<Rightarrow> Inr (ws @ map anchorless_word (anchorless_last ps)))"

subsection \<open>The enrichment\<close>

definition clamp_word_index :: "num64 \<Rightarrow> nat \<Rightarrow> nat" where
  "clamp_word_index raw n = nat (min (max (js_trunc raw) 0) (int n - 1))"

definition leading_token :: "string \<Rightarrow> string" where
  "leading_token t = takeWhile (\<lambda>c. \<not> is_space c) (js_trim t)"

definition word_matches_leading_token :: "provider_word \<Rightarrow> string \<Rightarrow> bool" where
  "word_matches_leading_token w t \<longleftrightarrow> leading_token t \<noteq> [] \<and> leading_token t = pw_word w"

text \<open>A placed item before its place in the output order is known: segment ordinal, start, end, item.\<close>

type_synonym 'a unordered = "int \<times> num64 option \<times> num64 option \<times> 'a"

definition place_paragraph ::
  "(string \<rightharpoonup> num64) \<Rightarrow> (string \<rightharpoonup> segment_info) \<Rightarrow> word_group \<Rightarrow> provider_paragraph \<Rightarrow> provider_paragraph unordered" where
  "place_paragraph am im g p = (let r = resolve_group_interval (pp_start p) (pp_end p) (sorted_segments g) am im in
     (info_ordinal r, at_start r,
      (case at_start r of None \<Rightarrow> None | Some s \<Rightarrow> Some (max (case at_end r of None \<Rightarrow> s | Some x \<Rightarrow> x) s)), p))"

definition place_sentiment ::
  "(string \<rightharpoonup> num64) \<Rightarrow> (string \<rightharpoonup> segment_info) \<Rightarrow> word_group \<Rightarrow> provider_sentiment \<Rightarrow> provider_sentiment unordered" where
  "place_sentiment am im g x = (let n = length (wg_words g); i = clamp_word_index (ps_start_word x) n;
       j = max (clamp_word_index (ps_end_word x) n) i;
       pos = map (\<lambda>w. resolve_group_interval (pw_start w) (pw_end w) (sorted_segments g) am im) (wg_words g);
       ok = word_matches_leading_token (wg_words g ! i) (ps_text x) \<and> at_start (pos ! i) \<noteq> None \<and>
         at_end (pos ! j) \<noteq> None
     in (info_ordinal (pos ! i), (if ok then at_start (pos ! i) else None),
       (if ok then Some (max (the (at_end (pos ! j))) (the (at_start (pos ! i)))) else None), x))"

definition numbered_items :: "'a unordered list \<Rightarrow> 'a placed list" where
  "numbered_items xs = map (\<lambda>(n, ordinal, s, t, x).
     \<lparr>pl_ordinal = ordinal, pl_order = n, pl_start = s, pl_end = t, pl_item = x\<rparr>) (enumerate 0 xs)"

definition remap_transcript_enrichment ::
  "word_group list \<Rightarrow> segment_info list \<Rightarrow> start_anchor list \<Rightarrow> enrichment" where
  "remap_transcript_enrichment groups infos anchors =
     (let am = resolve_anchors (expand_seams infos) anchors; im = info_by_path infos;
          paragraphs = numbered_items (concat (map (\<lambda>g. map (place_paragraph am im g) (wg_paragraphs g)) groups));
          sentiments = numbered_items (concat (map (\<lambda>g. if wg_words g = [] then [] else
              map (place_sentiment am im g) (wg_sentiments g)) groups))
      in \<lparr>en_paragraphs = map (\<lambda>p. \<lparr>pi_start = pl_start p, pi_end = pl_end p,
              pi_speaker = num_string (pp_speaker (pl_item p)), pi_text = pp_text (pl_item p)\<rparr>) (two_bucket_order paragraphs),
          en_sentiment = map (\<lambda>s. \<lparr>si_start = pl_start s, si_end = pl_end s, si_sentiment = ps_sentiment (pl_item s),
              si_score = ps_score (pl_item s), si_text = ps_text (pl_item s)\<rparr>) (two_bucket_order sentiments)\<rparr>)"

subsection \<open>The remap a generation run passes to the hub\<close>

definition segment_seams :: "audio_meta \<Rightarrow> remap_seam list option" where
  "segment_seams s = (case am_seams s of None \<Rightarrow> None | Some ss \<Rightarrow> if ss = [] then None else
     Some (map (\<lambda>x. \<lparr>rs_offset = dbl_div (of_int (ss_offset x)) 1000, rs_started = Some (ss_started x)\<rparr>) ss))"

definition segment_infos :: "(string \<Rightarrow> string) \<Rightarrow> audio_meta list \<Rightarrow> segment_info list" where
  "segment_infos key_path segs = map (\<lambda>s. \<lparr>gi_path = key_path (am_key s), gi_ordinal = am_ordinal s,
     gi_recording = am_recording s, gi_started = am_started s, gi_seams = segment_seams s\<rparr>) segs"

definition no_speech :: terr where "no_speech = RemapFailed ''no_speech''"

definition transcript_remap ::
  "word_group list \<Rightarrow> segment_info list \<Rightarrow> num64 \<Rightarrow> event_rpc list \<Rightarrow> terr + (timed_word list \<times> enrichment)" where
  "transcript_remap groups infos rate evs = (let anchors = recording_start_anchors evs in
     case remap_transcript_words groups infos anchors rate of
       Inl er \<Rightarrow> Inl er
     | Inr ws \<Rightarrow> if ws = [] then Inl no_speech else Inr (ws, remap_transcript_enrichment groups infos anchors))"

subsection \<open>Every word is kept, in timeline order\<close>

lemma mset_order_by [simp]: "mset (order_by k xs) = mset xs"
  by (simp add: order_by_def)

lemma those_Some: "those (map f xs) = Some ys \<Longrightarrow> list_all2 (\<lambda>x y. f x = Some y) xs ys"
  by (induction xs arbitrary: ys) (auto split: option.splits)

lemma those_total: "\<forall>x\<in>set xs. f x \<noteq> None \<Longrightarrow> \<exists>ys. those (map f xs) = Some ys"
  by (induction xs) auto

lemma sorted_by_first: "sorted (map (\<lambda>x. (f x, g x)) xs) \<Longrightarrow> sorted (map f xs)"
  for f :: "'a \<Rightarrow> 'b::linorder" and g :: "'a \<Rightarrow> 'c::linorder"
  by (induction xs) (auto simp: less_eq_prod_def)

lemma mset_split_starts:
  "mset (anchored_first ps) + mset (anchorless_last ps) = mset ps"
  by (simp add: anchored_first_def anchorless_last_def)

lemma place_words_items:
  "map pl_item (place_words groups infos anchors) = concat (map wg_words groups)"
proof -
  have "map pl_item (place_words groups infos anchors) =
      map (snd \<circ> snd) (enumerate 0 (concat (map (\<lambda>g. map (Pair (sorted_segments g)) (wg_words g)) groups)))"
    by (simp add: place_words_def Let_def case_prod_beta)
  also have "\<dots> = map snd (concat (map (\<lambda>g. map (Pair (sorted_segments g)) (wg_words g)) groups))"
    by (simp flip: map_map)
  also have "\<dots> = concat (map wg_words groups)"
    by (simp add: map_concat o_def)
  finally show ?thesis .
qed

lemma render_smpte_total: "0 < rate \<Longrightarrow> \<exists>t. render_smpte sec rate = Some t"
  by (simp add: render_smpte_def from_total_frames_def Let_def)

lemma anchored_word_fields:
  "anchored_word rate p = Some w \<Longrightarrow> wi_start w = the (pl_start p) \<and> render_smpte (wi_start w) rate = Some (wi_session_time w) \<and>
     wi_speaker w = num_string (pw_speaker (pl_item p)) \<and> wi_word w = pw_word (pl_item p)"
  by (auto simp: anchored_word_def)

text \<open>C28: The remap of a transcript loses no word and invents none: for a positive frame rate it answers, with
  each of the provider's words exactly once, first the anchored words in the order of their time on the
  session's timeline, each with that time as SMPTE text, and after them the words of unanchored audio with an
  empty time and zeros.\<close>

theorem remap_words_complete:
  assumes rate: "0 < rate"
  shows "\<exists>anchored rest. remap_transcript_words groups infos anchors rate = Inr (anchored @ rest) \<and>
    mset (map (\<lambda>w. (wi_speaker w, wi_word w)) (anchored @ rest)) =
      mset (map (\<lambda>w. (num_string (pw_speaker w), pw_word w)) (concat (map wg_words groups))) \<and>
    sorted (map wi_start anchored) \<and>
    (\<forall>w\<in>set anchored. render_smpte (wi_start w) rate = Some (wi_session_time w)) \<and>
    (\<forall>w\<in>set rest. wi_session_time w = [] \<and> wi_start w = 0 \<and> wi_end w = 0)"
proof -
  let ?ps = "place_words groups infos anchors"
  let ?a = "anchored_first ?ps" and ?l = "anchorless_last ?ps"
  have "\<forall>p\<in>set ?a. anchored_word rate p \<noteq> None"
    using render_smpte_total [OF rate] by (auto simp: anchored_word_def)
  from those_total [OF this] obtain ws where ws: "those (map (anchored_word rate) ?a) = Some ws" by blast
  note l2 = those_Some [OF ws]
  have run: "remap_transcript_words groups infos anchors rate = Inr (ws @ map anchorless_word ?l)"
    by (simp add: remap_transcript_words_def Let_def ws)
  have starts: "map wi_start ws = map (\<lambda>p. the (pl_start p)) ?a"
    using l2 by (induction rule: list_all2_induct) (auto dest: anchored_word_fields)
  have "sorted (map (\<lambda>p. the (pl_start p)) ?a)"
    unfolding anchored_first_def by (rule sorted_by_first) (rule sorted_order_by)
  then have "sorted (map wi_start ws)" by (simp add: starts)
  moreover have "\<forall>w\<in>set ws. render_smpte (wi_start w) rate = Some (wi_session_time w)"
    using l2 by (induction rule: list_all2_induct) (auto dest: anchored_word_fields)
  moreover have items: "map (\<lambda>w. (wi_speaker w, wi_word w)) ws = map (\<lambda>p. (num_string (pw_speaker (pl_item p)), pw_word (pl_item p))) ?a"
    using l2 by (induction rule: list_all2_induct) (auto dest: anchored_word_fields)
  moreover have "mset (map (\<lambda>w. (wi_speaker w, wi_word w)) (ws @ map anchorless_word ?l)) =
      mset (map (\<lambda>w. (num_string (pw_speaker w), pw_word w)) (concat (map wg_words groups)))"
  proof -
    have "mset (map (\<lambda>w. (wi_speaker w, wi_word w)) (ws @ map anchorless_word ?l)) =
        image_mset (\<lambda>p. (num_string (pw_speaker (pl_item p)), pw_word (pl_item p))) (mset ?a + mset ?l)"
    proof -
      have rest: "map (\<lambda>w. (wi_speaker w, wi_word w)) (map anchorless_word ?l) =
          map (\<lambda>p. (num_string (pw_speaker (pl_item p)), pw_word (pl_item p))) ?l"
        by (simp add: anchorless_word_def)
      show ?thesis unfolding map_append items rest by (simp only: mset_append mset_map image_mset_union)
    qed
    also have "\<dots> = mset (map (\<lambda>w. (num_string (pw_speaker w), pw_word w)) (map pl_item ?ps))"
      unfolding mset_split_starts by (simp only: mset_map map_map o_def)
    finally show ?thesis by (simp only: place_words_items)
  qed
  ultimately show ?thesis
    using run by (intro exI [of _ ws] exI [of _ "map anchorless_word ?l"]) (auto simp: anchorless_word_def)
qed

subsection \<open>Anchors are claimed once\<close>

definition claims_ok :: "start_anchor list \<Rightarrow> nat list \<Rightarrow> claims \<Rightarrow> bool" where
  "claims_ok anchors seen c \<longleftrightarrow> length (cl_used c) = length anchors \<and> distinct (map snd (cl_resolved c)) \<and>
     set (map snd (cl_resolved c)) = {i. i < length anchors \<and> cl_used c ! i} \<and>
     mset (map fst (cl_resolved c)) + mset (cl_unmatched c) = mset seen"

lemma anchors_of_ordinal_range: "i \<in> set (anchors_of_ordinal anchors n) \<Longrightarrow> i < length anchors"
  by (auto simp: anchors_of_ordinal_def)

lemma add_to_cycle_length [simp]: "length (add_to_cycle anchors cand s cycles) = length cycles"
  by (simp add: add_to_cycle_def Let_def)

lemma cycles_length [simp]: "length (fold (add_to_cycle anchors cand) ms cycles) = length cycles"
  by (induction ms arbitrary: cycles) auto

lemma paired_range:
  assumes "g \<in> set (build_chunk_groups infos anchors)" "cg_paired g = Some i"
  shows "i < length anchors"
proof -
  from assms(1) obtain o' ms where g: "g \<in> set (groups_of_ordinal anchors (o', ms))"
    by (auto simp: build_chunk_groups_def)
  show ?thesis
  proof (cases o')
    case None
    with g assms(2) show ?thesis by (auto simp: groups_of_ordinal_def Let_def)
  next
    case (Some n)
    let ?cand = "cycle_anchors anchors n"
    from g Some assms(2) obtain k where "k < length ?cand" "i = ?cand ! k"
      by (auto simp: groups_of_ordinal_def Let_def List.map_filter_def in_set_enumerate_eq split: if_splits)
    then have "i \<in> set ?cand" by simp
    then show ?thesis by (auto simp: cycle_anchors_def dest: anchors_of_ordinal_range)
  qed
qed

lemma claim_candidate_free:
  assumes "claim_candidate anchors used g = Some i" "\<And>p. cg_paired g = Some p \<Longrightarrow> p < length anchors"
  shows "i < length anchors \<and> \<not> used ! i"
  using assms by (auto simp: claim_candidate_def find_Some_iff split: option.splits if_splits)
    (metis anchors_of_ordinal_range nth_mem set_order_by)

lemma claim_group_ok:
  assumes ok: "claims_ok anchors seen c" and p: "\<And>p. cg_paired g = Some p \<Longrightarrow> p < length anchors"
  shows "claims_ok anchors (k # seen) (claim_group anchors (k, g) c)"
proof (cases "claim_candidate anchors (cl_used c) g")
  case None
  with ok show ?thesis by (simp add: claim_group_def claims_ok_def)
next
  case (Some i)
  from claim_candidate_free [OF Some p] have i: "i < length anchors" "\<not> cl_used c ! i" by blast+
  with ok have "i \<notin> set (map snd (cl_resolved c))" by (simp add: claims_ok_def)
  moreover have "{j. j < length anchors \<and> (cl_used c)[i := True] ! j} = insert i {j. j < length anchors \<and> cl_used c ! j}"
    using ok i by (auto simp: claims_ok_def nth_list_update)
  ultimately show ?thesis
    using ok Some by (simp add: claim_group_def claims_ok_def)
qed

lemma claim_fold_ok:
  assumes "claims_ok anchors seen c" "\<forall>(k, g)\<in>set gs. \<forall>p. cg_paired g = Some p \<longrightarrow> p < length anchors"
  shows "claims_ok anchors (rev (map fst gs) @ seen) (fold (claim_group anchors) gs c)"
  using assms
proof (induction gs arbitrary: seen c)
  case (Cons g gs)
  obtain k h where g: "g = (k, h)" by (cases g)
  from Cons.prems(2) g have h: "\<And>p. cg_paired h = Some p \<Longrightarrow> p < length anchors" by simp
  from Cons.prems(2) have rest: "\<forall>(k, g)\<in>set gs. \<forall>p. cg_paired g = Some p \<longrightarrow> p < length anchors" by simp
  show ?case using Cons.IH [OF claim_group_ok [OF Cons.prems(1) h] rest] by (simp add: g)
qed simp

lemma split_count:
  assumes "distinct xs" "set xs = {i. i < n \<and> u i}" "distinct ys" "set ys = {i. i < n \<and> \<not> u i}"
  shows "length xs + length ys = n"
proof -
  have "set xs \<inter> set ys = {}" unfolding assms(2,4) by blast
  with assms(1,3) have d: "distinct (xs @ ys)" by simp
  have "set xs \<union> set ys = {0..<n}" unfolding assms(2,4) by auto
  with distinct_card [OF d] show ?thesis by simp
qed

lemma zip_takes:
  "map fst (zip xs ys) = take (length ys) xs"
  "map snd (zip xs ys) = take (length xs) ys"
  by (simp_all add: map_fst_zip_take map_snd_zip_take min_def)

lemma leftovers_paired:
  assumes dg: "distinct (map fst r @ us)" and sg: "set (map fst r @ us) = {0..<g}"
    and da: "distinct (map snd r)" and sa: "set (map snd r) = {i. i < a \<and> u i}"
    and df: "distinct fs" and sf: "set fs = {i. i < a \<and> \<not> u i}"
  shows "distinct (map fst (r @ zip us fs)) \<and> distinct (map snd (r @ zip us fs)) \<and>
    set (r @ zip us fs) \<subseteq> {..<g} \<times> {..<a} \<and> length (r @ zip us fs) = min g a"
proof (intro conjI)
  have disj: "set (map snd r) \<inter> set fs = {}" unfolding sa sf by blast
  show "distinct (map fst (r @ zip us fs))"
    using dg unfolding map_append zip_takes by (auto dest: in_set_takeD)
  show "distinct (map snd (r @ zip us fs))"
    using da df disj unfolding map_append zip_takes by (auto dest: in_set_takeD)
  have "k < g" "i < a" if "(k, i) \<in> set (r @ zip us fs)" for k i
  proof -
    from that have "k \<in> set (map fst r @ us)" "i \<in> set (map snd r) \<union> set fs"
      by (auto dest: set_zip_leftD set_zip_rightD intro: rev_image_eqI)
    with sg sa sf show "k < g" "i < a" by auto
  qed
  then show "set (r @ zip us fs) \<subseteq> {..<g} \<times> {..<a}"
    by (simp only: subset_iff split_paired_All mem_Sigma_iff lessThan_iff) blast
  have "length (map fst r @ us) = g" using distinct_card [OF dg] sg by simp
  with split_count [OF da sa df sf] show "length (r @ zip us fs) = min g a" by simp
qed

text \<open>Every recording start is claimed by at most one chunk group and every group by at most one start, and
  no group stays without an anchor while a start is free: the number of anchored groups is the smaller of
  the two numbers.\<close>

theorem anchors_claimed_once:
  "let groups = build_chunk_groups infos anchors; r = resolve_groups anchors groups in
     distinct (map fst r) \<and> distinct (map snd r) \<and>
     set r \<subseteq> {..<length groups} \<times> {..<length anchors} \<and>
     length r = min (length groups) (length anchors)"
proof -
  let ?groups = "build_chunk_groups infos anchors"
  let ?gs = "order_by (\<lambda>g. gi_ordinal (cg_base (snd g))) (enumerate 0 ?groups)"
  let ?c = "fold (claim_group anchors) ?gs \<lparr>cl_used = map (\<lambda>_. False) anchors, cl_resolved = [], cl_unmatched = []\<rparr>"
  let ?free = "free_anchors anchors (cl_used ?c)"
  have "\<forall>(k, g)\<in>set ?gs. \<forall>p. cg_paired g = Some p \<longrightarrow> p < length anchors"
  proof (clarsimp simp: in_set_enumerate_eq)
    fix k p assume "k < length ?groups" "cg_paired (?groups ! k) = Some p"
    then show "p < length anchors" using paired_range nth_mem by blast
  qed
  from claim_fold_ok [OF _ this, of "[]"] have ok: "claims_ok anchors (rev (map fst ?gs)) ?c"
    by (simp add: claims_ok_def)
  have keys: "mset (map fst ?gs) = mset [0..<length ?groups]"
    by (simp only: mset_map mset_order_by) (simp flip: mset_map)
  then have groups: "mset (map fst (cl_resolved ?c) @ cl_unmatched ?c) = mset [0..<length ?groups]"
    using ok by (simp add: claims_ok_def)
  then have dg: "distinct (map fst (cl_resolved ?c) @ cl_unmatched ?c)"
    and sg: "set (map fst (cl_resolved ?c) @ cl_unmatched ?c) = {0..<length ?groups}"
    using mset_eq_imp_distinct_iff [OF groups] mset_eq_setD [OF groups] by simp_all
  have da: "distinct (map snd (cl_resolved ?c))"
    and sa: "set (map snd (cl_resolved ?c)) = {i. i < length anchors \<and> cl_used ?c ! i}"
    using ok by (simp_all add: claims_ok_def)
  have free: "distinct ?free" "set ?free = {i. i < length anchors \<and> \<not> cl_used ?c ! i}"
    by (auto simp: free_anchors_def order_by_def)
  show ?thesis
    unfolding Let_def resolve_groups_def by (rule leftovers_paired [OF dg sg da sa free])
qed

subsection \<open>A merged recording keeps its transcript\<close>

lemma push_same: "fold (\<lambda>v. push (f v) v) vs [(k, ws)] = [(k, ws @ vs)]" if "\<forall>v\<in>set vs. f v = k"
  using that by (induction vs arbitrary: ws) auto

lemma group_by_same: "vs \<noteq> [] \<Longrightarrow> \<forall>v\<in>set vs. f v = k \<Longrightarrow> group_by f vs = [(k, vs)]"
  by (cases vs) (auto simp: group_by_def push_same)

lemma order_by_sorted: "sorted (map k xs) \<Longrightarrow> order_by k xs = xs"
  by (simp add: order_by_def sort_key_id_if_sorted)

lemma fold_members_other:
  "k \<notin> pt ` set ms \<Longrightarrow> fold (\<lambda>(i, m) res. case h i m of None \<Rightarrow> res | Some x \<Rightarrow> res(pt m \<mapsto> x)) (enumerate n ms) r k = r k"
  by (induction ms arbitrary: n r) (auto split: option.split)

lemma fold_members:
  assumes "m \<in> set ms" "distinct (map pt ms)" "\<And>i m. m \<in> set ms \<Longrightarrow> h i m = Some (v m)"
  shows "fold (\<lambda>(i, m) res. case h i m of None \<Rightarrow> res | Some x \<Rightarrow> res(pt m \<mapsto> x)) (enumerate n ms) r (pt m) = Some (v m)"
  using assms
proof (induction ms arbitrary: n r)
  case (Cons x xs)
  show ?case
  proof (cases "m \<in> set xs")
    case True
    with Cons show ?thesis by simp
  next
    case False
    with Cons.prems have m: "m = x" "pt x \<notin> pt ` set xs" by auto
    from Cons.prems(3) [of x n] m(1) have "h n x = Some (v x)" by simp
    with m fold_members_other [OF m(2), where h = h and n = "Suc n" and r = "r(pt x \<mapsto> v x)"] show ?thesis by simp
  qed
qed simp

lemma resolve_single_recording:
  assumes ms: "infos \<noteq> []" "\<forall>s\<in>set infos. gi_recording s = Some ro" "sorted (map gi_ordinal infos)" "distinct (map gi_path infos)"
    and started: "\<forall>s\<in>set infos. instant (gi_started s) \<noteq> None"
    and a: "ra_ordinal a = of_int ro" "instant (ra_wall a) = Some ev" and s: "s \<in> set infos"
  shows "resolve_anchors infos [a] (gi_path s) = Some (seconds_after (ra_seconds a) (the (instant (gi_started s))) ev)"
proof -
  let ?g = "\<lparr>cg_base = hd infos, cg_members = infos, cg_paired = None\<rparr>"
  have one: "cycle_anchors [a] ro = [0]" "anchors_of_ordinal [a] ro = [0]"
    using a(1) by (simp_all add: cycle_anchors_def anchors_of_ordinal_def js_sort_def)
  have groups: "build_chunk_groups infos [a] = [?g]"
    using group_by_same [of infos gi_recording "Some ro"] ms order_by_sorted [of gi_ordinal infos]
    by (simp add: build_chunk_groups_def groups_of_ordinal_def by_ordinal_def one)
  have base: "gi_recording (hd infos) = Some ro" using ms(1,2) by simp
  have "claim_candidate [a] [False] ?g = Some 0"
    using base by (simp add: claim_candidate_def one order_by_def)
  then have res: "resolve_groups [a] [?g] = [(0, 0)]"
    by (simp add: resolve_groups_def order_by_def claim_group_def)
  have "member_anchor a ?g b m = Some (seconds_after (ra_seconds a) (the (instant (gi_started m))) ev)" if "m \<in> set infos" for b m
    using started that a(2) by (auto simp: member_anchor_def)
  then have "set_member_anchors a ?g Map.empty (gi_path s) = Some (seconds_after (ra_seconds a) (the (instant (gi_started s))) ev)"
    unfolding set_member_anchors_def using fold_members [OF s ms(4), where h = "\<lambda>i. member_anchor a ?g (i = 0)"] by simp
  then show ?thesis by (simp add: resolve_anchors_def groups res)
qed

text \<open>Chunks of one recording, each with its place in the file they are merged into.\<close>

record chunk =
  ch_path :: string
  ch_ordinal :: int
  ch_started :: iso
  ch_offset :: num64
  ch_duration :: num64

definition chunk_info :: "int \<Rightarrow> chunk \<Rightarrow> segment_info" where
  "chunk_info ro c = \<lparr>gi_path = ch_path c, gi_ordinal = ch_ordinal c, gi_recording = Some ro,
     gi_started = Some (ch_started c), gi_seams = None\<rparr>"

definition chunk_segment :: "chunk \<Rightarrow> segment_offset" where
  "chunk_segment c = \<lparr>so_path = ch_path c, so_offset = ch_offset c, so_duration = ch_duration c\<rparr>"

definition merged_info :: "string \<Rightarrow> int \<Rightarrow> int \<Rightarrow> chunk list \<Rightarrow> segment_info" where
  "merged_info p ordinal ro cs = \<lparr>gi_path = p, gi_ordinal = ordinal, gi_recording = Some ro,
     gi_started = map_option ch_started (find (\<lambda>_. True) cs),
     gi_seams = Some (map (\<lambda>c. \<lparr>rs_offset = ch_offset c, rs_started = Some (ch_started c)\<rparr>) cs)\<rparr>"

definition chunks_ok :: "chunk list \<Rightarrow> bool" where
  "chunks_ok cs \<longleftrightarrow> cs \<noteq> [] \<and> distinct (map ch_path cs) \<and> sorted (map ch_ordinal cs) \<and> sorted (map ch_offset cs) \<and>
     (\<forall>c\<in>set cs. date_parse (ch_started c) \<noteq> None \<and> fl (ch_offset c) = ch_offset c)"

lemma segment_for_offset_index:
  "segs \<noteq> [] \<Longrightarrow> segment_for_offset segs t =
     Some (segs ! (length (takeWhile (\<lambda>s. so_offset s \<le> dbl_add t seam_fuzz) segs) - 1))"
proof -
  assume ne: "segs \<noteq> []"
  let ?P = "\<lambda>s. so_offset s \<le> dbl_add t seam_fuzz" and ?w = "takeWhile (\<lambda>s. so_offset s \<le> dbl_add t seam_fuzz) segs"
  show ?thesis
  proof (cases "?w = []")
    case True
    with ne show ?thesis by (auto simp: segment_for_offset_def hd_conv_nth split: list.split)
  next
    case False
    then have "last ?w = ?w ! (length ?w - 1)" by (rule last_conv_nth)
    also have "\<dots> = segs ! (length ?w - 1)" using False by (intro takeWhile_nth) simp
    finally show ?thesis using False by (cases ?w) (auto simp: segment_for_offset_def)
  qed
qed

lemma expand_chunks: "expand_seams (map (chunk_info ro) cs) = map (chunk_info ro) cs"
  by (induction cs) (simp_all add: expand_seams_def chunk_info_def seams_of_info_def)

lemma seam_key_inject: "seam_key p i = seam_key p j \<longleftrightarrow> i = j"
  by (simp add: seam_key_def nat_digits_inject)

definition seam_info :: "string \<Rightarrow> int \<Rightarrow> int \<Rightarrow> nat \<times> chunk \<Rightarrow> segment_info" where
  "seam_info p ordinal ro x = \<lparr>gi_path = seam_key p (fst x), gi_ordinal = ordinal, gi_recording = Some ro,
     gi_started = Some (ch_started (snd x)), gi_seams = None\<rparr>"

lemma expand_merged:
  "cs \<noteq> [] \<Longrightarrow> expand_seams [merged_info p ordinal ro cs] = map (seam_info p ordinal ro) (enumerate 0 cs)"
  by (auto simp: expand_seams_def merged_info_def seams_of_info_def seam_info_def enumerate_eq_zip zip_map2 case_prod_beta)

lemma anchored_chunks:
  assumes ok: "chunks_ok cs" and a: "ra_ordinal a = of_int ro" "instant (ra_wall a) = Some ev" and k: "k < length cs"
  defines "x \<equiv> seconds_after (ra_seconds a) (the (date_parse (ch_started (cs ! k)))) ev"
  shows "resolve_anchors (expand_seams (map (chunk_info ro) cs)) [a] (ch_path (cs ! k)) = Some x"
    and "resolve_anchors (expand_seams [merged_info p ordinal ro cs]) [a] (seam_key p k) = Some x"
proof -
  have ne: "cs \<noteq> []" using ok by (simp add: chunks_ok_def)
  have k': "cs ! k \<in> set cs" using k by simp
  show "resolve_anchors (expand_seams (map (chunk_info ro) cs)) [a] (ch_path (cs ! k)) = Some x"
    using resolve_single_recording [of "map (chunk_info ro) cs" ro a ev "chunk_info ro (cs ! k)"] ok a k'
    by (simp add: expand_chunks chunks_ok_def chunk_info_def o_def instant_def x_def)
  let ?es = "map (seam_info p ordinal ro) (enumerate 0 cs)"
  let ?s = "seam_info p ordinal ro (k, cs ! k)"
  have m: "?s \<in> set ?es"
    using k by (force simp: in_set_enumerate_eq)
  have "map gi_path ?es = map (seam_key p) [0..<length cs]"
    by (rule nth_equalityI) (auto simp: nth_enumerate_eq seam_info_def)
  then have d: "distinct (map gi_path ?es)"
    by (simp add: distinct_map inj_on_def seam_key_inject)
  have so: "sorted (map gi_ordinal ?es)"
    by (simp add: seam_info_def o_def map_replicate_const)
  have st: "\<forall>s\<in>set ?es. instant (gi_started s) \<noteq> None"
    using ok by (auto simp: seam_info_def instant_def chunks_ok_def in_set_enumerate_eq)
  have ro: "?es \<noteq> []" "\<forall>s\<in>set ?es. gi_recording s = Some ro"
    using ne by (auto simp: seam_info_def enumerate_eq_zip)
  have s: "gi_path ?s = seam_key p k" "the (instant (gi_started ?s)) = the (date_parse (ch_started (cs ! k)))"
    by (simp_all add: seam_info_def instant_def)
  show "resolve_anchors (expand_seams [merged_info p ordinal ro cs]) [a] (seam_key p k) = Some x"
    using resolve_single_recording [OF ro so d st a m] unfolding expand_merged [OF ne] s x_def .
qed

lemma interval_same:
  fixes t1 d :: num64 and p :: string and ordinal :: int
  assumes ok: "chunks_ok cs" and a: "ra_ordinal a = of_int ro" "instant (ra_wall a) = Some ev" and t0: "fl t0 = t0"
  defines "r \<equiv> resolve_group_interval t0 t1 (map chunk_segment cs) (resolve_anchors (expand_seams (map (chunk_info ro) cs)) [a])
      (info_by_path (map (chunk_info ro) cs))"
    and "r' \<equiv> resolve_group_interval t0 t1 [\<lparr>so_path = p, so_offset = 0, so_duration = d\<rparr>]
      (resolve_anchors (expand_seams [merged_info p ordinal ro cs]) [a]) (info_by_path [merged_info p ordinal ro cs])"
  shows "at_start r = at_start r' \<and> at_end r = at_end r' \<and> at_start r \<noteq> None"
proof -
  have ne: "cs \<noteq> []" using ok by (simp add: chunks_ok_def)
  let ?P = "\<lambda>c. ch_offset c \<le> dbl_add t0 seam_fuzz"
  let ?k = "length (takeWhile ?P cs) - 1"
  have "length (takeWhile ?P cs) \<le> length cs" by (rule length_takeWhile_le)
  with ne have k: "?k < length cs" by (cases cs) auto
  then have k': "cs ! ?k \<in> set cs" by simp
  let ?x = "seconds_after (ra_seconds a) (the (date_parse (ch_started (cs ! ?k)))) ev"
  note anch = anchored_chunks(1) [OF ok a k] anchored_chunks(2) [OF ok a k, of p ordinal]
  have off: "dbl_add 0 (ch_offset (cs ! ?k)) = ch_offset (cs ! ?k)" "dbl_sub t0 0 = t0"
    using ok k' t0 by (simp_all add: chunks_ok_def dbl_add_def dbl_sub_def)
  have seg: "segment_for_offset (map chunk_segment cs) t0 = Some (chunk_segment (cs ! ?k))"
    using segment_for_offset_index [of "map chunk_segment cs" t0] ne k
    by (simp add: takeWhile_map o_def chunk_segment_def)
  have "map_of (rev (map (\<lambda>s. (gi_path s, s)) (map (chunk_info ro) cs))) (ch_path (cs ! ?k)) = Some (chunk_info ro (cs ! ?k))"
    using ok k' by (intro map_of_is_SomeI) (auto simp: chunks_ok_def chunk_info_def o_def rev_map [symmetric])
  then have r: "r = place_on (resolve_anchors (expand_seams (map (chunk_info ro) cs)) [a]) (ch_path (cs ! ?k))
      (ch_offset (cs ! ?k)) t0 t1 (chunk_info ro (cs ! ?k))"
    unfolding r_def resolve_group_interval_def seg info_by_path_def
    by (simp add: chunk_segment_def chunk_info_def seams_of_info_def)
  have "seam_index (map (\<lambda>c. \<lparr>rs_offset = ch_offset c, rs_started = Some (ch_started c)\<rparr>) cs) t0 = ?k"
    by (simp add: seam_index_def takeWhile_map o_def)
  then have r': "r' = place_on (resolve_anchors (expand_seams [merged_info p ordinal ro cs]) [a]) (seam_key p ?k)
      (ch_offset (cs ! ?k)) t0 t1 (merged_info p ordinal ro cs)"
    unfolding r'_def resolve_group_interval_def info_by_path_def using ne k off
    by (simp add: segment_for_offset_index merged_info_def seams_of_info_def Let_def)
  show ?thesis unfolding r r' place_on_def anch by simp
qed

lemma sort_key_image: "(\<And>x. k (f x) = k x) \<Longrightarrow> map f (sort_key k xs) = sort_key k (map f xs)"
proof (induction xs)
  case (Cons x xs)
  have "map f (insort_key k x ys) = insort_key k (f x) (map f ys)" for ys
    by (induction ys) (simp_all add: Cons.prems)
  with Cons show ?case by simp
qed simp

text \<open>The words that the remap stores do not depend on the ordinal of anchored audio.\<close>

lemma anchored_words_cong:
  assumes "map (\<lambda>p. (pl_order p, pl_start p, pl_end p, pl_item p)) ps = map (\<lambda>p. (pl_order p, pl_start p, pl_end p, pl_item p)) qs"
    and "\<forall>p\<in>set ps. pl_start p \<noteq> None"
  shows "map (anchored_word rate) (anchored_first ps) = map (anchored_word rate) (anchored_first qs)"
    and "anchorless_last ps = []" and "anchorless_last qs = []"
proof -
  let ?z = "\<lambda>p::provider_word placed. \<lparr>pl_ordinal = 0, pl_order = pl_order p, pl_start = pl_start p, pl_end = pl_end p, pl_item = pl_item p\<rparr>"
  have z: "map ?z ps = map ?z qs" using assms(1) by (auto simp: list_eq_iff_nth_eq)
  have "map pl_start ps = map pl_start qs" using assms(1) by (auto simp: list_eq_iff_nth_eq)
  then have "pl_start ` set ps = pl_start ` set qs" by (metis list.set_map)
  then have "\<forall>q\<in>set qs. pl_start q \<noteq> None" using assms(2) by (metis imageE imageI)
  then have all: "filter (\<lambda>p. pl_start p \<noteq> None) ps = ps" "filter (\<lambda>p. pl_start p \<noteq> None) qs = qs"
    using assms(2) by (auto simp: filter_id_conv)
  have "map ?z (anchored_first ps) = map ?z (anchored_first qs)"
    unfolding anchored_first_def all order_by_def by (simp add: sort_key_image z)
  then have "map (anchored_word rate \<circ> ?z) (anchored_first ps) = map (anchored_word rate \<circ> ?z) (anchored_first qs)"
    by (metis map_map)
  moreover have "anchored_word rate \<circ> ?z = anchored_word rate"
    by (simp add: fun_eq_iff anchored_word_def)
  ultimately show "map (anchored_word rate) (anchored_first ps) = map (anchored_word rate) (anchored_first qs)" by simp
  show "anchorless_last ps = []" "anchorless_last qs = []"
    using assms(2) \<open>\<forall>q\<in>set qs. pl_start q \<noteq> None\<close> by (auto simp: anchorless_last_def order_by_def filter_empty_conv)
qed

lemma enumerate_map: "enumerate n (map f xs) = map (\<lambda>(i, x). (i, f x)) (enumerate n xs)"
  by (induction xs arbitrary: n) auto

lemma place_words_one:
  "place_words [g] infos anchors = map (\<lambda>(n, w).
     let r = resolve_group_interval (pw_start w) (pw_end w) (sorted_segments g) (resolve_anchors (expand_seams infos) anchors)
         (info_by_path infos) in
     \<lparr>pl_ordinal = info_ordinal r, pl_order = n, pl_start = at_start r, pl_end = at_end r, pl_item = w\<rparr>)
     (enumerate 0 (wg_words g))"
  by (simp add: place_words_def Let_def enumerate_map case_prod_beta)

definition words_of_file :: "segment_offset list \<Rightarrow> provider_word list \<Rightarrow> word_group" where
  "words_of_file segs ws = \<lparr>wg_segments = segs, wg_words = ws, wg_paragraphs = [], wg_sentiments = []\<rparr>"


definition two_chunks :: "chunk list" where
  "two_chunks = [\<lparr>ch_path = ''a'', ch_ordinal = 0, ch_started = ''2024-01-01T00:00:00.000Z'', ch_offset = 0, ch_duration = 4\<rparr>,
     \<lparr>ch_path = ''b'', ch_ordinal = 1, ch_started = ''2024-01-01T00:00:05.000Z'', ch_offset = 4, ch_duration = 4\<rparr>]"

definition first_recording :: start_anchor where
  "first_recording = \<lparr>ra_ordinal = 1, ra_seconds = 10, ra_wall = Some ''2024-01-01T00:00:00.000Z''\<rparr>"

definition spoken :: "provider_word list" where
  "spoken = [\<lparr>pw_word = ''one'', pw_start = 1, pw_end = 2, pw_speaker = 0\<rparr>,
     \<lparr>pw_word = ''two'', pw_start = 5, pw_end = 6, pw_speaker = 1\<rparr>]"


lemma remap_words_complete_witness:
  "\<exists>anchored rest. remap_transcript_words [words_of_file (map chunk_segment two_chunks) spoken] [] [first_recording] 25 =
     Inr (anchored @ rest) \<and> length (anchored @ rest) = 2"
proof -
  have "(0::num64) < 25" by simp
  from remap_words_complete [OF this, of "[words_of_file (map chunk_segment two_chunks) spoken]" "[]" "[first_recording]"]
  obtain anchored rest where
    r: "remap_transcript_words [words_of_file (map chunk_segment two_chunks) spoken] [] [first_recording] 25 = Inr (anchored @ rest)"
    and m: "mset (map (\<lambda>w. (wi_speaker w, wi_word w)) (anchored @ rest)) =
      mset (map (\<lambda>w. (num_string (pw_speaker w), pw_word w)) (concat (map wg_words [words_of_file (map chunk_segment two_chunks) spoken])))"
    by blast
  from mset_eq_length [OF m] have "length (anchored @ rest) = 2" by (simp add: words_of_file_def spoken_def)
  with r show ?thesis by blast
qed

end
