(* ===== verification/FlacFrames.thy ===== *)
theory FlacFrames
  imports Prelude "HOL-Library.Word"
begin

section \<open>FLAC frame headers\<close>

text \<open>
  packages/transcription/src/flacFrames.ts: reading a frame header, cutting off what follows a frame, and
  rewriting a frame to its place in a concatenated stream. Bytes are \<open>8 word\<close>, the two checksums
  \<open>8 word\<close> and \<open>16 word\<close>, whose shifts drop the bits the code masks away. A thrown error is
  the left side of a sum.
\<close>

unbundle bit_operations_syntax

type_synonym bytes = "8 word list"

datatype flac_error = NotAFrame | ReservedValue | FrameTruncated | BadCodedNumber | HeaderCrcMismatch
  | FrameCrcMismatch | NumberOutOfRange

subsection \<open>Checksums\<close>

definition crc8_bit :: "8 word \<Rightarrow> 8 word" where
  "crc8_bit c = (if c AND 0x80 \<noteq> 0 then push_bit 1 c XOR 0x07 else push_bit 1 c)"

definition crc8 :: "bytes \<Rightarrow> 8 word" where
  "crc8 bs = fold (\<lambda>b c. (crc8_bit ^^ 8) (c XOR b)) bs 0"

definition crc16_bit :: "16 word \<Rightarrow> 16 word" where
  "crc16_bit c = (if c AND 0x8000 \<noteq> 0 then push_bit 1 c XOR 0x8005 else push_bit 1 c)"

definition crc16_byte :: "8 word \<Rightarrow> 16 word \<Rightarrow> 16 word" where
  "crc16_byte b c = (crc16_bit ^^ 8) (c XOR push_bit 8 (ucast b))"

definition crc16 :: "bytes \<Rightarrow> 16 word" where
  "crc16 bs = fold crc16_byte bs 0"

subsection \<open>The coded number\<close>

definition coded_length :: "nat \<Rightarrow> nat" where
  "coded_length v = (case find (\<lambda>n. v < 2 ^ (5 * n + 1)) [2..<7] of None \<Rightarrow> 7 | Some n \<Rightarrow> n)"

text \<open>The continuation bytes, the last one first computed, and what is left for the lead byte.\<close>

fun coded_tail :: "nat \<Rightarrow> nat \<Rightarrow> bytes \<times> nat" where
  "coded_tail 0 v = ([], v)"
| "coded_tail (Suc k) v = (case coded_tail k (v div 64) of (bs, w) \<Rightarrow> (bs @ [0x80 OR of_nat (v mod 64)], w))"

definition coded_lead :: "nat \<Rightarrow> 8 word" where
  "coded_lead n = (if n = 7 then 0xfe else push_bit (8 - n) 0xff)"

definition encode_coded_number :: "nat \<Rightarrow> flac_error + bytes" where
  "encode_coded_number v = (if 2 ^ 36 \<le> v then Inl NumberOutOfRange
     else if v < 0x80 then Inr [of_nat v]
     else let n = coded_length v in
       (case coded_tail (n - 1) v of (bs, w) \<Rightarrow> Inr ((coded_lead n OR of_nat w) # bs)))"

fun decode_tail :: "nat \<Rightarrow> nat \<Rightarrow> bytes \<Rightarrow> nat option" where
  "decode_tail 0 acc bs = Some acc"
| "decode_tail (Suc k) acc [] = None"
| "decode_tail (Suc k) acc (b # bs) =
     (if b AND 0xc0 \<noteq> 0x80 then None else decode_tail k (acc * 64 + unat (b AND 0x3f)) bs)"

definition leading_ones :: "8 word \<Rightarrow> nat" where
  "leading_ones b = length (takeWhile (\<lambda>n. b AND push_bit (7 - n) 1 \<noteq> 0) [0..<8])"

definition decode_coded_number :: "bytes \<Rightarrow> nat \<Rightarrow> flac_error + (nat \<times> nat)" where
  "decode_coded_number bs start = (case drop start bs of
     [] \<Rightarrow> Inl FrameTruncated
   | first # rest \<Rightarrow> if first < 0x80 then Inr (unat first, start + 1) else
       let n = leading_ones first in
       if n < 2 \<or> 7 < n then Inl BadCodedNumber else
       (case decode_tail (n - 1) (if n = 7 then 0 else unat (first AND drop_bit (n + 1) 0xff)) rest of
          None \<Rightarrow> Inl BadCodedNumber
        | Some v \<Rightarrow> Inr (v, start + n)))"

subsection \<open>The header\<close>

record flac_header =
  fh_variable :: bool
  fh_number :: nat
  fh_block_size :: nat
  fh_length :: nat
  fh_number_end :: nat

text \<open>A byte out of range reads as zero; the header is then refused as truncated.\<close>

definition byte_at :: "bytes \<Rightarrow> nat \<Rightarrow> nat" where
  "byte_at bs i = (if i < length bs then unat (bs ! i) else 0)"

text \<open>The block size and the position after it, and the bytes of the sample rate.\<close>

definition block_size_at :: "nat \<Rightarrow> bytes \<Rightarrow> nat \<Rightarrow> nat \<times> nat" where
  "block_size_at bits bs p = (if bits = 1 then (192, p)
     else if bits \<le> 5 then (576 * 2 ^ (bits - 2), p)
     else if bits = 6 then (byte_at bs p + 1, p + 1)
     else if bits = 7 then (byte_at bs p * 256 + byte_at bs (p + 1) + 1, p + 2)
     else (256 * 2 ^ (bits - 8), p))"

definition rate_bytes :: "nat \<Rightarrow> nat" where
  "rate_bytes bits = (if bits = 12 then 1 else if bits = 13 \<or> bits = 14 then 2 else 0)"

definition parse_flac_frame_header :: "bytes \<Rightarrow> flac_error + flac_header" where
  "parse_flac_frame_header f =
     (if length f < 6 \<or> f ! 0 \<noteq> 0xff \<or> f ! 1 AND 0xfe \<noteq> 0xf8 then Inl NotAFrame else
      let bs_bits = unat (drop_bit 4 (f ! 2)); sr_bits = unat (f ! 2 AND 0x0f) in
      if bs_bits = 0 \<or> sr_bits = 15 then Inl ReservedValue else
      (case decode_coded_number f 4 of
         Inl e \<Rightarrow> Inl e
       | Inr (number, number_end) \<Rightarrow>
         (case block_size_at bs_bits f number_end of (block, p0) \<Rightarrow>
          let p = p0 + rate_bytes sr_bits in
          if length f \<le> p then Inl FrameTruncated else
          if crc8 (take p f) \<noteq> f ! p then Inl HeaderCrcMismatch else
          Inr \<lparr>fh_variable = (f ! 1 AND 1 = 1), fh_number = number, fh_block_size = block, fh_length = p + 1,
               fh_number_end = number_end\<rparr>)))"

subsection \<open>Cutting a frame at its footer\<close>

fun zero_registers :: "16 word \<Rightarrow> bytes \<Rightarrow> bool list" where
  "zero_registers c [] = []"
| "zero_registers c (b # bs) = (let c' = crc16_byte b c in (c' = 0) # zero_registers c' bs)"

fun back_over_zeros :: "bytes \<Rightarrow> bool list \<Rightarrow> nat \<Rightarrow> nat \<Rightarrow> nat" where
  "back_over_zeros f zero_at min_end 0 = 0"
| "back_over_zeros f zero_at min_end (Suc k) =
     (if min_end \<le> k \<and> zero_at ! k \<and> f ! k = 0 then back_over_zeros f zero_at min_end k else Suc k)"

definition trim_flac_frame :: "bytes \<Rightarrow> flac_error + bytes" where
  "trim_flac_frame f = (case parse_flac_frame_header f of
     Inl e \<Rightarrow> Inl e
   | Inr h \<Rightarrow> let zero_at = False # zero_registers 0 f; min_end = fh_length h + 2 in
       (case find (\<lambda>k. zero_at ! k) (rev [min_end..<Suc (length f)]) of
          None \<Rightarrow> Inl FrameCrcMismatch
        | Some k \<Rightarrow> Inr (take (back_over_zeros f zero_at min_end k) f)))"

subsection \<open>Renumbering\<close>

definition renumber_flac_frame :: "bytes \<Rightarrow> nat \<Rightarrow> flac_error + bytes" where
  "renumber_flac_frame input number = (case trim_flac_frame input of
     Inl e \<Rightarrow> Inl e
   | Inr f \<Rightarrow> (case parse_flac_frame_header f of
       Inl e \<Rightarrow> Inl e
     | Inr h \<Rightarrow> if length f < fh_length h + 2 then Inl FrameTruncated else
       (case encode_coded_number number of
          Inl e \<Rightarrow> Inl e
        | Inr coded \<Rightarrow>
          let tail = drop (fh_number_end h) (take (fh_length h - 1) f);
              body = drop (fh_length h) (take (length f - 2) f);
              head = (take 4 f)[1 := f ! 1 OR 1] @ coded @ tail;
              out = head @ [crc8 head] @ body;
              crc = crc16 out
          in Inr (out @ [ucast (drop_bit 8 crc), ucast crc]))))"

subsection \<open>Coded numbers read back\<close>

lemma checked_upto:
  "list_all (\<lambda>n. list_all (P n) [0..<f n]) [a..<b] \<Longrightarrow> a \<le> n \<Longrightarrow> n < b \<Longrightarrow> w < f n \<Longrightarrow> P n w"
  by (simp add: list_all_iff)

lemma found: "find P xs = Some x \<Longrightarrow> x \<in> set xs \<and> P x"
  by (induction xs) (auto split: if_splits)

lemma continuation_byte:
  "r < 64 \<Longrightarrow> (0x80 OR of_nat r :: 8 word) AND 0xc0 = 0x80 \<and> unat ((0x80 OR of_nat r :: 8 word) AND 0x3f) = r"
proof -
  have "list_all (\<lambda>r. (0x80 OR of_nat r :: 8 word) AND 0xc0 = 0x80 \<and> unat ((0x80 OR of_nat r :: 8 word) AND 0x3f) = r) [0..<64]"
    by code_simp
  then show "r < 64 \<Longrightarrow> ?thesis" by (simp add: list_all_iff)
qed

lemma lead_byte:
  assumes "n \<in> {2..7}" "w < 2 ^ (7 - n)"
  shows "leading_ones (coded_lead n OR of_nat w) = n \<and> \<not> coded_lead n OR of_nat w < 0x80 \<and>
    (n \<noteq> 7 \<longrightarrow> unat ((coded_lead n OR of_nat w) AND drop_bit (n + 1) 0xff) = w)"
proof -
  have "list_all (\<lambda>n. list_all (\<lambda>w. leading_ones (coded_lead n OR of_nat w) = n \<and> \<not> coded_lead n OR of_nat w < 0x80 \<and>
    (n \<noteq> 7 \<longrightarrow> unat ((coded_lead n OR of_nat w) AND drop_bit (n + 1) 0xff) = w)) [0..<2 ^ (7 - n)]) [2..<8]"
    by code_simp
  from checked_upto [OF this, of n w] assms show ?thesis by simp
qed

lemma decode_tail_snoc:
  "length bs = k \<Longrightarrow> decode_tail (Suc k) acc (bs @ b # rest) = (case decode_tail k acc bs of None \<Rightarrow> None
     | Some v \<Rightarrow> if b AND 0xc0 \<noteq> 0x80 then None else Some (v * 64 + unat (b AND 0x3f)))"
  by (induction bs arbitrary: k acc) auto

lemma decode_tail_more: "length bs = k \<Longrightarrow> decode_tail k acc (bs @ rest) = decode_tail k acc bs"
  by (induction bs arbitrary: k acc) auto

lemma coded_tail_reads:
  "coded_tail k v = (bs, w) \<Longrightarrow> length bs = k \<and> w = v div 64 ^ k \<and> decode_tail k w bs = Some v"
proof (induction k arbitrary: v bs w)
  case (Suc k)
  obtain cs u where c: "coded_tail k (v div 64) = (cs, u)" by fastforce
  from Suc.IH [OF this] have ih: "length cs = k" "u = v div 64 div 64 ^ k" "decode_tail k u cs = Some (v div 64)" by auto
  from Suc.prems c have bs: "bs = cs @ [0x80 OR of_nat (v mod 64)]" "w = u" by auto
  show ?case
    using ih continuation_byte [of "v mod 64"] decode_tail_snoc [OF ih(1), of u "0x80 OR of_nat (v mod 64)" "[]"]
    by (simp add: bs div_mult2_eq)
qed auto

lemma coded_length_bounds:
  assumes "0x80 \<le> v" "v < 2 ^ 36"
  shows "coded_length v \<in> {2..7} \<and> v div 64 ^ (coded_length v - 1) < 2 ^ (7 - coded_length v)"
proof (cases "find (\<lambda>n. v < 2 ^ (5 * n + 1)) [2..<7]")
  case None
  with assms show ?thesis by (simp add: coded_length_def)
next
  case (Some n)
  from found [OF this] have n: "n \<in> {2..<7}" "v < 2 ^ (5 * n + 1)" by (simp_all del: upt_rec_numeral)
  then have "n \<in> {2, 3, 4, 5, 6}" by auto
  then have "v < 2 ^ (7 - n) * 64 ^ (n - 1)" using n(2) by auto
  with n(1) Some show ?thesis by (simp add: coded_length_def less_mult_imp_div_less)
qed

lemma coded_number_reads:
  "(case encode_coded_number v of
      Inl e \<Rightarrow> 2 ^ 36 \<le> v
    | Inr bs \<Rightarrow> v < 2 ^ 36 \<and> length bs \<in> {1..7} \<and>
        decode_coded_number (pre @ bs @ post) (length pre) = Inr (v, length pre + length bs))"
proof (cases "v < 2 ^ 36 \<and> \<not> v < 0x80")
  case False
  then show ?thesis
  proof (cases "v < 0x80")
    case True
    then have u: "unat (of_nat v :: 8 word) = v" by (simp add: unat_of_nat)
    then have "(of_nat v :: 8 word) < 0x80" using True by (simp add: word_less_nat_alt)
    with True u show ?thesis by (simp add: encode_coded_number_def decode_coded_number_def)
  qed (use False in \<open>simp add: encode_coded_number_def\<close>)
next
  case True
  let ?n = "coded_length v"
  from True coded_length_bounds [of v] have n: "?n \<in> {2..7}" "v div 64 ^ (?n - 1) < 2 ^ (7 - ?n)" by auto
  obtain bs w where t: "coded_tail (?n - 1) v = (bs, w)" by fastforce
  from coded_tail_reads [OF t] have bs: "length bs = ?n - 1" "w = v div 64 ^ (?n - 1)" "decode_tail (?n - 1) w bs = Some v" by auto
  note lead = lead_byte [OF n [folded bs(2)]]
  have enc: "encode_coded_number v = Inr ((coded_lead ?n OR of_nat w) # bs)"
    using True t by (simp add: encode_coded_number_def Let_def)
  have "w = 0" if "?n = 7" using n(2) that bs(2) by simp
  then have "decode_tail (?n - 1) (if ?n = 7 then 0 else unat ((coded_lead ?n OR of_nat w) AND drop_bit (?n + 1) 0xff)) (bs @ post) = Some v"
    using lead bs decode_tail_more [OF bs(1)] by auto
  then have "decode_coded_number (pre @ ((coded_lead ?n OR of_nat w) # bs) @ post) (length pre) = Inr (v, length pre + ?n)"
    using lead n(1) unfolding decode_coded_number_def by (simp add: Let_def)
  with True enc bs(1) n(1) show ?thesis by auto
qed

text \<open>C33: Coded numbers read back: every number below 2^36, the whole range the encoder accepts, is written in
  one to seven bytes which the decoder reads as that number wherever they stand, up to exactly their end;
  larger numbers are refused.\<close>

theorem coded_number_roundtrip:
  "(case encode_coded_number v of
      Inl e \<Rightarrow> 2 ^ 36 \<le> v
    | Inr bs \<Rightarrow> v < 2 ^ 36 \<and> length bs \<in> {1..7} \<and>
        decode_coded_number (pre @ bs @ post) (length pre) = Inr (v, length pre + length bs))"
  by (rule coded_number_reads)

subsection \<open>A renumbered frame is a valid frame\<close>

lemma mask_byte: "(ucast (ucast (c :: 16 word) :: 8 word) :: 16 word) = take_bit 8 c"
  by (rule bit_word_eqI) (auto simp: bit_simps)

lemma crc16_shift_low:
  "n \<le> 8 \<Longrightarrow> (crc16_bit ^^ n) (take_bit 8 c) = push_bit n (take_bit 8 c)"
proof (induction n)
  case (Suc n)
  let ?x = "push_bit n (take_bit 8 c) :: 16 word"
  have "\<not> bit ?x 15" using Suc.prems by (auto simp: bit_simps)
  moreover have "?x AND 0x8000 \<noteq> 0 \<longleftrightarrow> bit ?x 15"
  proof -
    have "(0x8000 :: 16 word) = push_bit 15 1" by simp
    then show ?thesis by (metis and_exp_eq_0_iff_not_bit push_bit_of_1)
  qed
  ultimately show ?case using Suc by (simp add: crc16_bit_def)
qed simp

lemma crc16_snoc: "crc16 (bs @ [b]) = crc16_byte b (crc16 bs)"
  by (simp add: crc16_def)

lemma crc16_footer: "crc16 (bs @ [ucast (drop_bit 8 (crc16 bs)), ucast (crc16 bs)]) = 0"
proof -
  let ?c = "crc16 bs"
  have hi: "?c XOR push_bit 8 (ucast (ucast (drop_bit 8 ?c) :: 8 word)) = take_bit 8 ?c"
    by (rule bit_word_eqI) (auto simp: bit_simps)
  have "crc16 (bs @ [ucast (drop_bit 8 ?c)]) = push_bit 8 (take_bit 8 ?c)"
    unfolding crc16_snoc crc16_byte_def hi by (rule crc16_shift_low) simp
  then have "crc16 ((bs @ [ucast (drop_bit 8 ?c)]) @ [ucast ?c]) =
      (crc16_bit ^^ 8) (push_bit 8 (take_bit 8 ?c) XOR push_bit 8 (take_bit 8 ?c))"
    unfolding crc16_snoc [of "bs @ [ucast (drop_bit 8 ?c)]"] crc16_byte_def mask_byte by simp
  also have "\<dots> = (crc16_bit ^^ 8) (take_bit 8 0)" by simp
  also have "\<dots> = 0" unfolding crc16_shift_low [OF order_refl] by simp
  finally show ?thesis by simp
qed

definition size_bytes :: "nat \<Rightarrow> nat" where
  "size_bytes bits = (if bits = 6 then 1 else if bits = 7 then 2 else 0)"

lemma block_size_shift:
  assumes "\<And>i. i < size_bytes bits \<Longrightarrow> byte_at g (q + i) = byte_at f (p + i)"
  shows "block_size_at bits g q = (fst (block_size_at bits f p), q + size_bytes bits)"
    and "snd (block_size_at bits f p) = p + size_bytes bits"
  using assms [of 0] assms [of 1] by (auto simp: block_size_at_def size_bytes_def)

lemma parse_header_Inr:
  "parse_flac_frame_header f = Inr h \<longleftrightarrow> 6 \<le> length f \<and> f ! 0 = 0xff \<and> f ! 1 AND 0xfe = 0xf8 \<and>
     unat (drop_bit 4 (f ! 2)) \<noteq> 0 \<and> unat (f ! 2 AND 0x0f) \<noteq> 15 \<and>
     decode_coded_number f 4 = Inr (fh_number h, fh_number_end h) \<and>
     fh_block_size h = fst (block_size_at (unat (drop_bit 4 (f ! 2))) f (fh_number_end h)) \<and>
     fh_length h = fh_number_end h + size_bytes (unat (drop_bit 4 (f ! 2))) + rate_bytes (unat (f ! 2 AND 0x0f)) + 1 \<and>
     fh_length h \<le> length f \<and> crc8 (take (fh_length h - 1) f) = f ! (fh_length h - 1) \<and>
     (fh_variable h \<longleftrightarrow> f ! 1 AND 1 = 1)"
proof -
  let ?b = "unat (drop_bit 4 (f ! 2))"
  show ?thesis
  proof (cases "decode_coded_number f 4")
    case (Inr r)
    obtain v e where r: "r = (v, e)" by (cases r)
    obtain blk where b: "block_size_at ?b f e = (blk, e + size_bytes ?b)"
      using block_size_shift(1) [of ?b f e f e] by blast
    show ?thesis
      unfolding parse_flac_frame_header_def Let_def Inr r by (cases h) (auto simp: b)
  qed (simp add: parse_flac_frame_header_def Let_def)
qed

lemma decode_end: "decode_coded_number f start = Inr (v, e) \<Longrightarrow> start < e"
  by (auto simp: decode_coded_number_def Let_def split: list.splits if_splits option.splits)

lemma tail_bytes:
  assumes "i < k" "p + k \<le> q" "q \<le> length f" "length pre = n"
  shows "byte_at (pre @ drop p (take q f) @ rest) (n + i) = byte_at f (p + i)"
  using assms by (auto simp: byte_at_def nth_append)

text \<open>C32: A renumbered frame is a valid frame at its new place: it parses, in the variable-block-size form with
  the given sample number and the block size of the frame it was, its audio bytes are those of that frame
  unchanged, and its checksum holds.\<close>

theorem renumber_frame_valid:
  assumes r: "renumber_flac_frame input number = Inr out"
  shows "\<exists>f h h'. trim_flac_frame input = Inr f \<and> parse_flac_frame_header f = Inr h \<and> parse_flac_frame_header out = Inr h' \<and>
    fh_variable h' \<and> fh_number h' = number \<and> fh_block_size h' = fh_block_size h \<and>
    drop (fh_length h') (take (length out - 2) out) = drop (fh_length h) (take (length f - 2) f) \<and> crc16 out = 0"
proof -
  from r obtain f h coded where t: "trim_flac_frame input = Inr f" and h: "parse_flac_frame_header f = Inr h"
    and len: "fh_length h + 2 \<le> length f" and enc: "encode_coded_number number = Inr coded"
    by (auto simp: renumber_flac_frame_def Let_def split: sum.splits if_splits)
  define tail where "tail = drop (fh_number_end h) (take (fh_length h - 1) f)"
  define body where "body = drop (fh_length h) (take (length f - 2) f)"
  define four where "four = (take 4 f)[1 := f ! 1 OR 1]"
  define head where "head = four @ coded @ tail"
  define crc where "crc = crc16 (head @ [crc8 head] @ body)"
  have out: "out = head @ [crc8 head] @ body @ [ucast (drop_bit 8 crc), ucast crc]"
    using r t h len enc by (simp add: renumber_flac_frame_def Let_def tail_def body_def four_def head_def crc_def)
  note p = h [unfolded parse_header_Inr]
  let ?sb = "size_bytes (unat (drop_bit 4 (f ! 2)))" and ?rb = "rate_bytes (unat (f ! 2 AND 0x0f))"
  have four: "length four = 4" "four ! 0 = 0xff" "four ! 1 = f ! 1 OR 1" "four ! 2 = f ! 2"
    using p by (simp_all add: four_def)
  have e: "4 < fh_number_end h" using p decode_end by blast
  have tl: "length tail = ?sb + ?rb" using p by (simp add: tail_def)
  have nth: "out ! 0 = 0xff" "out ! 1 = f ! 1 OR 1" "out ! 2 = f ! 2"
    using four by (simp_all add: out head_def nth_append)
  have read: "decode_coded_number out 4 = Inr (number, 4 + length coded)"
    using coded_number_reads [of number four "tail @ [crc8 head] @ body @ [ucast (drop_bit 8 crc), ucast crc]"] enc four(1)
    by (simp add: out head_def)
  have bytes: "byte_at out ((4 + length coded) + i) = byte_at f (fh_number_end h + i)" if "i < ?sb" for i
    using tail_bytes [of i ?sb "fh_number_end h" "fh_length h - 1" f "four @ coded" "4 + length coded"] that p four(1)
    by (simp add: out head_def tail_def)
  let ?h' = "\<lparr>fh_variable = True, fh_number = number, fh_block_size = fh_block_size h, fh_length = length head + 1,
      fh_number_end = 4 + length coded\<rparr>"
  have "parse_flac_frame_header out = Inr ?h'"
    unfolding parse_header_Inr
  proof (intro conjI)
    show "out ! 1 AND 0xfe = 0xf8" using p unfolding nth by (simp add: bit.conj_disj_distrib2)
    show "crc8 (take (fh_length ?h' - 1) out) = out ! (fh_length ?h' - 1)" by (simp add: out)
    show "fh_variable ?h' \<longleftrightarrow> out ! 1 AND 1 = 1" unfolding nth by (simp add: bit.conj_disj_distrib2)
    show "fh_block_size ?h' = fst (block_size_at (unat (drop_bit 4 (out ! 2))) out (fh_number_end ?h'))"
      using block_size_shift(1) [of "unat (drop_bit 4 (f ! 2))" out "4 + length coded" f "fh_number_end h"] bytes p nth(3) by simp
  qed (use p nth read tl four in \<open>simp_all add: out head_def\<close>)
  moreover have "drop (length head + 1) (take (length out - 2) out) = body" by (simp add: out)
  moreover have "crc16 out = 0"
    using crc16_footer [of "head @ [crc8 head] @ body"] by (simp add: out crc_def)
  ultimately show ?thesis using t h unfolding body_def by auto
qed

lemma zero_registers_nth:
  "i < length bs \<Longrightarrow> zero_registers c bs ! i \<longleftrightarrow> fold crc16_byte (take (Suc i) bs) c = 0"
  by (induction bs arbitrary: c i) (auto simp: Let_def nth_Cons split: nat.split)

text \<open>The shortest frame: a header and a footer.\<close>

definition short_head :: bytes where "short_head = [0xff, 0xf8, 0x19, 0x18, 0x03]"

definition short_frame :: bytes where
  "short_frame = (let f = short_head @ [crc8 short_head]; c = crc16 f in f @ [ucast (drop_bit 8 c), ucast c])"

lemma short_frame_parses:
  "parse_flac_frame_header short_frame =
     Inr \<lparr>fh_variable = False, fh_number = 3, fh_block_size = 192, fh_length = 6, fh_number_end = 5\<rparr>"
  unfolding parse_header_Inr
  by (simp add: short_frame_def short_head_def Let_def decode_coded_number_def block_size_at_def size_bytes_def rate_bytes_def)

lemma short_frame_trims: "trim_flac_frame short_frame = Inr short_frame"
proof -
  have len: "length short_frame = 8" by (simp add: short_frame_def short_head_def Let_def)
  have "crc16 short_frame = 0"
    using crc16_footer [of "short_head @ [crc8 short_head]"] by (simp add: short_frame_def Let_def)
  then have "(False # zero_registers 0 short_frame) ! 8"
    using zero_registers_nth [of 7 short_frame 0] by (simp add: len crc16_def)
  moreover have "rev [8..<Suc 8] = [8]" by simp
  ultimately show ?thesis
    by (simp add: trim_flac_frame_def short_frame_parses len Let_def eval_nat_numeral)
qed

lemma renumber_frame_valid_witness:
  "\<exists>out h'. renumber_flac_frame short_frame 4608 = Inr out \<and> parse_flac_frame_header out = Inr h' \<and> fh_number h' = 4608"
proof -
  have "length short_frame = 8" by (simp add: short_frame_def short_head_def Let_def)
  moreover obtain coded where "encode_coded_number 4608 = Inr coded"
    using coded_number_reads [of 4608 "[]" "[]"] by (auto split: sum.splits)
  ultimately obtain out where r: "renumber_flac_frame short_frame 4608 = Inr out"
    by (simp add: renumber_flac_frame_def short_frame_trims short_frame_parses Let_def)
  from renumber_frame_valid [OF r] r show ?thesis by blast
qed

end
