(* ===== verification/IpAllowlist.thy ===== *)
theory IpAllowlist
  imports JsonNumber
begin

section \<open>The IP allowlist\<close>

text \<open>
  server/src/middleware/ipAllowlist.ts: the comma-separated list of addresses and networks that may reach
  the server, and the decision on a client's address, with the parse kept for the next request of the same
  configuration. A \<open>bigint\<close> is a \<open>nat\<close>: \<open>value << 8n | n\<close> with \<open>n\<close> below 256 is
  \<open>256 * value + n\<close>. Texts are without line terminators, as header values are.
\<close>

datatype ip_version = V4 | V6

record net =
  nt_version :: ip_version
  nt_base :: nat
  nt_bits :: nat

datatype allowlist_error = BadEntry string | BadPrefix string | BigIntRange

definition total_bits :: "ip_version \<Rightarrow> nat" where
  "total_bits v = (case v of V4 \<Rightarrow> 32 | V6 \<Rightarrow> 128)"

subsection \<open>Text\<close>

fun split_char :: "char \<Rightarrow> string \<Rightarrow> string list" where
  "split_char c [] = [[]]"
| "split_char c (x # xs) = (if x = c then [] # split_char c xs else
     (case split_char c xs of [] \<Rightarrow> [[x]] | y # ys \<Rightarrow> (x # y) # ys))"

text \<open>The text before and after the last \<open>c\<close>.\<close>

definition split_last :: "char \<Rightarrow> string \<Rightarrow> (string \<times> string) option" where
  "split_last c s = (let t = takeWhile (\<lambda>x. x \<noteq> c) (rev s) in
     if t = rev s then None else Some (rev (drop (Suc (length t)) (rev s)), rev t))"

fun split_double_colon :: "string \<Rightarrow> string list" where
  "split_double_colon [] = [[]]"
| "split_double_colon [x] = [[x]]"
| "split_double_colon (x # y # xs) = (if x = CHR '':'' \<and> y = CHR '':'' then [] # split_double_colon xs else
     (case split_double_colon (y # xs) of [] \<Rightarrow> [[x]] | z # zs \<Rightarrow> (x # z) # zs))"

definition digits_1_3 :: "string \<Rightarrow> bool" where
  "digits_1_3 s \<longleftrightarrow> s \<noteq> [] \<and> length s \<le> 3 \<and> list_all is_digit s"

text \<open>\<open>CIDR_RE\<close>.\<close>

definition cidr_match :: "string \<Rightarrow> (string \<times> string) option" where
  "cidr_match s = (case split_last (CHR ''/'') s of
     None \<Rightarrow> None
   | Some (a, ds) \<Rightarrow> if a \<noteq> [] \<and> digits_1_3 ds then Some (a, ds) else None)"

definition strip_quotes :: "string \<Rightarrow> string" where
  "strip_quotes s = (if 2 \<le> length s \<and> hd s = last s \<and> hd s \<in> {CHR 0x22, CHR 0x27} then js_trim (butlast (tl s)) else s)"

definition strip_brackets :: "string \<Rightarrow> string" where
  "strip_brackets s = (if 2 \<le> length s \<and> hd s = CHR ''['' \<and> last s = CHR '']'' then butlast (tl s) else s)"

definition clean_addr :: "string \<Rightarrow> string" where
  "clean_addr a = js_trim (takeWhile (\<lambda>c. c \<noteq> CHR ''%'') (strip_brackets a))"

definition normalize_entry :: "string \<Rightarrow> string" where
  "normalize_entry s = (let part = strip_quotes (js_trim s) in
     case cidr_match part of
       None \<Rightarrow> clean_addr part
     | Some (a, ds) \<Rightarrow> clean_addr (js_trim a) @ CHR ''/'' # ds)"

subsection \<open>Addresses\<close>

definition quad_shape :: "string \<Rightarrow> bool" where
  "quad_shape s \<longleftrightarrow> length (split_char (CHR ''.'') s) = 4 \<and> list_all digits_1_3 (split_char (CHR ''.'') s)"

definition unmap_v4 :: "string \<Rightarrow> string" where
  "unmap_v4 a = (let t = js_trim a in
     if js_lower (take 7 t) = ''::ffff:'' \<and> quad_shape (drop 7 t) then drop 7 t else a)"

definition ipv4_number :: "string \<Rightarrow> nat option" where
  "ipv4_number a = (let ps = split_char (CHR ''.'') a in
     if length ps \<noteq> 4 \<or> \<not> list_all (\<lambda>p. digits_1_3 p \<and> digits_val p \<le> 255) ps then None
     else Some (foldl (\<lambda>v p. v * 256 + digits_val p) 0 ps))"

fun nat_hex :: "nat \<Rightarrow> string" where
  "nat_hex n = (if n < 16 then [hex_digit n] else nat_hex (n div 16) @ [hex_digit (n mod 16)])"

declare nat_hex.simps [simp del]

definition hex_group :: "string \<Rightarrow> nat option" where
  "hex_group g = (if g = [] \<or> 4 < length g then None else
     foldl (\<lambda>acc c. case (acc, hex_val c) of (Some n, Some d) \<Rightarrow> Some (n * 16 + d) | _ \<Rightarrow> None) (Some 0) g)"

definition split_groups :: "string \<Rightarrow> string list" where
  "split_groups s = (if s = [] then [] else split_char (CHR '':'') s)"

text \<open>An embedded IPv4 tail becomes two groups.\<close>

definition expand_v4_tail :: "string \<Rightarrow> string option" where
  "expand_v4_tail a = (case split_last (CHR '':'') a of
     None \<Rightarrow> Some a
   | Some (pre, tail) \<Rightarrow> if \<not> quad_shape tail then Some a else
       (case ipv4_number tail of
          None \<Rightarrow> None
        | Some v \<Rightarrow> Some (pre @ '':'' @ nat_hex (v div 2 ^ 16 mod 2 ^ 16) @ '':'' @ nat_hex (v mod 2 ^ 16))))"

definition address_groups :: "string \<Rightarrow> string list option" where
  "address_groups a = (case split_double_colon a of
     [_] \<Rightarrow> Some (split_groups a)
   | [h, t] \<Rightarrow> let gh = split_groups h; gt = split_groups t in
       if 8 < length gh + length gt then None
       else Some (gh @ replicate (8 - length gh - length gt) ''0'' @ gt)
   | _ \<Rightarrow> None)"

definition ipv6_number :: "string \<Rightarrow> nat option" where
  "ipv6_number addr = (case expand_v4_tail addr of
     None \<Rightarrow> None
   | Some a \<Rightarrow> (case address_groups a of
       None \<Rightarrow> None
     | Some gs \<Rightarrow> if length gs \<noteq> 8 then None else
         foldl (\<lambda>acc g. case (acc, hex_group g) of (Some v, Some n) \<Rightarrow> Some (v * 2 ^ 16 + n) | _ \<Rightarrow> None) (Some 0) gs))"

definition parse_addr :: "string \<Rightarrow> (ip_version \<times> nat) option" where
  "parse_addr a = (if CHR '':'' \<in> set a then map_option (Pair V6) (ipv6_number a) else map_option (Pair V4) (ipv4_number a))"

definition mask_value :: "nat \<Rightarrow> ip_version \<Rightarrow> nat \<Rightarrow> nat" where
  "mask_value v ver bits = (if total_bits ver \<le> bits then v else v div 2 ^ (total_bits ver - bits))"

subsection \<open>The list\<close>

text \<open>The prefix length, as \<open>Number\<close> reads it: a fraction or NaN is no shift.\<close>

definition prefix_bits :: "string \<Rightarrow> ip_version \<Rightarrow> string option \<Rightarrow> allowlist_error + nat" where
  "prefix_bits part ver txt = (case txt of
     None \<Rightarrow> Inr (total_bits ver)
   | Some s \<Rightarrow> (case string_number s of
       None \<Rightarrow> Inl BigIntRange
     | Some x \<Rightarrow> if x < 0 \<or> of_nat (total_bits ver) < x then Inl (BadPrefix part)
         else if of_int \<lfloor>x\<rfloor> = x then Inr (nat \<lfloor>x\<rfloor>) else Inl BigIntRange))"

definition parse_entry :: "string \<Rightarrow> allowlist_error + net" where
  "parse_entry part = (let (addr, bits) = (case split_last (CHR ''/'') part of None \<Rightarrow> (part, None) | Some (a, b) \<Rightarrow> (a, Some b)) in
     case parse_addr addr of
       None \<Rightarrow> Inl (BadEntry part)
     | Some (ver, v) \<Rightarrow> (case prefix_bits part ver bits of
         Inl e \<Rightarrow> Inl e
       | Inr n \<Rightarrow> Inr \<lparr>nt_version = ver, nt_base = mask_value v ver n, nt_bits = n\<rparr>))"

fun parse_entries :: "string list \<Rightarrow> allowlist_error + net list" where
  "parse_entries [] = Inr []"
| "parse_entries (p # ps) = (if js_trim p = [] \<or> normalize_entry p = [] then parse_entries ps else
     (case parse_entry (normalize_entry p) of
        Inl e \<Rightarrow> Inl e
      | Inr n \<Rightarrow> (case parse_entries ps of Inl e \<Rightarrow> Inl e | Inr ns \<Rightarrow> Inr (n # ns))))"

definition parse_ip_allowlist :: "string \<Rightarrow> allowlist_error + net list option" where
  "parse_ip_allowlist raw = (let s = js_trim raw in
     if s = [] then Inr None else
     (case parse_entries (split_char (CHR '','') s) of
        Inl e \<Rightarrow> Inl e
      | Inr ns \<Rightarrow> Inr (if ns = [] then None else Some ns)))"

definition ip_in_allowlist :: "string \<Rightarrow> net list \<Rightarrow> bool" where
  "ip_in_allowlist addr nets = (case parse_addr (unmap_v4 (normalize_entry addr)) of
     None \<Rightarrow> False
   | Some (ver, v) \<Rightarrow> list_ex (\<lambda>n. nt_version n = ver \<and> mask_value v ver (nt_bits n) = nt_base n) nets)"

subsection \<open>A request\<close>

record allow_config =
  ac_allowlist :: string
  ac_trust_proxy :: string

record client =
  cl_remote :: "string option"
  cl_forwarded :: "string option"

definition trust_proxy_enabled :: "allow_config \<Rightarrow> bool" where
  "trust_proxy_enabled c \<longleftrightarrow> js_lower (js_trim (ac_trust_proxy c)) \<in> {''1'', ''true'', ''yes''}"

definition effective_client_ip :: "allow_config \<Rightarrow> client \<Rightarrow> string" where
  "effective_client_ip c i = (case (if trust_proxy_enabled c then cl_forwarded i else None) of
     Some x \<Rightarrow> if x \<noteq> [] then js_trim (hd (split_char (CHR '','') x))
       else (case cl_remote i of None \<Rightarrow> [] | Some r \<Rightarrow> r)
   | None \<Rightarrow> (case cl_remote i of None \<Rightarrow> [] | Some r \<Rightarrow> r))"

text \<open>\<open>netsForEnv\<close> with the one remembered parse.\<close>

type_synonym allow_cache = "(string \<times> net list option) option"

definition nets_for_env :: "string \<Rightarrow> allow_cache \<Rightarrow> (allowlist_error + net list option) \<times> allow_cache" where
  "nets_for_env raw cache = (case cache of
     Some (r, nets) \<Rightarrow> if r = raw then (Inr nets, cache) else
       (case parse_ip_allowlist raw of Inl e \<Rightarrow> (Inl e, cache) | Inr ns \<Rightarrow> (Inr ns, Some (raw, ns)))
   | None \<Rightarrow> (case parse_ip_allowlist raw of Inl e \<Rightarrow> (Inl e, cache) | Inr ns \<Rightarrow> (Inr ns, Some (raw, ns))))"

definition is_client_ip_allowed :: "allow_config \<Rightarrow> client \<Rightarrow> allow_cache \<Rightarrow> (allowlist_error + bool) \<times> allow_cache" where
  "is_client_ip_allowed c i cache = (case nets_for_env (ac_allowlist c) cache of
     (Inl e, cache') \<Rightarrow> (Inl e, cache')
   | (Inr None, cache') \<Rightarrow> (Inr True, cache')
   | (Inr (Some nets), cache') \<Rightarrow> (Inr (ip_in_allowlist (effective_client_ip c i) nets), cache'))"

fun serve :: "(allow_config \<times> client) list \<Rightarrow> allow_cache \<Rightarrow> (allowlist_error + bool) list" where
  "serve [] cache = []"
| "serve ((c, i) # rs) cache = (case is_client_ip_allowed c i cache of (r, cache') \<Rightarrow> r # serve rs cache')"

subsection \<open>The remembered parse changes nothing\<close>

text \<open>The remembered parse is invisible: over any sequence of requests, under configurations that change
  between them or do not parse, every request is decided as if the list were parsed anew.\<close>

theorem allowlist_cache_transparent:
  "serve reqs None = map (\<lambda>(c, i). fst (is_client_ip_allowed c i None)) reqs"
proof -
  define ok where "ok cache \<longleftrightarrow> (\<forall>raw nets. cache = Some (raw, nets) \<longrightarrow> parse_ip_allowlist raw = Inr nets)" for cache
  have step: "fst (is_client_ip_allowed c i cache) = fst (is_client_ip_allowed c i None) \<and> ok (snd (is_client_ip_allowed c i cache))"
    if "ok cache" for c i cache
    using that by (auto simp: ok_def is_client_ip_allowed_def nets_for_env_def split: option.splits sum.splits prod.splits if_splits)
  have "serve reqs cache = map (\<lambda>(c, i). fst (is_client_ip_allowed c i None)) reqs" if "ok cache" for cache
    using that
  proof (induction reqs arbitrary: cache)
    case (Cons r reqs)
    obtain c i where r: "r = (c, i)" by (cases r)
    obtain x cache' where x: "is_client_ip_allowed c i cache = (x, cache')" by fastforce
    with step [OF Cons.prems, of c i] have "x = fst (is_client_ip_allowed c i None)" "ok cache'" by simp_all
    with Cons.IH x r show ?case by simp
  qed simp
  then show ?thesis by (simp add: ok_def)
qed

subsection \<open>Networks in dotted notation\<close>

type_synonym quad = "nat \<times> nat \<times> nat \<times> nat"

fun quad_ok :: "quad \<Rightarrow> bool" where
  "quad_ok (a, b, c, d) \<longleftrightarrow> a < 256 \<and> b < 256 \<and> c < 256 \<and> d < 256"

fun quad_value :: "quad \<Rightarrow> nat" where
  "quad_value (a, b, c, d) = ((a * 256 + b) * 256 + c) * 256 + d"

fun quad_text :: "quad \<Rightarrow> string" where
  "quad_text (a, b, c, d) = nat_digits a @ CHR ''.'' # nat_digits b @ CHR ''.'' # nat_digits c @ CHR ''.'' # nat_digits d"

definition cidr_text :: "quad \<times> nat \<Rightarrow> string" where
  "cidr_text e = quad_text (fst e) @ CHR ''/'' # nat_digits (snd e)"

fun csv :: "string list \<Rightarrow> string" where
  "csv [] = []"
| "csv [s] = s"
| "csv (s # ss) = s @ CHR '','' # csv ss"

lemma split_char_alone: "c \<notin> set s \<Longrightarrow> split_char c s = [s]"
  by (induction s) auto

lemma split_char_append: "c \<notin> set p \<Longrightarrow> split_char c (p @ c # s) = p # split_char c s"
  by (induction p) auto

lemma split_csv: "ss \<noteq> [] \<Longrightarrow> \<forall>s\<in>set ss. CHR '','' \<notin> set s \<Longrightarrow> split_char (CHR '','') (csv ss) = ss"
  by (induction ss rule: csv.induct) (auto simp: split_char_alone split_char_append)

lemma split_last_append: "c \<notin> set b \<Longrightarrow> split_last c (a @ c # b) = Some (a, b)"
proof -
  assume b: "c \<notin> set b"
  then have "takeWhile (\<lambda>x. x \<noteq> c) (rev b @ c # rev a) = rev b" by (subst takeWhile_append2) auto
  then show ?thesis by (simp add: split_last_def Let_def)
qed

lemma split_last_absent: "c \<notin> set s \<Longrightarrow> split_last c s = None"
proof -
  assume "c \<notin> set s"
  then have "takeWhile (\<lambda>x. x \<noteq> c) (rev s) = rev s" by (auto simp: takeWhile_eq_all_conv)
  then show ?thesis by (simp add: split_last_def)
qed

lemma digit_chars: "c \<in> set (nat_digits n) \<Longrightarrow> is_digit c"
  using nat_digits_is_digit [of n] by (auto simp: list_all_iff)

lemma digit_chars_hd: "is_digit (hd (nat_digits n @ s))" and digit_chars_last: "is_digit (last (s @ nat_digits n))"
  using nat_digits_nonempty [of n] digit_chars [of _ n] by (simp_all add: hd_append)

lemma not_digits [simp]:
  "\<not> is_digit (CHR ''%'')" "\<not> is_digit (CHR ''/'')" "\<not> is_digit (CHR '':'')" "\<not> is_digit (CHR '','')"
  "\<not> is_digit (CHR ''['')" "\<not> is_digit (CHR 0x22)" "\<not> is_digit (CHR 0x27)" "\<not> is_digit (CHR ''.'')"
  "\<not> is_digit (CHR ''x'')" "\<not> is_digit (CHR ''X'')" "\<not> is_digit (CHR ''o'')" "\<not> is_digit (CHR ''O'')"
  "\<not> is_digit (CHR ''b'')" "\<not> is_digit (CHR ''B'')" "\<not> is_digit (CHR ''-'')" "\<not> is_digit (CHR ''+'')"
  by (simp_all add: is_digit_def)

lemma short_digits: "n < 1000 \<Longrightarrow> digits_1_3 (nat_digits n)"
proof -
  assume n: "n < 1000"
  have "length (nat_digits n) \<le> 3"
    using n by (simp add: nat_digits.simps [of n] nat_digits.simps [of "n div 10"] nat_digits.simps [of "n div 10 div 10"])
  then show ?thesis by (auto simp: digits_1_3_def list_all_iff digit_chars)
qed

lemma quad_split: "split_char (CHR ''.'') (quad_text (a, b, c, d)) = [nat_digits a, nat_digits b, nat_digits c, nat_digits d]"
proof -
  have "CHR ''.'' \<notin> set (nat_digits n)" for n using digit_chars [of "CHR ''.''" n] by (auto simp: is_digit_def)
  then show ?thesis by (simp add: split_char_append split_char_alone)
qed

lemma quad_chars: "x \<in> set (quad_text q) \<Longrightarrow> is_digit x \<or> x = CHR ''.''"
  by (cases q) (auto dest: digit_chars)

lemma quad_shape_text: "quad_ok q \<Longrightarrow> quad_shape (quad_text q)"
  by (cases q) (auto simp: quad_shape_def quad_split short_digits simp del: quad_text.simps)

lemma ipv4_number_text: "quad_ok q \<Longrightarrow> ipv4_number (quad_text q) = Some (quad_value q)"
  by (cases q) (auto simp: ipv4_number_def quad_split short_digits simp del: quad_text.simps)

lemma parse_addr_text: "quad_ok q \<Longrightarrow> parse_addr (quad_text q) = Some (V4, quad_value q)"
  using quad_chars [of "CHR '':''" q] by (auto simp: parse_addr_def ipv4_number_text is_digit_def)

lemma quad_ends: "quad_text q \<noteq> []" "is_digit (hd (quad_text q))" "is_digit (last (quad_text q))"
  using digit_chars_hd digit_chars_last by (cases q; simp add: last_append)+

lemma not_in_quad: "\<not> is_digit x \<Longrightarrow> x \<noteq> CHR ''.'' \<Longrightarrow> x \<notin> set (quad_text q)"
  using quad_chars by blast

lemma takeWhile_absent: "c \<notin> set s \<Longrightarrow> takeWhile (\<lambda>x. x \<noteq> c) s = s"
  by (auto simp: takeWhile_eq_all_conv)

lemma trimmed_quad: "js_trim (quad_text q) = quad_text q"
  using quad_ends [of q] digit_no_space by (simp add: js_trim_id)

lemma clean_quad: "clean_addr (quad_text q) = quad_text q"
proof -
  have "hd (quad_text q) \<noteq> CHR ''[''" using quad_ends [of q] not_digits by metis
  then have sb: "strip_brackets (quad_text q) = quad_text q" by (simp add: strip_brackets_def)
  have tw: "takeWhile (\<lambda>c. c \<noteq> CHR ''%'') (quad_text q) = quad_text q"
    by (intro takeWhile_absent not_in_quad) simp_all
  show ?thesis by (simp only: clean_addr_def sb tw trimmed_quad)
qed

lemma no_slash: "CHR ''/'' \<notin> set (quad_text q)" "CHR ''/'' \<notin> set (nat_digits n)"
  using quad_chars [of "CHR ''/''" q] digit_chars [of "CHR ''/''" n] by (auto simp: is_digit_def)

lemma unquoted: "is_digit (hd s) \<Longrightarrow> strip_quotes s = s"
proof -
  assume "is_digit (hd s)"
  then have "hd s \<noteq> CHR 0x22 \<and> hd s \<noteq> CHR 0x27" using not_digits by metis
  then show ?thesis by (simp add: strip_quotes_def)
qed

lemma normalize_quad: "normalize_entry (quad_text q) = quad_text q"
  using quad_ends [of q] by (simp add: normalize_entry_def trimmed_quad unquoted cidr_match_def split_last_absent no_slash clean_quad)

lemma normalize_cidr:
  assumes "n < 1000"
  shows "normalize_entry (cidr_text (q, n)) = cidr_text (q, n)" and "js_trim (cidr_text (q, n)) = cidr_text (q, n)"
proof -
  have hd: "is_digit (hd (cidr_text (q, n)))" using quad_ends [of q] by (simp add: cidr_text_def hd_append)
  have last: "is_digit (last (cidr_text (q, n)))"
    using digit_chars_last [of "quad_text q @ [CHR ''/'']" n] by (simp add: cidr_text_def)
  show t: "js_trim (cidr_text (q, n)) = cidr_text (q, n)"
    using hd last digit_no_space by (intro js_trim_id) (auto simp: cidr_text_def)
  have "cidr_match (cidr_text (q, n)) = Some (quad_text q, nat_digits n)"
    using assms quad_ends [of q] by (simp add: cidr_match_def cidr_text_def split_last_append no_slash short_digits)
  then show "normalize_entry (cidr_text (q, n)) = cidr_text (q, n)"
    using hd by (simp add: normalize_entry_def t unquoted trimmed_quad clean_quad) (simp add: cidr_text_def)
qed

lemma prefix_number:
  assumes "n \<le> 32"
  shows "string_number (nat_digits n) = Some (of_nat n)"
  using digits_number_exact [OF nat_digits_nonempty nat_digits_is_digit, of n] assms by simp

definition quad_net :: "quad \<times> nat \<Rightarrow> net" where
  "quad_net e = \<lparr>nt_version = V4, nt_base = quad_value (fst e) div 2 ^ (32 - snd e), nt_bits = snd e\<rparr>"

lemma parse_cidr:
  assumes "quad_ok q" "n \<le> 32"
  shows "parse_entry (cidr_text (q, n)) = Inr (quad_net (q, n))"
proof -
  have "split_last (CHR ''/'') (cidr_text (q, n)) = Some (quad_text q, nat_digits n)"
    by (simp add: cidr_text_def split_last_append no_slash)
  moreover have "mask_value (quad_value q) V4 n = quad_value q div 2 ^ (32 - n)"
    using assms(2) by (auto simp: mask_value_def total_bits_def)
  ultimately show ?thesis
    using assms(2) by (simp add: parse_entry_def parse_addr_text [OF assms(1)] prefix_bits_def prefix_number total_bits_def quad_net_def)
qed

lemma cidr_nonempty: "cidr_text e \<noteq> []"
  by (simp add: cidr_text_def)

lemma parse_cidrs:
  "\<forall>(q, n)\<in>set es. quad_ok q \<and> n \<le> 32 \<Longrightarrow> parse_entries (map cidr_text es) = Inr (map quad_net es)"
proof (induction es)
  case (Cons e es)
  obtain q n where e: "e = (q, n)" by (cases e)
  with Cons.prems have "quad_ok q" "n \<le> 32" by auto
  with Cons show ?case using normalize_cidr [of n q] parse_cidr [of q n] cidr_nonempty [of e] by (simp add: e)
qed simp

lemma csv_ends: "ss \<noteq> [] \<Longrightarrow> \<forall>s\<in>set ss. s \<noteq> [] \<Longrightarrow> hd (csv ss) = hd (hd ss) \<and> last (csv ss) = last (last ss) \<and> csv ss \<noteq> []"
  by (induction ss rule: csv.induct) auto

lemma unmap_quad:
  assumes "quad_ok q"
  shows "unmap_v4 (normalize_entry (quad_text q)) = quad_text q"
    and "unmap_v4 (normalize_entry (''::ffff:'' @ quad_text q)) = quad_text q"
proof -
  have "js_lower (take 7 (quad_text q)) \<noteq> ''::ffff:''"
    using quad_ends [of q] by (cases "quad_text q") (auto simp: js_lower_def lower_char_def is_digit_def)
  then show "unmap_v4 (normalize_entry (quad_text q)) = quad_text q"
    by (simp add: normalize_quad unmap_v4_def trimmed_quad Let_def)
  let ?t = "''::ffff:'' @ quad_text q"
  have trim: "js_trim ?t = ?t" using quad_ends [of q] digit_no_space by (intro js_trim_id) (auto simp: is_space_def)
  have "strip_quotes ?t = ?t" by (simp add: strip_quotes_def)
  moreover have "split_last (CHR ''/'') ?t = None" using no_slash(1) [of q] by (intro split_last_absent) auto
  moreover have "clean_addr ?t = ?t"
  proof -
    have sb: "strip_brackets ?t = ?t" by (simp add: strip_brackets_def)
    have tw: "takeWhile (\<lambda>c. c \<noteq> CHR ''%'') ?t = ?t"
      using not_in_quad [of "CHR ''%''" q] by (intro takeWhile_absent) simp
    show ?thesis by (simp only: clean_addr_def sb tw trim)
  qed
  ultimately have "normalize_entry ?t = ?t"
    by (simp only: normalize_entry_def trim cidr_match_def Let_def option.simps)
  moreover have "js_lower (take 7 ?t) = ''::ffff:''" by (simp add: js_lower_def lower_char_def)
  ultimately show "unmap_v4 (normalize_entry ?t) = quad_text q"
    using quad_shape_text [OF assms] trim by (simp add: unmap_v4_def Let_def)
qed

text \<open>C31: The allowlist is its networks: a list of dotted networks with prefixes of 0 to 32 bits is read as it is
  written, and a client, seen as its dotted address or as the IPv4-mapped IPv6 address a socket reports,
  is let in exactly when it agrees with some network on the network's leading bits.\<close>

theorem allowlist_decides:
  assumes es: "es \<noteq> []" "\<forall>(q, n)\<in>set es. quad_ok q \<and> n \<le> 32" and q: "quad_ok client"
  shows "\<exists>nets. parse_ip_allowlist (csv (map cidr_text es)) = Inr (Some nets) \<and>
    (\<forall>addr\<in>{quad_text client, ''::ffff:'' @ quad_text client}. ip_in_allowlist addr nets \<longleftrightarrow>
       (\<exists>(b, n)\<in>set es. quad_value client div 2 ^ (32 - n) = quad_value b div 2 ^ (32 - n)))"
proof -
  let ?raw = "csv (map cidr_text es)"
  have ends: "hd ?raw = hd (cidr_text (hd es))" "last ?raw = last (cidr_text (last es))" "?raw \<noteq> []"
    using csv_ends [of "map cidr_text es"] es(1) cidr_nonempty by (simp_all add: hd_map last_map)
  have "is_digit (hd (cidr_text e)) \<and> is_digit (last (cidr_text e))" for e
    using quad_ends [of "fst e"] digit_chars_last [of "quad_text (fst e) @ [CHR ''/'']" "snd e"]
    by (simp add: cidr_text_def hd_append)
  with ends digit_no_space have trim: "js_trim ?raw = ?raw" by (intro js_trim_id) auto
  have "CHR '','' \<notin> set (cidr_text e)" for e
    using quad_chars [of "CHR '',''" "fst e"] digit_chars [of "CHR '',''" "snd e"] by (auto simp: cidr_text_def is_digit_def)
  then have "split_char (CHR '','') ?raw = map cidr_text es" using es(1) by (intro split_csv) auto
  then have parse: "parse_ip_allowlist ?raw = Inr (Some (map quad_net es))"
    using es ends(3) by (simp add: parse_ip_allowlist_def trim parse_cidrs)
  have mask: "mask_value v V4 n = v div 2 ^ (32 - n)" if "n \<le> 32" for v n
    using that by (auto simp: mask_value_def total_bits_def)
  have "ip_in_allowlist addr (map quad_net es) \<longleftrightarrow>
       (\<exists>(b, n)\<in>set es. quad_value client div 2 ^ (32 - n) = quad_value b div 2 ^ (32 - n))"
    if "unmap_v4 (normalize_entry addr) = quad_text client" for addr
  proof -
    have "ip_in_allowlist addr (map quad_net es) \<longleftrightarrow>
        (\<exists>e\<in>set es. mask_value (quad_value client) V4 (snd e) = quad_value (fst e) div 2 ^ (32 - snd e))"
      by (simp add: ip_in_allowlist_def that parse_addr_text [OF q] list_ex_iff quad_net_def)
    also have "\<dots> \<longleftrightarrow> (\<exists>e\<in>set es. quad_value client div 2 ^ (32 - snd e) = quad_value (fst e) div 2 ^ (32 - snd e))"
      using es(2) mask by (intro bex_cong) auto
    also have "\<dots> \<longleftrightarrow> (\<exists>(b, n)\<in>set es. quad_value client div 2 ^ (32 - n) = quad_value b div 2 ^ (32 - n))"
      by (rule bex_cong [OF refl]) (simp add: case_prod_beta)
    finally show ?thesis .
  qed
  with parse unmap_quad [OF q] show ?thesis by blast
qed

lemma allowlist_decides_witness:
  "\<exists>nets. parse_ip_allowlist (csv [cidr_text ((10, 0, 0, 0), 8), cidr_text ((192, 168, 1, 0), 24)]) = Inr (Some nets) \<and>
     ip_in_allowlist (quad_text (192, 168, 1, 77)) nets"
proof -
  have "\<exists>nets. parse_ip_allowlist (csv (map cidr_text [((10, 0, 0, 0), 8), ((192, 168, 1, 0), 24)])) = Inr (Some nets) \<and>
    (\<forall>addr\<in>{quad_text (192, 168, 1, 77), ''::ffff:'' @ quad_text (192, 168, 1, 77)}. ip_in_allowlist addr nets \<longleftrightarrow>
       (\<exists>(b, n)\<in>set [((10, 0, 0, 0), 8), ((192, 168, 1, 0), 24)].
          quad_value (192, 168, 1, 77) div 2 ^ (32 - n) = quad_value b div 2 ^ (32 - n)))"
    by (rule allowlist_decides) auto
  then show ?thesis by (simp del: quad_text.simps) blast
qed

text \<open>A network whose prefix length is missing is not refused: it is read as the network of prefix 0.\<close>

lemma empty_prefix_allows_all:
  "parse_ip_allowlist ''10.0.0.0/'' = Inr (Some [\<lparr>nt_version = V4, nt_base = 0, nt_bits = 0\<rparr>])"
  "quad_ok q \<Longrightarrow> ip_in_allowlist (quad_text q) [\<lparr>nt_version = V4, nt_base = 0, nt_bits = 0\<rparr>]"
proof -
  show "parse_ip_allowlist ''10.0.0.0/'' = Inr (Some [\<lparr>nt_version = V4, nt_base = 0, nt_bits = 0\<rparr>])"
    by (simp add: parse_ip_allowlist_def js_trim_def is_space_def normalize_entry_def strip_quotes_def cidr_match_def
        split_last_def digits_1_3_def clean_addr_def strip_brackets_def parse_entry_def parse_addr_def ipv4_number_def
        prefix_bits_def string_number_def total_bits_def mask_value_def digits_val_def digit_val_def is_digit_def)
  show "quad_ok q \<Longrightarrow> ip_in_allowlist (quad_text q) [\<lparr>nt_version = V4, nt_base = 0, nt_bits = 0\<rparr>]"
    by (cases q) (simp add: ip_in_allowlist_def unmap_quad parse_addr_text mask_value_def total_bits_def del: quad_text.simps)
qed

end
