(* ===== verification/LogImport.thy ===== *)
theory LogImport
  imports IpAllowlist SessionData
begin

section \<open>Importing a log sheet\<close>

text \<open>
  packages/log-import: the sheet's timecodes (sheetTimecode.ts), the choice of a category for a row
  (categoryMatch.ts), and the alignment of the rows with the transcript of the recorded parts
  (syncScore.ts), which gives every row its time in the session.
\<close>

subsection \<open>Timecodes of the sheet\<close>

definition max_frame_rate :: num64 where "max_frame_rate = 120"

definition digits_num :: "string \<Rightarrow> num64" where
  "digits_num ds = fl (of_nat (digits_val ds))"

definition parse_clock_text :: "string \<Rightarrow> num64 option" where
  "parse_clock_text raw = (let s = js_trim raw; parts = map js_trim (split_char (CHR '':'') s) in
     if s = [] \<or> length parts < 2 \<or> 4 < length parts \<or> \<not> list_all (\<lambda>p. p \<noteq> [] \<and> list_all is_digit p) parts then None else
     let nums = map digits_num parts; clock = (if length nums = 4 then take 3 nums else nums) in
     (case clock of
        [mm, ss] \<Rightarrow> if 59 < ss then None else Some (dbl_add (dbl_mul mm 60) ss)
      | [hh, mm, ss] \<Rightarrow> if 59 < mm \<or> 59 < ss then None
          else Some (dbl_add (dbl_add (dbl_mul hh 3600) (dbl_mul mm 60)) ss)
      | _ \<Rightarrow> None))"

definition safe_integer :: "num64 \<Rightarrow> bool" where
  "safe_integer x \<longleftrightarrow> of_int \<lfloor>x\<rfloor> = x \<and> \<bar>x\<bar> \<le> 2 ^ 53 - 1"

definition parse_sheet_timecode_to_seconds :: "string \<Rightarrow> num64 option" where
  "parse_sheet_timecode_to_seconds raw = (case parse_clock_text raw of
     None \<Rightarrow> None
   | Some s \<Rightarrow> if safe_integer (dbl_mul s max_frame_rate) then Some s else None)"

definition seconds_to_total_frames :: "num64 \<Rightarrow> num64 \<Rightarrow> int" where
  "seconds_to_total_frames s rate = max 0 (js_round (dbl_mul s (of_int (js_round rate))))"

subsection \<open>The category of a row\<close>

record category_like =
  ca_id :: string
  ca_name :: string
  ca_type :: string
  ca_options :: "string list"
  ca_on :: string
  ca_off :: string

record category_match =
  cm_id :: string
  cm_message :: string
  cm_option :: "string option"

datatype category_error = NoOtherCategory

text \<open>Runs of letters and digits.\<close>

definition word_char :: "char \<Rightarrow> bool" where
  "word_char c \<longleftrightarrow> is_digit c \<or> (97 \<le> (of_char c :: nat) \<and> (of_char c :: nat) \<le> 122)"

fun runs :: "('a \<Rightarrow> bool) \<Rightarrow> 'a list \<Rightarrow> 'a list \<Rightarrow> 'a list list" where
  "runs p w [] = (if w = [] then [] else [w])"
| "runs p w (c # cs) = (if p c then runs p (w @ [c]) cs else if w = [] then runs p [] cs else w # runs p [] cs)"

definition category_tokens :: "string \<Rightarrow> string list" where
  "category_tokens s = runs word_char [] (js_lower s)"

definition overlaps :: "string \<Rightarrow> string \<Rightarrow> bool" where
  "overlaps cell cand = (let a = category_tokens cell; b = category_tokens cand in
     a \<noteq> [] \<and> b \<noteq> [] \<and> (list_ex (\<lambda>t. t \<in> set b) a \<or> list_ex (\<lambda>t. t \<in> set a) b))"

definition find_other :: "category_like list \<Rightarrow> category_like option" where
  "find_other cs = find (\<lambda>c. js_lower (js_trim (ca_name c)) = ''other'') cs"

definition category_candidates :: "category_like \<Rightarrow> (string \<times> string \<times> string option) list" where
  "category_candidates c = (let t = map upper_char (ca_type c) in
     if t = ''DROPDOWN'' then map (\<lambda>l. (ca_id c, l, Some l)) (ca_options c)
     else if t = ''ON_OFF'' then map (\<lambda>l. (ca_id c, l, Some l)) (filter (\<lambda>l. js_trim l \<noteq> []) [ca_on c, ca_off c])
     else if t \<in> {''BUTTON'', ''TEXT''} then [(ca_id c, ca_name c, None)] else [])"

definition map_log_category :: "string \<Rightarrow> string \<Rightarrow> category_like list \<Rightarrow> category_error + category_match" where
  "map_log_category cell msg cs = (case find_other cs of
     None \<Rightarrow> Inl NoOtherCategory
   | Some other \<Rightarrow> let t = js_trim cell in
       if t = [] then Inr \<lparr>cm_id = ca_id other, cm_message = msg, cm_option = None\<rparr> else
       (case order_by (\<lambda>(_, l, _). - int (length l)) (filter (\<lambda>(_, l, _). overlaps t l) (concat (map category_candidates cs))) of
          [] \<Rightarrow> Inr \<lparr>cm_id = ca_id other, cm_message = msg @ '' - '' @ t, cm_option = None\<rparr>
        | (i, _, opt) # _ \<Rightarrow> Inr \<lparr>cm_id = i, cm_message = msg, cm_option = opt\<rparr>))"

subsection \<open>Token scores\<close>

definition solid_score :: num64 where "solid_score = 9 / 2"
definition decent_score :: num64 where "decent_score = 5 / 2"
definition offset_agree_s :: num64 where "offset_agree_s = 60"

definition token_char :: "char \<Rightarrow> bool" where
  "token_char c \<longleftrightarrow> word_char c \<or> c = CHR 0x27"

definition normalize_token :: "string \<Rightarrow> string" where
  "normalize_token raw = js_trim (filter token_char (js_lower raw))"

definition tokenize :: "string \<Rightarrow> string list" where
  "tokenize t = filter (\<lambda>w. w \<noteq> []) (map normalize_token (runs (\<lambda>c. \<not> is_space c) [] t))"

text \<open>One row of the table: the cell left of the next one, the row above from the cell up-left on.\<close>

fun dp_row :: "char \<Rightarrow> nat \<Rightarrow> nat list \<Rightarrow> string \<Rightarrow> nat list" where
  "dp_row c left (up_left # up # us) (y # ys) =
     left # dp_row c (min (min (left + 1) (up + 1)) (up_left + (if c = y then 0 else 1))) (up # us) ys"
| "dp_row c left us ys = [left]"

fun dp_rows :: "nat \<Rightarrow> nat list \<Rightarrow> string \<Rightarrow> string \<Rightarrow> nat list" where
  "dp_rows i prev [] b = prev"
| "dp_rows i prev (c # a) b = dp_rows (Suc i) (dp_row c (Suc i) prev b) a b"

definition edit_distance :: "string \<Rightarrow> string \<Rightarrow> nat" where
  "edit_distance a b = (if a = b then 0 else if a = [] then length b else if b = [] then length a
     else last (dp_rows 0 [0..<Suc (length b)] a b))"

definition starts_with :: "string \<Rightarrow> string \<Rightarrow> bool" where
  "starts_with s p \<longleftrightarrow> take (length p) s = p"

definition token_score :: "string \<Rightarrow> string \<Rightarrow> num64" where
  "token_score a b = (if a = b then 1
     else if 4 \<le> length a \<and> 4 \<le> length b \<and> (starts_with a (take 4 b) \<or> starts_with b (take 4 a)) then fl (7 / 10)
     else if edit_distance a b \<le> 1 then fl (7 / 10) else 0)"

subsection \<open>Candidates\<close>

record transcript_token =
  tt_word :: string
  tt_start :: num64

record align_candidate =
  ac_score :: num64
  ac_transcript_start :: num64
  ac_sheet :: num64
  ac_offset :: num64
  ac_matched :: nat
  ac_message :: string

fun match_run :: "string list \<Rightarrow> string list \<Rightarrow> num64 \<Rightarrow> nat \<Rightarrow> num64 \<times> nat" where
  "match_run (m # ms) (t # ts) score n = (let s = token_score m t in
     if s \<le> 0 then (score, n) else match_run ms ts (dbl_add score s) (Suc n))"
| "match_run ms ts score n = (score, n)"

fun candidates_from :: "string \<Rightarrow> num64 \<Rightarrow> string list \<Rightarrow> (string \<times> num64) list \<Rightarrow> align_candidate list" where
  "candidates_from msg sheet ms [] = []"
| "candidates_from msg sheet ms (t # ts) = (case match_run ms (map fst (t # ts)) 0 0 of
     (score, n) \<Rightarrow> (if 3 \<le> n \<and> decent_score \<le> score then
         [\<lparr>ac_score = score, ac_transcript_start = snd t, ac_sheet = sheet, ac_offset = dbl_sub (snd t) sheet,
           ac_matched = n, ac_message = msg\<rparr>] else []) @ candidates_from msg sheet ms ts)"

definition find_alignment_candidates :: "string \<Rightarrow> num64 \<Rightarrow> transcript_token list \<Rightarrow> align_candidate list" where
  "find_alignment_candidates msg sheet transcript = (let ms = tokenize msg in
     if length ms < 3 then [] else
     order_by (\<lambda>c. (- ac_score c, ac_sheet c))
       (candidates_from msg sheet ms
         (filter (\<lambda>t. fst t \<noteq> []) (map (\<lambda>t. (normalize_token (tt_word t), tt_start t)) transcript))))"

definition is_solid :: "align_candidate \<Rightarrow> bool" where
  "is_solid c \<longleftrightarrow> solid_score \<le> ac_score c"

definition is_decent :: "align_candidate \<Rightarrow> bool" where
  "is_decent c \<longleftrightarrow> decent_score \<le> ac_score c"

subsection \<open>Rows and parts\<close>

record log_row =
  lr_sheet :: num64
  lr_message :: string
  lr_type :: string

record part_sync =
  py_index :: nat
  py_offset :: num64
  py_start :: num64
  py_end :: num64
  py_ref :: align_candidate

record assignment =
  as_row :: log_row
  as_part :: nat
  as_session :: num64

datatype sync_error = NoSeamParts | EmptyTranscript | FirstPartUnmatched | OffsetsDisagree nat | TooFewMatches nat

definition by_sheet :: "align_candidate list \<Rightarrow> align_candidate list" where
  "by_sheet cs = order_by ac_sheet cs"

definition choose_reference :: "nat \<Rightarrow> align_candidate list \<Rightarrow> sync_error + align_candidate" where
  "choose_reference i cands = (if i = 0 then
       (case by_sheet (filter is_solid cands) of [] \<Rightarrow> Inl FirstPartUnmatched | c # _ \<Rightarrow> Inr c)
     else let decent = by_sheet (filter is_decent cands); solids = filter is_solid decent in
       (case (solids, decent) of
          ([s], [_]) \<Rightarrow> Inr s
        | (_, a # b # _) \<Rightarrow> if offset_agree_s \<le> \<bar>dbl_sub (ac_offset a) (ac_offset b)\<bar> then Inl (OffsetsDisagree i) else Inr a
        | (s # _, _) \<Rightarrow> Inr s
        | _ \<Rightarrow> Inl (TooFewMatches i)))"

text \<open>The candidates of a part: the rows in its rough window, searched in its stretch of the transcript.\<close>

definition part_candidates :: "log_row list \<Rightarrow> transcript_token list \<Rightarrow> num64 list \<Rightarrow> num64 \<Rightarrow> num64 \<Rightarrow> align_candidate list" where
  "part_candidates rows transcript before d sheet_start =
     (let rough_end = dbl_add (dbl_add sheet_start d) 120;
          window = filter (\<lambda>r. dbl_sub sheet_start 1 \<le> lr_sheet r \<and> lr_sheet r \<le> rough_end) rows;
          lo = dbl_sub (foldl dbl_add 0 before) 30;
          hi = dbl_add (dbl_add lo d) 60;
          slice = filter (\<lambda>t. max 0 lo \<le> tt_start t \<and> tt_start t \<le> dbl_add hi 120) transcript;
          search = (if slice = [] then transcript else slice)
      in concat (map (\<lambda>r. find_alignment_candidates (lr_message r) (lr_sheet r) search) window))"

fun sync_parts :: "log_row list \<Rightarrow> transcript_token list \<Rightarrow> nat \<Rightarrow> num64 list \<Rightarrow> num64 \<Rightarrow> num64 list \<Rightarrow>
    sync_error + part_sync list" where
  "sync_parts rows transcript i before sheet_start [] = Inr []"
| "sync_parts rows transcript i before sheet_start (d # ds) =
     (case choose_reference i (part_candidates rows transcript before d sheet_start) of
        Inl e \<Rightarrow> Inl e
      | Inr ref \<Rightarrow> let sheet_end = dbl_sub (dbl_add sheet_start d) (ac_offset ref) in
          (case sync_parts rows transcript (Suc i) (before @ [d]) (dbl_add sheet_end 1) ds of
             Inl e \<Rightarrow> Inl e
           | Inr ps \<Rightarrow> Inr (\<lparr>py_index = i, py_offset = ac_offset ref, py_start = sheet_start, py_end = sheet_end,
               py_ref = ref\<rparr> # ps)))"

fun part_for :: "num64 \<Rightarrow> part_sync list \<Rightarrow> part_sync option" where
  "part_for s [] = None"
| "part_for s [p] = (if py_start p \<le> s \<and> s \<le> py_end p then Some p else None)"
| "part_for s (p # q # ps) = (if py_start p \<le> s \<and> s < py_start q then Some p else part_for s (q # ps))"

definition assign_row :: "part_sync list \<Rightarrow> log_row \<Rightarrow> assignment list" where
  "assign_row ps r = (let on = (\<lambda>p. [\<lparr>as_row = r, as_part = py_index p, as_session = dbl_add (lr_sheet r) (py_offset p)\<rparr>]) in
     case part_for (lr_sheet r) ps of
       Some p \<Rightarrow> on p
     | None \<Rightarrow> if py_end (last ps) < lr_sheet r then on (last ps) else [])"

definition sync_log_rows_to_seams ::
  "log_row list \<Rightarrow> num64 list \<Rightarrow> transcript_token list \<Rightarrow> sync_error + (part_sync list \<times> assignment list)" where
  "sync_log_rows_to_seams rows parts transcript =
     (if parts = [] then Inl NoSeamParts else if transcript = [] then Inl EmptyTranscript else
      (case sync_parts rows transcript 0 [] 0 parts of
         Inl e \<Rightarrow> Inl e
       | Inr ps \<Rightarrow> Inr (ps, concat (map (assign_row ps) rows))))"

subsection \<open>The distance is the edit distance\<close>

text \<open>The ways to edit one text into another, with their numbers of insertions, deletions and replacements.\<close>

inductive edits :: "string \<Rightarrow> string \<Rightarrow> nat \<Rightarrow> bool" where
  none: "edits [] [] 0"
| delete: "edits xs ys n \<Longrightarrow> edits (xs @ [x]) ys (Suc n)"
| insert: "edits xs ys n \<Longrightarrow> edits xs (ys @ [y]) (Suc n)"
| keep: "edits xs ys n \<Longrightarrow> edits (xs @ [x]) (ys @ [y]) (n + (if x = y then 0 else 1))"

text \<open>The least such number over prefixes of \<open>i\<close> and \<open>j\<close> characters.\<close>

fun prefix_distance :: "string \<Rightarrow> string \<Rightarrow> nat \<Rightarrow> nat \<Rightarrow> nat" where
  "prefix_distance a b 0 j = j"
| "prefix_distance a b i 0 = i"
| "prefix_distance a b (Suc i) (Suc j) = min (min (prefix_distance a b (Suc i) j + 1) (prefix_distance a b i (Suc j) + 1))
     (prefix_distance a b i j + (if a ! i = b ! j then 0 else 1))"

lemma prefix_distance_0 [simp]: "prefix_distance a b i 0 = i"
  by (cases i) simp_all

lemma edits_deletions: "edits xs [] (length xs)"
  by (induction xs rule: rev_induct) (auto intro: edits.intros)

lemma edits_insertions: "edits [] ys (length ys)"
  by (induction ys rule: rev_induct) (auto intro: edits.intros)

lemma take_snocD:
  assumes "take (Suc (length xs)) a = xs @ [x]"
  shows "take (length xs) a = xs" and "a ! length xs = x"
proof -
  show "take (length xs) a = xs" using arg_cong [OF assms, of "take (length xs)"] by simp
  have "length (take (Suc (length xs)) a) = Suc (length xs)" using assms by simp
  then show "a ! length xs = x" using arg_cong [OF assms, of "\<lambda>l. l ! length xs"] by simp
qed

lemma prefix_distance_edits:
  "i \<le> length a \<Longrightarrow> j \<le> length b \<Longrightarrow> edits (take i a) (take j b) (prefix_distance a b i j)"
proof (induction a b i j rule: prefix_distance.induct)
  case (1 a b j)
  then show ?case using edits_insertions [of "take j b"] by simp
next
  case (2 a b v)
  then show ?case using edits_deletions [of "take (Suc v) a"] by simp
next
  case (3 a b i j)
  have a: "take (Suc i) a = take i a @ [a ! i]" and b: "take (Suc j) b = take j b @ [b ! j]"
    using 3 by (simp_all add: take_Suc_conv_app_nth)
  have "edits (take (Suc i) a) (take (Suc j) b) (Suc (prefix_distance a b (Suc i) j))"
    unfolding b by (rule edits.insert) (use 3 in simp)
  moreover have "edits (take (Suc i) a) (take (Suc j) b) (Suc (prefix_distance a b i (Suc j)))"
    unfolding a by (rule edits.delete) (use 3 in simp)
  moreover have "edits (take (Suc i) a) (take (Suc j) b) (prefix_distance a b i j + (if a ! i = b ! j then 0 else 1))"
    unfolding a b by (rule edits.keep) (use 3 in simp)
  ultimately show ?case by (simp add: min_def)
qed

lemma prefix_distance_least:
  "edits xs ys n \<Longrightarrow> take (length xs) a = xs \<Longrightarrow> take (length ys) b = ys \<Longrightarrow> prefix_distance a b (length xs) (length ys) \<le> n"
proof (induction rule: edits.induct)
  case (delete xs ys n x)
  with take_snocD [of xs a x] have "prefix_distance a b (length xs) (length ys) \<le> n" by simp
  then show ?case by (cases "length ys") auto
next
  case (insert xs ys n y)
  with take_snocD [of ys b y] have "prefix_distance a b (length xs) (length ys) \<le> n" by simp
  then show ?case by (cases "length xs") auto
next
  case (keep xs ys n x y)
  with take_snocD [of xs a x] take_snocD [of ys b y] have "prefix_distance a b (length xs) (length ys) \<le> n"
    "a ! length xs = x" "b ! length ys = y" by simp_all
  then show ?case by auto
qed simp

lemma dp_row_distance:
  "k \<le> length b \<Longrightarrow> dp_row (a ! i) (prefix_distance a b (Suc i) k) (map (prefix_distance a b i) [k..<Suc (length b)]) (drop k b) =
     map (prefix_distance a b (Suc i)) [k..<Suc (length b)]"
proof (induction "length b - k" arbitrary: k)
  case 0
  then have "k = length b" by simp
  then show ?case by simp
next
  case (Suc m)
  then have k: "k < length b" by simp
  then have up: "[k..<Suc (length b)] = k # Suc k # [Suc (Suc k)..<Suc (length b)]" "[Suc k..<Suc (length b)] = Suc k # [Suc (Suc k)..<Suc (length b)]"
    by (simp_all add: upt_conv_Cons)
  from k have d: "drop k b = b ! k # drop (Suc k) b" by (simp add: Cons_nth_drop_Suc)
  have ih: "dp_row (a ! i) (prefix_distance a b (Suc i) (Suc k)) (map (prefix_distance a b i) [Suc k..<Suc (length b)]) (drop (Suc k) b) =
     map (prefix_distance a b (Suc i)) [Suc k..<Suc (length b)]"
    using Suc k by (intro Suc.hyps(1)) simp_all
  have cell: "min (min (prefix_distance a b (Suc i) k + 1) (prefix_distance a b i (Suc k) + 1))
      (prefix_distance a b i k + (if a ! i = b ! k then 0 else 1)) = prefix_distance a b (Suc i) (Suc k)" by simp
  show ?case using ih by (simp only: up d list.map dp_row.simps cell)
qed

lemma dp_rows_distance:
  "i \<le> length a \<Longrightarrow> dp_rows i (map (prefix_distance a b i) [0..<Suc (length b)]) (drop i a) b =
     map (prefix_distance a b (length a)) [0..<Suc (length b)]"
proof (induction "length a - i" arbitrary: i)
  case (Suc m)
  then have i: "i < length a" by simp
  then have d: "drop i a = a ! i # drop (Suc i) a" by (simp add: Cons_nth_drop_Suc)
  have "dp_row (a ! i) (Suc i) (map (prefix_distance a b i) [0..<Suc (length b)]) b = map (prefix_distance a b (Suc i)) [0..<Suc (length b)]"
    using dp_row_distance [of 0 b a i] by simp
  then have "dp_rows i (map (prefix_distance a b i) [0..<Suc (length b)]) (drop i a) b =
      dp_rows (Suc i) (map (prefix_distance a b (Suc i)) [0..<Suc (length b)]) (drop (Suc i) a) b"
    unfolding d by simp
  also have "\<dots> = map (prefix_distance a b (length a)) [0..<Suc (length b)]"
    using Suc i by simp
  finally show ?case .
qed simp

lemma prefix_distance_same: "prefix_distance a a i i = 0"
  by (induction i) auto

text \<open>C38: The two-row table computes the edit distance: its result is the length of some sequence of insertions,
  deletions and replacements from one text to the other, and none is shorter.\<close>

theorem edit_distance_least:
  "edits a b (edit_distance a b) \<and> (\<forall>n. edits a b n \<longrightarrow> edit_distance a b \<le> n)"
proof -
  have "map (prefix_distance a b 0) [0..<Suc (length b)] = [0..<Suc (length b)]" by (rule map_idI) simp
  with dp_rows_distance [of 0 a b] have "last (dp_rows 0 [0..<Suc (length b)] a b) = prefix_distance a b (length a) (length b)"
    by simp
  then have "edit_distance a b = prefix_distance a b (length a) (length b)"
    using prefix_distance_same [of a "length a"] by (auto simp: edit_distance_def)
  with prefix_distance_edits [of "length a" a "length b" b] prefix_distance_least [of a b _ a b] show ?thesis by simp
qed

lemma edit_distance_least_witness:
  "edits ''intro'' ''into'' 1 \<and> \<not> edits ''intro'' ''into'' 0"
proof -
  have "edit_distance ''intro'' ''into'' = 1" by code_simp
  with edit_distance_least [of "''intro''" "''into''"] show ?thesis by force
qed

subsection \<open>Every row has its place\<close>

lemma sync_parts_chain:
  "sync_parts rows tx i before st ds = Inr ps \<Longrightarrow> length ps = length ds \<and> (ds \<noteq> [] \<longrightarrow> py_start (hd ps) = st) \<and>
     (\<forall>k < length ps. py_index (ps ! k) = i + k) \<and>
     (\<forall>k. Suc k < length ps \<longrightarrow> py_start (ps ! Suc k) = dbl_add (py_end (ps ! k)) 1)"
proof (induction ds arbitrary: i before st ps)
  case (Cons d ds)
  from Cons.prems obtain ref ps' where
    ps: "ps = \<lparr>py_index = i, py_offset = ac_offset ref, py_start = st, py_end = dbl_sub (dbl_add st d) (ac_offset ref), py_ref = ref\<rparr> # ps'"
    and r: "sync_parts rows tx (Suc i) (before @ [d]) (dbl_add (dbl_sub (dbl_add st d) (ac_offset ref)) 1) ds = Inr ps'"
    by (auto simp: Let_def split: sum.splits)
  note ih = Cons.IH [OF r]
  have start: "py_start (ps' ! 0) = dbl_add (py_end (ps ! 0)) 1" if "ps' \<noteq> []"
    using ih that by (cases ps') (auto simp: ps)
  show ?case
    using ih start by (cases ps') (auto simp: ps nth_Cons split: nat.split)
qed simp

text \<open>A place in the windows: the first part whose window holds the row, the last part past the end.\<close>

definition in_window :: "part_sync list \<Rightarrow> nat \<Rightarrow> num64 \<Rightarrow> bool" where
  "in_window ps k s \<longleftrightarrow> k < length ps \<and> py_start (ps ! k) \<le> s \<and> (Suc k < length ps \<longrightarrow> s < py_start (ps ! Suc k))"

lemma part_for_Some: "part_for s ps = Some p \<Longrightarrow> \<exists>k. in_window ps k s \<and> p = ps ! k"
proof (induction s ps rule: part_for.induct)
  case (3 s p' q ps)
  show ?case
  proof (cases "py_start p' \<le> s \<and> s < py_start q")
    case True
    with 3 show ?thesis by (intro exI [of _ 0]) (simp add: in_window_def)
  next
    case False
    with 3 obtain k where "in_window (q # ps) k s" "p = (q # ps) ! k" by auto
    then show ?thesis by (intro exI [of _ "Suc k"]) (simp add: in_window_def)
  qed
qed (auto simp: in_window_def split: if_splits)

lemma part_for_None: "part_for s ps = None \<Longrightarrow> ps \<noteq> [] \<Longrightarrow> py_start (hd ps) \<le> s \<Longrightarrow> py_start (last ps) \<le> s \<and> py_end (last ps) < s"
  by (induction s ps rule: part_for.induct) (auto split: if_splits)

text \<open>No row of a sheet is lost: when the parts of the audio could be aligned, every row with a time of zero
  or later is assigned exactly once, in the sheet's order, to a part whose window holds its time, and its
  time in the session is its sheet time moved by that part's offset; the windows follow one another from
  zero on.\<close>

theorem sync_places_every_row:
  assumes r: "sync_log_rows_to_seams rows parts transcript = Inr (ps, as)" and pos: "\<forall>x\<in>set rows. 0 \<le> lr_sheet x"
  shows "length ps = length parts \<and> map as_row as = rows \<and>
    (\<forall>a\<in>set as. in_window ps (as_part a) (lr_sheet (as_row a)) \<and>
       as_session a = dbl_add (lr_sheet (as_row a)) (py_offset (ps ! as_part a))) \<and>
    py_start (ps ! 0) = 0 \<and> (\<forall>k. Suc k < length ps \<longrightarrow> py_start (ps ! Suc k) = dbl_add (py_end (ps ! k)) 1)"
proof -
  from r have ne: "parts \<noteq> []" and s: "sync_parts rows transcript 0 [] 0 parts = Inr ps" and as: "as = concat (map (assign_row ps) rows)"
    by (auto simp: sync_log_rows_to_seams_def split: if_splits sum.splits)
  note c = sync_parts_chain [OF s]
  have ps: "ps \<noteq> []" "py_start (hd ps) = 0" using c ne by auto
  have one: "\<exists>k. in_window ps k (lr_sheet x) \<and> assign_row ps x =
      [\<lparr>as_row = x, as_part = k, as_session = dbl_add (lr_sheet x) (py_offset (ps ! k))\<rparr>]" if x: "x \<in> set rows" for x
  proof (cases "part_for (lr_sheet x) ps")
    case (Some p)
    from part_for_Some [OF Some] obtain k where "in_window ps k (lr_sheet x)" "p = ps ! k" by blast
    with Some c show ?thesis by (auto simp: assign_row_def Let_def in_window_def)
  next
    case None
    from pos x ps(2) have "py_start (hd ps) \<le> lr_sheet x" by simp
    moreover have "length parts - Suc 0 < length parts" using ne by (cases parts) auto
    moreover note part_for_None [OF None ps(1) calculation(1)] None ps(1) c
    ultimately show ?thesis
      by (intro exI [of _ "length ps - 1"]) (auto simp: assign_row_def Let_def in_window_def last_conv_nth)
  qed
  have "map as_row (concat (map (assign_row ps) xs)) = xs \<and> (\<forall>a\<in>set (concat (map (assign_row ps) xs)).
      in_window ps (as_part a) (lr_sheet (as_row a)) \<and> as_session a = dbl_add (lr_sheet (as_row a)) (py_offset (ps ! as_part a)))"
    if "set xs \<subseteq> set rows" for xs
    using that
  proof (induction xs)
    case (Cons x xs)
    then have "x \<in> set rows" by simp
    from one [OF this] obtain k where "in_window ps k (lr_sheet x)"
      "assign_row ps x = [\<lparr>as_row = x, as_part = k, as_session = dbl_add (lr_sheet x) (py_offset (ps ! k))\<rparr>]" by blast
    with Cons show ?case by auto
  qed simp
  then show ?thesis using c ps by (auto simp: as hd_conv_nth)
qed

definition sheet_row :: log_row where
  "sheet_row = \<lparr>lr_sheet = 5, lr_message = ''a bb ccc dd e'', lr_type = ''note''\<rparr>"

definition heard :: "transcript_token list" where
  "heard = [\<lparr>tt_word = ''A'', tt_start = 8\<rparr>, \<lparr>tt_word = ''bb'', tt_start = 9\<rparr>, \<lparr>tt_word = ''ccc'', tt_start = 10\<rparr>,
     \<lparr>tt_word = ''dd'', tt_start = 11\<rparr>, \<lparr>tt_word = ''e.'', tt_start = 12\<rparr>]"

lemma sync_places_every_row_witness:
  "\<exists>ps as. sync_log_rows_to_seams [sheet_row] [60] heard = Inr (ps, as) \<and> map as_row as = [sheet_row]"
proof -
  have "\<not> isl (sync_log_rows_to_seams [sheet_row] [60] heard)" by code_simp
  then obtain ps as where r: "sync_log_rows_to_seams [sheet_row] [60] heard = Inr (ps, as)"
    by (cases "sync_log_rows_to_seams [sheet_row] [60] heard") auto
  have "\<forall>x\<in>set [sheet_row]. 0 \<le> lr_sheet x" by (simp add: sheet_row_def)
  from sync_places_every_row [OF r this] have "map as_row as = [sheet_row]" by simp
  with r show ?thesis by (intro exI conjI)
qed

end
