(* ===== verification/FifoLock.thy ===== *)
theory FifoLock
  imports Main
begin

section \<open>The hub's lock\<close>

text \<open>
  packages/session-core/src/fifoLock.ts: a mutex made of a chain of promises. Acquirer \<open>i\<close> waits for
  tail \<open>i\<close>, and leaves tail \<open>i + 1\<close> behind, which settles once tail \<open>i\<close> has settled and its own
  \<open>held\<close> promise is resolved by its release function. A step is one call or one microtask.
\<close>

record fifo =
  ff_tails :: "bool list" \<comment> \<open>settled tails, one more than acquirers\<close>
  ff_held :: "bool list" \<comment> \<open>\<open>held\<close> promises resolved by their release\<close>
  ff_got :: "bool list" \<comment> \<open>acquirers that were handed their release function\<close>

definition fifo_init :: fifo where
  "fifo_init = \<lparr>ff_tails = [True], ff_held = [], ff_got = []\<rparr>"

definition fifo_acquire :: "fifo \<Rightarrow> fifo" where
  "fifo_acquire f = \<lparr>ff_tails = ff_tails f @ [False], ff_held = ff_held f @ [False], ff_got = ff_got f @ [False]\<rparr>"

text \<open>\<open>Granted\<close> is the microtask \<open>prev.then(() => release)\<close>, \<open>Settled\<close> the one that settles a tail.
  Releasing twice resolves a resolved promise.\<close>

datatype fifo_label = Acquire | Granted nat | Settled nat | Released nat

inductive fifo_step :: "fifo_label \<Rightarrow> fifo \<Rightarrow> fifo \<Rightarrow> bool" where
  acquire: "fifo_step Acquire f (fifo_acquire f)"
| granted: "i < length (ff_got f) \<Longrightarrow> ff_tails f ! i \<Longrightarrow> \<not> ff_got f ! i \<Longrightarrow>
    fifo_step (Granted i) f (f\<lparr>ff_got := (ff_got f)[i := True]\<rparr>)"
| settled: "i < length (ff_held f) \<Longrightarrow> ff_tails f ! i \<Longrightarrow> ff_held f ! i \<Longrightarrow> \<not> ff_tails f ! Suc i \<Longrightarrow>
    fifo_step (Settled i) f (f\<lparr>ff_tails := (ff_tails f)[Suc i := True]\<rparr>)"
| released: "i < length (ff_got f) \<Longrightarrow> ff_got f ! i \<Longrightarrow>
    fifo_step (Released i) f (f\<lparr>ff_held := (ff_held f)[i := True]\<rparr>)"

code_pred (modes: i \<Rightarrow> i \<Rightarrow> o \<Rightarrow> bool) fifo_step .

inductive_cases fifo_stepE: "fifo_step l f f'"

lemma fifo_step_cases:
  assumes "fifo_step l f f'"
  obtains (acquire) "f' = fifo_acquire f"
  | (granted) i where "f' = f\<lparr>ff_got := (ff_got f)[i := True]\<rparr>" "i < length (ff_got f)" "ff_tails f ! i" "\<not> ff_got f ! i"
  | (settled) i where "f' = f\<lparr>ff_tails := (ff_tails f)[Suc i := True]\<rparr>"
  | (released) i where "f' = f\<lparr>ff_held := (ff_held f)[i := True]\<rparr>" "i < length (ff_got f)" "ff_got f ! i"
  using assms by (elim fifo_stepE) blast+

definition fifo_moves :: "fifo \<Rightarrow> fifo \<Rightarrow> bool" where
  "fifo_moves f f' \<longleftrightarrow> (\<exists>l. fifo_step l f f')"

text \<open>The microtasks alone.\<close>

definition fifo_microtask :: "fifo \<Rightarrow> fifo \<Rightarrow> bool" where
  "fifo_microtask f f' \<longleftrightarrow> (\<exists>i. fifo_step (Granted i) f f' \<or> fifo_step (Settled i) f f')"

subsection \<open>The specification: a queue\<close>

record queue_lock =
  ql_holder :: "nat option"
  ql_waiting :: "nat list"
  ql_next :: nat

definition queue_init :: queue_lock where
  "queue_init = \<lparr>ql_holder = None, ql_waiting = [], ql_next = 0\<rparr>"

inductive queue_step :: "queue_lock \<Rightarrow> queue_lock \<Rightarrow> bool" where
  arrive: "queue_step q (q\<lparr>ql_waiting := ql_waiting q @ [ql_next q], ql_next := Suc (ql_next q)\<rparr>)"
| enter: "ql_holder q = None \<Longrightarrow> ql_waiting q = i # ws \<Longrightarrow> queue_step q (q\<lparr>ql_holder := Some i, ql_waiting := ws\<rparr>)"
| leave: "ql_holder q = Some i \<Longrightarrow> queue_step q (q\<lparr>ql_holder := None\<rparr>)"

definition queue_of :: "fifo \<Rightarrow> queue_lock" where
  "queue_of f = \<lparr>ql_holder = find (\<lambda>i. ff_got f ! i \<and> \<not> ff_held f ! i) [0..<length (ff_got f)],
     ql_waiting = filter (\<lambda>i. \<not> ff_got f ! i) [0..<length (ff_got f)], ql_next = length (ff_got f)\<rparr>"

subsection \<open>The chain's invariant\<close>

definition fifo_ok :: "fifo \<Rightarrow> bool" where
  "fifo_ok f \<longleftrightarrow> length (ff_tails f) = Suc (length (ff_got f)) \<and> length (ff_held f) = length (ff_got f) \<and> ff_tails f ! 0 \<and>
     (\<forall>i < length (ff_got f). (ff_tails f ! Suc i \<longrightarrow> ff_tails f ! i \<and> ff_held f ! i) \<and> (ff_held f ! i \<longrightarrow> ff_got f ! i) \<and>
        (ff_got f ! i \<longrightarrow> ff_tails f ! i))"

lemma fifo_ok_init: "fifo_ok fifo_init"
  by (simp add: fifo_ok_def fifo_init_def)

lemma fifo_ok_step: "fifo_step l f f' \<Longrightarrow> fifo_ok f \<Longrightarrow> fifo_ok f'"
proof (erule fifo_stepE)
  assume ok: "fifo_ok f"
  show "fifo_ok f'" if "f' = fifo_acquire f"
  proof -
    let ?n = "length (ff_got f)" and ?g = "fifo_acquire f"
    have old: "(ff_tails ?g ! Suc i \<longrightarrow> ff_tails ?g ! i \<and> ff_held ?g ! i) \<and> (ff_held ?g ! i \<longrightarrow> ff_got ?g ! i) \<and>
        (ff_got ?g ! i \<longrightarrow> ff_tails ?g ! i)" if "i < ?n" for i
      using ok that by (simp add: fifo_ok_def fifo_acquire_def nth_append)
    have new: "\<not> ff_tails ?g ! Suc ?n" "\<not> ff_held ?g ! ?n" "\<not> ff_got ?g ! ?n"
      using ok by (simp_all add: fifo_ok_def fifo_acquire_def nth_append)
    have "length (ff_tails ?g) = Suc (length (ff_got ?g)) \<and> length (ff_held ?g) = length (ff_got ?g) \<and> ff_tails ?g ! 0 \<and>
        length (ff_got ?g) = Suc ?n"
      using ok by (simp add: fifo_ok_def fifo_acquire_def nth_append)
    with old new show ?thesis unfolding that by (simp add: fifo_ok_def less_Suc_eq all_conj_distrib)
  qed
  show "fifo_ok f'" if "f' = f\<lparr>ff_got := (ff_got f)[i := True]\<rparr>" "i < length (ff_got f)" "ff_tails f ! i" for i
    using ok that(2,3) unfolding that(1) by (simp add: fifo_ok_def nth_list_update)
  show "fifo_ok f'" if "f' = f\<lparr>ff_held := (ff_held f)[i := True]\<rparr>" "i < length (ff_got f)" "ff_got f ! i" for i
    using ok that(2,3) unfolding that(1) by (simp add: fifo_ok_def nth_list_update)
  show "fifo_ok f'" if "f' = f\<lparr>ff_tails := (ff_tails f)[Suc i := True]\<rparr>" "i < length (ff_held f)" "ff_tails f ! i" "ff_held f ! i" for i
    using ok that(2-4) unfolding that(1) by (simp add: fifo_ok_def nth_list_update)
qed

text \<open>What settled tails say about every acquirer before them.\<close>

lemma fifo_before:
  assumes ok: "fifo_ok f" and t: "ff_tails f ! i" "i \<le> length (ff_got f)" and j: "j < i"
  shows "ff_held f ! j \<and> ff_got f ! j"
  using t j
proof (induction i)
  case (Suc i)
  from ok Suc.prems have "ff_tails f ! i" "ff_held f ! i" "ff_got f ! i" by (auto simp: fifo_ok_def)
  with Suc show ?case by (cases "j = i") auto
qed simp

lemma fifo_after:
  assumes ok: "fifo_ok f" and "\<not> ff_held f ! i" "i < j" "j < length (ff_got f)"
  shows "\<not> ff_got f ! j \<and> \<not> ff_held f ! j"
proof -
  have "\<not> ff_tails f ! j" using fifo_before [OF ok, of j i] assms by auto
  with ok assms(4) show ?thesis by (auto simp: fifo_ok_def)
qed

lemma filter_upt_from:
  "i \<le> n \<Longrightarrow> (\<And>k. k < i \<Longrightarrow> \<not> p k) \<Longrightarrow> (\<And>k. i \<le> k \<Longrightarrow> k < n \<Longrightarrow> p k) \<Longrightarrow> filter p [0..<n] = [i..<n]"
proof -
  assume a: "i \<le> n" "\<And>k. k < i \<Longrightarrow> \<not> p k" "\<And>k. i \<le> k \<Longrightarrow> k < n \<Longrightarrow> p k"
  have "[0..<n] = [0..<i] @ [i..<n]" using a(1) upt_add_eq_append [of 0 i "n - i"] by simp
  moreover have "filter p [0..<i] = []" using a(2) by (auto simp: filter_empty_conv)
  moreover have "filter p [i..<n] = [i..<n]" using a(3) by (auto simp: filter_id_conv)
  ultimately show ?thesis by simp
qed

lemma find_unique:
  "i < n \<Longrightarrow> p i \<Longrightarrow> (\<And>k. k < i \<Longrightarrow> \<not> p k) \<Longrightarrow> find p [0..<n] = Some i"
  unfolding find_Some_iff by (intro exI [of _ i]) simp

lemma find_absent: "(\<And>k. k < n \<Longrightarrow> \<not> p k) \<Longrightarrow> find p [0..<n] = None"
  by (simp add: find_None_iff)

text \<open>The holder is \<open>h\<close>: everyone before has left, everyone after waits. Or nobody holds: the first \<open>h\<close> have
  left and the rest wait.\<close>

lemma queue_held:
  assumes ok: "fifo_ok f" and h: "h < length (ff_got f)" "ff_got f ! h" "\<not> ff_held f ! h"
  shows "queue_of f = \<lparr>ql_holder = Some h, ql_waiting = [Suc h..<length (ff_got f)], ql_next = length (ff_got f)\<rparr>"
proof -
  have t: "ff_tails f ! h" using ok h by (simp add: fifo_ok_def)
  note before = fifo_before [OF ok t less_imp_le [OF h(1)]] and after = fifo_after [OF ok h(3)]
  have "find (\<lambda>i. ff_got f ! i \<and> \<not> ff_held f ! i) [0..<length (ff_got f)] = Some h"
    using h before by (intro find_unique) auto
  moreover have "filter (\<lambda>i. \<not> ff_got f ! i) [0..<length (ff_got f)] = [Suc h..<length (ff_got f)]"
    using h before after by (intro filter_upt_from) (auto simp: less_Suc_eq)
  ultimately show ?thesis by (simp add: queue_of_def)
qed

lemma queue_free:
  assumes ok: "fifo_ok f" and n: "h \<le> length (ff_got f)"
    and before: "\<And>i. i < h \<Longrightarrow> ff_held f ! i" and after: "\<And>i. h \<le> i \<Longrightarrow> i < length (ff_got f) \<Longrightarrow> \<not> ff_got f ! i"
  shows "queue_of f = \<lparr>ql_holder = None, ql_waiting = [h..<length (ff_got f)], ql_next = length (ff_got f)\<rparr>"
proof -
  have got: "ff_got f ! i" if "i < h" for i using ok before [OF that] that n by (auto simp: fifo_ok_def)
  have "find (\<lambda>i. ff_got f ! i \<and> \<not> ff_held f ! i) [0..<length (ff_got f)] = None"
    using before after by (intro find_absent) (metis linorder_not_le)
  moreover have "filter (\<lambda>i. \<not> ff_got f ! i) [0..<length (ff_got f)] = [h..<length (ff_got f)]"
    using n got after by (intro filter_upt_from) auto
  ultimately show ?thesis by (simp add: queue_of_def)
qed

text \<open>Every state of the chain is one of the two.\<close>

lemma fifo_shape:
  assumes ok: "fifo_ok f"
  obtains (held) h where "h < length (ff_got f)" "ff_got f ! h" "\<not> ff_held f ! h"
  | (free) h where "h \<le> length (ff_got f)" "\<And>i. i < h \<Longrightarrow> ff_held f ! i" "\<And>i. h \<le> i \<Longrightarrow> i < length (ff_got f) \<Longrightarrow> \<not> ff_got f ! i"
proof (cases "\<exists>h < length (ff_got f). \<not> ff_held f ! h")
  case False
  then show ?thesis by (intro free [of "length (ff_got f)"]) auto
next
  case True
  define h where "h = (LEAST h. h < length (ff_got f) \<and> \<not> ff_held f ! h)"
  from True have h: "h < length (ff_got f)" "\<not> ff_held f ! h" unfolding h_def by (metis (mono_tags, lifting) LeastI)+
  have before: "ff_held f ! i" if "i < h" for i
    using not_less_Least [OF that [unfolded h_def]] that h(1) by auto
  show ?thesis
  proof (cases "ff_got f ! h")
    case True
    with h show ?thesis by (intro held)
  next
    case False
    with h before fifo_after [OF ok h(2)] show ?thesis
      by (intro free [of h]) (auto simp: le_less)
  qed
qed

subsection \<open>The chain is the queue\<close>

lemma queue_microtask: "fifo_ok f \<Longrightarrow> queue_of f = queue_init \<Longrightarrow> ff_got f = []"
  by (simp add: queue_of_def queue_init_def)

lemma step_refines:
  assumes ok: "fifo_ok f" and s: "fifo_step l f f'"
  shows "queue_of f' = queue_of f \<or> queue_step (queue_of f) (queue_of f')"
proof -
  note ok' = fifo_ok_step [OF s ok]
  from s show ?thesis
  proof (cases rule: fifo_step_cases)
    case acquire
    have q: "queue_of f' = (queue_of f)\<lparr>ql_waiting := ql_waiting (queue_of f) @ [ql_next (queue_of f)], ql_next := Suc (ql_next (queue_of f))\<rparr>"
      using ok
    proof (cases rule: fifo_shape)
      case (held h)
      then have "h < length (ff_got f')" "ff_got f' ! h" "\<not> ff_held f' ! h"
        using ok by (simp_all add: acquire fifo_acquire_def nth_append fifo_ok_def)
      from queue_held [OF ok' this] queue_held [OF ok held] held(1) show ?thesis by (simp add: acquire fifo_acquire_def)
    next
      case (free h)
      then have "h \<le> length (ff_got f')" "\<And>i. i < h \<Longrightarrow> ff_held f' ! i"
        "\<And>i. h \<le> i \<Longrightarrow> i < length (ff_got f') \<Longrightarrow> \<not> ff_got f' ! i"
        using ok by (auto simp: acquire fifo_acquire_def nth_append fifo_ok_def)
      from queue_free [OF ok' this] queue_free [OF ok free] free(1) show ?thesis by (simp add: acquire fifo_acquire_def)
    qed
    show ?thesis unfolding q using queue_step.arrive by blast
  next
    case (granted i)
    have held: "\<not> ff_held f ! i" using ok granted by (auto simp: fifo_ok_def)
    note before = fifo_before [OF ok granted(3) less_imp_le [OF granted(2)]]
    have "queue_of f = \<lparr>ql_holder = None, ql_waiting = [i..<length (ff_got f)], ql_next = length (ff_got f)\<rparr>"
    proof (rule queue_free [OF ok less_imp_le [OF granted(2)]])
      show "ff_held f ! k" if "k < i" for k using before [OF that] by blast
      show "\<not> ff_got f ! k" if "i \<le> k" "k < length (ff_got f)" for k
        using fifo_after [OF ok held _ that(2)] granted(4) that(1) by (cases "k = i") auto
    qed
    moreover have "queue_of f' = \<lparr>ql_holder = Some i, ql_waiting = [Suc i..<length (ff_got f')], ql_next = length (ff_got f')\<rparr>"
      using granted held by (intro queue_held [OF ok']) auto
    ultimately show ?thesis
      using queue_step.enter [of "queue_of f" i "[Suc i..<length (ff_got f)]"] granted by (simp add: upt_conv_Cons)
  next
    case (settled i)
    then show ?thesis by (simp add: queue_of_def)
  next
    case (released i)
    show ?thesis
    proof (cases "ff_held f ! i")
      case True
      then have "(ff_held f)[i := True] = ff_held f" by (metis (full_types) list_update_id)
      then have "f' = f" using released by simp
      then show ?thesis by simp
    next
      case False
      note after = fifo_after [OF ok False]
      have t: "ff_tails f ! i" using ok released by (simp add: fifo_ok_def)
      note before = fifo_before [OF ok t less_imp_le [OF released(2)]]
      have len: "length (ff_held f) = length (ff_got f)" using ok by (simp add: fifo_ok_def)
      have "queue_of f' = \<lparr>ql_holder = None, ql_waiting = [Suc i..<length (ff_got f')], ql_next = length (ff_got f')\<rparr>"
        using released before after len by (intro queue_free [OF ok']) (auto simp: nth_list_update less_Suc_eq)
      moreover have "queue_of f = \<lparr>ql_holder = Some i, ql_waiting = [Suc i..<length (ff_got f)], ql_next = length (ff_got f)\<rparr>"
        using released False by (intro queue_held [OF ok])
      ultimately show ?thesis using queue_step.leave [of "queue_of f" i] released by simp
    qed
  qed
qed

text \<open>From a free lock the next waiter gets it after at most two microtasks.\<close>

lemma next_enters:
  assumes ok: "fifo_ok f" and q: "ql_holder (queue_of f) = None" "ql_waiting (queue_of f) = i # ws"
  shows "\<exists>f'. fifo_microtask\<^sup>*\<^sup>* f f' \<and> ql_holder (queue_of f') = Some i \<and> ql_waiting (queue_of f') = ws"
proof -
  obtain h where h: "h \<le> length (ff_got f)" "\<And>i. i < h \<Longrightarrow> ff_held f ! i"
    "\<And>i. h \<le> i \<Longrightarrow> i < length (ff_got f) \<Longrightarrow> \<not> ff_got f ! i"
    using ok
  proof (cases rule: fifo_shape)
    case (held h)
    with queue_held [OF ok held] q(1) show ?thesis by simp
  next
    case (free h)
    with that show ?thesis by blast
  qed
  from queue_free [OF ok h] q(2) have hi: "h = i" "i < length (ff_got f)" "ws = [Suc i..<length (ff_got f)]"
    by (auto simp: upt_eq_Cons_conv)
  obtain g where g: "fifo_microtask\<^sup>*\<^sup>* f g" "ff_tails g ! i" "ff_got g = ff_got f" "fifo_ok g"
  proof (cases "ff_tails f ! i")
    case True
    with ok show ?thesis by (intro that [of f]) auto
  next
    case False
    with ok have "i \<noteq> 0" by (metis fifo_ok_def)
    then obtain k where k: "i = Suc k" by (cases i) auto
    let ?g = "f\<lparr>ff_tails := (ff_tails f)[Suc k := True]\<rparr>"
    have "ff_held f ! k" using h(2) hi(1) k by simp
    moreover have "ff_tails f ! k" using ok hi(2) k calculation by (simp add: fifo_ok_def)
    ultimately have s: "fifo_step (Settled k) f ?g"
      using ok hi(2) k False by (intro fifo_step.settled) (auto simp: fifo_ok_def)
    have "Suc k < length (ff_tails f)" using ok hi(2) k by (simp add: fifo_ok_def)
    with s fifo_ok_step [OF s ok] k show ?thesis
      by (intro that [of ?g]) (auto simp: fifo_microtask_def intro!: r_into_rtranclp)
  qed
  let ?f' = "g\<lparr>ff_got := (ff_got g)[i := True]\<rparr>"
  have "\<not> ff_got g ! i" using h(3) hi g(3) by simp
  with g hi have s: "fifo_step (Granted i) g ?f'" by (intro fifo_step.granted) auto
  then have "fifo_microtask g ?f'" unfolding fifo_microtask_def by blast
  with g(1) have "fifo_microtask\<^sup>*\<^sup>* f ?f'" by (rule rtranclp.rtrancl_into_rtrancl)
  moreover have "\<not> ff_held g ! i" using g(4) hi(2) g(3) \<open>\<not> ff_got g ! i\<close> by (auto simp: fifo_ok_def)
  then have "queue_of ?f' = \<lparr>ql_holder = Some i, ql_waiting = [Suc i..<length (ff_got ?f')], ql_next = length (ff_got ?f')\<rparr>"
    using hi(2) g(3) by (intro queue_held [OF fifo_ok_step [OF s g(4)]]) auto
  ultimately show ?thesis using hi(3) g(3) by (intro exI [of _ ?f']) simp
qed

text \<open>C19: The promise chain is a queue lock. Every run of calls and microtasks, in whatever order they
  interleave, is a run of a lock with one holder and a first-in-first-out queue; and when the holder has
  released, the longest waiter gets the lock by microtasks alone, so no wakeup is lost.\<close>

theorem fifo_lock_is_queue_lock:
  assumes "fifo_moves\<^sup>*\<^sup>* fifo_init f"
  shows "queue_step\<^sup>*\<^sup>* queue_init (queue_of f) \<and>
    (\<forall>i ws. ql_holder (queue_of f) = None \<and> ql_waiting (queue_of f) = i # ws \<longrightarrow>
      (\<exists>f'. fifo_microtask\<^sup>*\<^sup>* f f' \<and> ql_holder (queue_of f') = Some i \<and> ql_waiting (queue_of f') = ws))"
proof -
  from assms have "fifo_ok f \<and> queue_step\<^sup>*\<^sup>* queue_init (queue_of f)"
  proof (induction rule: rtranclp_induct)
    case base
    have "queue_of fifo_init = queue_init" by (simp add: queue_of_def fifo_init_def queue_init_def)
    then show ?case using fifo_ok_init by simp
  next
    case (step f f')
    then obtain l where l: "fifo_step l f f'" by (auto simp: fifo_moves_def)
    with step.IH step_refines [of f l f'] fifo_ok_step [OF l] show ?case
      by (metis rtranclp.rtrancl_into_rtrancl)
  qed
  with next_enters show ?thesis by blast
qed

lemma fifo_lock_is_queue_lock_witness:
  "queue_step\<^sup>*\<^sup>* queue_init (queue_of (fifo_acquire (fifo_acquire fifo_init)))"
proof -
  have "fifo_moves\<^sup>*\<^sup>* fifo_init (fifo_acquire (fifo_acquire fifo_init))"
    using fifo_step.acquire by (metis fifo_moves_def rtranclp.simps)
  from fifo_lock_is_queue_lock [OF this] show ?thesis by blast
qed

subsection \<open>Microtasks end\<close>

text \<open>How many microtasks are left: tails to settle and acquirers to be handed their release.\<close>

definition fifo_pending :: "fifo \<Rightarrow> nat" where
  "fifo_pending f = length (filter Not (ff_tails f)) + length (filter Not (ff_got f))"

lemma filter_Not_update:
  "i < length bs \<Longrightarrow> \<not> bs ! i \<Longrightarrow> Suc (length (filter Not (bs[i := True]))) = length (filter Not bs)"
proof (induction bs arbitrary: i)
  case (Cons b bs)
  then show ?case by (cases i) auto
qed simp

lemma fifo_pending_less:
  assumes "fifo_ok f" "fifo_microtask f f'"
  shows "fifo_pending f' < fifo_pending f"
proof -
  from assms(2) obtain i where "fifo_step (Granted i) f f' \<or> fifo_step (Settled i) f f'" by (auto simp: fifo_microtask_def)
  then show ?thesis
  proof
    assume "fifo_step (Granted i) f f'"
    then show ?thesis by (auto elim!: fifo_stepE simp: fifo_pending_def dest!: filter_Not_update)
  next
    assume "fifo_step (Settled i) f f'"
    then have s: "i < length (ff_held f)" "\<not> ff_tails f ! Suc i" "f' = f\<lparr>ff_tails := (ff_tails f)[Suc i := True]\<rparr>"
      by (auto elim!: fifo_stepE)
    have "Suc i < length (ff_tails f)" using assms(1) s(1) by (simp add: fifo_ok_def)
    from filter_Not_update [OF this s(2)] s(3) show ?thesis by (simp add: fifo_pending_def)
  qed
qed

text \<open>The lock's microtasks always run out: between two calls there is no infinite run of them, in
  whatever order the event loop takes them, so \<open>acquire\<close> and \<open>release\<close> never keep the loop busy.\<close>

theorem fifo_microtasks_terminate:
  "wf {(f', f). fifo_moves\<^sup>*\<^sup>* fifo_init f \<and> fifo_microtask f f'}"
proof (rule wf_subset [OF wf_measure [of fifo_pending]])
  have "fifo_ok f" if "fifo_moves\<^sup>*\<^sup>* fifo_init f" for f
    using that by (induction rule: rtranclp_induct) (auto simp: fifo_moves_def intro: fifo_ok_init fifo_ok_step)
  then show "{(f', f). fifo_moves\<^sup>*\<^sup>* fifo_init f \<and> fifo_microtask f f'} \<subseteq> measure fifo_pending"
    by (auto intro!: fifo_pending_less)
qed

end
