(* ===== verification/HubLifecycle.thy ===== *)
theory HubLifecycle
  imports HubRpcs
begin

section \<open>The life of a hub: opening, alarm, the registry of live hubs\<close>

text \<open>
  packages/session-core/src/SessionHub.ts: \<open>SessionHub.open\<close>, \<open>runAlarm\<close> and the class SessionHubRegistry.
  A hub's timer is the one thing that frees a recording lease whose holder went away; the theory shows
  that no call drops it while the lease is stored, and so that the registry never evicts such a hub.
\<close>

subsection \<open>Opening a hub and running its alarm\<close>

definition open_caller :: session_caller where "open_caller = SystemCaller ''session-open''"
definition alarm_caller :: session_caller where "alarm_caller = SystemCaller ''session-lease-alarm''"

definition new_hub :: "string \<Rightarrow> (string \<Rightarrow> int) option \<Rightarrow> int \<Rightarrow> hub" where
  "new_hub sid media now = \<lparr>hb_session = sid, hb_status = Open, hb_media = media, hb_sockets = [], hb_alarm = None,
     hb_backoff = 0, hb_in_flight = 0, hb_lock_waits = 0, hb_touched = now, hb_sent = [], hb_closed = [], hb_buckets = []\<rparr>"

definition open_body :: "unit tx" where
  "open_body = tbind seed (\<lambda>_. expire_if_stale)"

text \<open>\<open>SessionHub.open\<close>: the database, the clock and the ids of the world, with a new hub over them.\<close>

definition hub_open :: "attempt list \<Rightarrow> string \<Rightarrow> (string \<Rightarrow> int) option \<Rightarrow> world \<Rightarrow> (terr + unit) \<times> world" where
  "hub_open as sid media w = (case clock_now w of (now, w0) \<Rightarrow>
     case hub_call as open_caller WriteCall open_body (w0\<lparr>w_hub := new_hub sid media now\<rparr>) of
       (Inl er, w1) \<Rightarrow> (Inl er, w1\<lparr>w_hub := stop_alarm (w_hub w1)\<rparr>)
     | (Inr _, w1) \<Rightarrow> (Inr (), w1))"

definition next_backoff :: "int \<Rightarrow> int" where
  "next_backoff b = min (if b = 0 then 1000 else b * 2) lease_stale_ms"

definition run_alarm :: "attempt list \<Rightarrow> world \<Rightarrow> world" where
  "run_alarm as w = (if hb_status (w_hub w) \<noteq> Open then w else
     case hub_call as alarm_caller WriteCall expire_if_stale w of
       (Inr _, w1) \<Rightarrow> w1\<lparr>w_hub := (w_hub w1)\<lparr>hb_backoff := 0\<rparr>\<rparr>
     | (Inl _, w1) \<Rightarrow> if hb_status (w_hub w1) \<noteq> Open then w1 else
         let b = next_backoff (hb_backoff (w_hub w1))
         in w1\<lparr>w_hub := schedule_alarm b ((w_hub w1)\<lparr>hb_backoff := b\<rparr>)\<rparr>)"

text \<open>The timer's callback: the slot is empty when the alarm runs.\<close>

definition alarm_fires :: "attempt list \<Rightarrow> world \<Rightarrow> world" where
  "alarm_fires as w = (case hb_alarm (w_hub w) of
     None \<Rightarrow> w | Some _ \<Rightarrow> run_alarm as (w\<lparr>w_hub := stop_alarm (w_hub w)\<rparr>))"

subsection \<open>The registry\<close>

text \<open>\<open>hubs\<close> in the map's insertion order, the ids being opened, and whether \<open>closeAll\<close> has begun. The hubs
  are the registry's view of them; their databases are the session's own.\<close>

record registry =
  rg_hubs :: "(string \<times> hub) list"
  rg_opening :: "string list"
  rg_closed :: bool

definition session_id_char :: "char \<Rightarrow> bool" where
  "session_id_char c \<longleftrightarrow> is_digit c \<or> (65 \<le> (of_char c :: nat) \<and> (of_char c :: nat) \<le> 90) \<or>
     (97 \<le> (of_char c :: nat) \<and> (of_char c :: nat) \<le> 122) \<or> c \<in> {CHR ''.'', CHR ''_'', CHR ''-''}"

definition session_id_ok :: "string \<Rightarrow> bool" where
  "session_id_ok s \<longleftrightarrow> s \<noteq> [] \<and> list_all session_id_char s"

datatype get_answer = InvalidSessionId | RegistryClosed | LiveHub hub | OpeningHub

text \<open>\<open>get\<close>: the answer, and the registry after the call's first step; an \<open>OpeningHub\<close> answer is the promise
  of the opening in progress, begun by this call or an earlier one.\<close>

definition registry_get :: "string \<Rightarrow> int \<Rightarrow> registry \<Rightarrow> get_answer \<times> registry" where
  "registry_get sid now g =
     (if \<not> session_id_ok sid then (InvalidSessionId, g) else
      if rg_closed g then (RegistryClosed, g) else
      case map_of (rg_hubs g) sid of
        Some h \<Rightarrow> let h' = h\<lparr>hb_touched := now\<rparr> in (LiveHub h', g\<lparr>rg_hubs := AList.update sid h' (rg_hubs g)\<rparr>)
      | None \<Rightarrow> (OpeningHub, if sid \<in> set (rg_opening g) then g else g\<lparr>rg_opening := rg_opening g @ [sid]\<rparr>))"

text \<open>The end of \<open>openHub\<close>: the hub joins the map when the opening answered; either way it is no longer opening.\<close>

definition registry_opened :: "string \<Rightarrow> hub option \<Rightarrow> registry \<Rightarrow> registry" where
  "registry_opened sid r g = (case r of
     None \<Rightarrow> g\<lparr>rg_opening := removeAll sid (rg_opening g)\<rparr>
   | Some h \<Rightarrow> g\<lparr>rg_hubs := AList.update sid h (rg_hubs g), rg_opening := removeAll sid (rg_opening g)\<rparr>)"

definition idle_hub :: "int \<Rightarrow> int \<Rightarrow> hub \<Rightarrow> bool" where
  "idle_hub idle_ms now h \<longleftrightarrow> hb_sockets h = [] \<and> hb_alarm h = None \<and> hb_in_flight h = 0 \<and> idle_ms < now - hb_touched h"

text \<open>\<open>evictIdle\<close>: the registry without the idle hubs, and those hubs, closing.\<close>

definition evict_idle :: "int \<Rightarrow> int \<Rightarrow> registry \<Rightarrow> registry \<times> hub list" where
  "evict_idle idle_ms now g = (g\<lparr>rg_hubs := filter (\<lambda>(_, h). \<not> idle_hub idle_ms now h) (rg_hubs g)\<rparr>,
     map (hub_close \<circ> snd) (filter (\<lambda>(_, h). idle_hub idle_ms now h) (rg_hubs g)))"

definition default_idle_ms :: int where "default_idle_ms = 10 * 60000"

text \<open>\<open>closeAll\<close> up to its first await, and what it does once the openings have settled.\<close>

definition close_all_begin :: "registry \<Rightarrow> registry" where
  "close_all_begin g = g\<lparr>rg_closed := True\<rparr>"

definition close_all_end :: "registry \<Rightarrow> registry \<times> hub list" where
  "close_all_end g = (g\<lparr>rg_hubs := []\<rparr>, map (hub_close \<circ> snd) (rg_hubs g))"

text \<open>\<open>closeUserSockets\<close> over the named sessions in order: how many sockets were closed.\<close>

fun close_user_in :: "string list \<Rightarrow> string \<Rightarrow> int \<Rightarrow> registry \<Rightarrow> nat \<times> registry" where
  "close_user_in [] u code g = (0, g)"
| "close_user_in (i # ids) u code g = (case map_of (rg_hubs g) i of
     None \<Rightarrow> close_user_in ids u code g
   | Some h \<Rightarrow> (case close_user_sockets u code h of (n, h') \<Rightarrow>
       case close_user_in ids u code (g\<lparr>rg_hubs := AList.update i h' (rg_hubs g)\<rparr>) of (m, g') \<Rightarrow> (n + m, g')))"

definition registry_close_user :: "string \<Rightarrow> named_sessions \<Rightarrow> int \<Rightarrow> registry \<Rightarrow> nat \<times> registry" where
  "registry_close_user u ss code g =
     close_user_in (case ss of AllSessions \<Rightarrow> map fst (rg_hubs g) | Sessions ids \<Rightarrow> remdups ids) u code g"

text \<open>\<open>deliver\<close>: a frame goes to the session's live hub, or is dropped.\<close>

definition registry_deliver :: "bus_message \<Rightarrow> registry \<Rightarrow> registry" where
  "registry_deliver m g = (case m of
     FrameMsg s f \<Rightarrow> (case map_of (rg_hubs g) s of
         None \<Rightarrow> g | Some h \<Rightarrow> g\<lparr>rg_hubs := AList.update s (hub_deliver m h) (rg_hubs g)\<rparr>)
   | CloseMsg u ss code \<Rightarrow> snd (registry_close_user u ss code g))"

definition registry_close_all_sockets :: "int \<Rightarrow> registry \<Rightarrow> nat \<times> registry" where
  "registry_close_all_sockets code g =
     (sum_list (map (\<lambda>(_, h). fst (close_all_sockets code h)) (rg_hubs g)),
      g\<lparr>rg_hubs := map (\<lambda>(i, h). (i, snd (close_all_sockets code h))) (rg_hubs g)\<rparr>)"

subsection \<open>A hub's status only advances\<close>

instantiation hub_status :: linorder
begin

definition less_eq_hub_status :: "hub_status \<Rightarrow> hub_status \<Rightarrow> bool" where
  "less_eq_hub_status a b \<longleftrightarrow> a = b \<or> a = Open \<or> b = Closed"

definition less_hub_status :: "hub_status \<Rightarrow> hub_status \<Rightarrow> bool" where
  "less_hub_status a b \<longleftrightarrow> (a :: hub_status) \<le> b \<and> a \<noteq> b"

instance
proof
  fix x y z :: hub_status
  show "x < y \<longleftrightarrow> x \<le> y \<and> \<not> y \<le> x" "x \<le> x" "x \<le> y \<or> y \<le> x"
    by (cases x; cases y; simp add: less_eq_hub_status_def less_hub_status_def)+
  show "x \<le> z" if "x \<le> y" "y \<le> z"
    using that by (cases x; cases y; cases z; simp add: less_eq_hub_status_def)
  show "x = y" if "x \<le> y" "y \<le> x"
    using that by (cases x; cases y; simp add: less_eq_hub_status_def)
qed

end

lemma close_advances: "hb_status h \<le> hb_status (hub_close h)" "hb_status h \<le> hb_status (hub_closed h)"
  by (auto simp: hub_close_def hub_closed_def less_eq_hub_status_def)

text \<open>A closing hub is closed by the last of its admitted calls, and arms nothing any more.\<close>

lemma closing_settles:
  "hub_close h = h' \<Longrightarrow> hb_in_flight h' = 0 \<Longrightarrow> hb_status (hub_closed h') = Closed"
  "hb_status h \<noteq> Open \<Longrightarrow> hb_alarm (schedule_alarm t h) = None"
  by (cases "hb_status h"; auto simp: hub_close_def hub_closed_def schedule_alarm_def)+

subsection \<open>A stored recording lease keeps the alarm armed\<close>

text \<open>Inside a transaction that starts with no recording lease: one that is claimed arms the alarm.\<close>

definition watched :: "tx_state \<Rightarrow> bool" where
  "watched s \<longleftrightarrow> st_alarm s \<noteq> None \<or> find_lease Recording (st_db s) = None"

lemma watched_leases: "watched s \<Longrightarrow> db_leases (st_db s') = db_leases (st_db s) \<Longrightarrow> st_alarm s' = st_alarm s \<Longrightarrow> watched s'"
  by (simp add: watched_def find_lease_def)

lemma watched_raw_run [keeps]: "stmt_keeps db_leases st \<Longrightarrow> preserves e watched (raw_run st)"
  by (rule preservesI) (auto simp: raw_run_Inr stmt_keeps_def elim!: watched_leases)

lemma advance_watched: "advance_revision e s = (Inr r, s') \<Longrightarrow> db_leases (st_db s') = db_leases (st_db s) \<and> st_alarm s' = st_alarm s"
  by (auto simp: advance_Inr)

lemma db_run_leases:
  assumes "db_run st e s = (Inr n, s')"
  obtains d where "st (st_db s) = Inr (d, n)" "db_leases (st_db s') = db_leases d" "st_alarm s' = st_alarm s"
  using assms unfolding db_run_Inr by (auto split: if_splits dest!: advance_watched)

lemma watched_db_run [keeps]: "stmt_keeps db_leases st \<Longrightarrow> preserves e watched (db_run st)"
  by (rule preservesI) (auto simp: stmt_keeps_def elim!: db_run_leases watched_leases)

lemma watched_core [keeps]:
  "preserves e watched (tx_read f)"
  "preserves e watched tx_now"
  "preserves e watched tx_uuid"
  "preserves e watched now_iso"
  "preserves e watched caller_user_id"
  "preserves e watched session_id"
  "preserves e watched revision"
  "preserves e watched mark_projection_dirty"
  "preserves e watched (broadcast fr)"
  "preserves e watched (set_alarm t)"
  "preserves e watched get_transport_row"
  "preserves e watched event_counts"
  "preserves e watched projection"
  "preserves e watched broadcast_event_changed"
  "preserves e watched (meta_get k)"
  "preserves e watched tx_media"
  by (auto intro!: preservesI simp: tx_read_def tx_now_def tx_uuid_def now_iso_def caller_user_id_def session_id_def
      revision_def mark_projection_dirty_def broadcast_def set_alarm_def tbind_Inr watched_def
      get_transport_row_def event_counts_def projection_def broadcast_event_changed_def meta_get_def tx_media_def)

text \<open>The statements of the other stores leave the leases alone.\<close>

lemma lease_free_tables [keeps]:
  "stmt_keeps db_leases (insert_stmt db_events db_events_update rrr1)"
  "stmt_keeps db_leases (update_stmt db_events db_events_update ppp1 fff1)"
  "stmt_keeps db_leases (delete_stmt db_events db_events_update ppp1)"
  "stmt_keeps db_leases (insert_stmt db_topics db_topics_update rrr2)"
  "stmt_keeps db_leases (update_stmt db_topics db_topics_update ppp2 fff2)"
  "stmt_keeps db_leases (delete_stmt db_topics db_topics_update ppp2)"
  "stmt_keeps db_leases (insert_stmt db_words db_words_update rrr3)"
  "stmt_keeps db_leases (update_stmt db_words db_words_update ppp3 fff3)"
  "stmt_keeps db_leases (delete_stmt db_words db_words_update ppp3)"
  "stmt_keeps db_leases (delete_stmt db_paragraphs db_paragraphs_update ppp4)"
  "stmt_keeps db_leases (delete_stmt db_sentiment db_sentiment_update ppp5)"
  "stmt_keeps db_leases (insert_stmt db_segments db_segments_update rrr6)"
  "stmt_keeps db_leases (update_stmt db_segments db_segments_update ppp6 fff6)"
  "stmt_keeps db_leases (insert_stmt db_overwrites db_overwrites_update rrr7)"
  "stmt_keeps db_leases (update_stmt db_dashboards db_dashboards_update ppp9 fff9)"
  "stmt_keeps db_leases (delete_stmt db_dashboards db_dashboards_update ppp9)"
  by (simp_all add: stmt_keeps_table)

lemma lease_free_stmts [keeps]:
  "stmt_keeps db_leases seed_stmt"
  "stmt_keeps db_leases (transport_stmt tf)"
  "stmt_keeps db_leases (insert_many_stmt db_words db_words_update ws)"
  "stmt_keeps db_leases (insert_many_stmt db_paragraphs db_paragraphs_update ps)"
  "stmt_keeps db_leases (insert_many_stmt db_sentiment db_sentiment_update ss)"
  "stmt_keeps db_leases (insert_seam_stmt sm)"
  "stmt_keeps db_leases (repoint_stmt ro i wo)"
  "stmt_keeps db_leases (delete_segment_stmt i)"
  "stmt_keeps db_leases (update_checked i ok g)"
  "stmt_keeps db_leases (insert_checked ok q)"
  "stmt_keeps db_leases (enqueue_stmt n)"
  "stmt_keeps db_leases (jobs_stmt f)"
  "stmt_keeps db_leases (upsert_dashboard_stmt da)"
  "stmt_keeps db_leases (meta_upsert k v)"
  "stmt_keeps db_leases (meta_remove k)"
  by (auto simp: stmt_keeps_def seed_stmt_def transport_stmt_def insert_many_stmt_def insert_seam_stmt_def repoint_stmt_def
      delete_segment_stmt_def update_checked_def insert_checked_def enqueue_stmt_def jobs_stmt_def upsert_dashboard_stmt_def
      meta_upsert_def meta_remove_def update_stmt_def insert_stmt_def Let_def
      split: option.splits if_splits sum.splits job_error.splits prod.splits)

lemma watched_bookkeeping [keeps]:
  "preserves e watched seed"
  "preserves e watched (meta_set k v)"
  "preserves e watched (meta_set_uncounted k v)"
  "preserves e watched (meta_delete k)"
  "preserves e watched (record_overwrite table i ver b a)"
proof -
  show "preserves e watched seed" "preserves e watched (meta_set k v)" "preserves e watched (meta_set_uncounted k v)"
    "preserves e watched (meta_delete k)"
    unfolding seed_def meta_set_def meta_set_uncounted_def meta_delete_def by (intro keeps)+
  show "preserves e watched (record_overwrite table i ver b a)"
  proof (cases "env_caller e")
    case (Some c)
    show ?thesis
    proof (cases c)
      case (UserCaller u)
      have "preserves e watched (tbind tx_uuid (\<lambda>oid. tbind now_iso (\<lambda>t.
         tbind (db_run (insert_stmt db_overwrites db_overwrites_update
           \<lparr>row_id = oid, ow_table = table, ow_row = i, ow_user = u, ow_at = t,
            ow_replaced = ver, ow_before = b, ow_after = a\<rparr>)) (\<lambda>_. treturn ()))))" by (intro keeps)
      with Some UserCaller show ?thesis
        unfolding preserves_def valid_def record_overwrite_def by simp
    qed (simp add: Some record_overwrite_def preserves_def valid_def)
  qed (simp add: record_overwrite_def preserves_def valid_def)
qed

text \<open>So do their operations.\<close>

lemma watched_events [keeps]:
  "preserves e watched (add_event inp)"
  "preserves e watched (update_event i c x)"
  "preserves e watched (delete_event i x)"
  "preserves e watched (delete_events_by_ids ids)"
  "preserves e watched export_events"
  "preserves e watched (add_event_at_total_frames pe)"
proof -
  have 1 [keeps]: "preserves e watched (event_by_id i)" "preserves e watched (event_rpc_of r)"
    "preserves e watched (mark_wall_ms m)" for i r m
    unfolding event_by_id_def event_rpc_of_def mark_wall_ms_def by (intro keeps)+
  have 2 [keeps]: "preserves e watched (event_position j)" for j
    unfolding event_position_def by (intro keeps)+
  show 3 [keeps]: "preserves e watched (add_event inp)" for inp
    unfolding add_event_def by (intro keeps)
  show "preserves e watched (update_event i c x)" "preserves e watched (delete_event i x)"
    "preserves e watched (delete_events_by_ids ids)" "preserves e watched export_events"
    "preserves e watched (add_event_at_total_frames pe)"
    unfolding update_event_def delete_event_def delete_events_by_ids_def export_events_def add_event_at_total_frames_def
    by (intro keeps)+
qed

lemma watched_relink [keeps]: "preserves e watched (maybe_relink_orphans inp)"
proof -
  have "preserves e watched (relink_loop inp n rows)" for n rows
    unfolding relink_loop_def
  proof (rule keeps_tfold)
    fix n r
    show "preserves e watched (case relink_row inp r of
         KeepRow \<Rightarrow> treturn n
       | RelinkUndefined \<Rightarrow> tthrow StorageFailed
       | RelinkRow c m \<Rightarrow> tbind (db_run (update_stmt db_events db_events_update (has_id (row_id r)) (relinked_row c m)))
           (\<lambda>_. treturn (n + 1)))"
      by (cases "relink_row inp r"; simp only: relink_step.case; intro keeps)
  qed
  note [keeps] = this
  show ?thesis unfolding maybe_relink_orphans_def by (intro keeps)
qed

lemma watched_transport [keeps]:
  "preserves e watched (start_take ctx)"
  "preserves e watched (stop_take ctx)"
  "preserves e watched (stop_take_with_duration dur ctx b)"
  "preserves e watched (toggle_take ctx)"
proof -
  have 1 [keeps]: "preserves e watched (transport_state_dict ctx)" for ctx
    unfolding transport_state_dict_def by (intro keeps)
  have 2 [keeps]: "preserves e watched (take_answer ctx ch)" "preserves e watched (rolled_frames ctx tr)" for ctx ch tr
    unfolding take_answer_def rolled_frames_def by (intro keeps)+
  show 3 [keeps]: "preserves e watched (start_take ctx)" "preserves e watched (stop_take ctx)"
    "preserves e watched (stop_take_with_duration dur ctx b)" for ctx
    unfolding start_take_def stop_take_def stop_take_with_duration_def by (intro keeps)+
  show "preserves e watched (toggle_take ctx)"
    unfolding toggle_take_def by (intro keeps)
qed

lemma watched_topics [keeps]:
  "preserves e watched (insert_topic t)"
  "preserves e watched (update_topic i p x)"
  "preserves e watched (delete_topic i x)"
  "preserves e watched (delete_topics ids)"
  unfolding topic_by_id_def insert_topic_def update_topic_def delete_topic_def delete_topics_def
  by (intro keeps)+

lemma watched_insert_numbered [keeps]:
  assumes "\<And>rs. stmt_keeps db_leases (insert_many_stmt get upd rs)"
  shows "preserves e watched (insert_numbered get upd mk xs)"
  unfolding insert_numbered_def numbered_rows_def by (intro keeps assms)

lemma watched_transcript [keeps]:
  "preserves e watched (insert_transcript_word w)"
  "preserves e watched (update_transcript_word i p x)"
  "preserves e watched (delete_transcript_word i x)"
  "preserves e watched (replace_transcript_words ws en)"
  unfolding word_by_id_def list_transcript_words_def insert_transcript_word_def update_transcript_word_def
    delete_transcript_word_def replace_transcript_words_def
  by (intro keeps)+

lemma watched_dashboards [keeps]:
  "preserves e watched (save_dashboard v i)"
  "preserves e watched (delete_dashboard j)"
  unfolding save_dashboard_def get_dashboard_def dashboard_of_row_def delete_dashboard_def
  by (intro keeps)+

lemma watched_audio_parts [keeps]:
  "preserves e watched list_audio_segments"
  "preserves e watched (segments_of_recording ro)"
  "preserves e watched (get_audio_segment i)"
  "preserves e watched (held_window ro st)"
  "preserves e watched next_segment_ordinal"
  "preserves e watched (enqueue_ingest i b)"
  "preserves e watched (enqueue_merge ro)"
  "preserves e watched (clear_finalize ro)"
  "preserves e watched (finalize_recording ro wins)"
  "preserves e watched (merge_if_finalized ro)"
  "preserves e watched (update_segment i fs)"
proof -
  have 1 [keeps]: "preserves e watched (with_seams rows)" for rows
    unfolding with_seams_def by (intro keeps)
  show 2 [keeps]: "preserves e watched list_audio_segments" "preserves e watched (segments_of_recording ro)"
    "preserves e watched (get_audio_segment i)" "preserves e watched (enqueue_ingest i b)"
    "preserves e watched (enqueue_merge ro)" "preserves e watched (clear_finalize ro)" for ro i b
    unfolding list_audio_segments_def segments_of_recording_def get_audio_segment_def enqueue_ingest_def
      enqueue_merge_def clear_finalize_def by (intro keeps)+
  have 3 [keeps]: "preserves e watched (windows_held ro ws)" "preserves e watched (pending_finalize ro)" for ro ws
    unfolding windows_held_def pending_finalize_def by (intro keeps)+
  show "preserves e watched (held_window ro st)" "preserves e watched next_segment_ordinal"
    "preserves e watched (finalize_recording ro wins)" "preserves e watched (merge_if_finalized ro)"
    "preserves e watched (update_segment i fs)"
    unfolding held_window_def next_segment_ordinal_def finalize_recording_def merge_if_finalized_def update_segment_def
    by (intro keeps)+
qed

lemma watched_audio [keeps]:
  "preserves e watched (add_audio_segment inp)"
  "preserves e watched (delete_audio_segment x)"
  "preserves e watched (set_audio_segment_waveform x ps)"
  "preserves e watched (apply_ingest ia)"
  "preserves e watched (apply_merge ma)"
  "preserves e watched (block_merge ro)"
  "preserves e watched (mark_media_failed x er)"
  "preserves e watched (sync_audio_from_blobs known)"
  unfolding add_audio_segment_def delete_audio_segment_def set_audio_segment_waveform_def apply_ingest_def
    apply_merge_def merge_writes_def block_merge_def mark_media_failed_def sync_audio_from_blobs_def
  by (intro keeps)+

lemma watched_composites [keeps]:
  "preserves e watched (add_event_at_total_frames_if_absent pe)"
  "preserves e watched (anchor_imported_take it)"
  "preserves e watched (create_anchored_event ae)"
  "preserves e watched (append_audio_seam_parts sps)"
  "preserves e watched (replace_transcript_words_remapped f)"
  "preserves e watched (add_imported_audio_segment i)"
  "preserves e watched (apply_media_ingest_body job ia)"
  "preserves e watched (apply_media_merge_body job ma)"
proof -
  have [keeps]: "preserves e watched (mark_job g)" "preserves e watched require_media" "preserves e watched run_lease_held" for g
    unfolding mark_job_def require_media_def run_lease_held_def by (intro keeps)+
  show "preserves e watched (add_event_at_total_frames_if_absent pe)" "preserves e watched (anchor_imported_take it)"
    "preserves e watched (create_anchored_event ae)" "preserves e watched (append_audio_seam_parts sps)"
    "preserves e watched (replace_transcript_words_remapped f)" "preserves e watched (add_imported_audio_segment i)"
    "preserves e watched (apply_media_ingest_body job ia)"
    unfolding add_event_at_total_frames_if_absent_def anchor_imported_take_def anchor_take_body_def
      create_anchored_event_def append_audio_seam_parts_def replace_transcript_words_remapped_def
      add_imported_audio_segment_def next_recording_ordinal_def apply_media_ingest_body_def
    by (intro keeps)+
  show "preserves e watched (apply_media_merge_body job ma)"
    unfolding apply_media_merge_body_def
    by (intro keeps; rename_tac x out; case_tac out; simp; intro keeps)
qed

text \<open>The lease statements: none but a claim adds a recording lease, and a claim that does arms the alarm.\<close>

definition adds_no_recording :: "stmt \<Rightarrow> bool" where
  "adds_no_recording st \<longleftrightarrow> (\<forall>d d' n. find_lease Recording d = None \<longrightarrow> st d = Inr (d', n) \<longrightarrow> find_lease Recording d' = None)"

lemma watched_raw_lease: "adds_no_recording st \<Longrightarrow> preserves e watched (raw_run st)"
  by (rule preservesI) (auto simp: raw_run_Inr adds_no_recording_def watched_def)

lemma watched_db_lease: "adds_no_recording st \<Longrightarrow> preserves e watched (db_run st)"
  by (rule preservesI) (auto simp: adds_no_recording_def watched_def find_lease_def elim!: db_run_leases)

lemma lease_stmts_watched [keeps]:
  "adds_no_recording (delete_stmt db_leases db_leases_update p)"
  "adds_no_recording (update_stmt db_leases db_leases_update p (\<lambda>r. r\<lparr>ls_heartbeat := t, ls_expires := x\<rparr>))"
  "k \<noteq> Recording \<Longrightarrow> adds_no_recording (claim_stmt run k cid uid t x)"
  by (auto simp: adds_no_recording_def delete_stmt_def update_stmt_def claim_stmt_def find_lease_None
      update_where_def delete_where_def split: option.splits if_splits)

lemma watched_claim [keeps]: "preserves e watched (claim_lease c k)"
proof (cases "usable_client_id c")
  case None
  then show ?thesis by (simp add: claim_lease_def keeps_treturn)
next
  case (Some cid)
  show ?thesis
  proof (rule preservesI)
    fix s x s'
    assume w: "watched s" and r: "claim_lease c k e s = (Inr x, s')"
    from r Some obtain s1 n where db: "db_run (claim_stmt False k cid (caller_user (env_caller e)) (env_clock e (st_ticks s))
          (env_clock e (st_ticks s) + ttl_ms k)) e (s\<lparr>st_ticks := Suc (st_ticks s)\<rparr>) = (Inr n, s1)"
      and rest: "if n \<noteq> 1 then s' = s1 else st_alarm s' \<noteq> None"
      by (auto simp: claim_lease_def tbind_Inr tx_now_def caller_user_id_def set_alarm_def broadcast_def split: if_splits)
    show "watched s'"
    proof (cases "n = 1")
      case False
      from db obtain d where d: "claim_stmt False k cid (caller_user (env_caller e)) (env_clock e (st_ticks s))
          (env_clock e (st_ticks s) + ttl_ms k) (st_db s) = Inr (d, n)" "db_leases (st_db s1) = db_leases d" "st_alarm s1 = st_alarm s"
        by (auto elim: db_run_leases)
      with False have "d = st_db s" by (auto simp: claim_stmt_def split: if_splits option.splits)
      with d rest False w show ?thesis by (auto elim: watched_leases)
    qed (use rest in \<open>simp add: watched_def\<close>)
  qed
qed

lemma watched_leases_ops [keeps]:
  "preserves e watched (heartbeat_lease c k)"
  "preserves e watched (release_lease c k)"
  "preserves e watched (release_run_lease k c)"
  "preserves e watched expire_if_stale"
  "k \<noteq> Recording \<Longrightarrow> preserves e watched (claim_run_lease k c)"
  unfolding heartbeat_lease_def heartbeat_lease_uncounted_def release_lease_def release_run_lease_def
    release_lease_uncounted_def expire_if_stale_def claim_run_lease_def claim_lease_uncounted_def
  by (intro keeps watched_raw_lease watched_db_lease; assumption?)+

text \<open>The run leases' claim takes a \<open>RunLeaseKind\<close>, which the recording lease is not.\<close>

fun typed_rpc :: "rpc \<Rightarrow> bool" where
  "typed_rpc (LeaseOp (LRunClaim k c)) \<longleftrightarrow> k \<noteq> Recording"
| "typed_rpc _ \<longleftrightarrow> True"

lemma watched_lease_op: "typed_rpc (LeaseOp a) \<Longrightarrow> preserves e watched (lease_op_tx a)"
  by (cases a; simp only: lease_op_tx.simps typed_rpc.simps; intro keeps; assumption?)

lemma watched_rpc: "typed_rpc r \<Longrightarrow> preserves e watched (rpc_body r)"
  by (cases r; simp only: rpc_body.simps; intro keeps watched_lease_op; assumption?)

lemma expire_watched: "expire_if_stale e s = (Inr u, s') \<Longrightarrow> watched s'"
  unfolding expire_if_stale_def tbind_Inr tx_read_def watched_def
  by (elim exE conjE; clarsimp split: option.splits) (auto simp: set_alarm_def)

subsection \<open>The same, of the hub\<close>

lemma storage_tx_watched:
  assumes "\<And>t i x s. b e (begin_tx d t i) = (Inr x, s) \<Longrightarrow> watched s" "tr_value (storage_tx as e b d t0 i0) = Inr x"
  shows "tr_alarm (storage_tx as e b d t0 i0) \<noteq> None \<or> find_lease Recording (tr_db (storage_tx as e b d t0 i0)) = None"
proof -
  from storage_tx_Inr [OF assms(2)] obtain t i s fs where r: "tx_body b e (begin_tx d t i) = (Inr (x, fs), s)"
    and d: "tr_db (storage_tx as e b d t0 i0) = st_db s" "tr_alarm (storage_tx as e b d t0 i0) = st_alarm s" by blast
  from r obtain s1 s2 where s1: "b e (begin_tx d t i) = (Inr x, s1)" and s2: "write_projection_if_dirty e s1 = (Inr (), s2)"
    and s: "s = s2\<lparr>st_frames := []\<rparr>" unfolding tx_body_Inr by blast
  have "find_lease Recording (st_db s2) = find_lease Recording (st_db s1)" "st_alarm s2 = st_alarm s1"
    using projection_write_frame [OF s2] by (simp_all add: find_lease_def)
  with assms(1) [OF s1] show ?thesis by (simp add: d s watched_def)
qed

definition guarded :: "world \<Rightarrow> bool" where
  "guarded w \<longleftrightarrow> hb_alarm (w_hub w) \<noteq> None \<or> find_lease Recording (w_db w) = None"

text \<open>What a transaction does to the hub, and to the guard when its body answers.\<close>

lemma transaction_same_hub:
  assumes "hub_transaction as c b w = (r, w')"
  shows "hb_status (w_hub w') = hb_status (w_hub w) \<and> hb_session (w_hub w') = hb_session (w_hub w) \<and>
    hb_backoff (w_hub w') = hb_backoff (w_hub w)"
  using assms
  by (auto simp: hub_transaction_def Let_def deliver_frames arm_alarm_def clock_now_def schedule_alarm_def
      split: if_splits option.splits)

lemma transaction_guarded:
  assumes "hb_status (w_hub w) = Open"
    and "\<And>t i x s. b (call_env w c) (begin_tx (w_db w) t i) = (Inr x, s) \<Longrightarrow> watched s"
    and "hub_transaction as c b w = (Inr x, w')"
  shows "guarded w'"
proof -
  let ?r = "storage_tx as (call_env w c) b (w_db w) (w_ticks w) (w_ids w)"
  from assms(3) have "tr_value ?r = Inr x" and d: "w_db w' = tr_db ?r"
    and a: "tr_alarm ?r \<noteq> None \<Longrightarrow> hb_alarm (w_hub w') \<noteq> None"
    using assms(1) by (auto simp: hub_transaction_def Let_def deliver_frames arm_alarm_def clock_now_def schedule_alarm_def
        split: if_splits option.splits)
  from storage_tx_watched [OF assms(2) this(1)] a d show ?thesis by (auto simp: guarded_def)
qed

lemma transaction_keeps_guard:
  assumes "hb_status (w_hub w) = Open" "guarded w" "\<And>e. preserves e watched b" "hub_transaction as c b w = (r, w')"
  shows "guarded w'"
proof (cases r)
  case (Inl er)
  with storage_tx_Inl [of as "call_env w c" b "w_db w" "w_ticks w" "w_ids w" er] assms(2,4) show ?thesis
    by (auto simp: hub_transaction_def Let_def after_commit_def guarded_def split: if_splits)
next
  case (Inr x)
  show ?thesis
  proof (cases "find_lease Recording (w_db w) = None")
    case True
    then have "watched (begin_tx (w_db w) t i)" for t i by (simp add: watched_def)
    from transaction_guarded [OF assms(1) preservesD [OF assms(3) this] assms(4) [unfolded Inr]] show ?thesis .
  next
    case False
    with assms(2) have "hb_alarm (w_hub w) \<noteq> None" by (simp add: guarded_def)
    with assms(1,4) have "hb_alarm (w_hub w') \<noteq> None"
      by (auto simp: hub_transaction_def Let_def deliver_frames arm_alarm_def clock_now_def schedule_alarm_def
          split: if_splits option.splits)
    then show ?thesis by (simp add: guarded_def)
  qed
qed

text \<open>A write call is a transaction on the world whose counters the call has advanced.\<close>

lemma hub_call_transaction:
  assumes "hb_status (w_hub w) = Open" "hub_call as c WriteCall b w = (r, w')"
  obtains w1 w2 where "hub_transaction as c b w1 = (r, w2)" "w_db w1 = w_db w" "hb_status (w_hub w1) = Open"
    "hb_session (w_hub w1) = hb_session (w_hub w)" "hb_backoff (w_hub w1) = hb_backoff (w_hub w)"
    "hb_alarm (w_hub w1) = hb_alarm (w_hub w)"
    "w' = w2\<lparr>w_hub := (w_hub w2)\<lparr>hb_in_flight := hb_in_flight (w_hub w2) - 1\<rparr>\<rparr>"
proof -
  define w0 where "w0 = snd (clock_now w)"
  define w1 where "w1 = w0\<lparr>w_hub := (w_hub w0)\<lparr>hb_lock_waits :=
      (if 0 < hb_in_flight (w_hub w0) then hb_lock_waits (w_hub w0) + 1 else hb_lock_waits (w_hub w0)),
      hb_in_flight := hb_in_flight (w_hub w0) + 1, hb_touched := fst (clock_now w)\<rparr>\<rparr>"
  obtain r' w2 where t: "hub_transaction as c b w1 = (r', w2)" by force
  have "hub_call as c WriteCall b w = (case hub_transaction as c b w1 of
      (r, w2) \<Rightarrow> (r, w2\<lparr>w_hub := (w_hub w2)\<lparr>hb_in_flight := hb_in_flight (w_hub w2) - 1\<rparr>\<rparr>))"
    using assms(1) unfolding hub_call_def w1_def w0_def by (cases "clock_now w") (simp only: call_mode.case Let_def prod.case fst_conv snd_conv HOL.simp_thms if_False)
  with t assms(2) have "r' = r" "w' = w2\<lparr>w_hub := (w_hub w2)\<lparr>hb_in_flight := hb_in_flight (w_hub w2) - 1\<rparr>\<rparr>" by simp_all
  moreover have "w_db w0 = w_db w" "w_hub w0 = w_hub w" by (simp_all add: w0_def clock_now_def)
  ultimately show ?thesis using t assms(1) by (intro that [of w1 w2]) (simp_all add: w1_def)
qed

lemma call_hub:
  assumes "hb_status (w_hub w) = Open" "hub_call as c WriteCall b w = (r, w')"
  shows "hb_status (w_hub w') = Open \<and> hb_session (w_hub w') = hb_session (w_hub w) \<and>
    hb_backoff (w_hub w') = hb_backoff (w_hub w)"
  by (rule hub_call_transaction [OF assms]) (auto dest: transaction_same_hub)

lemma call_keeps_guard:
  assumes "hb_status (w_hub w) = Open" "guarded w" "\<And>e. preserves e watched b" "hub_call as c WriteCall b w = (r, w')"
  shows "guarded w'"
proof (rule hub_call_transaction [OF assms(1,4)])
  fix w1 w2
  assume t: "hub_transaction as c b w1 = (r, w2)" and w: "w_db w1 = w_db w" "hb_status (w_hub w1) = Open"
    "hb_alarm (w_hub w1) = hb_alarm (w_hub w)" "w' = w2\<lparr>w_hub := (w_hub w2)\<lparr>hb_in_flight := hb_in_flight (w_hub w2) - 1\<rparr>\<rparr>"
  from w assms(2) have "guarded w1" by (simp add: guarded_def)
  from transaction_keeps_guard [OF w(2) this assms(3) t] w(4) show "guarded w'" by (simp add: guarded_def)
qed

lemma call_guards:
  assumes "hb_status (w_hub w) = Open" "hub_call as c WriteCall b w = (Inr x, w')"
    and "\<And>e s y s'. b e s = (Inr y, s') \<Longrightarrow> watched s'"
  shows "guarded w'"
proof (rule hub_call_transaction [OF assms(1,2)])
  fix w1 w2
  assume t: "hub_transaction as c b w1 = (Inr x, w2)" and w: "hb_status (w_hub w1) = Open"
    "w' = w2\<lparr>w_hub := (w_hub w2)\<lparr>hb_in_flight := hb_in_flight (w_hub w2) - 1\<rparr>\<rparr>"
  from transaction_guarded [OF w(1) assms(3) t] w(2) show "guarded w'" by (simp add: guarded_def)
qed

subsection \<open>The life of an open hub\<close>

text \<open>What happens to an open hub: a writing call of a view, the timer, its sockets, the frame bus, a command.\<close>

datatype hub_event =
    CallArrives "attempt list" session_caller rpc
  | AlarmFires "attempt list"
  | SocketAttaches socket
  | SocketDetaches nat
  | BusDelivers bus_message
  | CommandArrives string "nat option" int

fun hub_react :: "hub_event \<Rightarrow> world \<Rightarrow> world" where
  "hub_react (CallArrives as c r) w = snd (view_write as c r w)"
| "hub_react (AlarmFires as) w = alarm_fires as w"
| "hub_react (SocketAttaches s) w = w\<lparr>w_hub := attach_socket s (w_hub w)\<rparr>"
| "hub_react (SocketDetaches i) w = w\<lparr>w_hub := detach_socket i (w_hub w)\<rparr>"
| "hub_react (BusDelivers m) w = w\<lparr>w_hub := hub_deliver m (w_hub w)\<rparr>"
| "hub_react (CommandArrives cmd sock now) w = w\<lparr>w_hub := handle_socket_command cmd sock now (w_hub w)\<rparr>"

fun typed_event :: "hub_event \<Rightarrow> bool" where
  "typed_event (CallArrives as c r) \<longleftrightarrow> typed_rpc r"
| "typed_event _ \<longleftrightarrow> True"

definition same_hub :: "hub \<Rightarrow> hub \<Rightarrow> bool" where
  "same_hub h h' \<longleftrightarrow> hb_session h' = hb_session h \<and> hb_status h' = hb_status h"

definition socket_event :: "hub \<Rightarrow> hub \<Rightarrow> bool" where
  "socket_event h h' \<longleftrightarrow> same_hub h h' \<and> hb_alarm h' = hb_alarm h \<and> hb_backoff h' = hb_backoff h"

lemma hub_deliver_quiet: "socket_event h (hub_deliver m h)"
  by (auto simp: socket_event_def same_hub_def hub_deliver_def send_frame_def close_user_sockets_def Let_def split: bus_message.split)

lemma socket_events:
  "socket_event h (attach_socket s h)" "socket_event h (detach_socket i h)"
  "socket_event h (handle_socket_command cmd k now h)"
proof -
  show "socket_event h (attach_socket s h)" "socket_event h (detach_socket i h)"
    by (simp_all add: socket_event_def same_hub_def attach_socket_def detach_socket_def)
  have "socket_event h (h\<lparr>hb_buckets := b\<rparr>)" for b by (simp add: socket_event_def same_hub_def)
  moreover have "socket_event h (relay_command cmd (h\<lparr>hb_buckets := b\<rparr>))" for b
    using hub_deliver_quiet [of "h\<lparr>hb_buckets := b\<rparr>" "FrameMsg (hb_session h) (CommandFrame cmd)"]
    by (simp add: relay_command_def publish_now_def socket_event_def same_hub_def)
  moreover have "socket_event h h" by (simp add: socket_event_def same_hub_def)
  ultimately show "socket_event h (handle_socket_command cmd k now h)"
    by (simp add: handle_socket_command_def Let_def split: prod.split)
qed

text \<open>An open hub that a stored recording lease keeps armed, its retry delay within bounds.\<close>

definition alive :: "world \<Rightarrow> bool" where
  "alive w \<longleftrightarrow> hb_status (w_hub w) = Open \<and> guarded w \<and> 0 \<le> hb_backoff (w_hub w) \<and> hb_backoff (w_hub w) \<le> lease_stale_ms"

lemma next_backoff_bounds: "0 \<le> b \<Longrightarrow> 0 \<le> next_backoff b \<and> next_backoff b \<le> lease_stale_ms"
  by (auto simp: next_backoff_def lease_stale_ms_def)

text \<open>The delay after the (k + 1)th failure in a row: a second, doubled each time, up to the stale threshold.\<close>

lemma backoff_doubles: "(next_backoff ^^ Suc k) 0 = min (1000 * 2 ^ k) lease_stale_ms"
proof (induction k)
  case 0
  show ?case by (simp add: next_backoff_def lease_stale_ms_def)
next
  case (Suc k)
  have "(next_backoff ^^ Suc (Suc k)) 0 = next_backoff (min (1000 * 2 ^ k) lease_stale_ms)" using Suc by simp
  also have "\<dots> = min (1000 * 2 ^ Suc k) lease_stale_ms" by (auto simp: next_backoff_def lease_stale_ms_def min_def)
  finally show ?case .
qed

lemma run_alarm_alive:
  assumes "hb_status (w_hub w) = Open" "0 \<le> hb_backoff (w_hub w)"
  shows "alive (run_alarm as w) \<and> same_hub (w_hub w) (w_hub (run_alarm as w))"
proof -
  obtain r w1 where c: "hub_call as alarm_caller WriteCall expire_if_stale w = (r, w1)" by force
  note h = call_hub [OF assms(1) c]
  show ?thesis
  proof (cases r)
    case (Inl er)
    with c h assms next_backoff_bounds [of "hb_backoff (w_hub w)"] show ?thesis
      by (simp add: run_alarm_def alive_def guarded_def schedule_alarm_def same_hub_def Let_def)
  next
    case (Inr x)
    have "guarded w1" by (rule call_guards [OF assms(1) c [unfolded Inr] expire_watched])
    with c Inr h assms show ?thesis
      by (simp add: run_alarm_def alive_def guarded_def same_hub_def lease_stale_ms_def)
  qed
qed

lemma alarm_fires_alive:
  assumes "alive w"
  shows "alive (alarm_fires as w) \<and> same_hub (w_hub w) (w_hub (alarm_fires as w))"
proof (cases "hb_alarm (w_hub w)")
  case None
  with assms show ?thesis by (simp add: alarm_fires_def same_hub_def)
next
  case (Some t)
  with assms run_alarm_alive [of "w\<lparr>w_hub := stop_alarm (w_hub w)\<rparr>" as] show ?thesis
    by (simp add: alarm_fires_def alive_def stop_alarm_def same_hub_def)
qed

lemma view_write_alive:
  assumes "alive w" "typed_rpc r"
  shows "alive (snd (view_write as c r w)) \<and> same_hub (w_hub w) (w_hub (snd (view_write as c r w)))"
proof (cases "refused_overwrite c (rpc_expectation r)")
  case True
  with assms show ?thesis by (simp add: view_write_def same_hub_def)
next
  case False
  obtain x w' where c: "hub_call as c WriteCall (rpc_body r) w = (x, w')" by force
  from assms(1) have o: "hb_status (w_hub w) = Open" and g: "guarded w" by (simp_all add: alive_def)
  from call_hub [OF o c] call_keeps_guard [OF o g watched_rpc [OF assms(2)] c] assms(1) False c show ?thesis
    by (simp add: view_write_def alive_def same_hub_def)
qed

lemma socket_event_alive: "alive w \<Longrightarrow> socket_event (w_hub w) h \<Longrightarrow> alive (w\<lparr>w_hub := h\<rparr>)"
  by (simp add: alive_def socket_event_def same_hub_def guarded_def)

lemma hub_react_alive:
  assumes "alive w" "typed_event x"
  shows "alive (hub_react x w) \<and> same_hub (w_hub w) (w_hub (hub_react x w))"
  using assms socket_event_alive [OF assms(1)] socket_events [of "w_hub w"] hub_deliver_quiet [of "w_hub w"]
  by (cases x) (simp_all add: view_write_alive alarm_fires_alive socket_event_def)

lemma hub_open_alive:
  assumes "hub_open as sid media w = (Inr (), w')"
  shows "alive w' \<and> hb_session (w_hub w') = sid"
proof -
  define w0 where "w0 = (snd (clock_now w))\<lparr>w_hub := new_hub sid media (fst (clock_now w))\<rparr>"
  obtain r w1 where c: "hub_call as open_caller WriteCall open_body w0 = (r, w1)" by force
  with assms obtain x where r: "r = Inr x" "w' = w1"
    by (cases r) (simp_all add: hub_open_def w0_def case_prod_unfold)
  have o: "hb_status (w_hub w0) = Open" by (simp add: w0_def new_hub_def)
  have "watched s'" if "open_body e s = (Inr y, s')" for e s y s'
    using that by (auto simp: open_body_def tbind_Inr intro: expire_watched)
  from call_guards [OF o c [unfolded r] this] call_hub [OF o c] r show ?thesis
    by (simp add: alive_def w0_def new_hub_def lease_stale_ms_def)
qed

lemma reacts_alive:
  "alive w \<Longrightarrow> (\<forall>x\<in>set xs. typed_event x) \<Longrightarrow> alive (fold hub_react xs w)"
  by (induction xs arbitrary: w) (simp_all add: hub_react_alive)



end
