(* ===== verification/HubRegistry.thy ===== *)
theory HubRegistry
  imports HubLifecycle
begin

section \<open>One hub per session\<close>

text \<open>
  packages/session-core/src/SessionHub.ts, class SessionHubRegistry: its operations (theory HubLifecycle) as
  a step relation. Two hubs of one session in one process would each hold a lock and a timer of their own;
  the invariant rules it out for every interleaving of requests, openings, sweeps and the shutdown.
\<close>

definition empty_registry :: registry where
  "empty_registry = \<lparr>rg_hubs = [], rg_opening = [], rg_closed = False\<rparr>"

text \<open>The end of an opening is the outcome of \<open>hub_open\<close> on whatever database, clock and ids the session has;
  a live hub reacts to its own events.\<close>

inductive registry_step :: "registry \<Rightarrow> registry \<Rightarrow> bool" where
  asked: "registry_step g (snd (registry_get sid now g))"
| opened: "sid \<in> set (rg_opening g) \<Longrightarrow> hub_open as sid media w = (Inr (), w') \<Longrightarrow>
    registry_step g (registry_opened sid (Some (w_hub w')) g)"
| open_failed: "sid \<in> set (rg_opening g) \<Longrightarrow> registry_step g (registry_opened sid None g)"
| reacted: "map_of (rg_hubs g) sid = Some (w_hub w) \<Longrightarrow> alive w \<Longrightarrow> typed_event x \<Longrightarrow>
    registry_step g (g\<lparr>rg_hubs := AList.update sid (w_hub (hub_react x w)) (rg_hubs g)\<rparr>)"
| delivered: "registry_step g (registry_deliver m g)"
| sockets_closed: "registry_step g (snd (registry_close_all_sockets code g))"
| swept: "registry_step g (fst (evict_idle idle_ms now g))"
| closing: "registry_step g (close_all_begin g)"
| closed: "rg_closed g \<Longrightarrow> rg_opening g = [] \<Longrightarrow> registry_step g (fst (close_all_end g))"

inductive_cases registry_stepE: "registry_step g g'"

subsection \<open>The invariant\<close>

definition hubs_keyed :: "(string \<times> hub) list \<Rightarrow> bool" where
  "hubs_keyed hs \<longleftrightarrow> distinct (map fst hs) \<and>
     (\<forall>(i, h) \<in> set hs. session_id_ok i \<and> hb_session h = i \<and> hb_status h = Open)"

definition registry_ok :: "registry \<Rightarrow> bool" where
  "registry_ok g \<longleftrightarrow> hubs_keyed (rg_hubs g) \<and> distinct (rg_opening g) \<and>
     (\<forall>i\<in>set (rg_opening g). session_id_ok i \<and> i \<notin> fst ` set (rg_hubs g))"

lemma keys_update: "fst ` set (AList.update i h hs) = insert i (fst ` set hs)"
  using arg_cong [OF update_keys [of i h hs], of set] by (auto simp: image_iff split: if_splits)

lemma hubs_keyed_update:
  assumes "hubs_keyed hs" "session_id_ok i" "hb_session h = i" "hb_status h = Open"
  shows "hubs_keyed (AList.update i h hs)"
proof -
  have d: "distinct (map fst (AList.update i h hs))" using assms(1) by (simp add: hubs_keyed_def distinct_update)
  have "session_id_ok j \<and> hb_session k = j \<and> hb_status k = Open" if "(j, k) \<in> set (AList.update i h hs)" for j k
  proof -
    from that d have "map_of (AList.update i h hs) j = Some k" by (simp add: map_of_eq_Some_iff)
    then show ?thesis
      using assms by (cases "j = i") (auto simp: update_conv hubs_keyed_def dest!: map_of_SomeD)
  qed
  with d show ?thesis by (auto simp: hubs_keyed_def)
qed

lemma hubs_keyed_at: "hubs_keyed hs \<Longrightarrow> map_of hs i = Some h \<Longrightarrow> session_id_ok i \<and> hb_session h = i \<and> hb_status h = Open"
  by (auto simp: hubs_keyed_def dest!: map_of_SomeD)

text \<open>Replacing a live hub by the same hub in a later state.\<close>

lemma registry_ok_touch:
  assumes "registry_ok g" "map_of (rg_hubs g) i = Some h" "same_hub h h'"
  shows "registry_ok (g\<lparr>rg_hubs := AList.update i h' (rg_hubs g)\<rparr>)"
proof -
  have k: "hubs_keyed (rg_hubs g)" using assms(1) by (simp add: registry_ok_def)
  have "i \<in> fst ` set (rg_hubs g)" using assms(2) by (force dest: map_of_SomeD)
  with hubs_keyed_at [OF k assms(2)] hubs_keyed_update [OF k, of i h'] assms(1,3) show ?thesis
    by (auto simp: registry_ok_def same_hub_def keys_update insert_absorb)
qed

lemma map_of_touched: "map_of (AList.update i h' hs) j = (if j = i then Some h' else map_of hs j)"
  by (simp add: update_conv)

lemma same_hub_close [simp]: "same_hub h (snd (close_user_sockets u code h))" "same_hub h (snd (close_all_sockets code h))"
  by (simp_all add: same_hub_def close_user_sockets_def close_all_sockets_def Let_def)

lemma close_user_ok:
  "registry_ok g \<Longrightarrow> registry_ok (snd (close_user_in ids u code g)) \<and>
     rg_opening (snd (close_user_in ids u code g)) = rg_opening g \<and>
     fst ` set (rg_hubs (snd (close_user_in ids u code g))) = fst ` set (rg_hubs g) \<and>
     rg_closed (snd (close_user_in ids u code g)) = rg_closed g"
proof (induction ids arbitrary: g)
  case (Cons i ids)
  show ?case
  proof (cases "map_of (rg_hubs g) i")
    case (Some h)
    let ?g = "g\<lparr>rg_hubs := AList.update i (snd (close_user_sockets u code h)) (rg_hubs g)\<rparr>"
    have "i \<in> fst ` set (rg_hubs g)" using Some by (force dest: map_of_SomeD)
    with Cons.IH [of ?g] registry_ok_touch [OF Cons.prems Some same_hub_close(1)] Some show ?thesis
      by (simp add: case_prod_unfold keys_update insert_absorb)
  qed (use Cons in simp)
qed simp

lemma registry_ok_map:
  assumes "registry_ok g" "\<And>h. same_hub h (f h)"
  shows "registry_ok (g\<lparr>rg_hubs := map (\<lambda>(i, h). (i, f h)) (rg_hubs g)\<rparr>)"
proof -
  have fst: "map fst (map (\<lambda>(i, h). (i, f h)) (rg_hubs g)) = map fst (rg_hubs g)" by (simp add: case_prod_unfold comp_def)
  then have keys: "fst ` set (map (\<lambda>(i, h). (i, f h)) (rg_hubs g)) = fst ` set (rg_hubs g)"
    by (metis list.set_map)
  have "hubs_keyed (map (\<lambda>(i, h). (i, f h)) (rg_hubs g))"
    using assms unfolding registry_ok_def hubs_keyed_def same_hub_def fst by auto
  with assms(1) keys show ?thesis by (simp add: registry_ok_def)
qed

lemma hubs_keyed_filter: "hubs_keyed hs \<Longrightarrow> hubs_keyed (filter p hs)"
  by (auto simp: hubs_keyed_def distinct_map_filter)

lemma registry_ok_step: "registry_step g g' \<Longrightarrow> registry_ok g \<Longrightarrow> registry_ok g'"
proof (induction rule: registry_step.induct)
  case (asked g sid now)
  show ?case
  proof (cases "map_of (rg_hubs g) sid")
    case (Some h)
    have "same_hub h (h\<lparr>hb_touched := now\<rparr>)" by (simp add: same_hub_def)
    from registry_ok_touch [OF asked Some this] asked Some show ?thesis by (simp add: registry_get_def Let_def)
  next
    case None
    then have "sid \<notin> fst ` set (rg_hubs g)" by (simp add: map_of_eq_None_iff)
    with asked None show ?thesis by (auto simp: registry_get_def registry_ok_def)
  qed
next
  case (opened sid g as media w w')
  have "hb_session (w_hub w') = sid \<and> hb_status (w_hub w') = Open"
    using hub_open_alive [OF opened(2)] by (simp add: alive_def)
  moreover have "session_id_ok sid" "hubs_keyed (rg_hubs g)" using opened(1,3) by (auto simp: registry_ok_def)
  ultimately show ?case using opened(3) hubs_keyed_update [of "rg_hubs g" sid "w_hub w'"]
    by (auto simp: registry_ok_def registry_opened_def keys_update distinct_removeAll)
next
  case (open_failed sid g)
  then show ?case by (auto simp: registry_ok_def registry_opened_def distinct_removeAll)
next
  case (reacted g sid w x)
  from hub_react_alive [OF reacted(2,3)] registry_ok_touch [OF reacted(4,1)] show ?case by blast
next
  case (delivered g m)
  show ?case
  proof (cases m)
    case (FrameMsg s f)
    show ?thesis
    proof (cases "map_of (rg_hubs g) s")
      case (Some h)
      have "same_hub h (hub_deliver m h)" using hub_deliver_quiet by (simp add: socket_event_def)
      from registry_ok_touch [OF delivered Some this] Some show ?thesis by (simp add: registry_deliver_def FrameMsg)
    qed (use delivered in \<open>simp add: registry_deliver_def FrameMsg\<close>)
  qed (use close_user_ok [OF delivered] in \<open>simp add: registry_deliver_def registry_close_user_def\<close>)
next
  case (sockets_closed g code)
  then show ?case by (simp add: registry_close_all_sockets_def registry_ok_map)
next
  case (swept g idle_ms now)
  then show ?case by (auto simp: registry_ok_def evict_idle_def hubs_keyed_filter)
next
  case (closing g)
  then show ?case by (simp add: registry_ok_def close_all_begin_def)
next
  case (closed g)
  then show ?case by (auto simp: registry_ok_def close_all_end_def hubs_keyed_def)
qed

text \<open>After the shutdown nothing opens again.\<close>

definition shut :: "registry \<Rightarrow> bool" where
  "shut g \<longleftrightarrow> rg_closed g \<and> rg_opening g = [] \<and> rg_hubs g = []"

lemma shut_close_user: "rg_hubs g = [] \<Longrightarrow> close_user_in ids u code g = (0, g)"
  by (induction ids) simp_all

lemma shut_step: "registry_step g g' \<Longrightarrow> shut g \<Longrightarrow> shut g'"
  by (induction rule: registry_step.induct)
    (auto simp: shut_def registry_get_def registry_opened_def registry_deliver_def registry_close_user_def shut_close_user
      registry_close_all_sockets_def evict_idle_def close_all_begin_def close_all_end_def split: bus_message.split)

subsection \<open>Its consequences\<close>

text \<open>C30: Every reachable registry is well formed: a session has at most one live hub, keyed by its own valid
  id and open, and never a second one being opened beside it, whatever the order of requests, openings that
  succeed or fail, sweeps and shutdown. And once \<open>closeAll\<close> has finished, no hub is ever live again.\<close>

theorem registry_one_hub:
  assumes "registry_step\<^sup>*\<^sup>* empty_registry g"
  shows "registry_ok g \<and>
    (rg_closed g \<and> rg_opening g = [] \<longrightarrow> (\<forall>g'. registry_step\<^sup>*\<^sup>* (fst (close_all_end g)) g' \<longrightarrow> rg_hubs g' = []))"
proof
  have "registry_ok empty_registry" by (simp add: registry_ok_def empty_registry_def hubs_keyed_def)
  with assms show "registry_ok g" by (induction rule: rtranclp_induct) (auto intro: registry_ok_step)
  have "shut g'" if "registry_step\<^sup>*\<^sup>* f g'" "shut f" for f g'
    using that by (induction rule: rtranclp_induct) (auto intro: shut_step)
  then show "rg_closed g \<and> rg_opening g = [] \<longrightarrow> (\<forall>g'. registry_step\<^sup>*\<^sup>* (fst (close_all_end g)) g' \<longrightarrow> rg_hubs g' = [])"
    by (force simp: shut_def close_all_end_def)
qed

text \<open>A session asked for twice while it opens, then opened, and another one after the shutdown has begun.\<close>

definition opened_registry :: registry where
  "opened_registry = close_all_begin (registry_opened ''s1'' (Some (w_hub (snd (hub_open [Commits] ''s1'' None sample_world))))
     (snd (registry_get ''s1'' 6 (snd (registry_get ''s1'' 5 empty_registry)))))"

lemma registry_one_hub_witness:
  "registry_step\<^sup>*\<^sup>* empty_registry opened_registry \<and> map fst (rg_hubs opened_registry) = [''s1''] \<and>
     rg_hubs (snd (registry_get ''s2'' 9 (fst (close_all_end opened_registry)))) = []"
proof -
  let ?g1 = "snd (registry_get ''s1'' 5 empty_registry)" and ?o = "hub_open [Commits] ''s1'' None sample_world"
  let ?g2 = "snd (registry_get ''s1'' 6 ?g1)"
  have "fst ?o = Inr ()" by code_simp
  then have o: "?o = (Inr (), snd ?o)" by (metis prod.collapse)
  have "''s1'' \<in> set (rg_opening ?g2)" by code_simp
  from registry_step.opened [OF this o] registry_step.asked registry_step.closing
  have r: "registry_step\<^sup>*\<^sup>* empty_registry opened_registry"
    unfolding opened_registry_def by (meson r_into_rtranclp rtranclp_trans)
  have "rg_closed opened_registry \<and> rg_opening opened_registry = []" by code_simp
  moreover have "map fst (rg_hubs opened_registry) = [''s1'']" by code_simp
  moreover have "registry_step\<^sup>*\<^sup>* (fst (close_all_end opened_registry))
      (snd (registry_get ''s2'' 9 (fst (close_all_end opened_registry))))" using registry_step.asked by (rule r_into_rtranclp)
  ultimately show ?thesis using registry_one_hub [OF r] r by blast
qed

end
