(* ===== verification/ChunkQueue.thy ===== *)
theory ChunkQueue
  imports JsNumber IsoTime JsSort "HOL-Library.AList"
begin

section \<open>The recorder's chunk upload queue\<close>

text \<open>
  web/src/pages/index/utils/chunkUploadQueue.ts (createChunkUploadQueue) and uploadBackoff.ts: the tab's
  queue of recorded chunks, its single-flight pump, the retry schedule, the check of ambiguous failures
  against the server's segments, the finalize calls of stopped recordings and the recovery scan.

  The queue is a state machine. An event is a call of its interface or the answer of something it awaits
  (a lock, the chunk store, the server); a step runs the code from one such point to the next. Chunks and
  pending finalizes are objects that the code mutates while attempts hold on to them, so they live in heaps
  and the queue holds references. The bytes themselves, the mime type
  and the Safari mark are only passed on and left out. Every step gets the clock's and the random source's value.
\<close>

subsection \<open>The retry schedule\<close>

definition backoff_base_ms :: nat where "backoff_base_ms = 2000"
definition backoff_cap_ms :: nat where "backoff_cap_ms = 300000"

definition backoff_delay_ms :: "nat \<Rightarrow> num64 \<Rightarrow> int" where
  "backoff_delay_ms attempt random = (let n = max 1 attempt; raw = min backoff_cap_ms (backoff_base_ms * 2 ^ (n - 1))
     in \<lfloor>dbl_mul (of_nat raw) (dbl_add (1 / 2) random)\<rfloor>)"

subsection \<open>Data\<close>

text \<open>\<open>ChunkManifest\<close>, an entry of the browser's chunk store; the slice log pairs times with byte counts.\<close>

record chunk_manifest =
  mf_finalize :: bool \<comment> \<open>\<open>kind\<close> is \<open>finalize\<close>\<close>
  mf_id :: string
  mf_session :: string
  mf_ordinal :: int
  mf_index :: int
  mf_started :: string
  mf_ended :: "string option"
  mf_bytes :: nat
  mf_slices :: "(int \<times> nat) list"
  mf_finalized :: bool
  mf_pending :: "string list option"
  mf_updated :: int

datatype classification = CQueued | CBlocked | CPermanent

text \<open>\<open>ChunkInput\<close> and \<open>InternalChunk\<close>; \<open>releaseLock\<close>, \<open>holding\<close> and \<open>blob\<close> are what the code asks of them: whether they are set.\<close>

record chunk_input =
  ci_session :: string
  ci_ordinal :: int
  ci_index :: int
  ci_started :: string
  ci_ended :: string
  ci_blob :: "nat option" \<comment> \<open>the size of the bytes in memory\<close>
  ci_store :: "string option"
  ci_user :: "string option"
  ci_bytes :: nat
  ci_recovered :: bool
  ci_partial :: bool

record chunk =
  ck_key :: string
  ck_session :: string
  ck_ordinal :: int
  ck_index :: int
  ck_blob :: bool
  ck_bytes :: nat
  ck_store :: "string option"
  ck_user :: "string option"
  ck_started :: string
  ck_ended :: string
  ck_class :: classification
  ck_error :: "string option"
  ck_attempts :: nat
  ck_next :: "int option"
  ck_recovered :: bool
  ck_partial :: bool
  ck_failures :: nat
  ck_ambiguous :: bool
  ck_retry_once :: bool
  ck_via_parts :: bool
  ck_seq :: nat
  ck_lock :: bool
  ck_holding :: bool
  ck_refused :: bool
  ck_measure :: "chunk_manifest option"

type_synonym recording = "string \<times> int"

record pending_finalize =
  pf_user :: "string option"
  pf_session :: string
  pf_ordinal :: int
  pf_windows :: "string list"
  pf_failures :: nat
  pf_next :: "int option"

record existing_segment =
  xs_ordinal :: "int option"
  xs_started :: "string option"
  xs_seams :: "string option list"

datatype lock_mode = NoLocks | WebLocks | Heartbeat

text \<open>The injected dependencies the code tests for.\<close>

record queue_deps =
  qd_store :: bool
  qd_parts :: bool
  qd_finalize :: bool

subsection \<open>The state\<close>

text \<open>Where the pump is: what it awaits, for which chunk; \<open>auto\<close> is the flag it was started with.\<close>

datatype phase =
    Idle
  | Owning bool nat
  | Asking bool nat
  | Looking bool nat
  | Locking bool nat
  | Reading bool nat
  | Relooking bool nat
  | Sending bool nat bool
  | Confirming bool nat
  | FinalizeSending bool recording nat "(recording \<times> nat) list"
  | FinalizeRemoving bool "(recording \<times> nat) list"
  | Ending

record recovery_group =
  rg_latest :: chunk_manifest
  rg_starts :: "string list"
  rg_empty :: "string list"

datatype recovery =
    Recording_entries "chunk_manifest list" "(recording \<times> chunk_manifest) list" "chunk_manifest list"
  | Chunk_entries "chunk_manifest list" "(recording \<times> recovery_group) list" "(recording \<times> chunk_manifest) list"
  | Holding_entry chunk_manifest "chunk_manifest list" "(recording \<times> recovery_group) list" "(recording \<times> chunk_manifest) list"
  | Recording_keys "recording list" "(recording \<times> recovery_group) list" "(recording \<times> chunk_manifest) list"

text \<open>The last three fields are history, which no step reads: the chunks a discard took out, those whose stored
  bytes were removed, and the finalize calls with the number of chunks ever accepted when each was sent.\<close>

record upload_queue =
  uq_heap :: "chunk list"
  uq_chunks :: "nat list"
  uq_pends :: "pending_finalize list"
  uq_finalizes :: "(recording \<times> nat) list"
  uq_phase :: phase
  uq_offline :: bool
  uq_user :: "string option option" \<comment> \<open>None until told\<close>
  uq_locks :: lock_mode
  uq_saving :: nat \<comment> \<open>\<open>requestFinalize\<close> calls awaiting their save\<close>
  uq_recoveries :: "(string \<times> recovery) list"
  uq_recovered :: "string list" \<comment> \<open>users whose scan has begun\<close>
  uq_gone :: "nat list"
  uq_wiped :: "nat list"
  uq_finalized :: "(recording \<times> string list \<times> nat) list"

definition init_queue :: "lock_mode \<Rightarrow> bool \<Rightarrow> upload_queue" where
  "init_queue locks offline = \<lparr>uq_heap = [], uq_chunks = [], uq_pends = [], uq_finalizes = [], uq_phase = Idle,
     uq_offline = offline, uq_user = None, uq_locks = locks, uq_saving = 0, uq_recoveries = [], uq_recovered = [],
     uq_gone = [], uq_wiped = [], uq_finalized = []\<rparr>"

definition obj :: "upload_queue \<Rightarrow> nat \<Rightarrow> chunk" where
  "obj q r = uq_heap q ! r"

definition upd :: "nat \<Rightarrow> (chunk \<Rightarrow> chunk) \<Rightarrow> upload_queue \<Rightarrow> upload_queue" where
  "upd r f q = q\<lparr>uq_heap := (uq_heap q)[r := f (uq_heap q ! r)]\<rparr>"

definition upd_pend :: "nat \<Rightarrow> (pending_finalize \<Rightarrow> pending_finalize) \<Rightarrow> upload_queue \<Rightarrow> upload_queue" where
  "upd_pend f g q = q\<lparr>uq_pends := (uq_pends q)[f := g (uq_pends q ! f)]\<rparr>"

subsection \<open>Helpers\<close>

definition is_transient_status :: "int \<Rightarrow> bool" where
  "is_transient_status s \<longleftrightarrow> 500 \<le> s \<or> s = 408 \<or> s = 429"

definition normalise_window :: "string option \<Rightarrow> string option" where
  "normalise_window raw = (case raw of None \<Rightarrow> None
   | Some s \<Rightarrow> let t = js_trim s in if t = [] then None else
       (case date_parse (replace_first ''+00:00'' ''Z'' t) of None \<Rightarrow> Some t | Some ms \<Rightarrow> Some (iso_z ms)))"

definition finalize_key :: "chunk \<Rightarrow> recording" where
  "finalize_key c = (ck_session c, ck_ordinal c)"

definition compare_capture :: "chunk \<Rightarrow> chunk \<Rightarrow> int" where
  "compare_capture a b = (case (date_parse (ck_started a), date_parse (ck_started b)) of
     (Some x, Some y) \<Rightarrow> if x \<noteq> y then x - y else
       if ck_session a = ck_session b \<and> ck_ordinal a \<noteq> ck_ordinal b then ck_ordinal a - ck_ordinal b else
       if ck_index a \<noteq> ck_index b then ck_index a - ck_index b else int (ck_seq a) - int (ck_seq b)
   | _ \<Rightarrow>
       if ck_session a = ck_session b \<and> ck_ordinal a \<noteq> ck_ordinal b then ck_ordinal a - ck_ordinal b else
       if ck_index a \<noteq> ck_index b then ck_index a - ck_index b else int (ck_seq a) - int (ck_seq b))"

text \<open>\<open>durationFromSliceLog\<close> and \<open>measuredEnd\<close>; the probe's answer is None unless it is a finite number. None of
  \<open>measured_end\<close> is the \<open>RangeError\<close> of an invalid date.\<close>

definition duration_from_slice_log :: "chunk_manifest \<Rightarrow> nat \<Rightarrow> num64 option" where
  "duration_from_slice_log m bytes = (case (date_parse (mf_started m), rev (mf_slices m)) of
     (Some start, (last_at, _) # _) \<Rightarrow>
       let logged = sum_list (map snd (mf_slices m)); span = dbl_div (of_int (last_at - start)) 1000
       in if logged \<le> 0 \<or> span \<le> 0 then None else Some (dbl_div (of_nat bytes) (dbl_div (of_nat logged) span))
   | _ \<Rightarrow> None)"

definition measured_end :: "chunk_manifest \<Rightarrow> nat \<Rightarrow> num64 option \<Rightarrow> string option" where
  "measured_end m bytes probed =
     (let sec = (case probed of Some p \<Rightarrow> if 0 < p then Some p else duration_from_slice_log m bytes
                 | None \<Rightarrow> duration_from_slice_log m bytes);
          t = (case (sec, date_parse (mf_started m)) of
                 (Some s, Some start) \<Rightarrow> start + js_round (dbl_mul s 1000) | _ \<Rightarrow> mf_updated m)
      in if valid_time t then Some (iso_z t) else None)"

definition due :: "int \<Rightarrow> int option \<Rightarrow> bool" where
  "due now at_ms = (case at_ms of None \<Rightarrow> True | Some t \<Rightarrow> t \<le> now)"

definition holds_ordinal :: "upload_queue \<Rightarrow> recording \<Rightarrow> bool" where
  "holds_ordinal q k \<longleftrightarrow> list_ex (\<lambda>r. finalize_key (obj q r) = k) (uq_chunks q)"

definition schedule_retry :: "int \<Rightarrow> num64 \<Rightarrow> chunk \<Rightarrow> chunk" where
  "schedule_retry now random c = c\<lparr>ck_failures := ck_failures c + 1,
     ck_next := Some (now + backoff_delay_ms (ck_failures c + 1) random)\<rparr>"

definition schedule_finalize_retry :: "int \<Rightarrow> num64 \<Rightarrow> pending_finalize \<Rightarrow> pending_finalize" where
  "schedule_finalize_retry now random f = f\<lparr>pf_failures := pf_failures f + 1,
     pf_next := Some (now + backoff_delay_ms (pf_failures f + 1) random)\<rparr>"

definition may_upload :: "upload_queue \<Rightarrow> chunk \<Rightarrow> bool" where
  "may_upload q c = (case uq_user q of None \<Rightarrow> True | Some u \<Rightarrow> ck_user c = None \<or> ck_user c = u)"

definition attemptable :: "upload_queue \<Rightarrow> nat \<Rightarrow> bool" where
  "attemptable q r \<longleftrightarrow> (ck_class (obj q r) = CQueued \<or> ck_retry_once (obj q r)) \<and> may_upload q (obj q r)"

definition next_attemptable :: "upload_queue \<Rightarrow> nat option" where
  "next_attemptable q = find (attemptable q) (uq_chunks q)"

subsection \<open>The pump\<close>

text \<open>\<open>processFinalizes\<close> up to its next call, over what is left of the entries it set out with.\<close>

fun process_finalizes :: "queue_deps \<Rightarrow> bool \<Rightarrow> int \<Rightarrow> (recording \<times> nat) list \<Rightarrow> upload_queue \<Rightarrow> upload_queue" where
  "process_finalizes d auto now [] q = q\<lparr>uq_phase := Ending\<rparr>"
| "process_finalizes d auto now ((k, f) # rest) q =
     (let p = uq_pends q ! f in
      if uq_offline q then q\<lparr>uq_phase := Ending\<rparr> else
      if holds_ordinal q (pf_session p, pf_ordinal p) then process_finalizes d auto now rest q else
      if (case uq_user q of None \<Rightarrow> False | Some u \<Rightarrow> pf_user p \<noteq> None \<and> pf_user p \<noteq> u) then process_finalizes d auto now rest q else
      if auto \<and> \<not> due now (pf_next p) then process_finalizes d auto now rest q else
      q\<lparr>uq_phase := FinalizeSending auto k f rest,
        uq_finalized := uq_finalized q @ [((pf_session p, pf_ordinal p), pf_windows p, length (uq_heap q))]\<rparr>)"

definition start_finalizes :: "queue_deps \<Rightarrow> bool \<Rightarrow> int \<Rightarrow> upload_queue \<Rightarrow> upload_queue" where
  "start_finalizes d auto now q = (if \<not> qd_finalize d then q\<lparr>uq_phase := Ending\<rparr>
     else process_finalizes d auto now (uq_finalizes q) q)"

text \<open>The loop of \<open>runPump\<close> up to the first await of an attempt.\<close>

definition pump_loop :: "queue_deps \<Rightarrow> bool \<Rightarrow> int \<Rightarrow> upload_queue \<Rightarrow> upload_queue" where
  "pump_loop d auto now q = (if uq_offline q then start_finalizes d auto now q else
     case next_attemptable q of
       None \<Rightarrow> start_finalizes d auto now q
     | Some r \<Rightarrow>
         if auto \<and> \<not> ck_retry_once (obj q r) \<and> \<not> due now (ck_next (obj q r)) then start_finalizes d auto now q
         else (upd r (\<lambda>c. c\<lparr>ck_retry_once := False\<rparr>) q)\<lparr>uq_phase := Owning auto r\<rparr>)"

definition pump :: "queue_deps \<Rightarrow> bool \<Rightarrow> int \<Rightarrow> upload_queue \<Rightarrow> upload_queue" where
  "pump d auto now q = (if uq_phase q \<noteq> Idle \<or> uq_offline q then q else pump_loop d auto now q)"

subsection \<open>An attempt\<close>

datatype listing = Listed "existing_segment list" | ListFailed "int option"
datatype dedupe_result = Confirmed | NotFound | LookupFailed | LookupBlocked
datatype reading = BytesRead nat "num64 option" | BytesGone
datatype sending = SentOk | SentFailed "int option" string | SentNetwork string

definition resolve_ambiguous :: "chunk \<Rightarrow> listing \<Rightarrow> dedupe_result" where
  "resolve_ambiguous c a = (case a of
     ListFailed s \<Rightarrow> if s = Some 401 \<or> s = Some 403 then LookupBlocked else LookupFailed
   | Listed segs \<Rightarrow>
       let want = normalise_window (Some (ck_started c)) in
       if list_ex (\<lambda>x. xs_ordinal x = Some (ck_ordinal c) \<and>
            (normalise_window (xs_started x) = want \<or> list_ex (\<lambda>s. normalise_window s = want) (xs_seams x))) segs
       then Confirmed else NotFound)"

definition stop_attempt :: "queue_deps \<Rightarrow> bool \<Rightarrow> int \<Rightarrow> upload_queue \<Rightarrow> upload_queue" where
  "stop_attempt d auto now q = start_finalizes d auto now q"

definition contended :: "queue_deps \<Rightarrow> bool \<Rightarrow> nat \<Rightarrow> int \<Rightarrow> num64 \<Rightarrow> upload_queue \<Rightarrow> upload_queue" where
  "contended d auto r now random q =
     stop_attempt d auto now (upd r (\<lambda>c. schedule_retry now random (c\<lparr>ck_ambiguous := True\<rparr>)) q)"

definition confirm_done :: "queue_deps \<Rightarrow> bool \<Rightarrow> nat \<Rightarrow> int \<Rightarrow> upload_queue \<Rightarrow> upload_queue" where
  "confirm_done d auto r now q =
     pump_loop d auto now (upd r (\<lambda>c. c\<lparr>ck_lock := False\<rparr>) (q\<lparr>uq_chunks := removeAll r (uq_chunks q)\<rparr>))"

text \<open>\<open>confirmChunk\<close>: the stored bytes go first, then the chunk leaves the queue.\<close>

definition confirm_chunk :: "queue_deps \<Rightarrow> bool \<Rightarrow> nat \<Rightarrow> int \<Rightarrow> upload_queue \<Rightarrow> upload_queue" where
  "confirm_chunk d auto r now q =
     (if ck_store (obj q r) \<noteq> None \<and> qd_store d \<and> ck_user (obj q r) \<noteq> None
      then q\<lparr>uq_phase := Confirming auto r, uq_wiped := uq_wiped q @ [r]\<rparr> else confirm_done d auto r now q)"

definition lock_attempt :: "bool \<Rightarrow> nat \<Rightarrow> upload_queue \<Rightarrow> upload_queue" where
  "lock_attempt auto r q = q\<lparr>uq_phase := if uq_locks q = NoLocks \<or> ck_lock (obj q r) then Reading auto r else Locking auto r\<rparr>"

definition owned_attempt :: "bool \<Rightarrow> nat \<Rightarrow> upload_queue \<Rightarrow> upload_queue" where
  "owned_attempt auto r q = (if ck_ambiguous (obj q r) then q\<lparr>uq_phase := Looking auto r\<rparr> else lock_attempt auto r q)"

text \<open>\<open>ensureOwned\<close>, once the queue's own hold has settled, and the answer when it asks again.\<close>

definition ensure_owned :: "bool \<Rightarrow> nat \<Rightarrow> upload_queue \<Rightarrow> upload_queue" where
  "ensure_owned auto r q = (if \<not> ck_refused (obj q r) \<or> ck_store (obj q r) = None \<or> uq_locks q = NoLocks
     then owned_attempt auto r q else q\<lparr>uq_phase := Asking auto r\<rparr>)"

definition hold_asked :: "queue_deps \<Rightarrow> bool \<Rightarrow> nat \<Rightarrow> bool \<Rightarrow> int \<Rightarrow> num64 \<Rightarrow> upload_queue \<Rightarrow> upload_queue" where
  "hold_asked d auto r granted now random q = (if \<not> granted then contended d auto r now random q else
     owned_attempt auto r (upd r (\<lambda>c. c\<lparr>ck_refused := False, ck_lock := (if r \<in> set (uq_chunks q) then True else ck_lock c)\<rparr>) q))"

definition blocked_chunk :: "string \<Rightarrow> chunk \<Rightarrow> chunk" where
  "blocked_chunk msg c = c\<lparr>ck_class := CBlocked, ck_error := Some msg, ck_next := None\<rparr>"

definition ambiguous_resolved :: "queue_deps \<Rightarrow> bool \<Rightarrow> nat \<Rightarrow> listing \<Rightarrow> int \<Rightarrow> num64 \<Rightarrow> upload_queue \<Rightarrow> upload_queue" where
  "ambiguous_resolved d auto r a now random q = (case resolve_ambiguous (obj q r) a of
     Confirmed \<Rightarrow> confirm_chunk d auto r now q
   | LookupBlocked \<Rightarrow> pump_loop d auto now (upd r (blocked_chunk ''Signed out: the server refused the upload check.'') q)
   | LookupFailed \<Rightarrow> stop_attempt d auto now (upd r (schedule_retry now random) q)
   | NotFound \<Rightarrow> lock_attempt auto r (upd r (\<lambda>c. c\<lparr>ck_ambiguous := False\<rparr>) q))"

text \<open>The bytes vanished.\<close>

definition bytes_lost :: "string" where
  "bytes_lost = ''The locally stored audio for this chunk is no longer available.''"

definition vanished_resolved :: "queue_deps \<Rightarrow> bool \<Rightarrow> nat \<Rightarrow> listing \<Rightarrow> int \<Rightarrow> num64 \<Rightarrow> upload_queue \<Rightarrow> upload_queue" where
  "vanished_resolved d auto r a now random q = (case resolve_ambiguous (obj q r) a of
     Confirmed \<Rightarrow> confirm_chunk d auto r now q
   | LookupFailed \<Rightarrow> stop_attempt d auto now (upd r (\<lambda>c. schedule_retry now random (c\<lparr>ck_ambiguous := True\<rparr>)) q)
   | LookupBlocked \<Rightarrow> pump_loop d auto now (upd r (\<lambda>c. c\<lparr>ck_class := CBlocked, ck_error := Some bytes_lost\<rparr>) q)
   | NotFound \<Rightarrow> pump_loop d auto now (upd r (\<lambda>c. c\<lparr>ck_class := CPermanent, ck_error := Some bytes_lost\<rparr>) q))"

text \<open>The bytes are there: a recovered partial chunk gets its end, then the request goes out. A \<open>RangeError\<close> of
  that end rejects the pump, which is then over.\<close>

definition send_chunk :: "queue_deps \<Rightarrow> bool \<Rightarrow> nat \<Rightarrow> upload_queue \<Rightarrow> upload_queue" where
  "send_chunk d auto r q = (upd r (\<lambda>c. c\<lparr>ck_attempts := ck_attempts c + 1\<rparr>) q)
     \<lparr>uq_phase := Sending auto r (ck_via_parts (obj q r) \<and> qd_parts d)\<rparr>"

definition bytes_of :: "queue_deps \<Rightarrow> bool \<Rightarrow> nat \<Rightarrow> reading \<Rightarrow> upload_queue \<Rightarrow> upload_queue" where
  "bytes_of d auto r a q = (case a of
     BytesGone \<Rightarrow> q\<lparr>uq_phase := Relooking auto r\<rparr>
   | BytesRead nbytes probed \<Rightarrow> (case ck_measure (obj q r) of
       None \<Rightarrow> send_chunk d auto r q
     | Some m \<Rightarrow> (case measured_end m nbytes probed of
         None \<Rightarrow> q\<lparr>uq_phase := Ending\<rparr>
       | Some e \<Rightarrow> send_chunk d auto r (upd r (\<lambda>c. c\<lparr>ck_ended := e, ck_measure := None\<rparr>) q))))"

text \<open>\<open>onFailure\<close>: signed out, refused for good, or transient.\<close>

definition on_failure :: "queue_deps \<Rightarrow> bool \<Rightarrow> nat \<Rightarrow> int option \<Rightarrow> string \<Rightarrow> int \<Rightarrow> num64 \<Rightarrow> upload_queue \<Rightarrow> upload_queue" where
  "on_failure d auto r status msg now random q =
     (if status = Some 401 \<or> status = Some 403 then pump_loop d auto now (upd r (blocked_chunk msg) q) else
      if (case status of None \<Rightarrow> False | Some s \<Rightarrow> \<not> is_transient_status s)
      then pump_loop d auto now (upd r (\<lambda>c. c\<lparr>ck_error := Some msg, ck_class := CPermanent, ck_next := None\<rparr>) q)
      else stop_attempt d auto now (upd r (\<lambda>c. schedule_retry now random (c\<lparr>ck_error := Some msg, ck_class := CQueued\<rparr>)) q))"

definition sent_chunk :: "queue_deps \<Rightarrow> bool \<Rightarrow> nat \<Rightarrow> sending \<Rightarrow> int \<Rightarrow> num64 \<Rightarrow> upload_queue \<Rightarrow> upload_queue" where
  "sent_chunk d auto r a now random q = (case a of
     SentOk \<Rightarrow> confirm_chunk d auto r now q
   | SentNetwork msg \<Rightarrow> stop_attempt d auto now (upd r (\<lambda>c. schedule_retry now random
       (c\<lparr>ck_error := Some msg, ck_ambiguous := True, ck_class := CQueued\<rparr>)) q)
   | SentFailed status msg \<Rightarrow>
       if status = Some 413 \<and> \<not> ck_via_parts (obj q r) \<and> qd_parts d
       then (upd r (\<lambda>c. c\<lparr>ck_via_parts := True\<rparr>) q)\<lparr>uq_phase := Sending auto r True\<rparr>
       else on_failure d auto r status msg now random q)"

subsection \<open>The answer of a finalize call\<close>

definition finalize_refused :: "int option \<Rightarrow> bool" where
  "finalize_refused status = (case status of None \<Rightarrow> False | Some s \<Rightarrow> s \<noteq> 401 \<and> s \<noteq> 403 \<and> \<not> is_transient_status s)"

text \<open>None is a 2xx; a rejection carries its status, if any.\<close>

definition finalize_answered ::
  "queue_deps \<Rightarrow> bool \<Rightarrow> recording \<Rightarrow> nat \<Rightarrow> (recording \<times> nat) list \<Rightarrow> int option option \<Rightarrow> int \<Rightarrow> num64 \<Rightarrow> upload_queue \<Rightarrow> upload_queue" where
  "finalize_answered d auto k f rest a now random q =
     (if (case a of None \<Rightarrow> False | Some status \<Rightarrow> \<not> finalize_refused status)
      then process_finalizes d auto now rest (upd_pend f (schedule_finalize_retry now random) q)
      else let q1 = q\<lparr>uq_finalizes := AList.delete k (uq_finalizes q)\<rparr>
        in if qd_store d \<and> pf_user (uq_pends q ! f) \<noteq> None then q1\<lparr>uq_phase := FinalizeRemoving auto rest\<rparr>
           else process_finalizes d auto now rest q1)"

subsection \<open>The interface\<close>

text \<open>\<open>enqueueInternal\<close>; \<open>held\<close> is a lock the recovery scan already took.\<close>

definition new_chunk :: "nat \<Rightarrow> bool \<Rightarrow> chunk_manifest option \<Rightarrow> bool \<Rightarrow> chunk_input \<Rightarrow> chunk" where
  "new_chunk n ambiguous meas held i = \<lparr>
     ck_key = (case ci_store i of Some s \<Rightarrow> s | None \<Rightarrow> ci_session i @ '':'' @ int_string (ci_ordinal i) @ '':'' @
        int_string (ci_index i) @ '':'' @ nat_digits n),
     ck_session = ci_session i, ck_ordinal = ci_ordinal i, ck_index = ci_index i, ck_blob = (ci_blob i \<noteq> None),
     ck_bytes = (case ci_blob i of Some b \<Rightarrow> b | None \<Rightarrow> ci_bytes i), ck_store = ci_store i, ck_user = ci_user i,
     ck_started = ci_started i, ck_ended = ci_ended i, ck_class = CQueued, ck_error = None, ck_attempts = 0,
     ck_next = None, ck_recovered = ci_recovered i, ck_partial = ci_partial i, ck_failures = 0,
     ck_ambiguous = ambiguous, ck_retry_once = False, ck_via_parts = False, ck_seq = n, ck_lock = held,
     ck_holding = False, ck_refused = False, ck_measure = meas\<rparr>"

definition own :: "nat \<Rightarrow> upload_queue \<Rightarrow> upload_queue" where
  "own r q = (if uq_locks q \<noteq> WebLocks \<or> ck_store (obj q r) = None then q else upd r (\<lambda>c. c\<lparr>ck_holding := True\<rparr>) q)"

definition enqueue_internal ::
  "chunk_input \<Rightarrow> bool \<Rightarrow> chunk_manifest option \<Rightarrow> bool \<Rightarrow> upload_queue \<Rightarrow> upload_queue option" where
  "enqueue_internal i ambiguous meas held q =
     (if (case ci_blob i of Some b \<Rightarrow> b | None \<Rightarrow> ci_bytes i) = 0 then None else
      let r = length (uq_heap q);
          heap = uq_heap q @ [new_chunk (Suc r) ambiguous meas held i];
          q1 = q\<lparr>uq_heap := heap, uq_chunks := js_sort (\<lambda>a b. compare_capture (heap ! a) (heap ! b)) (uq_chunks q @ [r])\<rparr>
      in Some (if held then q1 else own r q1))"

definition enqueue :: "chunk_input \<Rightarrow> upload_queue \<Rightarrow> bool \<times> upload_queue" where
  "enqueue i q = (case enqueue_internal i False None False q of None \<Rightarrow> (False, q) | Some q1 \<Rightarrow> (True, q1))"

text \<open>The answer of the hold that \<open>own\<close> asked for.\<close>

definition hold_settled :: "nat \<Rightarrow> bool \<Rightarrow> upload_queue \<Rightarrow> upload_queue" where
  "hold_settled r granted q = upd r (\<lambda>c. c\<lparr>ck_holding := False, ck_refused := (if granted then ck_refused c else True),
     ck_lock := (if granted \<and> r \<in> set (uq_chunks q) then True else ck_lock c)\<rparr>) q"

definition drop_window :: "chunk \<Rightarrow> upload_queue \<Rightarrow> upload_queue" where
  "drop_window c q = (case map_of (uq_finalizes q) (finalize_key c) of
     None \<Rightarrow> q
   | Some f \<Rightarrow>
       let gone = normalise_window (Some (ck_started c));
           left = filter (\<lambda>w. normalise_window (Some w) \<noteq> gone) (pf_windows (uq_pends q ! f));
           q1 = upd_pend f (\<lambda>p. p\<lparr>pf_windows := left\<rparr>) q
       in if left \<noteq> [] then q1 else q1\<lparr>uq_finalizes := AList.delete (finalize_key c) (uq_finalizes q1)\<rparr>)"

definition discard_ref :: "queue_deps \<Rightarrow> nat \<Rightarrow> int \<Rightarrow> upload_queue \<Rightarrow> upload_queue" where
  "discard_ref d r now q =
     (let c = obj q r;
          q1 = upd r (\<lambda>c. c\<lparr>ck_lock := False\<rparr>) (q\<lparr>uq_chunks := removeAll r (uq_chunks q), uq_gone := uq_gone q @ [r]\<rparr>);
          q2 = drop_window c q1;
          q3 = (if uq_finalizes q2 \<noteq> [] then pump d False now q2 else q2)
      in if ck_store c \<noteq> None \<and> ck_user c \<noteq> None \<and> qd_store d then q3\<lparr>uq_wiped := uq_wiped q3 @ [r]\<rparr> else q3)"

definition discard_chunk :: "queue_deps \<Rightarrow> string \<Rightarrow> int \<Rightarrow> upload_queue \<Rightarrow> upload_queue" where
  "discard_chunk d key now q = (case find (\<lambda>r. ck_key (obj q r) = key) (uq_chunks q) of
     None \<Rightarrow> q | Some r \<Rightarrow> discard_ref d r now q)"

definition discard :: "queue_deps \<Rightarrow> int \<Rightarrow> int \<Rightarrow> int \<Rightarrow> upload_queue \<Rightarrow> upload_queue" where
  "discard d ro i now q = (case find (\<lambda>r. ck_ordinal (obj q r) = ro \<and> ck_index (obj q r) = i) (uq_chunks q) of
     None \<Rightarrow> q | Some r \<Rightarrow> discard_chunk d (ck_key (obj q r)) now q)"

definition discard_all :: "queue_deps \<Rightarrow> int \<Rightarrow> upload_queue \<Rightarrow> upload_queue" where
  "discard_all d now q = fold (\<lambda>r q. discard_chunk d (ck_key (obj q r)) now q) (uq_chunks q) q"

definition discard_user :: "queue_deps \<Rightarrow> string \<Rightarrow> int \<Rightarrow> upload_queue \<Rightarrow> upload_queue" where
  "discard_user d user now q =
     (let q1 = fold (\<lambda>r q. if ck_user (obj q r) = Some user then discard_chunk d (ck_key (obj q r)) now q else q) (uq_chunks q) q
      in q1\<lparr>uq_finalizes := filter (\<lambda>(k, f). pf_user (uq_pends q1 ! f) \<noteq> Some user) (uq_finalizes q1)\<rparr>)"

definition retry_mark :: "chunk \<Rightarrow> chunk" where
  "retry_mark c = (if ck_class c = CQueued then c\<lparr>ck_next := None\<rparr> else c\<lparr>ck_retry_once := True\<rparr>)"

definition upd_all :: "(chunk \<Rightarrow> chunk) \<Rightarrow> upload_queue \<Rightarrow> upload_queue" where
  "upd_all f q = fold (\<lambda>r. upd r f) (uq_chunks q) q"

definition upd_pends :: "(pending_finalize \<Rightarrow> pending_finalize) \<Rightarrow> upload_queue \<Rightarrow> upload_queue" where
  "upd_pends g q = fold (\<lambda>(k, f). upd_pend f g) (uq_finalizes q) q"

definition retry_all :: "queue_deps \<Rightarrow> int \<Rightarrow> upload_queue \<Rightarrow> upload_queue" where
  "retry_all d now q = pump d False now (upd_pends (\<lambda>p. p\<lparr>pf_next := None\<rparr>) (upd_all retry_mark q))"

definition retry_chunk :: "queue_deps \<Rightarrow> string \<Rightarrow> int \<Rightarrow> upload_queue \<Rightarrow> upload_queue" where
  "retry_chunk d key now q = pump d False now (case find (\<lambda>r. ck_key (obj q r) = key) (uq_chunks q) of
     None \<Rightarrow> q | Some r \<Rightarrow> upd r retry_mark q)"

text \<open>\<open>Array.from(new Set(xs))\<close>.\<close>

definition first_occurrences :: "string list \<Rightarrow> string list" where
  "first_occurrences xs = rev (remdups (rev xs))"

record finalize_input =
  fi_user :: "string option"
  fi_session :: string
  fi_ordinal :: int
  fi_windows :: "string list"

text \<open>\<open>requestFinalize\<close> up to its save, which the pump follows (\<open>finalize_saved\<close>).\<close>

definition request_finalize :: "queue_deps \<Rightarrow> finalize_input \<Rightarrow> int \<Rightarrow> upload_queue \<Rightarrow> upload_queue" where
  "request_finalize d i now q =
     (let k = (fi_session i, fi_ordinal i); old = map_of (uq_finalizes q) k;
          windows = (case old of None \<Rightarrow> fi_windows i | Some f \<Rightarrow> first_occurrences (pf_windows (uq_pends q ! f) @ fi_windows i));
          f = (case old of None \<Rightarrow> length (uq_pends q) | Some f \<Rightarrow> f);
          q1 = (case old of
             None \<Rightarrow> q\<lparr>uq_pends := uq_pends q @ [\<lparr>pf_user = fi_user i, pf_session = fi_session i, pf_ordinal = fi_ordinal i,
                pf_windows = windows, pf_failures = 0, pf_next = None\<rparr>], uq_finalizes := uq_finalizes q @ [(k, f)]\<rparr>
           | Some f \<Rightarrow> upd_pend f (\<lambda>p. p\<lparr>pf_windows := windows\<rparr>) q)
      in if windows = [] then q else
         if qd_store d \<and> pf_user (uq_pends q1 ! f) \<noteq> None then q1\<lparr>uq_saving := uq_saving q1 + 1\<rparr> else pump d False now q1)"

definition finalize_saved :: "queue_deps \<Rightarrow> int \<Rightarrow> upload_queue \<Rightarrow> upload_queue" where
  "finalize_saved d now q = pump d False now (q\<lparr>uq_saving := uq_saving q - 1\<rparr>)"

definition go_online :: "queue_deps \<Rightarrow> int \<Rightarrow> upload_queue \<Rightarrow> upload_queue" where
  "go_online d now q = pump d False now (upd_pends (\<lambda>p. p\<lparr>pf_failures := 0, pf_next := None\<rparr>)
     (upd_all (\<lambda>c. c\<lparr>ck_failures := 0, ck_next := (if ck_class c = CQueued then None else ck_next c)\<rparr>) (q\<lparr>uq_offline := False\<rparr>)))"

text \<open>\<open>onTick\<close>, without the heartbeats it writes into the store.\<close>

definition on_tick :: "queue_deps \<Rightarrow> int \<Rightarrow> upload_queue \<Rightarrow> upload_queue" where
  "on_tick d now q = (if uq_offline q \<or> uq_phase q \<noteq> Idle then q else
     let chunk_due = (case next_attemptable q of None \<Rightarrow> False
           | Some r \<Rightarrow> ck_retry_once (obj q r) \<or> due now (ck_next (obj q r)));
         finalize_due = list_ex (\<lambda>(k, f). due now (pf_next (uq_pends q ! f)) \<and>
            \<not> holds_ordinal q (pf_session (uq_pends q ! f), pf_ordinal (uq_pends q ! f))) (uq_finalizes q)
     in if chunk_due \<or> finalize_due then pump d True now q else q)"

definition dispose :: "upload_queue \<Rightarrow> upload_queue" where
  "dispose q = upd_all (\<lambda>c. c\<lparr>ck_lock := False\<rparr>) q"

subsection \<open>The recovery scan\<close>

definition manifest_key :: "chunk_manifest \<Rightarrow> recording" where
  "manifest_key m = (mf_session m, mf_ordinal m)"

definition compare_entries :: "chunk_manifest \<Rightarrow> chunk_manifest \<Rightarrow> int" where
  "compare_entries a b = (let apart = (case (date_parse (mf_started a), date_parse (mf_started b)) of
        (Some x, Some y) \<Rightarrow> x - y | _ \<Rightarrow> 0)
     in if apart \<noteq> 0 then apart else if mf_ordinal a \<noteq> mf_ordinal b then mf_ordinal a - mf_ordinal b else mf_index a - mf_index b)"

text \<open>The store's list: finalize records first, then the unknown chunks in capture order.\<close>

definition recovery_start :: "upload_queue \<Rightarrow> chunk_manifest list \<Rightarrow> recovery" where
  "recovery_start q entries =
     Recording_entries (filter mf_finalize entries) []
       (js_sort compare_entries (filter (\<lambda>m. \<not> mf_finalize m \<and> mf_id m \<notin> set (List.map_filter (\<lambda>r. ck_store (obj q r)) (uq_chunks q))) entries))"

fun recovery_settle :: "recovery \<Rightarrow> recovery" where
  "recovery_settle (Recording_entries [] recs chs) =
     (if chs = [] then Recording_keys (map fst recs) [] recs else Chunk_entries chs [] recs)"
| "recovery_settle (Chunk_entries [] groups recs) =
     Recording_keys (map fst recs @ filter (\<lambda>k. k \<notin> set (map fst recs)) (map fst groups)) groups recs"
| "recovery_settle s = s"

definition recovered_input :: "string \<Rightarrow> chunk_manifest \<Rightarrow> chunk_input" where
  "recovered_input user m = \<lparr>ci_session = mf_session m, ci_ordinal = mf_ordinal m, ci_index = mf_index m,
     ci_started = mf_started m,
     ci_ended = (if mf_finalized m \<and> mf_ended m \<notin> {None, Some []} then the (mf_ended m) else iso_z (mf_updated m)),
     ci_blob = None, ci_store = Some (mf_id m), ci_user = Some user, ci_bytes = mf_bytes m,
     ci_recovered = True, ci_partial = \<not> mf_finalized m\<rparr>"

definition recover_chunk :: "string \<Rightarrow> bool \<Rightarrow> chunk_manifest \<Rightarrow> upload_queue \<Rightarrow> upload_queue" where
  "recover_chunk user held m q =
     (let partial = \<not> (mf_finalized m \<and> mf_ended m \<notin> {None, Some []})
      in case enqueue_internal (recovered_input user m) True (if partial then Some m else None) held q of
           None \<Rightarrow> q | Some q1 \<Rightarrow> q1)"

definition group_of :: "chunk_manifest \<Rightarrow> (recording \<times> recovery_group) list \<Rightarrow> recovery_group" where
  "group_of m groups = (case map_of groups (manifest_key m) of
     None \<Rightarrow> \<lparr>rg_latest = m, rg_starts = [], rg_empty = []\<rparr>
   | Some g \<Rightarrow> if mf_index (rg_latest g) \<le> mf_index m then g\<lparr>rg_latest := m\<rparr> else g)"

definition add_start :: "chunk_manifest \<Rightarrow> (recording \<times> recovery_group) list \<Rightarrow> (recording \<times> recovery_group) list" where
  "add_start m groups = (let g = group_of m groups
     in AList.update (manifest_key m) (g\<lparr>rg_starts := rg_starts g @ [mf_started m]\<rparr>) groups)"

text \<open>One recording at the end of the scan: it is over, so it is finalized with its windows.\<close>

definition recover_recording ::
  "string \<Rightarrow> recording \<Rightarrow> (recording \<times> recovery_group) list \<Rightarrow> (recording \<times> chunk_manifest) list \<Rightarrow> upload_queue \<Rightarrow> upload_queue" where
  "recover_recording user k groups recs q =
     (if map_of (uq_finalizes q) k \<noteq> None then q else
      let record = map_of recs k; grp = map_of groups k;
          gone = (case grp of None \<Rightarrow> [] | Some g \<Rightarrow> map (\<lambda>w. normalise_window (Some w)) (rg_empty g));
          base = (case Option.bind record mf_pending of Some ws \<Rightarrow> ws | None \<Rightarrow>
             (case Option.bind grp (\<lambda>g. mf_pending (rg_latest g)) of Some ws \<Rightarrow> ws | None \<Rightarrow>
               (case grp of Some g \<Rightarrow> rg_starts g | None \<Rightarrow> [])));
          windows = filter (\<lambda>w. normalise_window (Some w) \<notin> set gone) base;
          ref = (case record of Some m \<Rightarrow> Some m | None \<Rightarrow> map_option rg_latest grp)
      in case ref of None \<Rightarrow> q
         | Some m \<Rightarrow> if windows = [] then q else
             q\<lparr>uq_pends := uq_pends q @ [\<lparr>pf_user = Some user, pf_session = mf_session m, pf_ordinal = mf_ordinal m,
                 pf_windows = windows, pf_failures = 0, pf_next = None\<rparr>],
               uq_finalizes := uq_finalizes q @ [(k, length (uq_pends q))]\<rparr>)"

text \<open>One awaited answer of the scan: whether an entry is recoverable, whether its lock was granted, that a
  record was saved. The zero-byte entry's removal is the store's.\<close>

fun recovery_step :: "string \<Rightarrow> bool \<Rightarrow> recovery \<Rightarrow> upload_queue \<Rightarrow> recovery \<times> upload_queue" where
  "recovery_step user ok (Recording_entries (m # ms) recs chs) q =
     (Recording_entries ms (if ok then AList.update (manifest_key m) m recs else recs) chs, q)"
| "recovery_step user ok (Chunk_entries (m # ms) groups recs) q =
     (if \<not> ok then (Chunk_entries ms groups recs, q) else
      if mf_bytes m = 0 then
        (let g = group_of m groups
         in (Chunk_entries ms (AList.update (manifest_key m) (g\<lparr>rg_empty := rg_empty g @ [mf_started m]\<rparr>) groups) recs, q)) else
      if uq_locks q = WebLocks then
        (Holding_entry m ms (AList.update (manifest_key m) (group_of m groups) groups) recs, q)
      else (Chunk_entries ms (add_start m groups) recs, recover_chunk user False m q))"
| "recovery_step user ok (Holding_entry m ms groups recs) q =
     (if \<not> ok then (Chunk_entries ms groups recs, q)
      else (Chunk_entries ms (add_start m groups) recs, recover_chunk user True m q))"
| "recovery_step user ok (Recording_keys (k # ks) groups recs) q =
     (Recording_keys ks groups recs, recover_recording user k groups recs q)"
| "recovery_step user ok s q = (s, q)"

definition recovery_begins :: "queue_deps \<Rightarrow> string \<Rightarrow> chunk_manifest list option \<Rightarrow> upload_queue \<Rightarrow> upload_queue" where
  "recovery_begins d user listed q = (if user \<in> set (uq_recovered q) then q else
     let q1 = q\<lparr>uq_recovered := uq_recovered q @ [user]\<rparr>
     in case listed of None \<Rightarrow> q1
        | Some entries \<Rightarrow> if \<not> qd_store d then q1 else
            q1\<lparr>uq_recoveries := AList.update user (recovery_settle (recovery_start q entries)) (uq_recoveries q1)\<rparr>)"

definition recovery_answered :: "queue_deps \<Rightarrow> string \<Rightarrow> bool \<Rightarrow> int \<Rightarrow> upload_queue \<Rightarrow> upload_queue" where
  "recovery_answered d user ok now q = (case map_of (uq_recoveries q) user of
     None \<Rightarrow> q
   | Some (Recording_keys [] groups recs) \<Rightarrow> pump d False now (q\<lparr>uq_recoveries := AList.delete user (uq_recoveries q)\<rparr>)
   | Some s \<Rightarrow> (case recovery_step user ok s q of (s', q1) \<Rightarrow>
       q1\<lparr>uq_recoveries := AList.update user (recovery_settle s') (uq_recoveries q1)\<rparr>))"

subsection \<open>The step function\<close>

datatype upload_event =
    Enqueue chunk_input
  | SetCurrentUser "string option"
  | DiscardUser string
  | DiscardChunk string
  | DiscardOrdinal int int
  | DiscardAll
  | RetryAll
  | RetryChunk string
  | RequestFinalize finalize_input
  | FinalizeSaved
  | Pump
  | Tick
  | Online
  | Offline
  | LocksFail
  | Dispose
  | Recover string "chunk_manifest list option"
  | RecoverAnswered string bool
  | HoldSettled nat bool
  | Granted bool
  | ListAnswered listing
  | ReadAnswered reading
  | SendAnswered sending
  | Settled
  | FinalizeAnswered "int option option"

text \<open>The pump's own awaits: which answer each phase takes. A lock refuses only where Web Locks work; bytes in
  memory are always there, and without a store or an owner there are none to read.\<close>

definition answerable :: "queue_deps \<Rightarrow> upload_queue \<Rightarrow> chunk \<Rightarrow> reading \<Rightarrow> bool" where
  "answerable d q c a \<longleftrightarrow> (if ck_blob c then a \<noteq> BytesGone else
     ck_store c = None \<or> ck_user c = None \<or> \<not> qd_store d \<longrightarrow> a = BytesGone)"

definition pump_step :: "queue_deps \<Rightarrow> int \<Rightarrow> num64 \<Rightarrow> upload_event \<Rightarrow> upload_queue \<Rightarrow> upload_queue option" where
  "pump_step d now x ev q = (case uq_phase q of
     Idle \<Rightarrow> None
   | Owning auto r \<Rightarrow> (case ev of
       Settled \<Rightarrow> if ck_holding (obj q r) then None else Some (ensure_owned auto r q) | _ \<Rightarrow> None)
   | Asking auto r \<Rightarrow> (case ev of
       Granted b \<Rightarrow> if \<not> b \<and> uq_locks q \<noteq> WebLocks then None else Some (hold_asked d auto r b now x q) | _ \<Rightarrow> None)
   | Looking auto r \<Rightarrow> (case ev of ListAnswered a \<Rightarrow> Some (ambiguous_resolved d auto r a now x q) | _ \<Rightarrow> None)
   | Locking auto r \<Rightarrow> (case ev of
       Granted b \<Rightarrow> if \<not> b \<and> uq_locks q \<noteq> WebLocks then None else
         Some (if b then q\<lparr>uq_phase := Reading auto r\<rparr> else contended d auto r now x q) | _ \<Rightarrow> None)
   | Reading auto r \<Rightarrow> (case ev of
       ReadAnswered a \<Rightarrow> if answerable d q (obj q r) a then Some (bytes_of d auto r a q) else None | _ \<Rightarrow> None)
   | Relooking auto r \<Rightarrow> (case ev of ListAnswered a \<Rightarrow> Some (vanished_resolved d auto r a now x q) | _ \<Rightarrow> None)
   | Sending auto r via \<Rightarrow> (case ev of SendAnswered a \<Rightarrow> Some (sent_chunk d auto r a now x q) | _ \<Rightarrow> None)
   | Confirming auto r \<Rightarrow> (case ev of Settled \<Rightarrow> Some (confirm_done d auto r now q) | _ \<Rightarrow> None)
   | FinalizeSending auto k f rest \<Rightarrow> (case ev of
       FinalizeAnswered a \<Rightarrow> Some (finalize_answered d auto k f rest a now x q) | _ \<Rightarrow> None)
   | FinalizeRemoving auto rest \<Rightarrow> (case ev of Settled \<Rightarrow> Some (process_finalizes d auto now rest q) | _ \<Rightarrow> None)
   | Ending \<Rightarrow> (case ev of Settled \<Rightarrow> Some (q\<lparr>uq_phase := Idle\<rparr>) | _ \<Rightarrow> None))"

fun call_step :: "queue_deps \<Rightarrow> int \<Rightarrow> upload_event \<Rightarrow> upload_queue \<Rightarrow> upload_queue option" where
  "call_step d now (Enqueue i) q = Some (snd (enqueue i q))"
| "call_step d now (SetCurrentUser u) q = Some (q\<lparr>uq_user := Some u\<rparr>)"
| "call_step d now (DiscardUser u) q = Some (discard_user d u now q)"
| "call_step d now (DiscardChunk k) q = Some (discard_chunk d k now q)"
| "call_step d now (DiscardOrdinal ro i) q = Some (discard d ro i now q)"
| "call_step d now DiscardAll q = Some (discard_all d now q)"
| "call_step d now RetryAll q = Some (retry_all d now q)"
| "call_step d now (RetryChunk k) q = Some (retry_chunk d k now q)"
| "call_step d now (RequestFinalize i) q = Some (request_finalize d i now q)"
| "call_step d now FinalizeSaved q = (if uq_saving q = 0 then None else Some (finalize_saved d now q))"
| "call_step d now Pump q = Some (pump d False now q)"
| "call_step d now Tick q = Some (on_tick d now q)"
| "call_step d now Online q = Some (go_online d now q)"
| "call_step d now Offline q = Some (q\<lparr>uq_offline := True\<rparr>)"
| "call_step d now LocksFail q = (if uq_locks q = WebLocks then Some (q\<lparr>uq_locks := Heartbeat\<rparr>) else None)"
| "call_step d now Dispose q = Some (dispose q)"
| "call_step d now (Recover u listed) q = Some (recovery_begins d u listed q)"
| "call_step d now (RecoverAnswered u ok) q = Some (recovery_answered d u ok now q)"
| "call_step d now (HoldSettled r b) q =
     (if r < length (uq_heap q) \<and> ck_holding (obj q r) then Some (hold_settled r b q) else None)"
| "call_step d now ev q = None"

definition queue_step :: "queue_deps \<Rightarrow> int \<times> num64 \<times> upload_event \<Rightarrow> upload_queue \<Rightarrow> upload_queue option" where
  "queue_step d e q = (case e of (now, x, ev) \<Rightarrow>
     (case call_step d now ev q of Some q1 \<Rightarrow> Some q1 | None \<Rightarrow> pump_step d now x ev q))"

end
