(* ===== verification/ChunkSafety.thy ===== *)
theory ChunkSafety
  imports ChunkQueue
begin

section \<open>No recorded chunk is lost\<close>

text \<open>
  What the upload queue (theory ChunkQueue) guarantees together with a truthful server: an accepted chunk
  stays in the queue until the server holds its window or the user discards it, its stored bytes are removed
  no earlier, and a recording is finalized only after all its chunks.
\<close>

subsection \<open>The server\<close>

text \<open>A window is a session, a recording and a start, normalised as the server normalises it.\<close>

type_synonym window = "string \<times> int \<times> string option"

definition chunk_window :: "chunk \<Rightarrow> window" where
  "chunk_window c = (ck_session c, ck_ordinal c, normalise_window (Some (ck_started c)))"

definition segment_windows :: "string \<Rightarrow> existing_segment \<Rightarrow> window set" where
  "segment_windows s x = (case xs_ordinal x of None \<Rightarrow> {}
     | Some o' \<Rightarrow> insert (s, o', normalise_window (xs_started x)) ((\<lambda>w. (s, o', normalise_window w)) ` set (xs_seams x)))"

text \<open>What a step may assume of the server: it forgets no window, an accepted upload's window is stored, and
  a list names only stored windows. A failed or lost request may or may not have stored one.\<close>

definition truthful :: "upload_event \<Rightarrow> upload_queue \<Rightarrow> window set \<Rightarrow> window set \<Rightarrow> bool" where
  "truthful ev q sv sv' \<longleftrightarrow> sv \<subseteq> sv' \<and> (case (uq_phase q, ev) of
     (Sending _ r _, SendAnswered SentOk) \<Rightarrow> chunk_window (obj q r) \<in> sv'
   | (Looking _ r, ListAnswered (Listed segs)) \<Rightarrow> (\<Union>x\<in>set segs. segment_windows (ck_session (obj q r)) x) \<subseteq> sv'
   | (Relooking _ r, ListAnswered (Listed segs)) \<Rightarrow> (\<Union>x\<in>set segs. segment_windows (ck_session (obj q r)) x) \<subseteq> sv'
   | _ \<Rightarrow> True)"

inductive upload_step :: "queue_deps \<Rightarrow> upload_queue \<times> window set \<Rightarrow> upload_queue \<times> window set \<Rightarrow> bool" for d where
  upload_stepI: "queue_step d (now, x, ev) q = Some q' \<Longrightarrow> truthful ev q sv sv' \<Longrightarrow> upload_step d (q, sv) (q', sv')"

inductive_cases upload_stepE: "upload_step d (q, sv) (q', sv')"

subsection \<open>The invariant\<close>

definition settled_ref :: "window set \<Rightarrow> upload_queue \<Rightarrow> nat \<Rightarrow> bool" where
  "settled_ref sv q r \<longleftrightarrow> chunk_window (obj q r) \<in> sv \<or> r \<in> set (uq_gone q)"

definition stock :: "window set \<Rightarrow> upload_queue \<Rightarrow> bool" where
  "stock sv q \<longleftrightarrow> set (uq_chunks q) \<subseteq> {..<length (uq_heap q)} \<and>
     (\<forall>r < length (uq_heap q). r \<in> set (uq_chunks q) \<or> settled_ref sv q r) \<and>
     (\<forall>r \<in> set (uq_wiped q). r < length (uq_heap q) \<and> settled_ref sv q r) \<and>
     (\<forall>(k, ws, n) \<in> set (uq_finalized q). n \<le> length (uq_heap q) \<and>
        (\<forall>r < n. finalize_key (obj q r) = k \<longrightarrow> settled_ref sv q r))"

fun phase_ref :: "phase \<Rightarrow> nat option" where
  "phase_ref (Owning _ r) = Some r"
| "phase_ref (Asking _ r) = Some r"
| "phase_ref (Looking _ r) = Some r"
| "phase_ref (Locking _ r) = Some r"
| "phase_ref (Reading _ r) = Some r"
| "phase_ref (Relooking _ r) = Some r"
| "phase_ref (Sending _ r _) = Some r"
| "phase_ref (Confirming _ r) = Some r"
| "phase_ref _ = None"

fun confirming_ref :: "phase \<Rightarrow> nat option" where
  "confirming_ref (Confirming _ r) = Some r"
| "confirming_ref _ = None"

definition phased :: "window set \<Rightarrow> upload_queue \<Rightarrow> bool" where
  "phased sv q \<longleftrightarrow> (\<forall>r. phase_ref (uq_phase q) = Some r \<longrightarrow> r < length (uq_heap q)) \<and>
     (\<forall>r. confirming_ref (uq_phase q) = Some r \<longrightarrow> chunk_window (obj q r) \<in> sv)"

text \<open>Updates that leave a chunk's take alone.\<close>

definition same_take :: "(chunk \<Rightarrow> chunk) \<Rightarrow> bool" where
  "same_take f \<longleftrightarrow> (\<forall>c. ck_session (f c) = ck_session c \<and> ck_ordinal (f c) = ck_ordinal c \<and> ck_started (f c) = ck_started c)"

lemma same_take_simps [simp]:
  "same_take f \<Longrightarrow> chunk_window (f c) = chunk_window c" "same_take f \<Longrightarrow> finalize_key (f c) = finalize_key c"
  by (simp_all add: same_take_def chunk_window_def finalize_key_def)

lemma same_take_updates [intro!, simp]:
  "same_take (\<lambda>c. c\<lparr>ck_retry_once := b\<rparr>)" "same_take (\<lambda>c. c\<lparr>ck_lock := b\<rparr>)" "same_take (schedule_retry now x)"
  "same_take (\<lambda>c. schedule_retry now x (c\<lparr>ck_ambiguous := b\<rparr>))" "same_take (blocked_chunk msg)"
  "same_take (\<lambda>c. c\<lparr>ck_ambiguous := b\<rparr>)" "same_take (\<lambda>c. c\<lparr>ck_class := cl, ck_error := er\<rparr>)"
  "same_take (\<lambda>c. c\<lparr>ck_refused := b, ck_lock := (if e then b' else ck_lock c)\<rparr>)"
  "same_take (\<lambda>c. c\<lparr>ck_attempts := ck_attempts c + 1\<rparr>)" "same_take (\<lambda>c. c\<lparr>ck_attempts := Suc (ck_attempts c)\<rparr>)"
  "same_take (\<lambda>c. c\<lparr>ck_ended := s, ck_measure := m\<rparr>)"
  "same_take (\<lambda>c. c\<lparr>ck_error := er, ck_class := cl, ck_next := nx\<rparr>)"
  "same_take (\<lambda>c. schedule_retry now x (c\<lparr>ck_error := er, ck_class := cl\<rparr>))"
  "same_take (\<lambda>c. schedule_retry now x (c\<lparr>ck_error := er, ck_ambiguous := b, ck_class := cl\<rparr>))"
  "same_take (\<lambda>c. c\<lparr>ck_via_parts := b\<rparr>)" "same_take (\<lambda>c. c\<lparr>ck_holding := b\<rparr>)" "same_take retry_mark"
  "same_take (\<lambda>c. c\<lparr>ck_holding := b, ck_refused := (if e then ck_refused c else b'), ck_lock := (if e' then b'' else ck_lock c)\<rparr>)"
  "same_take (\<lambda>c. c\<lparr>ck_failures := n, ck_next := (if ck_class c = CQueued then nx else ck_next c)\<rparr>)"
  by (simp_all add: same_take_def schedule_retry_def blocked_chunk_def retry_mark_def)

lemma upd_simps [simp]:
  "length (uq_heap (upd r f q)) = length (uq_heap q)" "uq_chunks (upd r f q) = uq_chunks q"
  "uq_gone (upd r f q) = uq_gone q" "uq_wiped (upd r f q) = uq_wiped q" "uq_finalized (upd r f q) = uq_finalized q"
  "uq_phase (upd r f q) = uq_phase q" "uq_finalizes (upd r f q) = uq_finalizes q" "uq_pends (upd r f q) = uq_pends q"
  "uq_offline (upd r f q) = uq_offline q" "uq_user (upd r f q) = uq_user q" "uq_locks (upd r f q) = uq_locks q"
  by (simp_all add: upd_def)

lemma obj_upd: "obj (upd r f q) s = (if s = r \<and> r < length (uq_heap q) then f (obj q s) else obj q s)"
  by (cases "r < length (uq_heap q)") (auto simp: obj_def upd_def nth_list_update list_update_beyond)

lemma window_upd [simp]: "same_take f \<Longrightarrow> chunk_window (obj (upd r f q) s) = chunk_window (obj q s)"
  "same_take f \<Longrightarrow> finalize_key (obj (upd r f q) s) = finalize_key (obj q s)"
  by (simp_all add: obj_upd)

lemma obj_fields [simp]:
  "obj (q\<lparr>uq_phase := p\<rparr>) = obj q" "obj (q\<lparr>uq_chunks := cs\<rparr>) = obj q" "obj (q\<lparr>uq_gone := g\<rparr>) = obj q"
  "obj (q\<lparr>uq_wiped := w\<rparr>) = obj q" "obj (q\<lparr>uq_finalized := fs\<rparr>) = obj q" "obj (q\<lparr>uq_finalizes := fz\<rparr>) = obj q"
  "obj (q\<lparr>uq_pends := ps\<rparr>) = obj q" "obj (q\<lparr>uq_user := u\<rparr>) = obj q" "obj (q\<lparr>uq_offline := b\<rparr>) = obj q"
  "obj (q\<lparr>uq_locks := l\<rparr>) = obj q" "obj (q\<lparr>uq_saving := n\<rparr>) = obj q" "obj (q\<lparr>uq_recoveries := rs\<rparr>) = obj q"
  "obj (q\<lparr>uq_recovered := us\<rparr>) = obj q"
  by (simp_all add: obj_def fun_eq_iff)

lemma stock_fields [simp]:
  "stock sv (q\<lparr>uq_phase := p\<rparr>) = stock sv q" "stock sv (q\<lparr>uq_finalizes := fz\<rparr>) = stock sv q"
  "stock sv (q\<lparr>uq_pends := ps\<rparr>) = stock sv q" "stock sv (q\<lparr>uq_user := u\<rparr>) = stock sv q"
  "stock sv (q\<lparr>uq_offline := b\<rparr>) = stock sv q" "stock sv (q\<lparr>uq_locks := l\<rparr>) = stock sv q"
  "stock sv (q\<lparr>uq_saving := n\<rparr>) = stock sv q" "stock sv (q\<lparr>uq_recoveries := rs\<rparr>) = stock sv q"
  "stock sv (q\<lparr>uq_recovered := us\<rparr>) = stock sv q"
  by (simp_all add: stock_def settled_ref_def)

lemma phased_fields [simp]:
  "phased sv (q\<lparr>uq_finalizes := fz\<rparr>) = phased sv q"
  "phased sv (q\<lparr>uq_pends := ps\<rparr>) = phased sv q" "phased sv (q\<lparr>uq_user := u\<rparr>) = phased sv q"
  "phased sv (q\<lparr>uq_offline := b\<rparr>) = phased sv q" "phased sv (q\<lparr>uq_locks := l\<rparr>) = phased sv q"
  "phased sv (q\<lparr>uq_saving := n\<rparr>) = phased sv q" "phased sv (q\<lparr>uq_recoveries := rs\<rparr>) = phased sv q"
  "phased sv (q\<lparr>uq_recovered := us\<rparr>) = phased sv q" "phased sv (q\<lparr>uq_chunks := cs\<rparr>) = phased sv q"
  "phased sv (q\<lparr>uq_gone := g\<rparr>) = phased sv q" "phased sv (q\<lparr>uq_wiped := w\<rparr>) = phased sv q"
  by (simp_all add: phased_def)

lemma stock_upd [simp]: "same_take f \<Longrightarrow> stock sv (upd r f q) = stock sv q"
  by (simp add: stock_def settled_ref_def)

lemma phased_upd [simp]: "same_take f \<Longrightarrow> phased sv (upd r f q) = phased sv q"
  by (simp add: phased_def)

lemma upd_pend_simps [simp]:
  "stock sv (upd_pend f g q) = stock sv q" "phased sv (upd_pend f g q) = phased sv q"
  "uq_finalizes (upd_pend f g q) = uq_finalizes q" "length (uq_heap (upd_pend f g q)) = length (uq_heap q)"
  "obj (upd_pend f g q) = obj q" "uq_phase (upd_pend f g q) = uq_phase q" "uq_chunks (upd_pend f g q) = uq_chunks q"
  "uq_gone (upd_pend f g q) = uq_gone q"
  by (simp_all add: upd_pend_def)

text \<open>The whole of it.\<close>

definition kept :: "window set \<Rightarrow> upload_queue \<Rightarrow> bool" where
  "kept sv q \<longleftrightarrow> stock sv q \<and> phased sv q"

lemma kept_mono: "kept sv q \<Longrightarrow> sv \<subseteq> sv' \<Longrightarrow> kept sv' q"
  unfolding kept_def stock_def phased_def settled_ref_def by blast

subsection \<open>The pump keeps it\<close>

named_theorems keeping \<open>operations that keep the invariant\<close>

lemma kept_stock: "kept sv q \<Longrightarrow> stock sv q"
  by (simp add: kept_def)

lemma kept_awaits: "stock sv q \<Longrightarrow> confirming_ref p = None \<Longrightarrow> phase_ref p \<in> {None, Some r} \<Longrightarrow> r < length (uq_heap q) \<Longrightarrow>
    kept sv (q\<lparr>uq_phase := p\<rparr>)"
  by (auto simp: kept_def phased_def)

lemma kept_rests: "stock sv q \<Longrightarrow> phase_ref p = None \<Longrightarrow> kept sv (q\<lparr>uq_phase := p\<rparr>)"
  by (cases p) (auto simp: kept_def phased_def)

lemma phase_last:
  "q\<lparr>uq_phase := p, uq_finalized := fs\<rparr> = q\<lparr>uq_finalized := fs, uq_phase := p\<rparr>"
  "q\<lparr>uq_phase := p, uq_wiped := ws\<rparr> = q\<lparr>uq_wiped := ws, uq_phase := p\<rparr>"
  by simp_all

text \<open>A finalize call is sent when no chunk of the recording is held.\<close>

lemma stock_finalized:
  assumes "stock sv q" "\<not> holds_ordinal q k"
  shows "stock sv (q\<lparr>uq_finalized := uq_finalized q @ [(k, ws, length (uq_heap q))]\<rparr>)"
proof -
  have "settled_ref sv q r" if "r < length (uq_heap q)" "finalize_key (obj q r) = k" for r
    using assms that by (auto simp: stock_def holds_ordinal_def list_ex_iff)
  with assms(1) show ?thesis by (auto simp: stock_def settled_ref_def)
qed

lemma process_finalizes_kept [keeping]: "stock sv q \<Longrightarrow> kept sv (process_finalizes d auto now rest q)"
proof (induction d auto now rest q rule: process_finalizes.induct)
  case (2 d auto now k f rest q)
  let ?p = "uq_pends q ! f"
  show ?case
  proof (cases "uq_offline q \<or> holds_ordinal q (pf_session ?p, pf_ordinal ?p) \<or>
      (case uq_user q of None \<Rightarrow> False | Some u \<Rightarrow> pf_user ?p \<noteq> None \<and> pf_user ?p \<noteq> u) \<or> auto \<and> \<not> due now (pf_next ?p)")
    case True
    with 2 show ?thesis by (auto simp: Let_def kept_rests)
  next
    case False
    then have "kept sv (q\<lparr>uq_finalized := uq_finalized q @ [((pf_session ?p, pf_ordinal ?p), pf_windows ?p, length (uq_heap q))],
        uq_phase := FinalizeSending auto k f rest\<rparr>)"
      using stock_finalized [OF 2(4)] by (intro kept_rests) auto
    moreover have "process_finalizes d auto now ((k, f) # rest) q =
        q\<lparr>uq_finalized := uq_finalized q @ [((pf_session ?p, pf_ordinal ?p), pf_windows ?p, length (uq_heap q))],
        uq_phase := FinalizeSending auto k f rest\<rparr>"
      using False unfolding process_finalizes.simps Let_def phase_last by (simp only: if_False de_Morgan_disj HOL.simp_thms)
    ultimately show ?thesis by simp
  qed
qed (simp add: kept_rests)

lemma start_finalizes_kept [keeping]: "stock sv q \<Longrightarrow> kept sv (start_finalizes d auto now q)"
  by (simp add: start_finalizes_def kept_rests process_finalizes_kept)

lemma stop_attempt_kept [keeping]: "stock sv q \<Longrightarrow> kept sv (stop_attempt d auto now q)"
  by (simp add: stop_attempt_def start_finalizes_kept)

lemma find_in: "find p xs = Some x \<Longrightarrow> x \<in> set xs \<and> p x"
  by (auto simp: find_Some_iff)

lemma stock_ref: "stock sv q \<Longrightarrow> r \<in> set (uq_chunks q) \<Longrightarrow> r < length (uq_heap q)"
  by (auto simp: stock_def)

lemma pump_loop_kept [keeping]:
  assumes s: "stock sv q"
  shows "kept sv (pump_loop d auto now q)"
proof (cases "next_attemptable q")
  case (Some r)
  then have "r < length (uq_heap q)" using stock_ref [OF s] find_in by (fastforce simp: next_attemptable_def)
  then have "kept sv ((upd r (\<lambda>c. c\<lparr>ck_retry_once := False\<rparr>) q)\<lparr>uq_phase := Owning auto r\<rparr>)"
    using s by (intro kept_awaits [where r = r]) auto
  with Some s show ?thesis by (simp add: pump_loop_def start_finalizes_kept)
qed (simp add: pump_loop_def start_finalizes_kept s)

lemma pump_kept [keeping]: "kept sv q \<Longrightarrow> kept sv (pump d auto now q)"
  by (simp add: pump_def pump_loop_kept kept_stock)

text \<open>A chunk whose window the server holds may leave.\<close>

lemma confirm_done_kept:
  assumes "stock sv q" "chunk_window (obj q r) \<in> sv"
  shows "kept sv (confirm_done d auto r now q)"
  unfolding confirm_done_def using assms by (intro pump_loop_kept) (auto simp: stock_def settled_ref_def)

lemma confirm_chunk_kept [keeping]:
  assumes "stock sv q" "chunk_window (obj q r) \<in> sv" "r < length (uq_heap q)"
  shows "kept sv (confirm_chunk d auto r now q)"
proof -
  have "stock sv (q\<lparr>uq_wiped := uq_wiped q @ [r]\<rparr>)" using assms by (auto simp: stock_def settled_ref_def)
  then have "kept sv (q\<lparr>uq_wiped := uq_wiped q @ [r], uq_phase := Confirming auto r\<rparr>)"
    using assms(2,3) by (simp add: kept_def phased_def)
  with confirm_done_kept [OF assms(1,2)] show ?thesis unfolding confirm_chunk_def phase_last by simp
qed

lemma lock_attempt_kept [keeping]: "stock sv q \<Longrightarrow> r < length (uq_heap q) \<Longrightarrow> kept sv (lock_attempt auto r q)"
  unfolding lock_attempt_def by (rule kept_awaits [where r = r]) auto

lemma owned_attempt_kept [keeping]: "stock sv q \<Longrightarrow> r < length (uq_heap q) \<Longrightarrow> kept sv (owned_attempt auto r q)"
  unfolding owned_attempt_def by (auto intro: lock_attempt_kept kept_awaits [where r = r])

lemma ensure_owned_kept [keeping]: "stock sv q \<Longrightarrow> r < length (uq_heap q) \<Longrightarrow> kept sv (ensure_owned auto r q)"
  unfolding ensure_owned_def by (auto intro: owned_attempt_kept kept_awaits [where r = r])

lemma contended_kept [keeping]: "stock sv q \<Longrightarrow> kept sv (contended d auto r now x q)"
  by (simp add: contended_def stop_attempt_kept)

lemma hold_asked_kept [keeping]: "stock sv q \<Longrightarrow> r < length (uq_heap q) \<Longrightarrow> kept sv (hold_asked d auto r b now x q)"
  by (simp add: hold_asked_def contended_kept owned_attempt_kept)

lemma listed_window:
  assumes "resolve_ambiguous (obj q r) (Listed segs) = Confirmed"
    "(\<Union>x\<in>set segs. segment_windows (ck_session (obj q r)) x) \<subseteq> sv"
  shows "chunk_window (obj q r) \<in> sv"
proof -
  let ?want = "normalise_window (Some (ck_started (obj q r)))"
  from assms(1) obtain x where x: "x \<in> set segs" "xs_ordinal x = Some (ck_ordinal (obj q r))"
    "normalise_window (xs_started x) = ?want \<or> (\<exists>s\<in>set (xs_seams x). normalise_window s = ?want)"
    by (auto simp: resolve_ambiguous_def Let_def list_ex_iff split: if_splits)
  then have "chunk_window (obj q r) \<in> segment_windows (ck_session (obj q r)) x"
    unfolding chunk_window_def segment_windows_def by (auto intro: rev_image_eqI)
  with x(1) assms(2) show ?thesis by blast
qed

definition answer_true :: "listing \<Rightarrow> upload_queue \<Rightarrow> nat \<Rightarrow> window set \<Rightarrow> bool" where
  "answer_true a q r sv \<longleftrightarrow> (case a of ListFailed s \<Rightarrow> True
     | Listed segs \<Rightarrow> (\<Union>x\<in>set segs. segment_windows (ck_session (obj q r)) x) \<subseteq> sv)"

lemma confirmed_window: "resolve_ambiguous (obj q r) a = Confirmed \<Longrightarrow> answer_true a q r sv \<Longrightarrow> chunk_window (obj q r) \<in> sv"
  by (cases a) (auto simp: answer_true_def resolve_ambiguous_def [of _ "ListFailed _"] split: if_splits dest: listed_window)

lemma ambiguous_resolved_kept [keeping]:
  assumes "stock sv q" "r < length (uq_heap q)" "answer_true a q r sv"
  shows "kept sv (ambiguous_resolved d auto r a now x q)"
  using assms confirmed_window [of q r a sv] unfolding ambiguous_resolved_def
  by (cases "resolve_ambiguous (obj q r) a") (simp_all add: confirm_chunk_kept pump_loop_kept stop_attempt_kept lock_attempt_kept)

lemma vanished_resolved_kept [keeping]:
  assumes "stock sv q" "r < length (uq_heap q)" "answer_true a q r sv"
  shows "kept sv (vanished_resolved d auto r a now x q)"
  using assms confirmed_window [of q r a sv] unfolding vanished_resolved_def
  by (cases "resolve_ambiguous (obj q r) a") (simp_all add: confirm_chunk_kept pump_loop_kept stop_attempt_kept)

lemma send_chunk_kept [keeping]: "stock sv q \<Longrightarrow> r < length (uq_heap q) \<Longrightarrow> kept sv (send_chunk d auto r q)"
  unfolding send_chunk_def by (rule kept_awaits [where r = r]) auto

lemma bytes_of_kept [keeping]: "stock sv q \<Longrightarrow> r < length (uq_heap q) \<Longrightarrow> kept sv (bytes_of d auto r a q)"
  unfolding bytes_of_def
  by (auto intro: send_chunk_kept kept_awaits [where r = r] kept_rests split: reading.split option.split)

lemma sent_chunk_kept [keeping]:
  assumes "stock sv q" "r < length (uq_heap q)" "a = SentOk \<Longrightarrow> chunk_window (obj q r) \<in> sv"
  shows "kept sv (sent_chunk d auto r a now x q)"
proof (cases a)
  case SentOk
  with assms show ?thesis by (simp add: sent_chunk_def confirm_chunk_kept)
next
  case (SentNetwork msg)
  with assms show ?thesis by (simp add: sent_chunk_def stop_attempt_kept)
next
  case (SentFailed status msg)
  have "kept sv ((upd r (\<lambda>c. c\<lparr>ck_via_parts := True\<rparr>) q)\<lparr>uq_phase := Sending auto r True\<rparr>)"
    using assms by (intro kept_awaits [where r = r]) auto
  with SentFailed assms show ?thesis
    by (simp add: sent_chunk_def on_failure_def pump_loop_kept stop_attempt_kept)
qed

lemma finalize_answered_kept [keeping]: "stock sv q \<Longrightarrow> kept sv (finalize_answered d auto k f rest a now x q)"
  by (simp add: finalize_answered_def Let_def process_finalizes_kept kept_rests)

text \<open>So does every step of the pump under a truthful answer.\<close>

lemma pump_step_kept:
  assumes k: "kept sv q" and s: "pump_step d now x ev q = Some q'" and t: "truthful ev q sv sv'"
  shows "kept sv' q'"
proof -
  from t have "sv \<subseteq> sv'" by (simp add: truthful_def)
  from kept_mono [OF k this] have k': "stock sv' q" and p: "phased sv' q" by (simp_all add: kept_def)
  from p have r: "phase_ref (uq_phase q) = Some r \<Longrightarrow> r < length (uq_heap q)" for r by (simp add: phased_def)
  have c: "chunk_window (obj q r) \<in> sv'" if "uq_phase q = Confirming auto r" for auto r
    using p that by (simp add: phased_def)
  have l: "answer_true a q r sv'" if "uq_phase q \<in> {Looking auto r, Relooking auto r}" "ev = ListAnswered a" for auto r a
    using t that by (cases a) (auto simp: truthful_def answer_true_def, blast+)
  have o: "chunk_window (obj q r) \<in> sv'" if "uq_phase q = Sending auto r via" "ev = SendAnswered SentOk" for auto r via
    using t that by (simp add: truthful_def)
  show ?thesis
  proof (cases "uq_phase q")
    case (Sending auto r via)
    with s o r k' show ?thesis by (auto simp: pump_step_def split: upload_event.splits intro!: sent_chunk_kept)
  next
    case (Confirming auto r)
    with s c k' show ?thesis by (auto simp: pump_step_def split: upload_event.splits intro!: confirm_done_kept)
  next
    case (Looking auto r)
    with s l r k' show ?thesis by (auto simp: pump_step_def split: upload_event.splits intro!: ambiguous_resolved_kept)
  next
    case (Relooking auto r)
    with s l r k' show ?thesis by (auto simp: pump_step_def split: upload_event.splits intro!: vanished_resolved_kept)
  next
    case (Locking auto r)
    with s r k' show ?thesis
      by (auto simp: pump_step_def split: upload_event.splits if_splits intro!: contended_kept kept_awaits [where r = r])
  qed (use s r k' in \<open>auto simp: pump_step_def split: upload_event.splits if_splits
      intro!: ensure_owned_kept hold_asked_kept bytes_of_kept finalize_answered_kept process_finalizes_kept kept_rests\<close>)
qed

subsection \<open>The calls keep it\<close>

lemma process_finalizes_frame: "uq_gone (process_finalizes d auto now rest q) = uq_gone q \<and>
    length (uq_heap (process_finalizes d auto now rest q)) = length (uq_heap q)"
  by (induction d auto now rest q rule: process_finalizes.induct) (simp_all add: Let_def)

lemma pump_frame [simp]:
  "uq_gone (pump d auto now q) = uq_gone q" "length (uq_heap (pump d auto now q)) = length (uq_heap q)"
  by (simp_all add: pump_def pump_loop_def start_finalizes_def process_finalizes_frame split: option.split)

lemma enqueue_internal_kept [keeping]:
  assumes k: "kept sv q" and e: "enqueue_internal i am m held q = Some q'"
  shows "kept sv q'"
proof -
  let ?n = "length (uq_heap q)" and ?c = "new_chunk (Suc (length (uq_heap q))) am m held i"
  let ?h = "uq_heap q @ [?c]"
  let ?q = "q\<lparr>uq_heap := ?h, uq_chunks := js_sort (\<lambda>a b. compare_capture (?h ! a) (?h ! b)) (uq_chunks q @ [?n])\<rparr>"
  have o: "obj ?q r = obj q r" if "r < ?n" for r using that by (simp add: obj_def nth_append)
  have s: "stock sv q" and p: "phased sv q" using k by (simp_all add: kept_def)
  have "stock sv ?q"
    unfolding stock_def
  proof (intro conjI)
    show "set (uq_chunks ?q) \<subseteq> {..<length (uq_heap ?q)}" using s by (auto simp: stock_def)
    show "\<forall>r<length (uq_heap ?q). r \<in> set (uq_chunks ?q) \<or> settled_ref sv ?q r"
      using s o by (auto simp: stock_def settled_ref_def less_Suc_eq)
    show "\<forall>r\<in>set (uq_wiped ?q). r < length (uq_heap ?q) \<and> settled_ref sv ?q r"
      using s o by (auto simp: stock_def settled_ref_def)
    show "\<forall>(k, ws, n)\<in>set (uq_finalized ?q). n \<le> length (uq_heap ?q) \<and>
        (\<forall>r<n. finalize_key (obj ?q r) = k \<longrightarrow> settled_ref sv ?q r)"
      using s o by (fastforce simp: stock_def settled_ref_def)
  qed
  moreover have "phased sv ?q" using p o by (auto simp: phased_def elim: confirming_ref.elims)
  ultimately have "kept sv ?q" by (simp add: kept_def)
  moreover have "kept sv (own r q1) = kept sv q1" for r q1 by (simp add: own_def kept_def)
  ultimately show ?thesis using e unfolding enqueue_internal_def Let_def by (auto split: if_splits)
qed

lemma enqueue_kept [keeping]: "kept sv q \<Longrightarrow> kept sv (snd (enqueue i q))"
  by (auto simp: enqueue_def split: option.split intro: enqueue_internal_kept)

lemma kept_upd: "same_take f \<Longrightarrow> kept sv (upd r f q) = kept sv q"
  by (simp add: kept_def)

lemma hold_settled_kept [keeping]: "kept sv q \<Longrightarrow> kept sv (hold_settled r b q)"
  unfolding hold_settled_def by (subst kept_upd) auto

lemma drop_window_kept: "stock sv q \<Longrightarrow> stock sv (drop_window c q)" "phased sv q \<Longrightarrow> phased sv (drop_window c q)"
  "uq_gone (drop_window c q) = uq_gone q" "length (uq_heap (drop_window c q)) = length (uq_heap q)"
  by (auto simp: drop_window_def Let_def split: option.split)

lemma discard_ref_kept:
  assumes "kept sv q" "r \<in> set (uq_chunks q)"
  shows "kept sv (discard_ref d r now q)"
proof -
  let ?q1 = "upd r (\<lambda>c. c\<lparr>ck_lock := False\<rparr>) (q\<lparr>uq_chunks := removeAll r (uq_chunks q), uq_gone := uq_gone q @ [r]\<rparr>)"
  let ?q2 = "drop_window (obj q r) ?q1"
  let ?q3 = "if uq_finalizes ?q2 \<noteq> [] then pump d False now ?q2 else ?q2"
  have "stock sv ?q1" using assms by (auto simp: kept_def stock_def settled_ref_def)
  moreover have "phased sv ?q1" using assms by (auto simp: kept_def)
  ultimately have k: "kept sv ?q3" by (simp add: kept_def drop_window_kept pump_kept [unfolded kept_def])
  have "r \<in> set (uq_gone ?q3)" "r < length (uq_heap ?q3)"
    using stock_ref [OF kept_stock [OF assms(1)] assms(2)] by (simp_all add: drop_window_kept)
  with k have "kept sv (?q3\<lparr>uq_wiped := uq_wiped ?q3 @ [r]\<rparr>)"
    by (auto simp: kept_def stock_def settled_ref_def)
  with k show ?thesis unfolding discard_ref_def Let_def by simp
qed

lemma discard_chunk_kept [keeping]: "kept sv q \<Longrightarrow> kept sv (discard_chunk d k now q)"
  by (auto simp: discard_chunk_def split: option.split dest!: find_in intro: discard_ref_kept)

lemma kept_fold: "kept sv q \<Longrightarrow> (\<And>r q. kept sv q \<Longrightarrow> kept sv (g r q)) \<Longrightarrow> kept sv (fold g rs q)"
  by (induction rs arbitrary: q) auto

lemma kept_fields [simp]:
  "kept sv (q\<lparr>uq_finalizes := fz\<rparr>) = kept sv q" "kept sv (q\<lparr>uq_pends := ps\<rparr>) = kept sv q"
  "kept sv (q\<lparr>uq_user := u\<rparr>) = kept sv q" "kept sv (q\<lparr>uq_offline := b\<rparr>) = kept sv q"
  "kept sv (q\<lparr>uq_locks := l\<rparr>) = kept sv q" "kept sv (q\<lparr>uq_saving := n\<rparr>) = kept sv q"
  "kept sv (q\<lparr>uq_recoveries := rs\<rparr>) = kept sv q" "kept sv (q\<lparr>uq_recovered := us\<rparr>) = kept sv q"
  "kept sv (upd_pend f g q) = kept sv q"
  by (simp_all add: kept_def)

lemma discards_kept [keeping]:
  "kept sv q \<Longrightarrow> kept sv (discard d ro i now q)"
  "kept sv q \<Longrightarrow> kept sv (discard_all d now q)"
  "kept sv q \<Longrightarrow> kept sv (discard_user d u now q)"
  by (auto simp: discard_def discard_all_def discard_user_def Let_def split: option.split intro!: kept_fold discard_chunk_kept)

lemma upd_all_kept: "same_take f \<Longrightarrow> kept sv q \<Longrightarrow> kept sv (upd_all f q)"
  unfolding upd_all_def by (rule kept_fold) (simp_all add: kept_upd)

lemma upd_pends_kept: "kept sv q \<Longrightarrow> kept sv (upd_pends g q)"
  unfolding upd_pends_def by (rule kept_fold) auto

lemma retries_kept [keeping]:
  "kept sv q \<Longrightarrow> kept sv (retry_all d now q)"
  "kept sv q \<Longrightarrow> kept sv (retry_chunk d k now q)"
  "kept sv q \<Longrightarrow> kept sv (go_online d now q)"
  "kept sv q \<Longrightarrow> kept sv (on_tick d now q)"
  "kept sv q \<Longrightarrow> kept sv (dispose q)"
  by (auto simp: retry_all_def retry_chunk_def go_online_def on_tick_def dispose_def Let_def kept_upd split: option.split
      intro!: pump_kept upd_pends_kept upd_all_kept)

lemma finalize_calls_kept [keeping]:
  "kept sv q \<Longrightarrow> kept sv (request_finalize d i now q)"
  "kept sv q \<Longrightarrow> kept sv (finalize_saved d now q)"
  by (auto simp: request_finalize_def finalize_saved_def Let_def split: option.split intro!: pump_kept)

lemma recover_chunk_kept: "kept sv q \<Longrightarrow> kept sv (recover_chunk u held m q)"
  by (auto simp: recover_chunk_def Let_def split: option.split intro: enqueue_internal_kept)

lemma recover_recording_kept: "kept sv q \<Longrightarrow> kept sv (recover_recording u k groups recs q)"
  by (auto simp: recover_recording_def Let_def split: option.split)

lemma recovery_step_kept: "kept sv q \<Longrightarrow> kept sv (snd (recovery_step u ok s q))"
  by (induction u ok s q rule: recovery_step.induct) (auto simp: Let_def recover_chunk_kept recover_recording_kept)

lemma recovery_begins_kept [keeping]: "kept sv q \<Longrightarrow> kept sv (recovery_begins d u listed q)"
  by (auto simp: recovery_begins_def Let_def split: option.split)

lemma recovery_answered_kept [keeping]:
  assumes k: "kept sv q"
  shows "kept sv (recovery_answered d u ok now q)"
proof (cases "map_of (uq_recoveries q) u")
  case (Some s)
  have "kept sv ((snd (recovery_step u ok s q))\<lparr>uq_recoveries := rs\<rparr>)" for rs using recovery_step_kept [OF k] by simp
  with Some k show ?thesis
    by (auto simp: recovery_answered_def case_prod_unfold split: recovery.split list.split intro!: pump_kept)
qed (simp add: recovery_answered_def k)

lemmas calls_kept = enqueue_kept discards_kept discard_chunk_kept retries_kept finalize_calls_kept pump_kept
  recovery_begins_kept recovery_answered_kept hold_settled_kept

lemma call_step_kept: "kept sv q \<Longrightarrow> call_step d now ev q = Some q' \<Longrightarrow> kept sv q'"
  by (cases ev; simp add: calls_kept split: if_splits; (hypsubst | clarify); simp add: calls_kept)

lemma upload_step_kept:
  assumes "upload_step d (q, sv) (q', sv')" and k: "kept sv q"
  shows "kept sv' q'"
proof -
  from assms(1) obtain now x ev where s: "queue_step d (now, x, ev) q = Some q'" and t: "truthful ev q sv sv'"
    by (rule upload_stepE)
  show ?thesis
  proof (cases "call_step d now ev q")
    case None
    with s pump_step_kept [OF k _ t] show ?thesis by (simp add: queue_step_def)
  next
    case (Some q1)
    with s have "call_step d now ev q = Some q'" by (simp add: queue_step_def)
    moreover have "sv \<subseteq> sv'" using t by (simp add: truthful_def)
    ultimately show ?thesis using call_step_kept [OF k] kept_mono by blast
  qed
qed

subsection \<open>What a recording can rely on\<close>

lemma init_kept: "kept sv (init_queue locks offline)"
  by (simp add: kept_def stock_def phased_def init_queue_def)

lemma reach_kept:
  "(upload_step d)\<^sup>*\<^sup>* (init_queue locks offline, sv0) w \<Longrightarrow> kept (snd w) (fst w)"
  by (induction rule: rtranclp_induct) (auto simp: init_kept upload_step_kept)

subsection \<open>A recording that is stored\<close>

text \<open>A run with the server's windows after each step: a chunk is recorded, its recording ends, the
  upload succeeds, the bytes are removed and the recording is finalized.\<close>

fun upload_run ::
  "queue_deps \<Rightarrow> ((int \<times> num64 \<times> upload_event) \<times> window list) list \<Rightarrow> upload_queue \<times> window list \<Rightarrow> (upload_queue \<times> window list) option" where
  "upload_run d [] w = Some w"
| "upload_run d ((e, ws') # es) (q, ws) = (case queue_step d e q of None \<Rightarrow> None
     | Some q' \<Rightarrow> if truthful (snd (snd e)) q (set ws) (set ws') then upload_run d es (q', ws') else None)"

lemma upload_run_reach: "upload_run d es (q, ws) = Some (q', ws') \<Longrightarrow> (upload_step d)\<^sup>*\<^sup>* (q, set ws) (q', set ws')"
proof (induction es arbitrary: q ws)
  case (Cons step es)
  obtain now x ev ws1 where e: "step = ((now, x, ev), ws1)" by (metis prod_cases3 surj_pair)
  with Cons.prems obtain q1 where "queue_step d (now, x, ev) q = Some q1" "truthful ev q (set ws) (set ws1)"
    and r: "upload_run d es (q1, ws1) = Some (q', ws')" by (auto split: option.splits if_splits)
  then have "upload_step d (q, set ws) (q1, set ws1)" by (intro upload_stepI)
  with Cons.IH [OF r] show ?case by (meson converse_rtranclp_into_rtranclp)
qed simp

definition stored_take :: "((int \<times> num64 \<times> upload_event) \<times> window list) list" where
  "stored_take =
     (let start = ''2024-05-01T10:00:00.000Z''; held = [(''s'', 1, Some start)]
      in [((0, 0, Enqueue \<lparr>ci_session = ''s'', ci_ordinal = 1, ci_index = 0, ci_started = start, ci_ended = ''later'',
             ci_blob = Some 9, ci_store = Some ''k'', ci_user = Some ''u'', ci_bytes = 9, ci_recovered = False, ci_partial = False\<rparr>), []),
          ((0, 0, RequestFinalize \<lparr>fi_user = None, fi_session = ''s'', fi_ordinal = 1, fi_windows = [start]\<rparr>), []),
          ((0, 0, Settled), []), ((0, 0, ReadAnswered (BytesRead 9 None)), []),
          ((0, 0, SendAnswered SentOk), held), ((0, 0, Settled), held)])"

definition stored_deps :: queue_deps where
  "stored_deps = \<lparr>qd_store = True, qd_parts = True, qd_finalize = True\<rparr>"

definition stored_end :: "upload_queue \<times> window list" where
  "stored_end = the (upload_run stored_deps stored_take (init_queue NoLocks False, []))"

lemma stored_shape: "(case upload_run stored_deps stored_take (init_queue NoLocks False, []) of None \<Rightarrow> None
     | Some (q, ws) \<Rightarrow> Some (length (uq_heap q), uq_chunks q, uq_gone q, uq_wiped q, uq_finalized q, finalize_key (obj q 0))) =
    Some (1, [], [], [0], [((''s'', 1), [''2024-05-01T10:00:00.000Z''], 1)], ''s'', 1)"
  by code_simp

lemma stored_reach: "(upload_step stored_deps)\<^sup>*\<^sup>* (init_queue NoLocks False, {}) (fst stored_end, set (snd stored_end))"
  using upload_run_reach [of stored_deps stored_take "init_queue NoLocks False" "[]" "fst stored_end" "snd stored_end"] stored_shape
  by (auto simp: stored_end_def split: option.splits)

lemma stored_facts:
  "length (uq_heap (fst stored_end)) = 1" "uq_chunks (fst stored_end) = []" "uq_gone (fst stored_end) = []"
  "uq_wiped (fst stored_end) = [0]" "uq_finalized (fst stored_end) = [((''s'', 1), [''2024-05-01T10:00:00.000Z''], 1)]"
  "finalize_key (obj (fst stored_end) 0) = (''s'', 1)"
  using stored_shape by (simp_all add: stored_end_def split: option.splits prod.splits)

subsection \<open>The promises\<close>

text \<open>C11: No recorded chunk is lost. Whatever interleaving of captures, retries, discards, sign-ins, network
  changes, other tabs' locks, recovery scans and server answers has happened: every chunk the queue ever
  accepted is still in it, unless the server holds its window or the user discarded it; and its stored bytes
  were removed only in those two cases.\<close>

theorem no_chunk_lost:
  assumes "(upload_step d)\<^sup>*\<^sup>* (init_queue locks offline, sv0) (q, sv)"
  shows "(\<forall>r < length (uq_heap q). r \<in> set (uq_chunks q) \<or> chunk_window (obj q r) \<in> sv \<or> r \<in> set (uq_gone q)) \<and>
    (\<forall>r \<in> set (uq_wiped q). chunk_window (obj q r) \<in> sv \<or> r \<in> set (uq_gone q))"
  using reach_kept [OF assms] by (auto simp: kept_def stock_def settled_ref_def)

theorem no_chunk_lost_witness: "0 \<in> set (uq_wiped (fst stored_end)) \<and> 0 \<notin> set (uq_chunks (fst stored_end)) \<and>
    chunk_window (obj (fst stored_end) 0) \<in> set (snd stored_end)"
  using no_chunk_lost [OF stored_reach] by (simp add: stored_facts)

text \<open>C12: A recording is finalized after its chunks. Every finalize call the queue has sent for a recording was
  sent when each chunk of that recording accepted until then was held by the server or discarded.\<close>

theorem finalize_after_chunks:
  assumes "(upload_step d)\<^sup>*\<^sup>* (init_queue locks offline, sv0) (q, sv)"
    and "(k, ws, n) \<in> set (uq_finalized q)" "r < n" "finalize_key (obj q r) = k"
  shows "chunk_window (obj q r) \<in> sv \<or> r \<in> set (uq_gone q)"
  using reach_kept [OF assms(1)] assms(2-4) by (fastforce simp: kept_def stock_def settled_ref_def)

theorem finalize_after_chunks_witness: "((''s'', 1), [''2024-05-01T10:00:00.000Z''], 1) \<in> set (uq_finalized (fst stored_end)) \<and>
    chunk_window (obj (fst stored_end) 0) \<in> set (snd stored_end)"
  using finalize_after_chunks [OF stored_reach, of "(''s'', 1)" "[''2024-05-01T10:00:00.000Z'']" 1 0] by (simp add: stored_facts)

end
