(* ===== verification/ChunkProgress.thy ===== *)
theory ChunkProgress
  imports ChunkSafety
begin

section \<open>Every pump ends\<close>

text \<open>
  The queue's pump runs from one awaited answer to the next. Between two calls from outside, every answer it
  gets brings it closer to its end: the weight below counts the chunks still to be attempted, then where the
  attempt is, then the finalize calls left.
\<close>

definition attempts_left :: "upload_queue \<Rightarrow> nat \<Rightarrow> nat" where
  "attempts_left q r = Suc (length (filter (\<lambda>s. s \<noteq> r \<and> attemptable q s) (uq_chunks q)) +
     (if ck_retry_once (obj q r) then count_list (uq_chunks q) r else 0))"

definition attempt_weight :: "upload_queue \<Rightarrow> nat \<Rightarrow> nat \<Rightarrow> nat" where
  "attempt_weight q r rank = 4 + 2 * length (uq_finalizes q) + 20 * attempts_left q r + rank"

definition phase_weight :: "upload_queue \<Rightarrow> phase \<Rightarrow> nat" where
  "phase_weight q p = (case p of
     Idle \<Rightarrow> 0
   | Ending \<Rightarrow> 1
   | FinalizeRemoving _ rest \<Rightarrow> 2 + 2 * length rest
   | FinalizeSending _ _ _ rest \<Rightarrow> 3 + 2 * length rest
   | Confirming _ r \<Rightarrow> attempt_weight q r 0
   | Sending _ r _ \<Rightarrow> attempt_weight q r (if ck_via_parts (obj q r) then 1 else 2)
   | Relooking _ r \<Rightarrow> attempt_weight q r 3
   | Reading _ r \<Rightarrow> attempt_weight q r 4
   | Locking _ r \<Rightarrow> attempt_weight q r 5
   | Looking _ r \<Rightarrow> attempt_weight q r 6
   | Asking _ r \<Rightarrow> attempt_weight q r 7
   | Owning _ r \<Rightarrow> attempt_weight q r 8)"

definition pump_weight :: "upload_queue \<Rightarrow> nat" where
  "pump_weight q = phase_weight q (uq_phase q)"

lemma attempts_left_fields [simp]:
  "attempts_left (q\<lparr>uq_phase := p\<rparr>) r = attempts_left q r" "attempts_left (q\<lparr>uq_wiped := w\<rparr>) r = attempts_left q r"
  "attempts_left (q\<lparr>uq_finalized := fs\<rparr>) r = attempts_left q r"
  by (simp_all add: attempts_left_def attemptable_def may_upload_def)

lemma attempt_weight_fields [simp]:
  "attempt_weight (q\<lparr>uq_phase := p\<rparr>) r = attempt_weight q r" "attempt_weight (q\<lparr>uq_wiped := w\<rparr>) r = attempt_weight q r"
  "attempt_weight (q\<lparr>uq_finalized := fs\<rparr>) r = attempt_weight q r"
  by (simp_all add: attempt_weight_def fun_eq_iff)

lemma pump_weight_at [simp]:
  "pump_weight (q\<lparr>uq_phase := p\<rparr>) = phase_weight q p"
  "pump_weight (q\<lparr>uq_phase := p, uq_wiped := w\<rparr>) = phase_weight q p"
  "pump_weight (q\<lparr>uq_phase := p, uq_finalized := fs\<rparr>) = phase_weight q p"
  by (simp_all add: pump_weight_def phase_weight_def split: phase.split)

lemmas weigh = pump_weight_def phase_weight_def attempt_weight_def

subsection \<open>Where a step leaves the pump\<close>

lemma process_finalizes_weight: "pump_weight (process_finalizes d auto now rest q) \<le> 1 + 2 * length rest"
proof (induction rest)
  case (Cons kf rest)
  then show ?case by (cases kf; cases auto) (simp_all add: Let_def phase_weight_def)
qed (simp add: phase_weight_def)

lemmas process_finalizes_less = process_finalizes_weight [THEN le_less_trans]

lemma start_finalizes_weight: "pump_weight (start_finalizes d auto now q) \<le> 1 + 2 * length (uq_finalizes q)"
  using process_finalizes_weight [of d auto now "uq_finalizes q" q] by (simp add: start_finalizes_def phase_weight_def)

definition to_attempt :: "upload_queue \<Rightarrow> nat" where
  "to_attempt q = length (filter (attemptable q) (uq_chunks q))"

lemma attemptable_upd: "s \<noteq> r \<Longrightarrow> attemptable (upd r f q) s = attemptable q s"
  by (simp add: attemptable_def obj_upd may_upload_def)

lemma others_upd: "filter (\<lambda>s. s \<noteq> r \<and> attemptable (upd r f q) s) xs = filter (\<lambda>s. s \<noteq> r \<and> attemptable q s) xs"
  by (rule filter_cong) (auto simp: attemptable_upd)

lemma split_off: "length (filter p xs) = length (filter (\<lambda>s. s \<noteq> r \<and> p s) xs) + (if p r then count_list xs r else 0)"
  by (induction xs) auto

definition housed :: "upload_queue \<Rightarrow> bool" where
  "housed q \<longleftrightarrow> set (uq_chunks q) \<subseteq> {..<length (uq_heap q)}"

lemma housed_upd [simp]: "housed (upd r f q) = housed q"
  by (simp add: housed_def)

lemma pump_loop_weight:
  assumes "housed q"
  shows "pump_weight (pump_loop d auto now q) \<le> 12 + 2 * length (uq_finalizes q) + 20 * to_attempt q"
proof (cases "next_attemptable q")
  case (Some r)
  then have r: "r \<in> set (uq_chunks q)" "attemptable q r" using find_in by (fastforce simp: next_attemptable_def)+
  let ?q = "upd r (\<lambda>c. c\<lparr>ck_retry_once := False\<rparr>) q"
  have "\<not> ck_retry_once (obj ?q r)" using r(1) assms by (auto simp: obj_upd housed_def)
  moreover have "0 < count_list (uq_chunks q) r" using r(1) by (simp add: count_list_0_iff zero_less_iff_neq_zero)
  ultimately have "attempts_left ?q r \<le> to_attempt q"
    using split_off [of "attemptable q" "uq_chunks q" r] r(2) by (simp add: attempts_left_def others_upd to_attempt_def)
  then have "pump_weight (?q\<lparr>uq_phase := Owning auto r\<rparr>) \<le> 12 + 2 * length (uq_finalizes q) + 20 * to_attempt q"
    by (simp add: phase_weight_def attempt_weight_def)
  with Some start_finalizes_weight [of d auto now q] show ?thesis by (cases auto) (simp_all add: pump_loop_def)
qed (use start_finalizes_weight [of d auto now q] in \<open>simp add: pump_loop_def\<close>)

text \<open>An attempt that ends leaves fewer to come: by stopping the loop, or by going on to the next chunk.\<close>

lemma stop_attempt_weight: "uq_finalizes q' = uq_finalizes q \<Longrightarrow> pump_weight (stop_attempt d auto now q') < attempt_weight q r n"
  using start_finalizes_weight [of d auto now q'] by (simp add: stop_attempt_def attempt_weight_def)

lemma next_attempt_weight:
  assumes "uq_finalizes q' = uq_finalizes q" "to_attempt q' < attempts_left q r" "housed q'"
  shows "pump_weight (pump_loop d auto now q') < attempt_weight q r n"
  using pump_loop_weight [of q' d auto now] assms by (simp add: attempt_weight_def)

lemma blocked_to_attempt:
  assumes "r < length (uq_heap q)" "\<And>c. ck_class (f c) \<noteq> CQueued" "\<And>c. ck_retry_once (f c) = ck_retry_once c"
  shows "to_attempt (upd r f q) < attempts_left q r"
  using assms split_off [of "attemptable (upd r f q)" "uq_chunks q" r]
  by (simp add: to_attempt_def attempts_left_def others_upd) (simp add: attemptable_def obj_upd)

lemma attemptable_chunks: "attemptable (q\<lparr>uq_chunks := cs\<rparr>) s = attemptable q s"
  by (simp add: attemptable_def may_upload_def)

lemma removed_to_attempt: "to_attempt (upd r f (q\<lparr>uq_chunks := removeAll r (uq_chunks q)\<rparr>)) < attempts_left q r"
proof -
  let ?q = "q\<lparr>uq_chunks := removeAll r (uq_chunks q)\<rparr>"
  have "filter (attemptable (upd r f ?q)) (removeAll r xs) = filter (\<lambda>s. s \<noteq> r \<and> attemptable q s) xs" for xs
    by (induction xs) (auto simp: attemptable_upd attemptable_chunks)
  then show ?thesis by (simp add: to_attempt_def attempts_left_def)
qed

lemma attempts_left_upd: "(\<And>c. ck_retry_once (f c) = ck_retry_once c) \<Longrightarrow> attempts_left (upd r f q) r = attempts_left q r"
  by (simp add: attempts_left_def others_upd obj_upd)

lemma attempt_weight_upd: "(\<And>c. ck_retry_once (f c) = ck_retry_once c) \<Longrightarrow> attempt_weight (upd r f q) r n = attempt_weight q r n"
  by (simp add: attempt_weight_def attempts_left_upd)

lemma attempt_weight_less [simp]: "attempt_weight q r m < attempt_weight q r n \<longleftrightarrow> m < n" "attempt_weight q r m \<le> attempt_weight q r n \<longleftrightarrow> m \<le> n"
  by (simp_all add: attempt_weight_def)

subsection \<open>Every answer brings the end closer\<close>

lemma contended_weight: "pump_weight (contended d auto r now x q) < attempt_weight q r n"
  unfolding contended_def by (rule stop_attempt_weight) simp

lemma confirm_done_weight: "housed q \<Longrightarrow> pump_weight (confirm_done d auto r now q) < attempt_weight q r n"
  unfolding confirm_done_def by (rule next_attempt_weight) (auto simp: removed_to_attempt housed_def)

lemma confirm_chunk_weight: "housed q \<Longrightarrow> 0 < n \<Longrightarrow> pump_weight (confirm_chunk d auto r now q) < attempt_weight q r n"
  by (simp add: confirm_chunk_def confirm_done_weight) (simp add: phase_weight_def)

lemma lock_attempt_weight: "pump_weight (lock_attempt auto r q) \<le> attempt_weight q r 5"
  by (simp add: lock_attempt_def phase_weight_def)

lemma owned_attempt_weight: "pump_weight (owned_attempt auto r q) \<le> attempt_weight q r 6"
  using lock_attempt_weight [of auto r q] by (simp add: owned_attempt_def phase_weight_def attempt_weight_def)

lemma ensure_owned_weight: "pump_weight (ensure_owned auto r q) < attempt_weight q r 8"
  using owned_attempt_weight [of auto r q] by (simp add: ensure_owned_def phase_weight_def attempt_weight_def)

lemma hold_asked_weight: "pump_weight (hold_asked d auto r b now x q) < attempt_weight q r 7"
  using owned_attempt_weight [of auto r "upd r (\<lambda>c. c\<lparr>ck_refused := False, ck_lock := (if r \<in> set (uq_chunks q) then True else ck_lock c)\<rparr>) q"]
  by (simp add: hold_asked_def contended_weight attempt_weight_upd) (simp add: attempt_weight_def)

lemma blocked_weight:
  assumes "housed q" "r < length (uq_heap q)" "\<And>c. ck_class (f c) \<noteq> CQueued" "\<And>c. ck_retry_once (f c) = ck_retry_once c"
  shows "pump_weight (pump_loop d auto now (upd r f q)) < attempt_weight q r n"
  using assms by (intro next_attempt_weight blocked_to_attempt) auto

lemma ambiguous_resolved_weight:
  assumes "housed q" "r < length (uq_heap q)"
  shows "pump_weight (ambiguous_resolved d auto r a now x q) < attempt_weight q r 6"
proof (cases "resolve_ambiguous (obj q r) a")
  case NotFound
  have "attempt_weight (upd r (\<lambda>c. c\<lparr>ck_ambiguous := False\<rparr>) q) r 5 < attempt_weight q r 6" by (simp add: attempt_weight_upd)
  with NotFound lock_attempt_weight show ?thesis by (fastforce simp: ambiguous_resolved_def intro: le_less_trans)
qed (use assms in \<open>auto simp: ambiguous_resolved_def blocked_chunk_def intro!: confirm_chunk_weight blocked_weight stop_attempt_weight\<close>)

lemma vanished_resolved_weight:
  assumes "housed q" "r < length (uq_heap q)"
  shows "pump_weight (vanished_resolved d auto r a now x q) < attempt_weight q r 3"
  using assms by (cases "resolve_ambiguous (obj q r) a")
    (auto simp: vanished_resolved_def intro!: confirm_chunk_weight blocked_weight stop_attempt_weight)

lemma send_chunk_weight: "(\<And>c. ck_retry_once (f c) = ck_retry_once c) \<Longrightarrow> pump_weight (send_chunk d auto r (upd r f q)) < attempt_weight q r 4"
  by (simp add: send_chunk_def phase_weight_def attempt_weight_upd)

lemma bytes_of_weight: "pump_weight (bytes_of d auto r a q) < attempt_weight q r 4"
  using send_chunk_weight [of "\<lambda>c. c" d auto r q]
  by (auto simp: bytes_of_def upd_def phase_weight_def split: reading.split option.split intro!: send_chunk_weight [unfolded upd_def])
    (simp_all add: attempt_weight_def)

lemma sent_chunk_weight:
  assumes "housed q" "r < length (uq_heap q)"
  shows "pump_weight (sent_chunk d auto r a now x q) < phase_weight q (Sending auto r via)"
proof -
  have "phase_weight (upd r (\<lambda>c. c\<lparr>ck_via_parts := True\<rparr>) q) (Sending auto r True) < attempt_weight q r 2"
    using assms(2) by (simp add: phase_weight_def attempt_weight_upd obj_upd)
  then show ?thesis
    using assms by (auto simp: phase_weight_def [of q] sent_chunk_def on_failure_def blocked_chunk_def split: sending.split
        intro!: confirm_chunk_weight blocked_weight stop_attempt_weight)
qed

lemma finalize_answered_weight:
  "pump_weight (finalize_answered d auto k f rest a now x q) < phase_weight q (FinalizeSending auto k f rest)"
  by (auto simp: finalize_answered_def Let_def phase_weight_def intro!: process_finalizes_less)

lemma pump_step_weight:
  assumes h: "housed q" and p: "\<And>r. phase_ref (uq_phase q) = Some r \<Longrightarrow> r < length (uq_heap q)"
    and s: "pump_step d now x ev q = Some q'"
  shows "pump_weight q' < pump_weight q"
proof -
  have w: "pump_weight q = phase_weight q (uq_phase q)" by (simp add: pump_weight_def)
  show ?thesis
  proof (cases "uq_phase q")
    case (Sending auto r via)
    with s p h show ?thesis by (auto simp: pump_step_def w split: upload_event.splits intro!: sent_chunk_weight)
  next
    case (FinalizeSending auto k f rest)
    with s show ?thesis by (auto simp: pump_step_def w split: upload_event.splits intro!: finalize_answered_weight)
  next
    case (FinalizeRemoving auto rest)
    with s process_finalizes_weight [of d auto now rest q] show ?thesis
      by (auto simp: pump_step_def w phase_weight_def split: upload_event.splits)
  qed (use s p h in \<open>auto simp: pump_step_def w phase_weight_def split: upload_event.splits if_splits
      intro!: ensure_owned_weight hold_asked_weight ambiguous_resolved_weight contended_weight bytes_of_weight
        vanished_resolved_weight confirm_done_weight\<close>)
qed

text \<open>C40: Every pump comes to an end. From no state the queue can reach is there an endless run of the pump:
  whatever the locks, the store and the server answer, finitely many answers take it back to idle, where the
  next call or tick can start it again.\<close>

theorem pump_terminates:
  "wf {(q', q). (\<exists>locks offline sv0 sv. (upload_step d)\<^sup>*\<^sup>* (init_queue locks offline, sv0) (q, sv)) \<and>
     (\<exists>now x ev. pump_step d now x ev q = Some q')}"
proof (rule wf_subset [OF wf_measure [of pump_weight]], clarify)
  fix q' q locks offline sv0 sv now x ev
  assume "(upload_step d)\<^sup>*\<^sup>* (init_queue locks offline, sv0) (q, sv)" and s: "pump_step d now x ev q = Some q'"
  then have "stock sv q" "phased sv q" using reach_kept by (fastforce simp: kept_def)+
  then have "housed q" "\<And>r. phase_ref (uq_phase q) = Some r \<Longrightarrow> r < length (uq_heap q)"
    by (simp_all add: stock_def housed_def phased_def)
  from pump_step_weight [OF this s] show "(q', q) \<in> measure pump_weight" by simp
qed

end
