(* ===== verification/CatalogData.thy ===== *)
theory CatalogData
  imports JsNumber
begin

section \<open>The catalog\<close>

text \<open>
  The catalog's tables as the team plane uses them (supabase/migrations/20261001000000_catalog_schema.sql,
  20261004000000_team_owner.sql, 20261005000000_show_grants.sql) and a transaction on them. A table is the
  list of its rows in the order they were written; a session's live projection is left out.
  Catalog transactions are serializable, so one is a function from the committed catalog to an error or to
  its answer with the next catalog. Row-level policies are not modelled.
\<close>

datatype role = Owner | Admin | Member

record user_row =
  us_id :: string
  us_sub :: string
  us_email :: string
  us_given :: string
  us_family :: string
  us_picture :: string
  us_created :: iso
  us_disabled :: "iso option"

record member_row =
  mb_user :: string
  mb_studio :: string
  mb_role :: role

record prefs_row =
  pr_user :: string
  pr_studio :: string
  pr_show :: string

record studio_row =
  sd_id :: string
  sd_name :: string
  sd_sort :: int
  sd_created :: iso

record show_row =
  sw_id :: string
  sw_studio :: string
  sw_name :: string
  sw_code :: string
  sw_next :: int
  sw_suffix :: string
  sw_categories :: string \<comment> \<open>JSON text, as are the two palettes\<close>
  sw_palette :: string
  sw_preset :: string
  sw_custom :: string
  sw_created :: iso

record grant_row =
  gr_user :: string
  gr_show :: string
  gr_by :: string
  gr_at :: iso

record invite_row =
  iv_studio :: string
  iv_email :: string
  iv_by :: string
  iv_at :: iso

record approval_row =
  ap_email :: string
  ap_at :: iso

record index_row =
  ix_id :: string
  ix_show :: "string option"
  ix_title :: string
  ix_episode :: string
  ix_rate :: num64
  ix_offset :: int
  ix_notes :: string
  ix_archived :: bool
  ix_hidden :: bool
  ix_date :: "string option"
  ix_started :: iso
  ix_created :: iso

record catalog =
  ct_users :: "user_row list"
  ct_members :: "member_row list"
  ct_prefs :: "prefs_row list"
  ct_studios :: "studio_row list"
  ct_shows :: "show_row list"
  ct_grants :: "grant_row list"
  ct_invites :: "invite_row list"
  ct_approvals :: "approval_row list"
  ct_settings :: "(string \<times> string) list"
  ct_sessions :: "index_row list"

definition member_key :: "member_row \<Rightarrow> string \<times> string" where
  "member_key m = (mb_user m, mb_studio m)"

definition grant_key :: "grant_row \<Rightarrow> string \<times> string" where
  "grant_key g = (gr_user g, gr_show g)"

definition invite_key :: "invite_row \<Rightarrow> string \<times> string" where
  "invite_key i = (iv_studio i, iv_email i)"

text \<open>The schema's keys, references and the one-owner index.\<close>

definition user_ids :: "catalog \<Rightarrow> string set" where "user_ids c = us_id ` set (ct_users c)"
definition studio_ids :: "catalog \<Rightarrow> string set" where "studio_ids c = sd_id ` set (ct_studios c)"
definition show_ids :: "catalog \<Rightarrow> string set" where "show_ids c = sw_id ` set (ct_shows c)"

definition keys_hold :: "catalog \<Rightarrow> bool" where
  "keys_hold c \<longleftrightarrow> distinct (map us_id (ct_users c)) \<and> distinct (map us_sub (ct_users c)) \<and>
     distinct (map member_key (ct_members c)) \<and> distinct (map pr_user (ct_prefs c)) \<and>
     distinct (map sd_id (ct_studios c)) \<and> distinct (map sw_id (ct_shows c)) \<and>
     distinct (map grant_key (ct_grants c)) \<and> distinct (map invite_key (ct_invites c)) \<and>
     distinct (map ap_email (ct_approvals c)) \<and> distinct (map fst (ct_settings c)) \<and> distinct (map ix_id (ct_sessions c))"

definition one_owner :: "member_row list \<Rightarrow> bool" where
  "one_owner ms \<longleftrightarrow> distinct (map mb_studio (filter (\<lambda>m. mb_role m = Owner) ms))"

definition references_hold :: "catalog \<Rightarrow> bool" where
  "references_hold c \<longleftrightarrow> mb_user ` set (ct_members c) \<subseteq> user_ids c \<and> pr_user ` set (ct_prefs c) \<subseteq> user_ids c \<and>
     gr_user ` set (ct_grants c) \<subseteq> user_ids c \<and> gr_show ` set (ct_grants c) \<subseteq> show_ids c \<and>
     ix_show ` set (ct_sessions c) \<subseteq> insert None (Some ` show_ids c)"

definition constraints_hold :: "catalog \<Rightarrow> bool" where
  "constraints_hold c \<longleftrightarrow> keys_hold c \<and> one_owner (ct_members c) \<and> references_hold c"

subsection \<open>A catalog transaction\<close>

datatype catalog_error =
    ApiError nat string
  | ValidationError string
  | TransferError string
  | SignupRefused
  | ConstraintFailed
  | NotifyFailed

type_synonym 'a cat = "catalog \<Rightarrow> catalog_error + 'a \<times> catalog"

definition creturn :: "'a \<Rightarrow> 'a cat" where
  "creturn x c = Inr (x, c)"

definition cbind :: "'a cat \<Rightarrow> ('a \<Rightarrow> 'b cat) \<Rightarrow> 'b cat" where
  "cbind m k c = (case m c of Inl e \<Rightarrow> Inl e | Inr (x, c') \<Rightarrow> k x c')"

definition cthrow :: "catalog_error \<Rightarrow> 'a cat" where
  "cthrow e c = Inl e"

definition cread :: "(catalog \<Rightarrow> 'a) \<Rightarrow> 'a cat" where
  "cread f c = Inr (f c, c)"

text \<open>A statement: one that the constraints refuse rejects the transaction.\<close>

definition cwrite :: "(catalog \<Rightarrow> catalog) \<Rightarrow> unit cat" where
  "cwrite f c = (if constraints_hold (f c) then Inr ((), f c) else Inl ConstraintFailed)"

lemma cbind_Inr: "cbind m k c = Inr (y, c') \<longleftrightarrow> (\<exists>x c1. m c = Inr (x, c1) \<and> k x c1 = Inr (y, c'))"
  by (auto simp: cbind_def split: sum.splits)

lemma cat_results [simp]:
  "creturn x c = Inr (y, c') \<longleftrightarrow> y = x \<and> c' = c" "cthrow e c \<noteq> Inr z" "cread f c = Inr (y, c') \<longleftrightarrow> y = f c \<and> c' = c"
  "cwrite g c = Inr (u, c') \<longleftrightarrow> constraints_hold (g c) \<and> c' = g c"
  by (auto simp: creturn_def cthrow_def cread_def cwrite_def)

end
