(* ===== verification/AuthStore.thy ===== *)
theory AuthStore
  imports CatalogData
begin

section \<open>Users, memberships, invites and grants\<close>

text \<open>
  packages/catalog/src/authStore.ts: one definition per method. A read is a function of the catalog, a write
  a transaction; \<open>FOR SHARE\<close> only locks, so a read under it is the plain read.
\<close>

subsection \<open>Users\<close>

definition auth_get_user_by_google_sub :: "string \<Rightarrow> catalog \<Rightarrow> user_row option" where
  "auth_get_user_by_google_sub sub c = find (\<lambda>u. us_sub u = sub \<and> us_disabled u = None) (ct_users c)"

definition auth_get_user_by_google_sub_any :: "string \<Rightarrow> catalog \<Rightarrow> user_row option" where
  "auth_get_user_by_google_sub_any sub c = find (\<lambda>u. us_sub u = sub) (ct_users c)"

definition auth_get_user_by_id :: "string \<Rightarrow> catalog \<Rightarrow> user_row option" where
  "auth_get_user_by_id i c = find (\<lambda>u. us_id u = i \<and> us_disabled u = None) (ct_users c)"

definition auth_get_user_row_any :: "string \<Rightarrow> catalog \<Rightarrow> user_row option" where
  "auth_get_user_row_any i c = find (\<lambda>u. us_id u = i) (ct_users c)"

record new_user =
  nu_id :: string
  nu_sub :: string
  nu_email :: string
  nu_given :: string
  nu_family :: string
  nu_picture :: string

definition auth_create_user_google :: "iso \<Rightarrow> new_user \<Rightarrow> string option cat" where
  "auth_create_user_google now n = cbind (cread (\<lambda>c. list_ex (\<lambda>u. us_id u = nu_id n \<or> us_sub u = nu_sub n) (ct_users c)))
     (\<lambda>taken. if taken then creturn None else
       cbind (cwrite (\<lambda>c. c\<lparr>ct_users := ct_users c @ [\<lparr>us_id = nu_id n, us_sub = nu_sub n, us_email = nu_email n,
           us_given = nu_given n, us_family = nu_family n, us_picture = nu_picture n, us_created = now, us_disabled = None\<rparr>]\<rparr>))
         (\<lambda>_. creturn (Some (nu_id n))))"

definition update_user :: "string \<Rightarrow> (user_row \<Rightarrow> user_row) \<Rightarrow> catalog \<Rightarrow> catalog" where
  "update_user i f c = c\<lparr>ct_users := map (\<lambda>u. if us_id u = i then f u else u) (ct_users c)\<rparr>"

record profile_fields =
  pf_email :: "string option"
  pf_given :: "string option"
  pf_family :: "string option"
  pf_picture :: "string option"

definition or_else :: "'a option \<Rightarrow> 'a \<Rightarrow> 'a" where
  "or_else x y = (case x of Some v \<Rightarrow> v | None \<Rightarrow> y)"

definition auth_update_user_profile :: "string \<Rightarrow> profile_fields \<Rightarrow> bool cat" where
  "auth_update_user_profile i f = cbind (cread (auth_get_user_by_id i)) (\<lambda>row. case row of
     None \<Rightarrow> creturn False
   | Some u \<Rightarrow> cbind (cwrite (update_user i (\<lambda>v. v\<lparr>us_email := or_else (pf_email f) (us_email u),
         us_given := or_else (pf_given f) (us_given u), us_family := or_else (pf_family f) (us_family u),
         us_picture := or_else (pf_picture f) (us_picture u)\<rparr>))) (\<lambda>_. creturn True))"

definition auth_update_user_names :: "string \<Rightarrow> string \<Rightarrow> string \<Rightarrow> bool cat" where
  "auth_update_user_names i gn fn = cbind (cread (auth_get_user_by_id i)) (\<lambda>row. case row of
     None \<Rightarrow> creturn False
   | Some _ \<Rightarrow> cbind (cwrite (update_user i (\<lambda>v. v\<lparr>us_given := gn, us_family := fn\<rparr>))) (\<lambda>_. creturn True))"

definition auth_list_users_admin :: "catalog \<Rightarrow> user_row list" where
  "auth_list_users_admin c = rev (sort_key us_created (rev (ct_users c)))"

definition auth_set_user_disabled :: "iso \<Rightarrow> string \<Rightarrow> bool \<Rightarrow> unit cat" where
  "auth_set_user_disabled now i disabled = cwrite (update_user i (\<lambda>u. u\<lparr>us_disabled := if disabled then Some now else None\<rparr>))"

definition normalize_email :: "string \<Rightarrow> string" where
  "normalize_email raw = js_trim (js_lower raw)"

definition auth_list_users_by_email_norm :: "string \<Rightarrow> catalog \<Rightarrow> user_row list" where
  "auth_list_users_by_email_norm e c = filter (\<lambda>u. normalize_email (us_email u) = e) (ct_users c)"

subsection \<open>Preferences\<close>

definition auth_get_prefs :: "string \<Rightarrow> catalog \<Rightarrow> prefs_row option" where
  "auth_get_prefs i c = find (\<lambda>p. pr_user p = i) (ct_prefs c)"

definition auth_ensure_prefs_row :: "string \<Rightarrow> unit cat" where
  "auth_ensure_prefs_row i = cbind (cread (auth_get_prefs i)) (\<lambda>row. case row of
     Some _ \<Rightarrow> creturn ()
   | None \<Rightarrow> cwrite (\<lambda>c. c\<lparr>ct_prefs := ct_prefs c @ [\<lparr>pr_user = i, pr_studio = [], pr_show = []\<rparr>]\<rparr>))"

definition upsert_prefs :: "string \<Rightarrow> prefs_row \<Rightarrow> (prefs_row \<Rightarrow> prefs_row) \<Rightarrow> catalog \<Rightarrow> catalog" where
  "upsert_prefs i new f c = (if auth_get_prefs i c = None then c\<lparr>ct_prefs := ct_prefs c @ [new]\<rparr>
     else c\<lparr>ct_prefs := map (\<lambda>p. if pr_user p = i then f p else p) (ct_prefs c)\<rparr>)"

definition auth_set_prefs :: "string \<Rightarrow> string \<Rightarrow> string \<Rightarrow> unit cat" where
  "auth_set_prefs i studio sh = cwrite (upsert_prefs i \<lparr>pr_user = i, pr_studio = studio, pr_show = sh\<rparr>
     (\<lambda>p. p\<lparr>pr_studio := studio, pr_show := sh\<rparr>))"

text \<open>The column is never null, so a null expectation matches no row.\<close>

definition auth_replace_active_show_if :: "string \<Rightarrow> string \<Rightarrow> string option \<Rightarrow> string \<Rightarrow> unit cat" where
  "auth_replace_active_show_if i studio expected nxt = cwrite (upsert_prefs i \<lparr>pr_user = i, pr_studio = studio, pr_show = nxt\<rparr>
     (\<lambda>p. if expected = Some (pr_show p) then p\<lparr>pr_show := nxt\<rparr> else p))"

subsection \<open>Memberships\<close>

definition auth_get_membership_role :: "string \<Rightarrow> string \<Rightarrow> catalog \<Rightarrow> role option" where
  "auth_get_membership_role u t c = map_option mb_role (find (\<lambda>m. member_key m = (u, t)) (ct_members c))"

definition auth_user_has_studio :: "string \<Rightarrow> string \<Rightarrow> catalog \<Rightarrow> bool" where
  "auth_user_has_studio u t c \<longleftrightarrow> list_ex (\<lambda>m. member_key m = (u, t)) (ct_members c)"

definition auth_list_memberships_for_user :: "string \<Rightarrow> catalog \<Rightarrow> (string \<times> role) list" where
  "auth_list_memberships_for_user u c =
     map (\<lambda>m. (mb_studio m, mb_role m)) (sort_key mb_studio (filter (\<lambda>m. mb_user m = u) (ct_members c)))"

definition auth_list_studio_ids_for_user :: "string \<Rightarrow> catalog \<Rightarrow> string list" where
  "auth_list_studio_ids_for_user u c = map mb_studio (sort_key mb_studio (filter (\<lambda>m. mb_user m = u) (ct_members c)))"

definition add_member :: "string \<Rightarrow> string \<Rightarrow> role \<Rightarrow> catalog \<Rightarrow> catalog" where
  "add_member u t r c = (if auth_user_has_studio u t c then c
     else c\<lparr>ct_members := ct_members c @ [\<lparr>mb_user = u, mb_studio = t, mb_role = r\<rparr>]\<rparr>)"

definition set_role :: "string \<Rightarrow> string \<Rightarrow> role \<Rightarrow> catalog \<Rightarrow> catalog" where
  "set_role u t r c = c\<lparr>ct_members := map (\<lambda>m. if member_key m = (u, t) then m\<lparr>mb_role := r\<rparr> else m) (ct_members c)\<rparr>"

fun auth_add_memberships_from :: "string \<Rightarrow> string list \<Rightarrow> unit cat" where
  "auth_add_memberships_from u [] = creturn ()"
| "auth_add_memberships_from u (t # ts) = cbind (cwrite (add_member u t Member)) (\<lambda>_. auth_add_memberships_from u ts)"

definition auth_add_memberships :: "string \<Rightarrow> string list \<Rightarrow> unit cat" where
  "auth_add_memberships u ts = auth_add_memberships_from u (filter (\<lambda>t. t \<noteq> []) ts)"

definition auth_add_membership_with_role :: "string \<Rightarrow> string \<Rightarrow> role \<Rightarrow> unit cat" where
  "auth_add_membership_with_role u t r = cwrite (add_member u t r)"

definition auth_upsert_membership_role :: "string \<Rightarrow> string \<Rightarrow> role \<Rightarrow> unit cat" where
  "auth_upsert_membership_role u t r = cwrite (\<lambda>c. if auth_user_has_studio u t c then set_role u t r c else add_member u t r c)"

definition auth_set_existing_membership_role :: "string \<Rightarrow> string \<Rightarrow> role \<Rightarrow> bool cat" where
  "auth_set_existing_membership_role u t r =
     cbind (cread (auth_user_has_studio u t)) (\<lambda>b. cbind (cwrite (set_role u t r)) (\<lambda>_. creturn b))"

definition auth_count_owned_teams :: "string \<Rightarrow> catalog \<Rightarrow> nat" where
  "auth_count_owned_teams u c = length (filter (\<lambda>m. mb_user m = u \<and> mb_role m = Owner) (ct_members c))"

text \<open>Demote first: the one-owner index is checked with every statement.\<close>

definition auth_transfer_ownership :: "string \<Rightarrow> string \<Rightarrow> string \<Rightarrow> unit cat" where
  "auth_transfer_ownership t from to =
     cbind (cread (\<lambda>c. auth_get_membership_role from t c = Some Owner)) (\<lambda>owner.
     cbind (cwrite (\<lambda>c. if owner then set_role from t Admin c else c)) (\<lambda>_.
     if \<not> owner then cthrow (TransferError ''ownership transfer: the source is not the owner'') else
     cbind (cread (auth_user_has_studio to t)) (\<lambda>there.
     cbind (cwrite (set_role to t Owner)) (\<lambda>_.
     if there then creturn () else cthrow (TransferError ''ownership transfer: the target is not a member'')))))"

definition demote_owners :: "string \<Rightarrow> string \<Rightarrow> catalog \<Rightarrow> catalog" where
  "demote_owners t u c = c\<lparr>ct_members := map (\<lambda>m. if mb_studio m = t \<and> mb_role m = Owner \<and> mb_user m \<noteq> u
     then m\<lparr>mb_role := Admin\<rparr> else m) (ct_members c)\<rparr>"

definition auth_set_owner :: "string \<Rightarrow> string \<Rightarrow> unit cat" where
  "auth_set_owner t u = cbind (cwrite (demote_owners t u)) (\<lambda>_. auth_upsert_membership_role u t Owner)"

definition has_owner :: "catalog \<Rightarrow> string \<Rightarrow> bool" where
  "has_owner c t \<longleftrightarrow> list_ex (\<lambda>m. mb_studio m = t \<and> mb_role m = Owner) (ct_members c)"

definition claim_studio :: "string \<Rightarrow> string \<Rightarrow> catalog \<Rightarrow> catalog" where
  "claim_studio u t c = (if auth_user_has_studio u t c then set_role u t Owner c else add_member u t Owner c)"

text \<open>One statement over every team without an owner.\<close>

definition auth_claim_ownerless_studios :: "string \<Rightarrow> string list cat" where
  "auth_claim_ownerless_studios u = cbind (cread (\<lambda>c. filter (\<lambda>t. \<not> has_owner c t) (map sd_id (ct_studios c))))
     (\<lambda>ts. cbind (cwrite (\<lambda>c. fold (claim_studio u) ts c)) (\<lambda>_. creturn ts))"

definition auth_count_enabled_admins :: "string \<Rightarrow> catalog \<Rightarrow> nat" where
  "auth_count_enabled_admins t c = length (filter (\<lambda>m. mb_studio m = t \<and> mb_role m = Admin \<and>
     auth_get_user_by_id (mb_user m) c \<noteq> None) (ct_members c))"

record team_member =
  tm_id :: string
  tm_email :: string
  tm_given :: string
  tm_family :: string
  tm_role :: role

definition role_rank :: "role \<Rightarrow> nat" where
  "role_rank r = (case r of Owner \<Rightarrow> 0 | Admin \<Rightarrow> 1 | Member \<Rightarrow> 2)"

definition auth_list_team_members :: "string \<Rightarrow> catalog \<Rightarrow> team_member list" where
  "auth_list_team_members t c = sort_key (\<lambda>m. role_rank (tm_role m)) (sort_key tm_email
     (concat (map (\<lambda>m. if mb_studio m = t then (case auth_get_user_row_any (mb_user m) c of None \<Rightarrow> []
        | Some u \<Rightarrow> [\<lparr>tm_id = us_id u, tm_email = us_email u, tm_given = us_given u, tm_family = us_family u, tm_role = mb_role m\<rparr>])
      else []) (ct_members c))))"

subsection \<open>Invites and approvals\<close>

definition invited :: "string \<Rightarrow> string \<Rightarrow> catalog \<Rightarrow> bool" where
  "invited t e c \<longleftrightarrow> list_ex (\<lambda>i. invite_key i = (t, e)) (ct_invites c)"

definition auth_upsert_invite :: "iso \<Rightarrow> string \<Rightarrow> string \<Rightarrow> string \<Rightarrow> unit cat" where
  "auth_upsert_invite now t e by' = cwrite (\<lambda>c. if invited t e c
     then c\<lparr>ct_invites := map (\<lambda>i. if invite_key i = (t, e) then i\<lparr>iv_by := by', iv_at := now\<rparr> else i) (ct_invites c)\<rparr>
     else c\<lparr>ct_invites := ct_invites c @ [\<lparr>iv_studio = t, iv_email = e, iv_by = by', iv_at = now\<rparr>]\<rparr>)"

definition auth_list_invites_for_team :: "string \<Rightarrow> catalog \<Rightarrow> invite_row list" where
  "auth_list_invites_for_team t c = sort_key iv_email (filter (\<lambda>i. iv_studio i = t) (ct_invites c))"

definition auth_count_pending_invites :: "string \<Rightarrow> catalog \<Rightarrow> nat" where
  "auth_count_pending_invites t c = length (filter (\<lambda>i. iv_studio i = t) (ct_invites c))"

definition auth_delete_invite :: "string \<Rightarrow> string \<Rightarrow> nat cat" where
  "auth_delete_invite t e = cbind (cread (\<lambda>c. length (filter (\<lambda>i. invite_key i = (t, e)) (ct_invites c))))
     (\<lambda>n. cbind (cwrite (\<lambda>c. c\<lparr>ct_invites := filter (\<lambda>i. invite_key i \<noteq> (t, e)) (ct_invites c)\<rparr>)) (\<lambda>_. creturn n))"

definition auth_consume_invites_for_email :: "string \<Rightarrow> invite_row list cat" where
  "auth_consume_invites_for_email e = cbind (cread (\<lambda>c. filter (\<lambda>i. iv_email i = e) (ct_invites c)))
     (\<lambda>rows. if rows = [] then creturn rows else
       cbind (cwrite (\<lambda>c. c\<lparr>ct_invites := filter (\<lambda>i. iv_email i \<noteq> e) (ct_invites c)\<rparr>)) (\<lambda>_. creturn rows))"

definition auth_has_usable_account_approval :: "string \<Rightarrow> iso \<Rightarrow> catalog \<Rightarrow> bool" where
  "auth_has_usable_account_approval e cutoff c \<longleftrightarrow> list_ex (\<lambda>a. ap_email a = e \<and> cutoff \<le> ap_at a) (ct_approvals c)"

definition auth_consume_account_approval :: "string \<Rightarrow> iso \<Rightarrow> bool cat" where
  "auth_consume_account_approval e cutoff = cbind (cread (auth_has_usable_account_approval e cutoff)) (\<lambda>b.
     cbind (cwrite (\<lambda>c. c\<lparr>ct_approvals := filter (\<lambda>a. \<not> (ap_email a = e \<and> cutoff \<le> ap_at a)) (ct_approvals c)\<rparr>)) (\<lambda>_. creturn b))"

subsection \<open>Show grants and the access rule\<close>

definition granted :: "string \<Rightarrow> string \<Rightarrow> catalog \<Rightarrow> bool" where
  "granted u sh c \<longleftrightarrow> list_ex (\<lambda>g. grant_key g = (u, sh)) (ct_grants c)"

definition show_access_predicate :: "member_row \<Rightarrow> show_row \<Rightarrow> catalog \<Rightarrow> bool" where
  "show_access_predicate m s c \<longleftrightarrow> mb_role m \<in> {Owner, Admin} \<or> granted (mb_user m) (sw_id s) c"

definition auth_can_access_show :: "string \<Rightarrow> string \<Rightarrow> catalog \<Rightarrow> bool" where
  "auth_can_access_show u sh c \<longleftrightarrow> list_ex (\<lambda>s. sw_id s = sh \<and>
     list_ex (\<lambda>m. member_key m = (u, sw_studio s) \<and> show_access_predicate m s c) (ct_members c)) (ct_shows c)"

definition auth_can_access_show_for_share :: "string \<Rightarrow> string \<Rightarrow> catalog \<Rightarrow> bool" where
  "auth_can_access_show_for_share u sh c = (case find (\<lambda>s. sw_id s = sh) (ct_shows c) of
     None \<Rightarrow> False
   | Some s \<Rightarrow> (case auth_get_membership_role u (sw_studio s) c of
       None \<Rightarrow> False
     | Some r \<Rightarrow> if r = Owner \<or> r = Admin then True else granted u sh c))"

definition auth_list_accessible_show_ids :: "string \<Rightarrow> catalog \<Rightarrow> string list" where
  "auth_list_accessible_show_ids u c = map sw_id (filter (\<lambda>s.
     list_ex (\<lambda>m. member_key m = (u, sw_studio s) \<and> show_access_predicate m s c) (ct_members c)) (ct_shows c))"

definition auth_list_show_grants :: "string \<Rightarrow> catalog \<Rightarrow> grant_row list" where
  "auth_list_show_grants sh c = sort_key gr_user (filter (\<lambda>g. gr_show g = sh) (ct_grants c))"

definition in_studio :: "catalog \<Rightarrow> string \<Rightarrow> string \<Rightarrow> bool" where
  "in_studio c t sh \<longleftrightarrow> list_ex (\<lambda>s. sw_id s = sh \<and> sw_studio s = t) (ct_shows c)"

definition auth_list_show_grants_in_studio :: "string \<Rightarrow> catalog \<Rightarrow> (string \<times> string) list" where
  "auth_list_show_grants_in_studio t c = sort (map grant_key (filter (\<lambda>g. in_studio c t (gr_show g)) (ct_grants c)))"

definition auth_grant_show :: "string \<Rightarrow> string \<Rightarrow> string \<Rightarrow> iso \<Rightarrow> unit cat" where
  "auth_grant_show u sh by' now = cwrite (\<lambda>c. if granted u sh c then c
     else c\<lparr>ct_grants := ct_grants c @ [\<lparr>gr_user = u, gr_show = sh, gr_by = by', gr_at = now\<rparr>]\<rparr>)"

definition auth_revoke_show :: "string \<Rightarrow> string \<Rightarrow> nat cat" where
  "auth_revoke_show u sh = cbind (cread (\<lambda>c. length (filter (\<lambda>g. grant_key g = (u, sh)) (ct_grants c))))
     (\<lambda>n. cbind (cwrite (\<lambda>c. c\<lparr>ct_grants := filter (\<lambda>g. grant_key g \<noteq> (u, sh)) (ct_grants c)\<rparr>)) (\<lambda>_. creturn n))"

definition auth_revoke_grants_in_studio :: "string \<Rightarrow> string \<Rightarrow> nat cat" where
  "auth_revoke_grants_in_studio u t =
     cbind (cread (\<lambda>c. length (filter (\<lambda>g. gr_user g = u \<and> in_studio c t (gr_show g)) (ct_grants c))))
     (\<lambda>n. cbind (cwrite (\<lambda>c. c\<lparr>ct_grants := filter (\<lambda>g. \<not> (gr_user g = u \<and> in_studio c t (gr_show g))) (ct_grants c)\<rparr>))
       (\<lambda>_. creturn n))"

definition auth_remove_membership :: "string \<Rightarrow> string \<Rightarrow> bool cat" where
  "auth_remove_membership u t = cbind (auth_revoke_grants_in_studio u t) (\<lambda>_.
     cbind (cread (auth_user_has_studio u t)) (\<lambda>b.
     cbind (cwrite (\<lambda>c. c\<lparr>ct_members := filter (\<lambda>m. member_key m \<noteq> (u, t)) (ct_members c)\<rparr>)) (\<lambda>_. creturn b)))"

end
