(* ===== verification/StudioSettings.thy ===== *)
theory StudioSettings
  imports EventRelink JsonNumber
begin

section \<open>Categories, palettes and settings\<close>

text \<open>
  packages/domain/src/studio.ts and eventMetadata.ts: the validators that turn a client's JSON into the stored
  records, and what is read from stored records. A field that is absent and one that is null are both
  \<open>JNull\<close> (the code reads every field through \<open>??\<close> or compares with both). The random ids are the argument
  \<open>fresh\<close>, one per index. Typographic quotes in messages are written as straight ones.
\<close>

subsection \<open>Reading a value\<close>

definition field_of :: "string \<Rightarrow> (string \<times> json) list \<Rightarrow> json" where
  "field_of k ps = (case map_of ps k of None \<Rightarrow> JNull | Some v \<Rightarrow> v)"

definition nullish_or :: "json \<Rightarrow> json \<Rightarrow> json" where
  "nullish_or a b = (if a = JNull then b else a)"

definition trimmed_text :: "string \<Rightarrow> json \<Rightarrow> string" where
  "trimmed_text d v = js_trim (js_string (nullish_or v (JStr d)))"

fun js_truthy :: "json \<Rightarrow> bool" where
  "js_truthy JNull \<longleftrightarrow> False"
| "js_truthy (JBool b) \<longleftrightarrow> b"
| "js_truthy (JNum x) \<longleftrightarrow> x \<noteq> 0"
| "js_truthy (JStr s) \<longleftrightarrow> s \<noteq> []"
| "js_truthy (JArr xs) \<longleftrightarrow> True"
| "js_truthy (JObj ps) \<longleftrightarrow> True"

definition color_hex :: "string \<Rightarrow> bool" where
  "color_hex s \<longleftrightarrow> length s = 7 \<and> hd s = CHR ''#'' \<and> list_all (\<lambda>c. hex_val c \<noteq> None) (tl s)"

subsection \<open>Records\<close>

datatype category_kind = Button | Dropdown | Text_kind | On_off

record option_record =
  do_label :: string
  do_context :: bool
  do_instruction :: string \<comment> \<open>empty: omitted\<close>

record category_record =
  cr_id :: string
  cr_name :: string
  cr_color :: string
  cr_kind :: category_kind
  cr_options :: "option_record list"
  cr_on :: string
  cr_off :: string
  cr_instruction :: string \<comment> \<open>empty: omitted\<close>

record settings_blob =
  sb_categories :: "category_record list"
  sb_title_format :: string
  sb_frame_rate :: num64

definition kind_text :: "category_kind \<Rightarrow> string" where
  "kind_text k = (case k of Button \<Rightarrow> ''BUTTON'' | Dropdown \<Rightarrow> ''DROPDOWN'' | Text_kind \<Rightarrow> ''TEXT'' | On_off \<Rightarrow> ''ON_OFF'')"

definition kind_from :: "string \<Rightarrow> category_kind" where
  "kind_from s = (if s = ''DROPDOWN'' then Dropdown else if s = ''TEXT'' then Text_kind else if s = ''ON_OFF'' then On_off else Button)"

definition instruction_field :: "string \<Rightarrow> (string \<times> json) list" where
  "instruction_field i = (if i = [] then [] else [(''auto_instruction'', JStr i)])"

definition option_json :: "option_record \<Rightarrow> json" where
  "option_json r = JObj ([(''label'', JStr (do_label r)), (''needs_context'', JBool (do_context r))] @ instruction_field (do_instruction r))"

definition category_json :: "category_record \<Rightarrow> json" where
  "category_json r = JObj ([(''id'', JStr (cr_id r)), (''name'', JStr (cr_name r)), (''color'', JStr (cr_color r)),
     (''type'', JStr (kind_text (cr_kind r))), (''dropdown_options'', JArr (map option_json (cr_options r))),
     (''on_label'', JStr (cr_on r)), (''off_label'', JStr (cr_off r))] @ instruction_field (cr_instruction r))"

definition settings_json :: "settings_blob \<Rightarrow> json" where
  "settings_json b = JObj [(''categories'', JArr (map category_json (sb_categories b))),
     (''show_title_format'', JStr (sb_title_format b)), (''default_frame_rate'', JNum (sb_frame_rate b))]"

subsection \<open>The validators\<close>

definition quoted :: "string \<Rightarrow> string" where
  "quoted s = quote_char # s @ [quote_char]"

definition normalize_dropdown_option_entry :: "string \<Rightarrow> nat \<Rightarrow> json \<Rightarrow> string + option_record" where
  "normalize_dropdown_option_entry name idx item =
     (let where' = ''Category '' @ quoted name @ '': dropdown option '' @ nat_digits (idx + 1);
          entry = (\<lambda>ps. let lab = js_trim (js_string (nullish_or (field_of ''label'' ps) (nullish_or (field_of ''name'' ps) (JStr [])))) in
            if lab = [] then Inl (where' @ '' needs a label.'') else
            Inr \<lparr>do_label = lab, do_context = js_truthy (field_of ''needs_context'' ps),
              do_instruction = trimmed_text [] (field_of ''auto_instruction'' ps)\<rparr>)
      in case item of
        JStr s \<Rightarrow> if js_trim s = [] then Inl (where' @ '' is empty.'')
          else Inr \<lparr>do_label = js_trim s, do_context = False, do_instruction = []\<rparr>
      | JObj ps \<Rightarrow> entry ps
      | JArr xs \<Rightarrow> entry []
      | _ \<Rightarrow> Inl (where' @ '' is invalid.''))"

fun dropdown_options_from :: "string \<Rightarrow> nat \<Rightarrow> json list \<Rightarrow> string + option_record list" where
  "dropdown_options_from name j [] = Inr []"
| "dropdown_options_from name j (x # xs) = (case normalize_dropdown_option_entry name j x of
     Inl e \<Rightarrow> Inl e
   | Inr r \<Rightarrow>
     if 200 < length (do_label r) then Inl ''Dropdown option text is too long.'' else
     if 2000 < length (do_instruction r) then Inl ''Dropdown option instruction is too long.'' else
     (case dropdown_options_from name (Suc j) xs of Inl e \<Rightarrow> Inl e | Inr rs \<Rightarrow> Inr (r # rs)))"

definition category_kind_of :: "json \<Rightarrow> category_kind" where
  "category_kind_of raw = (if raw = JNull \<or> (case raw of JStr s \<Rightarrow> js_trim s = [] | _ \<Rightarrow> False) then Button
     else kind_from (js_trim (js_upper (js_string raw))))"

text \<open>The options and the two labels of a category of a kind.\<close>

definition category_parts :: "string \<Rightarrow> category_kind \<Rightarrow> (string \<times> json) list \<Rightarrow> string + option_record list \<times> string \<times> string" where
  "category_parts name kind ps = (case kind of
     Dropdown \<Rightarrow> (case nullish_or (field_of ''dropdown_options'' ps) (JArr []) of
         JArr xs \<Rightarrow> (case dropdown_options_from name 0 xs of Inl e \<Rightarrow> Inl e
           | Inr rs \<Rightarrow> if length rs < 2 then Inl (''Category '' @ quoted name @ '': DROPDOWN needs at least two options.'') else Inr (rs, [], []))
       | _ \<Rightarrow> Inl (''Category '' @ quoted name @ '': dropdown needs a list of options.''))
   | On_off \<Rightarrow> (let a = trimmed_text [] (field_of ''on_label'' ps); b = trimmed_text [] (field_of ''off_label'' ps) in
       if a = [] \<or> b = [] then Inl (''Category '' @ quoted name @ '': ON / OFF needs both ON and OFF labels.'') else
       if 200 < length a \<or> 200 < length b then Inl ''ON / OFF label text is too long.'' else Inr ([], a, b))
   | _ \<Rightarrow> Inr ([], [], []))"

definition validate_category :: "string \<Rightarrow> nat \<Rightarrow> string set \<Rightarrow> json \<Rightarrow> string + category_record" where
  "validate_category new_id i seen c = (case c of
     JObj ps \<Rightarrow>
     (let raw = trimmed_text [] (field_of ''id'' ps); cid = (if raw = [] then new_id else raw) in
      if cid \<in> seen then Inl ''Duplicate category id.'' else
      let name = trimmed_text [] (field_of ''name'' ps) in
      if name = [] then Inl ''Each category needs a name.'' else
      if 200 < length name then Inl ''Category name is too long.'' else
      let color = trimmed_text ''#7cb7ff'' (field_of ''color'' ps) in
      if \<not> color_hex color then Inl (''Category '' @ quoted name @ '': color must be #RRGGBB.'') else
      let kind = category_kind_of (field_of ''type'' ps) in
      case category_parts name kind ps of Inl e \<Rightarrow> Inl e | Inr (opts, on, off) \<Rightarrow>
      let instr = (if kind = On_off then [] else trimmed_text [] (field_of ''auto_instruction'' ps)) in
      if 2000 < length instr then Inl ''Category instruction is too long.'' else
      Inr \<lparr>cr_id = cid, cr_name = name, cr_color = color, cr_kind = kind, cr_options = opts, cr_on = on, cr_off = off,
        cr_instruction = instr\<rparr>)
   | _ \<Rightarrow> Inl (''Category '' @ nat_digits (i + 1) @ '' is invalid.''))"

fun categories_from :: "(nat \<Rightarrow> string) \<Rightarrow> nat \<Rightarrow> string set \<Rightarrow> json list \<Rightarrow> string + category_record list" where
  "categories_from fresh i seen [] = Inr []"
| "categories_from fresh i seen (c # cs) = (case validate_category (fresh i) i seen c of
     Inl e \<Rightarrow> Inl e
   | Inr r \<Rightarrow> (case categories_from fresh (Suc i) (insert (cr_id r) seen) cs of Inl e \<Rightarrow> Inl e | Inr rs \<Rightarrow> Inr (r # rs)))"

definition validate_categories_list :: "(nat \<Rightarrow> string) \<Rightarrow> json \<Rightarrow> string + category_record list" where
  "validate_categories_list fresh raw = (case raw of
     JArr cs \<Rightarrow> if cs = [] then Inl ''Add at least one log category.'' else categories_from fresh 0 {} cs
   | _ \<Rightarrow> Inl ''Add at least one log category.'')"

definition validate_settings_blob :: "(nat \<Rightarrow> string) \<Rightarrow> bool \<Rightarrow> (string \<times> json) list \<Rightarrow> string + settings_blob" where
  "validate_settings_blob fresh known blob =
     (if \<not> known then Inl ''Unknown studio id.'' else
      case validate_categories_list fresh (field_of ''categories'' blob) of Inl e \<Rightarrow> Inl e | Inr cats \<Rightarrow>
      let title = trimmed_text [] (field_of ''show_title_format'' blob) in
      if 500 < length title then Inl ''Show title format is too long.'' else
      case js_number (nullish_or (field_of ''default_frame_rate'' blob) (JNum 24)) of
        None \<Rightarrow> Inl ''Frame rate must be a number.''
      | Some r \<Rightarrow> if r < 1 \<or> 120 < r then Inl ''Frame rate must be between 1 and 120.''
          else Inr \<lparr>sb_categories = cats, sb_title_format = title, sb_frame_rate = r\<rparr>)"

definition fresh_category_ids :: "(nat \<Rightarrow> string) \<Rightarrow> category_record list \<Rightarrow> category_record list" where
  "fresh_category_ids fresh cs = map (\<lambda>(i, c). c\<lparr>cr_id := fresh i\<rparr>) (zip [0..<length cs] cs)"

definition default_categories_for_new_studio :: "(nat \<Rightarrow> string) \<Rightarrow> category_record list" where
  "default_categories_for_new_studio fresh =
     [\<lparr>cr_id = fresh 0, cr_name = ''Scene'', cr_color = ''#4a9fd4'', cr_kind = Button, cr_options = [], cr_on = [], cr_off = [], cr_instruction = []\<rparr>,
      \<lparr>cr_id = fresh 1, cr_name = ''Audio issue'', cr_color = ''#a86bdc'', cr_kind = Dropdown,
        cr_options = [\<lparr>do_label = ''Lav'', do_context = False, do_instruction = []\<rparr>, \<lparr>do_label = ''Boom'', do_context = False, do_instruction = []\<rparr>],
        cr_on = [], cr_off = [], cr_instruction = []\<rparr>,
      \<lparr>cr_id = fresh 2, cr_name = ''Note'', cr_color = ''#6bcf7a'', cr_kind = Text_kind, cr_options = [], cr_on = [], cr_off = [], cr_instruction = []\<rparr>]"

definition default_settings_blob :: "(nat \<Rightarrow> string) \<Rightarrow> settings_blob" where
  "default_settings_blob fresh = \<lparr>sb_categories = default_categories_for_new_studio fresh, sb_title_format = [], sb_frame_rate = 24\<rparr>"

subsection \<open>Palettes\<close>

definition default_event_palette :: "string list" where
  "default_event_palette = [''#64748b'', ''#e53935'', ''#fb8c00'', ''#fdd835'', ''#43a047'', ''#00acc1'', ''#1e88e5'', ''#8e24aa'', ''#ec407a'']"

fun palette_colors :: "nat \<Rightarrow> json list \<Rightarrow> string + string list" where
  "palette_colors i [] = Inr []"
| "palette_colors i (x # xs) = (let hx = js_trim (js_string x) in
     if \<not> color_hex hx then Inl (''Event palette color '' @ nat_digits (i + 1) @ '' must be #RRGGBB.'') else
     case palette_colors (Suc i) xs of Inl e \<Rightarrow> Inl e | Inr cs \<Rightarrow> Inr (js_lower hx # cs))"

definition validate_event_palette :: "json \<Rightarrow> string + string list" where
  "validate_event_palette raw = (case raw of
     JNull \<Rightarrow> Inr default_event_palette
   | JArr xs \<Rightarrow> (case palette_colors 0 (take 9 xs) of Inl e \<Rightarrow> Inl e | Inr cs \<Rightarrow> Inr (if cs = [] then default_event_palette else cs))
   | _ \<Rightarrow> Inl ''Event palette must be a list of colors.'')"

definition normalize_event_palette_nine :: "json \<Rightarrow> string + string list" where
  "normalize_event_palette_nine raw = (case validate_event_palette raw of Inl e \<Rightarrow> Inl e
     | Inr base \<Rightarrow> let out = take 9 base in Inr (take 9 (out @ take (9 - length out) default_event_palette)))"

definition validate_event_palette_preset :: "json \<Rightarrow> string" where
  "validate_event_palette_preset raw = (let v = js_lower (trimmed_text ''custom'' raw) in
     if v \<in> {''custom'', ''default'', ''neon'', ''desert'', ''aqua''} then v else ''custom'')"

fun palette_from :: "category_record list \<Rightarrow> string list \<Rightarrow> string list" where
  "palette_from [] acc = acc"
| "palette_from (c # cs) acc = (let col = js_trim (cr_color c); acc' = (if col \<noteq> [] \<and> col \<notin> set acc then acc @ [col] else acc) in
     if 9 \<le> length acc' then acc' else palette_from cs acc')"

definition palette_from_categories :: "category_record list \<Rightarrow> string list" where
  "palette_from_categories cs = (let p = palette_from (take 20 cs) [] in take 9 (p @ replicate (9 - length p) ''#64748b''))"

subsection \<open>Profiles, show codes and what a category asks for\<close>

record category_def =
  cd_id :: string
  cd_label :: string
  cd_color :: string
  cd_kind :: category_kind
  cd_options :: "string list"
  cd_on :: string
  cd_off :: string

record studio_profile =
  sp_id :: string
  sp_name :: string
  sp_categories :: "category_def list"
  sp_title_format :: string
  sp_frame_rate :: "num64 option" \<comment> \<open>None: NaN\<close>

definition option_text :: "json \<Rightarrow> string" where
  "option_text x = (case x of
     JObj ps \<Rightarrow> trimmed_text [] (field_of ''label'' ps)
   | JArr xs \<Rightarrow> []
   | _ \<Rightarrow> js_trim (js_string x))"

definition category_def_of :: "(string \<times> json) list \<Rightarrow> category_def" where
  "category_def_of ps =
     (let opts = (case field_of ''dropdown_options'' ps of JArr xs \<Rightarrow> xs | _ \<Rightarrow> []);
          text = (\<lambda>k d. js_string (nullish_or (field_of k ps) (JStr d)));
          kind = kind_from (js_upper (text ''type'' ''BUTTON''))
      in \<lparr>cd_id = text ''id'' [], cd_label = text ''name'' ''-'', cd_color = text ''color'' ''#7cb7ff'', cd_kind = kind,
        cd_options = filter (\<lambda>t. t \<noteq> []) (map option_text opts),
        cd_on = (if kind = On_off then text ''on_label'' [] else []),
        cd_off = (if kind = On_off then text ''off_label'' [] else [])\<rparr>)"

definition category_defs :: "json list \<Rightarrow> category_def list" where
  "category_defs cs = List.map_filter (\<lambda>c. case c of JObj ps \<Rightarrow> Some (category_def_of ps) | JArr xs \<Rightarrow> Some (category_def_of []) | _ \<Rightarrow> None) cs"

definition blob_to_profile :: "string \<Rightarrow> string \<Rightarrow> json list \<Rightarrow> (string \<times> json) list \<Rightarrow> studio_profile" where
  "blob_to_profile sid name cats blob =
     \<lparr>sp_id = sid, sp_name = name, sp_categories = category_defs cats,
      sp_title_format = js_string (nullish_or (field_of ''show_title_format'' blob) (JStr [])),
      sp_frame_rate = js_number (nullish_or (field_of ''default_frame_rate'' blob) (JNum 24))\<rparr>"

definition is_alnum :: "char \<Rightarrow> bool" where
  "is_alnum c \<longleftrightarrow> (let n = (of_char c :: nat) in (65 \<le> n \<and> n \<le> 90) \<or> (97 \<le> n \<and> n \<le> 122) \<or> (48 \<le> n \<and> n \<le> 57))"

text \<open>The first letters of the maximal runs of letters and digits; the flag says that a run is open.\<close>

fun word_initials :: "bool \<Rightarrow> string \<Rightarrow> string" where
  "word_initials inside [] = []"
| "word_initials inside (c # cs) = (if is_alnum c then (if inside then [] else [upper_char c]) @ word_initials True cs
     else word_initials False cs)"

definition suggested_show_code :: "string \<Rightarrow> string" where
  "suggested_show_code name = (let frag = take 12 (word_initials False (js_trim name)) in if frag = [] then ''SHOW'' else frag)"

definition new_session_title_prefix :: "string \<Rightarrow> string" where
  "new_session_title_prefix fmt = (if js_trim fmt = [] then ''Episode '' else js_trim fmt @ '' - Episode '')"

text \<open>A non-blank string instruction of an object.\<close>

definition has_instruction :: "(string \<times> json) list \<Rightarrow> bool" where
  "has_instruction ps \<longleftrightarrow> (case field_of ''auto_instruction'' ps of JStr s \<Rightarrow> js_trim s \<noteq> [] | _ \<Rightarrow> False)"

definition category_is_instruction_bearing :: "json \<Rightarrow> bool" where
  "category_is_instruction_bearing cat = (case cat of
     JObj ps \<Rightarrow>
     (let ty = js_trim (js_upper (js_string (nullish_or (field_of ''type'' ps) (JStr [])))) in
      if ty = ''ON_OFF'' then False else if has_instruction ps then True else if ty \<noteq> ''DROPDOWN'' then False else
      list_ex (\<lambda>x. case x of JObj qs \<Rightarrow> has_instruction qs | _ \<Rightarrow> False)
        (case field_of ''dropdown_options'' ps of JArr xs \<Rightarrow> xs | _ \<Rightarrow> []))
   | _ \<Rightarrow> False)"

subsection \<open>Events with their label and color\<close>

definition is_auto_generated_metadata_json :: "string \<Rightarrow> bool" where
  "is_auto_generated_metadata_json t = (case json_parse (if t = [] then ''{}'' else t) of
     Some (JObj ps) \<Rightarrow> field_of ''auto_generated'' ps = JBool True | _ \<Rightarrow> False)"

definition normal_color :: "string \<Rightarrow> string" where
  "normal_color c = (let hx = js_trim c in if color_hex hx then js_lower hx else hx)"

definition merge_category_ui_snapshots :: "(string \<times> json) list \<Rightarrow> category_def option \<Rightarrow> (string \<times> json) list" where
  "merge_category_ui_snapshots meta cat = (case cat of None \<Rightarrow> meta
     | Some c \<Rightarrow> AList.update ui_snapshot_color_key (JStr (normal_color (cd_color c)))
         (AList.update ui_snapshot_label_key (JStr (cd_label c)) meta))"

definition strip_category_ui_snapshots :: "(string \<times> json) list \<Rightarrow> (string \<times> json) list" where
  "strip_category_ui_snapshots meta = AList.delete ui_snapshot_color_key (AList.delete ui_snapshot_label_key meta)"

definition session_deck_display_title :: "string option \<Rightarrow> string" where
  "session_deck_display_title t = (let s = js_trim (case t of None \<Rightarrow> [] | Some s \<Rightarrow> s) in if s = [] then ''-'' else s)"

text \<open>The parsed metadata of an event: any object or array, and the empty object for other texts.\<close>

definition event_metadata :: "string \<Rightarrow> json" where
  "event_metadata t = (case json_parse (if t = [] then ''{}'' else t) of
     Some (JObj ps) \<Rightarrow> JObj ps | Some (JArr xs) \<Rightarrow> JArr xs | _ \<Rightarrow> JObj [])"

definition metadata_field :: "string \<Rightarrow> json \<Rightarrow> json" where
  "metadata_field k m = (case m of JObj ps \<Rightarrow> field_of k ps | _ \<Rightarrow> JNull)"

record enriched_event =
  ee_metadata :: json
  ee_label :: string
  ee_color :: "string option"

definition enrich_event :: "category_def list \<Rightarrow> event_row \<Rightarrow> enriched_event" where
  "enrich_event cats r =
     (let meta = event_metadata (ev_metadata r) in
      if js_lower (ev_category r) = ''internal'' then \<lparr>ee_metadata = meta, ee_label = ''Internal'', ee_color = Some ''var(--muted)''\<rparr> else
      case find (\<lambda>c. cd_id c = ev_category r) cats of
        Some c \<Rightarrow> \<lparr>ee_metadata = meta, ee_label = cd_label c, ee_color = Some (cd_color c)\<rparr>
      | None \<Rightarrow>
        (let lab = trimmed_text [] (metadata_field ui_snapshot_label_key meta);
             col = (case metadata_field ui_snapshot_color_key meta of
               JStr s \<Rightarrow> if color_hex (js_trim s) then Some (js_lower (js_trim s)) else None | _ \<Rightarrow> None)
         in \<lparr>ee_metadata = meta, ee_label = (if lab = [] then ev_category r else lab), ee_color = col\<rparr>))"

subsection \<open>What the validators accept\<close>

definition trimmed :: "string \<Rightarrow> bool" where
  "trimmed s \<longleftrightarrow> js_trim s = s"

definition option_ok :: "option_record \<Rightarrow> bool" where
  "option_ok r \<longleftrightarrow> trimmed (do_label r) \<and> do_label r \<noteq> [] \<and> length (do_label r) \<le> 200 \<and>
     trimmed (do_instruction r) \<and> length (do_instruction r) \<le> 2000"

definition parts_ok :: "category_record \<Rightarrow> bool" where
  "parts_ok r \<longleftrightarrow> (case cr_kind r of
     Dropdown \<Rightarrow> list_all option_ok (cr_options r) \<and> 2 \<le> length (cr_options r) \<and> cr_on r = [] \<and> cr_off r = []
   | On_off \<Rightarrow> cr_options r = [] \<and> trimmed (cr_on r) \<and> cr_on r \<noteq> [] \<and> length (cr_on r) \<le> 200 \<and>
       trimmed (cr_off r) \<and> cr_off r \<noteq> [] \<and> length (cr_off r) \<le> 200 \<and> cr_instruction r = []
   | _ \<Rightarrow> cr_options r = [] \<and> cr_on r = [] \<and> cr_off r = [])"

definition category_ok :: "category_record \<Rightarrow> bool" where
  "category_ok r \<longleftrightarrow> trimmed (cr_id r) \<and> cr_id r \<noteq> [] \<and> trimmed (cr_name r) \<and> cr_name r \<noteq> [] \<and> length (cr_name r) \<le> 200 \<and>
     trimmed (cr_color r) \<and> color_hex (cr_color r) \<and> trimmed (cr_instruction r) \<and> length (cr_instruction r) \<le> 2000 \<and> parts_ok r"

lemma trimmed_trim [simp]: "trimmed (js_trim s)"
  by (simp add: trimmed_def)

lemma trimmed_Nil [simp]: "trimmed []"
  by (simp add: trimmed_def js_trim_def)

lemma trimmed_text_trimmed [simp]: "trimmed (trimmed_text d v)"
  by (simp add: trimmed_text_def)

lemma trimmed_text_str [simp]: "trimmed_text d (JStr s) = js_trim s"
  by (simp add: trimmed_text_def nullish_or_def)

lemma field_of_simps [simp]:
  "field_of k [] = JNull" "field_of k ((k', v) # ps) = (if k = k' then v else field_of k ps)"
  by (auto simp: field_of_def)

lemma kind_from_text [simp]: "category_kind_of (JStr (kind_text k)) = k"
  by (induction k; code_simp)

lemma normalize_entry_ok:
  "normalize_dropdown_option_entry name j x = Inr r \<Longrightarrow> trimmed (do_label r) \<and> do_label r \<noteq> [] \<and> trimmed (do_instruction r)"
  by (cases x) (auto simp: normalize_dropdown_option_entry_def Let_def split: if_splits)

lemma dropdown_options_ok: "dropdown_options_from name j xs = Inr rs \<Longrightarrow> list_all option_ok rs"
  by (induction xs arbitrary: j rs)
    (auto simp: option_ok_def dest: normalize_entry_ok split: sum.splits if_splits)

lemma normalize_entry_json:
  "option_ok r \<Longrightarrow> normalize_dropdown_option_entry name j (option_json r) = Inr r"
  by (cases "do_instruction r = []")
    (auto simp: normalize_dropdown_option_entry_def option_json_def instruction_field_def option_ok_def trimmed_def nullish_or_def Let_def
      trimmed_text_def js_trim_def [of "[]"])

lemma dropdown_options_json:
  "list_all option_ok rs \<Longrightarrow> dropdown_options_from name j (map option_json rs) = Inr rs"
  by (induction rs arbitrary: j) (auto simp: normalize_entry_json option_ok_def)

lemma category_parts_ok:
  assumes "category_parts name (cr_kind r) ps = Inr (cr_options r, cr_on r, cr_off r)"
    and "cr_kind r = On_off \<Longrightarrow> cr_instruction r = []"
  shows "parts_ok r"
  using assms trimmed_text_trimmed [of "[]" "field_of ''on_label'' ps"] trimmed_text_trimmed [of "[]" "field_of ''off_label'' ps"]
  by (cases "cr_kind r")
    (auto simp: category_parts_def parts_ok_def Let_def simp del: trimmed_text_trimmed
      dest: dropdown_options_ok split: json.splits sum.splits if_splits)

lemma validate_category_ok:
  assumes "validate_category new_id i seen c = Inr r" "trimmed new_id" "new_id \<noteq> []"
  shows "category_ok r \<and> cr_id r \<notin> seen"
proof -
  obtain ps where c: "c = JObj ps"
    using assms(1) by (cases c) (auto simp: validate_category_def)
  let ?kind = "category_kind_of (field_of ''type'' ps)"
  obtain opts on off where p: "category_parts (trimmed_text [] (field_of ''name'' ps)) ?kind ps = Inr (opts, on, off)"
    using assms(1) by (cases "category_parts (trimmed_text [] (field_of ''name'' ps)) ?kind ps")
      (auto simp: validate_category_def c Let_def split: if_splits)
  have r: "cr_options r = opts" "cr_on r = on" "cr_off r = off" "cr_kind r = ?kind" "?kind = On_off \<Longrightarrow> cr_instruction r = []"
    using assms(1) by (auto simp: validate_category_def c p Let_def split: if_splits sum.splits prod.splits)
  have "parts_ok r"
    using p r by (intro category_parts_ok) auto
  then show ?thesis
    using assms by (auto simp: validate_category_def c p Let_def category_ok_def split: if_splits)
qed

lemma category_parts_json:
  assumes "parts_ok r"
  shows "category_parts name (cr_kind r) ([(''id'', a), (''name'', b), (''color'', c), (''type'', d),
     (''dropdown_options'', JArr (map option_json (cr_options r))), (''on_label'', JStr (cr_on r)), (''off_label'', JStr (cr_off r))] @ rest) =
     Inr (cr_options r, cr_on r, cr_off r)"
  using assms by (cases "cr_kind r")
    (auto simp: category_parts_def parts_ok_def nullish_or_def dropdown_options_json trimmed_def Let_def)

lemma validate_category_json:
  assumes "category_ok r" "cr_id r \<notin> seen"
  shows "validate_category new_id i seen (category_json r) = Inr r"
proof -
  have p: "parts_ok r" and ok: "js_trim (cr_id r) = cr_id r" "cr_id r \<noteq> []" "js_trim (cr_name r) = cr_name r" "cr_name r \<noteq> []"
    "length (cr_name r) \<le> 200" "js_trim (cr_color r) = cr_color r" "color_hex (cr_color r)"
    "js_trim (cr_instruction r) = cr_instruction r" "length (cr_instruction r) \<le> 2000"
    using assms(1) by (auto simp: category_ok_def trimmed_def)
  have i: "trimmed_text [] (field_of ''auto_instruction'' (instruction_field (cr_instruction r))) = cr_instruction r"
    using ok by (auto simp: instruction_field_def trimmed_text_def nullish_or_def js_trim_def [of "[]"])
  have o: "cr_kind r = On_off \<longrightarrow> cr_instruction r = []"
    using p by (auto simp: parts_ok_def)
  show ?thesis
    using ok assms(2) i o category_parts_json [OF p, of "cr_name r", simplified]
    by (simp add: validate_category_def category_json_def Let_def not_less)
qed

lemma categories_from_ok:
  assumes "categories_from fresh i seen cs = Inr rs" "\<And>j. trimmed (fresh j) \<and> fresh j \<noteq> []"
  shows "list_all category_ok rs \<and> distinct (map cr_id rs) \<and> cr_id ` set rs \<inter> seen = {}"
  using assms(1)
proof (induction cs arbitrary: i seen rs)
  case (Cons c cs)
  then obtain r rs' where r: "validate_category (fresh i) i seen c = Inr r" "categories_from fresh (Suc i) (insert (cr_id r) seen) cs = Inr rs'"
    "rs = r # rs'"
    by (auto split: sum.splits)
  from Cons.IH [OF r(2)] validate_category_ok [OF r(1)] assms(2) [of i] r(3) show ?case by auto
qed simp

lemma categories_from_json:
  "list_all category_ok rs \<Longrightarrow> distinct (map cr_id rs) \<Longrightarrow> cr_id ` set rs \<inter> seen = {} \<Longrightarrow>
   categories_from fresh i seen (map category_json rs) = Inr rs"
  by (induction rs arbitrary: i seen) (auto simp: validate_category_json)

lemma validated_categories_fixed:
  assumes "validate_categories_list fresh raw = Inr rs" "\<And>j. trimmed (fresh j) \<and> fresh j \<noteq> []"
  shows "validate_categories_list fresh' (JArr (map category_json rs)) = Inr rs"
proof -
  obtain cs where cs: "cs \<noteq> []" "categories_from fresh 0 {} cs = Inr rs"
    using assms(1) by (auto simp: validate_categories_list_def split: json.splits if_splits)
  from cs have "rs \<noteq> []" by (cases cs) (auto split: sum.splits)
  moreover have "categories_from fresh' 0 {} (map category_json rs) = Inr rs"
    using categories_from_ok [OF cs(2) assms(2)] by (intro categories_from_json) auto
  ultimately show ?thesis by (simp add: validate_categories_list_def)
qed

subsection \<open>Saving, loading and showing the settings\<close>

text \<open>What a client sees of a stored category.\<close>

definition shown_category :: "category_record \<Rightarrow> category_def" where
  "shown_category r = \<lparr>cd_id = cr_id r, cd_label = cr_name r, cd_color = cr_color r, cd_kind = cr_kind r,
     cd_options = map do_label (cr_options r), cd_on = cr_on r, cd_off = cr_off r\<rparr>"

lemma settings_fields:
  assumes "validate_settings_blob fresh True ps = Inr b"
  shows "validate_categories_list fresh (field_of ''categories'' ps) = Inr (sb_categories b)"
    and "trimmed (sb_title_format b)" "length (sb_title_format b) \<le> 500"
    and "finite64 (sb_frame_rate b) = Some (sb_frame_rate b)" "1 \<le> sb_frame_rate b" "sb_frame_rate b \<le> 120"
proof -
  have fin: "finite64 x = Some x" if "1 \<le> x" "x \<le> 120" for x
    using that by (auto simp: finite64_def)
  show "validate_categories_list fresh (field_of ''categories'' ps) = Inr (sb_categories b)"
    and "trimmed (sb_title_format b)" "length (sb_title_format b) \<le> 500"
    and "finite64 (sb_frame_rate b) = Some (sb_frame_rate b)" "1 \<le> sb_frame_rate b" "sb_frame_rate b \<le> 120"
    using assms fin by (auto simp: validate_settings_blob_def Let_def not_less split: sum.splits option.splits if_splits)
qed

lemma not_array_index: "\<exists>c\<in>set k. \<not> is_digit c \<Longrightarrow> \<not> array_index k"
  by (auto simp: array_index_def list_all_iff)

lemma category_json_ok: "json_ok (category_json r)"
proof -
  have "json_ok (option_json q)" for q
    by (auto simp: option_json_def instruction_field_def is_digit_def intro!: not_array_index)
  then show ?thesis
    by (auto simp: category_json_def instruction_field_def list_all_iff is_digit_def intro!: not_array_index)
qed

lemma settings_json_ok:
  assumes "of_int \<lfloor>sb_frame_rate b\<rfloor> = sb_frame_rate b" "1 \<le> sb_frame_rate b" "sb_frame_rate b \<le> 120"
  shows "json_ok (settings_json b)"
  using assms category_json_ok by (auto simp: settings_json_def list_all_iff is_digit_def intro!: not_array_index)

lemma shown_option: "option_ok r \<Longrightarrow> option_text (option_json r) = do_label r"
  by (simp add: option_text_def option_json_def option_ok_def trimmed_def)

lemma shown_kind: "kind_from (js_upper (kind_text k)) = k"
  by (induction k; code_simp)

lemma shown_options:
  "list_all option_ok rs \<Longrightarrow> filter (\<lambda>t. t \<noteq> []) (map option_text (map option_json rs)) = map do_label rs"
  by (induction rs) (auto simp: shown_option option_ok_def)

lemma shown_category_json:
  assumes "category_ok r"
  shows "(case category_json r of JObj ps \<Rightarrow> Some (category_def_of ps) | JArr xs \<Rightarrow> Some (category_def_of []) | _ \<Rightarrow> None) =
    Some (shown_category r)"
proof -
  have "list_all option_ok (cr_options r)" "cr_kind r \<noteq> On_off \<longrightarrow> cr_on r = [] \<and> cr_off r = []"
    using assms by (cases "cr_kind r"; simp add: category_ok_def parts_ok_def)+
  then show ?thesis
    by (simp add: category_json_def category_def_of_def shown_category_def nullish_or_def shown_kind shown_options [simplified] Let_def)
qed

lemma shown_categories:
  "list_all category_ok rs \<Longrightarrow> category_defs (map category_json rs) = map shown_category rs"
  unfolding category_defs_def by (induction rs) (auto simp: List.map_filter_simps shown_category_json)

definition sample_settings :: "(string \<times> json) list" where
  "sample_settings = [(''categories'', JArr [
      JObj [(''name'', JStr '' Scene ''), (''auto_instruction'', JStr ''mark scene changes'')],
      JObj [(''id'', JStr ''c2''), (''name'', JStr ''Issue''), (''color'', JStr ''#A86BDC''), (''type'', JStr ''dropdown''),
        (''dropdown_options'', JArr [JStr ''Lav'', JObj [(''label'', JStr ''Boom ''), (''needs_context'', JBool True)]])],
      JObj [(''id'', JStr ''c3''), (''name'', JStr ''Tape''), (''type'', JStr ''ON_OFF''), (''on_label'', JStr ''On''), (''off_label'', JStr ''Off'')]]),
    (''default_frame_rate'', JNum 25)]"

definition sample_blob :: settings_blob where
  "sample_blob = \<lparr>sb_categories =
      [\<lparr>cr_id = ''x'', cr_name = ''Scene'', cr_color = ''#7cb7ff'', cr_kind = Button, cr_options = [], cr_on = [], cr_off = [],
         cr_instruction = ''mark scene changes''\<rparr>,
       \<lparr>cr_id = ''c2'', cr_name = ''Issue'', cr_color = ''#A86BDC'', cr_kind = Dropdown,
         cr_options = [\<lparr>do_label = ''Lav'', do_context = False, do_instruction = []\<rparr>, \<lparr>do_label = ''Boom'', do_context = True, do_instruction = []\<rparr>],
         cr_on = [], cr_off = [], cr_instruction = []\<rparr>,
       \<lparr>cr_id = ''c3'', cr_name = ''Tape'', cr_color = ''#7cb7ff'', cr_kind = On_off, cr_options = [], cr_on = ''On'', cr_off = ''Off'',
         cr_instruction = []\<rparr>],
     sb_title_format = [], sb_frame_rate = 25\<rparr>"

lemma sample_categories:
  "validate_categories_list (\<lambda>_. ''x'') (field_of ''categories'' sample_settings) = Inr (sb_categories sample_blob)"
  by code_simp

lemma sample_validated: "validate_settings_blob (\<lambda>_. ''x'') True sample_settings = Inr sample_blob"
  using sample_categories
  by (simp add: validate_settings_blob_def sample_settings_def sample_blob_def nullish_or_def finite64_def trimmed_text_def js_trim_def Let_def)

text \<open>A validated category asks for generated events exactly when it or, in a dropdown, one of its options has an
  instruction.\<close>

lemma instruction_bearing_validated:
  assumes "category_ok r"
  shows "category_is_instruction_bearing (category_json r) \<longleftrightarrow>
    cr_instruction r \<noteq> [] \<or> (\<exists>q\<in>set (cr_options r). do_instruction q \<noteq> [])"
proof -
  have t: "js_trim (js_upper (kind_text k)) = kind_text k" for k
    by (induction k; code_simp)
  have k: "kind_text k = ''ON_OFF'' \<longleftrightarrow> k = On_off" "kind_text k = ''DROPDOWN'' \<longleftrightarrow> k = Dropdown" for k
    by (cases k; simp add: kind_text_def)+
  have o: "(case option_json q of JObj qs \<Rightarrow> has_instruction qs | _ \<Rightarrow> False) \<longleftrightarrow> do_instruction q \<noteq> []" if "trimmed (do_instruction q)" for q
    using that by (auto simp: option_json_def has_instruction_def instruction_field_def trimmed_def)
  have e: "\<And>q. q \<in> set (cr_options r) \<Longrightarrow> trimmed (do_instruction q)" "cr_kind r \<noteq> Dropdown \<longrightarrow> cr_options r = []"
      "cr_kind r = On_off \<longrightarrow> cr_instruction r = []" "trimmed (cr_instruction r)"
    using assms by (cases "cr_kind r"; auto simp: category_ok_def parts_ok_def option_ok_def list_all_iff)+
  have c: "has_instruction ([(''id'', a), (''name'', b), (''color'', c), (''type'', d), (''dropdown_options'', f), (''on_label'', g),
      (''off_label'', h)] @ instruction_field (cr_instruction r)) \<longleftrightarrow> cr_instruction r \<noteq> []" for a b c d f g h
    using e(4) by (auto simp: has_instruction_def instruction_field_def trimmed_def)
  show ?thesis
    using e o c [simplified]
    by (auto simp: category_is_instruction_bearing_def category_json_def nullish_or_def t k list_ex_iff Let_def)
qed

subsection \<open>The nine colors of a show\<close>

definition palette_color :: "string \<Rightarrow> bool" where
  "palette_color c \<longleftrightarrow> color_hex c \<and> js_lower c = c"

lemma lower_hex: "hex_val c \<noteq> None \<Longrightarrow> hex_val (lower_char c) \<noteq> None"
  by (auto simp: hex_val_def lower_char_def Let_def split: if_splits)

lemma palette_color_lower: "color_hex c \<Longrightarrow> palette_color (js_lower c)"
proof -
  assume c: "color_hex c"
  then obtain d ds where d: "c = d # ds" by (cases c) (auto simp: color_hex_def)
  have "lower_char (CHR ''#'') = CHR ''#''" by (simp add: lower_char_def)
  with c d lower_hex show ?thesis
    by (auto simp: palette_color_def color_hex_def js_lower_def list_all_iff)
qed

lemma color_trim: "color_hex c \<Longrightarrow> js_trim c = c"
proof -
  assume c: "color_hex c"
  then have n: "c \<noteq> []" "last c \<in> set (tl c)" by (cases c; auto simp: color_hex_def)+
  have "\<not> is_space x" if "hex_val x \<noteq> None" for x
    using that by (auto simp: hex_val_def is_space_def split: if_splits)
  then have "\<not> is_space (last c)" "\<not> is_space (hd c)"
    using c n by (auto simp: color_hex_def list_all_iff is_space_def)
  with n show ?thesis by (intro js_trim_id) auto
qed

lemma palette_colors_ok: "palette_colors i xs = Inr cs \<Longrightarrow> list_all palette_color cs \<and> length cs = length xs"
  by (induction xs arbitrary: i cs) (auto simp: Let_def palette_color_lower split: if_splits sum.splits)

lemma palette_colors_fixed: "list_all palette_color cs \<Longrightarrow> palette_colors i (map JStr cs) = Inr cs"
  by (induction cs arbitrary: i) (auto simp: palette_color_def color_trim)

lemma default_palette_ok: "list_all palette_color default_event_palette \<and> length default_event_palette = 9"
  by code_simp

lemma validate_palette_ok:
  assumes "validate_event_palette raw = Inr cs"
  shows "list_all palette_color cs \<and> cs \<noteq> [] \<and> length cs \<le> 9"
proof -
  have d: "default_event_palette \<noteq> []" by (simp add: default_event_palette_def)
  have "list_all palette_color cs \<and> length cs \<le> 9" if "palette_colors 0 (take 9 xs) = Inr cs" for xs
    using palette_colors_ok [OF that] by auto
  with assms d default_palette_ok show ?thesis
    by (auto simp: validate_event_palette_def split: json.splits sum.splits if_splits)
qed

lemma event_palette_nine:
  "case normalize_event_palette_nine raw of
     Inr p \<Rightarrow> length p = 9 \<and> (\<forall>i < 9. palette_color (p ! i)) \<and> normalize_event_palette_nine (JArr (map JStr p)) = Inr p
   | Inl e \<Rightarrow> (case raw of JNull \<Rightarrow> False | JArr xs \<Rightarrow> list_ex (\<lambda>x. \<not> color_hex (js_trim (js_string x))) (take 9 xs) | _ \<Rightarrow> True)"
proof (cases "validate_event_palette raw")
  case (Inl e)
  have "list_ex (\<lambda>x. \<not> color_hex (js_trim (js_string x))) xs" if "palette_colors i xs = Inl e" for i xs
    using that by (induction xs arbitrary: i) (auto simp: Let_def split: if_splits sum.splits)
  with Inl show ?thesis
    by (auto simp: normalize_event_palette_nine_def validate_event_palette_def split: json.splits sum.splits if_splits)
next
  case (Inr cs)
  note ok = validate_palette_ok [OF Inr]
  define p where "p = cs @ take (9 - length cs) default_event_palette"
  have p: "list_all palette_color p" "length p = 9"
    using ok default_palette_ok by (auto simp: p_def list_all_iff dest: in_set_takeD)
  have "normalize_event_palette_nine raw = Inr p"
    using Inr ok p(2) by (simp add: normalize_event_palette_nine_def p_def)
  moreover have "validate_event_palette (JArr (map JStr p)) = Inr p"
    using palette_colors_fixed [OF p(1), of 0] p(2) by (auto simp: validate_event_palette_def)
  ultimately show ?thesis
    using p by (auto simp: normalize_event_palette_nine_def list_all_length)
qed

text \<open>A show always ends up with nine usable colors: whatever the client sends, when the palette is not refused
  the stored one has exactly nine lower-case \<open>#rrggbb\<close> colors, and storing it again changes nothing. The palette is
  refused only for a value that is neither null nor a list, or for a bad color among the first nine.\<close>

theorem event_palette_normal:
  "case normalize_event_palette_nine raw of
     Inr p \<Rightarrow> length p = 9 \<and> (\<forall>i < 9. palette_color (p ! i)) \<and> normalize_event_palette_nine (JArr (map JStr p)) = Inr p
   | Inl e \<Rightarrow> (case raw of JNull \<Rightarrow> False | JArr xs \<Rightarrow> list_ex (\<lambda>x. \<not> color_hex (js_trim (js_string x))) (take 9 xs) | _ \<Rightarrow> True)"
  by (rule event_palette_nine)

subsection \<open>Generated events\<close>

lemma auto_generated_row:
  assumes "\<And>v. json_parse t = Some v \<Longrightarrow> \<not> json_has_nul v"
  shows "is_auto_generated_metadata_json t \<longleftrightarrow> json_field ''auto_generated'' (pg_jsonb t) = Some (JBool True)"
proof (cases "t = []")
  case True
  have "json_parse ''{}'' = Some (JObj [])" "json_parse [] = None" by code_simp+
  with True show ?thesis by (simp add: is_auto_generated_metadata_json_def json_field_def pg_jsonb_def)
next
  case False
  with assms show ?thesis
    by (auto simp: is_auto_generated_metadata_json_def pg_jsonb_def json_field_def field_of_def split: option.splits json.splits)
qed

text \<open>The two implementations of "this event was generated" agree: the statement the event store runs
  in the database (a cast to \<open>jsonb\<close>) answers whether some stored event satisfies the predicate the routes use on
  the metadata text, malformed and empty texts included, whenever no metadata has a NUL character in it.\<close>

theorem auto_generated_parity:
  assumes "\<And>r v. r \<in> set (db_events (st_db s)) \<Longrightarrow> json_parse (ev_metadata r) = Some v \<Longrightarrow> \<not> json_has_nul v"
  shows "has_auto_generated_events e s = (Inr (list_ex (\<lambda>r. is_auto_generated_metadata_json (ev_metadata r)) (db_events (st_db s))), s)"
  using assms by (auto simp: has_auto_generated_events_def tx_read_def list_ex_iff auto_generated_row)

subsection \<open>An event whose button is gone\<close>

lemma update_absent: "k \<notin> fst ` set ps \<Longrightarrow> AList.update k v ps = ps @ [(k, v)]"
  by (induction ps) auto

lemma delete_filter: "AList.delete k ps = filter (\<lambda>(k', v). k' \<noteq> k) ps"
  by (induction ps) auto

lemma snapshot_keys: "ui_snapshot_label_key \<noteq> ui_snapshot_color_key" "\<not> array_index ui_snapshot_label_key"
  "\<not> array_index ui_snapshot_color_key"
  by (auto simp: ui_snapshot_label_key_def ui_snapshot_color_key_def is_digit_def intro!: not_array_index)

definition no_snapshot :: "(string \<times> json) list \<Rightarrow> bool" where
  "no_snapshot meta \<longleftrightarrow> ui_snapshot_label_key \<notin> fst ` set meta \<and> ui_snapshot_color_key \<notin> fst ` set meta"

lemma merged_snapshots:
  assumes "no_snapshot meta"
  shows "merge_category_ui_snapshots meta (Some c) =
    meta @ [(ui_snapshot_label_key, JStr (cd_label c)), (ui_snapshot_color_key, JStr (normal_color (cd_color c)))]"
  using assms snapshot_keys(1) by (auto simp: merge_category_ui_snapshots_def no_snapshot_def update_absent)

lemma filter_absent: "k \<notin> fst ` set ps \<Longrightarrow> filter (\<lambda>(k', v). k' \<noteq> k) ps = ps"
  by (induction ps) auto

lemma strip_merge: "no_snapshot meta \<Longrightarrow> strip_category_ui_snapshots (merge_category_ui_snapshots meta (Some c)) = meta"
  using snapshot_keys(1) filter_absent [of ui_snapshot_label_key meta] filter_absent [of ui_snapshot_color_key meta]
  by (simp add: merged_snapshots strip_category_ui_snapshots_def delete_filter no_snapshot_def del: filter_filter)

lemma map_of_absent: "k \<notin> fst ` set ps \<Longrightarrow> map_of (ps @ qs) k = map_of qs k"
  by (induction ps) auto

lemma color_lower_trim: "color_hex (js_trim (normal_color c)) = color_hex (js_trim c)"
  "color_hex (js_trim c) \<Longrightarrow> js_lower (js_trim (normal_color c)) = js_lower (js_trim c)"
  using palette_color_lower [of "js_trim c"] color_trim [of "js_lower (js_trim c)"]
  by (auto simp: normal_color_def palette_color_def Let_def)

text \<open>C26: An event outlives its button. When an event was stored with the snapshot of its category and the category
  is later deleted, the event is still shown with the button's trimmed name and its color in lower case (no color, when the
  button's was not a hex color); and when exactly one button bears that name again, the relink gives the event
  that button and the very metadata text it had before the snapshot was added.\<close>

theorem deleted_button_remembered:
  assumes "json_ok (JObj meta)" "no_snapshot meta"
    and "ev_metadata r = json_string (JObj (merge_category_ui_snapshots meta (Some c)))"
    and "js_lower (ev_category r) \<noteq> ''internal''" "js_trim (cd_label c) \<noteq> []"
  shows "(ev_category r \<notin> cd_id ` set cats \<longrightarrow>
      ee_label (enrich_event cats r) = js_trim (cd_label c) \<and>
      ee_color (enrich_event cats r) = (if color_hex (js_trim (cd_color c)) then Some (js_lower (js_trim (cd_color c))) else None)) \<and>
    (ev_category r \<notin> set (rl_valid inp) \<and> sole_candidate (rl_labels inp) (js_lower (js_trim (cd_label c))) = Some (Some i) \<longrightarrow>
      relink_row inp r = RelinkRow i (json_string (JObj meta)))"
proof -
  let ?m = "merge_category_ui_snapshots meta (Some c)"
  have "json_ok (JObj ?m)"
    using assms(1,2) snapshot_keys by (auto simp: merged_snapshots no_snapshot_def)
  then have p: "json_parse (ev_metadata r) = Some (JObj ?m)"
    unfolding assms(3) by (rule json_parse_string)
  have ne: "ev_metadata r \<noteq> []" using assms(3) by simp
  have f: "map_of ?m ui_snapshot_label_key = Some (JStr (cd_label c))"
    "map_of ?m ui_snapshot_color_key = Some (JStr (normal_color (cd_color c)))"
    using assms(2) snapshot_keys(1)
    by (simp_all add: merged_snapshots no_snapshot_def map_of_absent del: map_of_append)
  have s: "filter (\<lambda>(k, _). k \<noteq> ui_snapshot_label_key \<and> k \<noteq> ui_snapshot_color_key) ?m = meta"
    using strip_merge [OF assms(2), of c] by (simp add: strip_category_ui_snapshots_def delete_filter case_prod_unfold conj_commute)
  have "find (\<lambda>c. cd_id c = ev_category r) cats = None" if "ev_category r \<notin> cd_id ` set cats"
    using that by (auto simp: find_None_iff image_iff)
  then show ?thesis
    using assms(4,5) p ne f s color_lower_trim [of "cd_color c"]
    by (auto simp: enrich_event_def event_metadata_def metadata_field_def field_of_def relink_row_def Let_def split: if_splits)
qed

definition gone_button :: category_def where
  "gone_button = \<lparr>cd_id = ''old'', cd_label = ''Goal '', cd_color = ''#A86BDC'', cd_kind = Button, cd_options = [], cd_on = [], cd_off = []\<rparr>"

definition gone_event :: event_row where
  "gone_event = (orphan_event [])\<lparr>ev_category := ''old'',
     ev_metadata := json_string (JObj (merge_category_ui_snapshots [(''note'', JStr ''x'')] (Some gone_button)))\<rparr>"

lemma gone_label: "js_trim (cd_label gone_button) = ''Goal''" "js_lower ''Goal'' = ''goal''"
  by code_simp+

lemma gone_color: "color_hex (js_trim (cd_color gone_button))" "js_lower (js_trim (cd_color gone_button)) = ''#a86bdc''"
  by code_simp+

lemma gone_candidate: "sole_candidate (rl_labels sample_relink) ''goal'' = Some (Some ''c1'')"
  by (simp add: sole_candidate_def sample_relink_def)

theorem deleted_button_remembered_witness:
  "ee_label (enrich_event [] gone_event) = ''Goal'' \<and> ee_color (enrich_event [] gone_event) = Some ''#a86bdc'' \<and>
   relink_row sample_relink gone_event = RelinkRow ''c1'' (json_string (JObj [(''note'', JStr ''x'')]))"
proof -
  have c: "js_lower (ev_category gone_event) \<noteq> ''internal''" "ev_category gone_event \<notin> set (rl_valid sample_relink)"
    by (simp_all add: gone_event_def sample_relink_def js_lower_def lower_char_def)
  have j: "json_ok (JObj [(''note'', JStr ''x'')])" "no_snapshot [(''note'', JStr ''x'')]"
    by (simp_all add: no_snapshot_def ui_snapshot_label_key_def ui_snapshot_color_key_def array_index_def is_digit_def)
  have "ev_metadata gone_event = json_string (JObj (merge_category_ui_snapshots [(''note'', JStr ''x'')] (Some gone_button)))"
    by (simp add: gone_event_def)
  from deleted_button_remembered [OF j this c(1), of "[]" sample_relink "''c1''"] show ?thesis
    using c(2) gone_label gone_color gone_candidate by simp
qed

end
