(* ===== verification/StudioStore.thy ===== *)
theory StudioStore
  imports AuthStore StudioSettings
begin

section \<open>Teams, their settings, shows\<close>

text \<open>
  packages/catalog/src/studioRegistry.ts with the show and session lists the team plane reads from
  showsStore.ts and sessionIndexStore.ts. The registry's snapshot is the list of definitions at the start of a
  request. The text of a new team's default settings, which holds fresh random ids, is an argument.
\<close>

subsection \<open>Teams\<close>

definition studio_order :: "catalog \<Rightarrow> studio_row list" where
  "studio_order c = sort_key (\<lambda>s. (sd_sort s, sd_id s)) (ct_studios c)"

definition studio_names :: "catalog \<Rightarrow> string \<Rightarrow> string option" where
  "studio_names c i = map_option sd_name (find (\<lambda>s. sd_id s = i) (ct_studios c))"

definition slug_char :: "char \<Rightarrow> bool" where
  "slug_char ch \<longleftrightarrow> (CHR ''a'' \<le> ch \<and> ch \<le> CHR ''z'') \<or> is_digit ch \<or> ch = CHR ''-''"

definition studio_slug :: "string \<Rightarrow> bool" where
  "studio_slug s = (case s of [] \<Rightarrow> False
     | ch # cs \<Rightarrow> CHR ''a'' \<le> ch \<and> ch \<le> CHR ''z'' \<and> list_all slug_char cs \<and> 1 \<le> length cs \<and> length cs \<le> 62)"

definition validate_new_studio :: "string \<Rightarrow> string \<Rightarrow> catalog_error + string \<times> string" where
  "validate_new_studio i name = (let sid = js_trim i; disp = js_trim name in
     if sid = [] \<or> disp = [] then Inl (ValidationError ''Team id and display name are required.'') else
     if \<not> studio_slug sid then Inl (ValidationError ''Team id must be a lowercase slug: start with a letter, then letters, digits, or hyphens (2-63 chars).'') else
     if 200 < length disp then Inl (ValidationError ''Display name is too long.'') else Inr (sid, disp))"

definition studio_exists :: "string \<Rightarrow> catalog \<Rightarrow> bool" where
  "studio_exists t c \<longleftrightarrow> list_ex (\<lambda>s. sd_id s = t) (ct_studios c)"

definition studio_config_key :: "string \<Rightarrow> string" where
  "studio_config_key t = ''studio_config:'' @ t"

definition get_setting :: "string \<Rightarrow> catalog \<Rightarrow> string option" where
  "get_setting k c = map_of (ct_settings c) k"

definition put_setting :: "string \<Rightarrow> string \<Rightarrow> catalog \<Rightarrow> catalog" where
  "put_setting k v c = (if k \<in> fst ` set (ct_settings c)
     then c\<lparr>ct_settings := map (\<lambda>(a, b). if a = k then (a, v) else (a, b)) (ct_settings c)\<rparr>
     else c\<lparr>ct_settings := ct_settings c @ [(k, v)]\<rparr>)"

definition set_setting :: "string \<Rightarrow> string \<Rightarrow> unit cat" where
  "set_setting k v = cwrite (put_setting k v)"

definition set_setting_if :: "string \<Rightarrow> string option \<Rightarrow> string \<Rightarrow> unit cat" where
  "set_setting_if k expected v = (case expected of
     None \<Rightarrow> cwrite (\<lambda>c. if k \<in> fst ` set (ct_settings c) then c else put_setting k v c)
   | Some e \<Rightarrow> cwrite (\<lambda>c. c\<lparr>ct_settings := map (\<lambda>(a, b). if a = k \<and> b = e then (a, v) else (a, b)) (ct_settings c)\<rparr>))"

definition drop_members :: "string \<Rightarrow> catalog \<Rightarrow> catalog" where
  "drop_members t c = c\<lparr>ct_members := filter (\<lambda>m. mb_studio m \<noteq> t) (ct_members c)\<rparr>"

definition drop_invites :: "string \<Rightarrow> catalog \<Rightarrow> catalog" where
  "drop_invites t c = c\<lparr>ct_invites := filter (\<lambda>i. iv_studio i \<noteq> t) (ct_invites c)\<rparr>"

definition has_shows :: "string \<Rightarrow> catalog \<Rightarrow> bool" where
  "has_shows t c \<longleftrightarrow> list_ex (\<lambda>s. sw_studio s = t) (ct_shows c)"

definition insert_studio_definition :: "string \<Rightarrow> iso \<Rightarrow> string \<Rightarrow> string \<Rightarrow> unit cat" where
  "insert_studio_definition cfg now sid disp =
     cbind (cread (studio_exists sid)) (\<lambda>there. if there then cthrow (ValidationError ''A team with that id already exists.'') else
     cbind (cread (has_shows sid)) (\<lambda>shows. if shows then cthrow (ValidationError ''That team id is not available.'') else
     cbind (cwrite (\<lambda>c. c\<lparr>ct_studios := ct_studios c @ [\<lparr>sd_id = sid, sd_name = disp, sd_sort = 1000, sd_created = now\<rparr>]\<rparr>)) (\<lambda>_.
     cbind (cwrite (drop_invites sid)) (\<lambda>_.
     cbind (cwrite (drop_members sid)) (\<lambda>_.
     cwrite (put_setting (studio_config_key sid) cfg))))))"

definition admin_create_studio :: "string \<Rightarrow> iso \<Rightarrow> string \<Rightarrow> string \<Rightarrow> unit cat" where
  "admin_create_studio cfg now i name = (case validate_new_studio i name of
     Inl e \<Rightarrow> cthrow e | Inr (sid, disp) \<Rightarrow> insert_studio_definition cfg now sid disp)"

definition admin_delete_studio :: "string \<Rightarrow> unit cat" where
  "admin_delete_studio i = (let sid = js_trim i in
     cbind (cread (\<lambda>c. length (filter (\<lambda>s. sw_studio s = sid) (ct_shows c)))) (\<lambda>n.
     if 0 < n then cthrow (ValidationError (''Team still has '' @ nat_digits n @ '' show(s); delete or move them first.'')) else
     cbind (cwrite (drop_invites sid)) (\<lambda>_.
     cbind (cwrite (\<lambda>c. c\<lparr>ct_studios := filter (\<lambda>s. sd_id s \<noteq> sid) (ct_studios c)\<rparr>)) (\<lambda>_.
     cbind (cwrite (\<lambda>c. c\<lparr>ct_settings := filter (\<lambda>(k, v). k \<noteq> studio_config_key sid) (ct_settings c)\<rparr>)) (\<lambda>_.
     cwrite (drop_members sid))))))"

definition rename_studio :: "string \<Rightarrow> string \<Rightarrow> unit cat" where
  "rename_studio i name = (let sid = js_trim i; disp = js_trim name in
     if disp = [] then cthrow (ValidationError ''Display name is required.'') else
     if 200 < length disp then cthrow (ValidationError ''Display name is too long.'') else
     cwrite (\<lambda>c. c\<lparr>ct_studios := map (\<lambda>s. if sd_id s = sid then s\<lparr>sd_name := disp\<rparr> else s) (ct_studios c)\<rparr>))"

subsection \<open>Shows and sessions\<close>

definition get_show_row :: "string \<Rightarrow> catalog \<Rightarrow> show_row option" where
  "get_show_row sh c = find (\<lambda>s. sw_id s = sh) (ct_shows c)"

definition list_shows_for_studio :: "string \<Rightarrow> catalog \<Rightarrow> show_row list" where
  "list_shows_for_studio t c = sort_key (\<lambda>s. (js_lower (sw_name s), sw_name s)) (filter (\<lambda>s. sw_studio s = t) (ct_shows c))"

text \<open>\<open>crypto.randomUUID()\<close> is the argument \<open>sid\<close>.\<close>

definition create_show :: "string \<Rightarrow> iso \<Rightarrow> string \<Rightarrow> string \<Rightarrow> string \<Rightarrow> string \<Rightarrow> string \<Rightarrow> string \<Rightarrow> string cat" where
  "create_show sid now t name code cats pal custom = cbind (cwrite (\<lambda>c. c\<lparr>ct_shows := ct_shows c @
     [\<lparr>sw_id = sid, sw_studio = t, sw_name = js_trim name, sw_code = js_upper (js_trim code), sw_next = 1, sw_suffix = ''date'',
        sw_categories = cats, sw_palette = pal, sw_preset = ''custom'', sw_custom = custom, sw_created = now\<rparr>]\<rparr>)) (\<lambda>_. creturn sid)"

text \<open>The categories a new show starts with: the defaults, validated, under ids of their own.\<close>

definition new_show_categories :: "(nat \<Rightarrow> string) \<Rightarrow> string + category_record list" where
  "new_show_categories fresh =
     (let defaults = (\<lambda>k. validate_categories_list (\<lambda>i. fresh (k + 3 + i)) (JArr (map category_json (default_categories_for_new_studio (\<lambda>i. fresh (k + i))))))
      in case (case defaults 0 of Inl e \<Rightarrow> defaults 3 | Inr cs \<Rightarrow> Inr cs) of
           Inl e \<Rightarrow> Inl e | Inr cs \<Rightarrow> Inr (fresh_category_ids (\<lambda>i. fresh (6 + i)) cs))"

definition palette_text :: "string list \<Rightarrow> string" where
  "palette_text p = json_string (JArr (map JStr p))"

definition default_palette_text :: string where
  "default_palette_text = palette_text default_event_palette"

lemma default_palette_text_code [code]:
  \<open>default_palette_text = ''["#64748b","#e53935","#fb8c00","#fdd835","#43a047","#00acc1","#1e88e5","#8e24aa","#ec407a"]''\<close>
  unfolding default_palette_text_def by code_simp

definition categories_text :: "category_record list \<Rightarrow> string" where
  "categories_text cs = json_string (JArr (map category_json cs))"

definition new_show_code :: "string \<Rightarrow> string \<Rightarrow> string" where
  "new_show_code name code = (let k = js_upper (js_trim code) in if k = [] then suggested_show_code name else k)"

definition list_session_ids_for_shows :: "string list \<Rightarrow> catalog \<Rightarrow> string list" where
  "list_session_ids_for_shows shs c = (if shs = [] then [] else
     map ix_id (filter (\<lambda>x. ix_show x \<in> Some ` set shs) (ct_sessions c)))"

end
