(* ===== verification/TeamPlane.thy ===== *)
theory TeamPlane
  imports StudioStore FrameBus
begin

section \<open>The team plane\<close>

text \<open>
  server/src/routers/teams.ts, the write of shows.ts, admin.ts and the access helpers of _helpers.ts. A route
  checks the caller once on the committed catalog (\<open>team_precheck\<close>) and again inside its transaction
  (\<open>team_commit\<close>), between which anything may have committed. A rejected transaction leaves the catalog as it
  was; an accepted one answers the close messages it published. Bodies are what their schemas let through.
\<close>

subsection \<open>Closing the sockets of lost sessions\<close>

definition access_lost_close_code :: int where "access_lost_close_code = 4403"
definition access_loss_close_chunk :: nat where "access_loss_close_chunk = 150"

function chunks_of :: "nat \<Rightarrow> 'a list \<Rightarrow> 'a list list" where
  "chunks_of n xs = (if xs = [] \<or> n = 0 then [] else take n xs # chunks_of n (drop n xs))"
  by pat_completeness auto
termination by (relation "measure (\<lambda>(n, xs). length xs)") auto

declare chunks_of.simps [simp del]

text \<open>\<open>notified\<close> tells whether the bus's statement succeeds.\<close>

definition publish_closes_in_tx :: "bool \<Rightarrow> string \<Rightarrow> string list \<Rightarrow> bus_message list cat" where
  "publish_closes_in_tx notified u ids =
     (let msgs = map (\<lambda>s. CloseMsg u (Sessions s) access_lost_close_code) (chunks_of access_loss_close_chunk ids)
      in if msgs \<noteq> [] \<and> \<not> notified then cthrow NotifyFailed else creturn msgs)"

definition publish_access_loss_in_tx :: "bool \<Rightarrow> string \<Rightarrow> string list \<Rightarrow> bus_message list cat" where
  "publish_access_loss_in_tx notified u shs =
     cbind (cread (\<lambda>c. list_session_ids_for_shows (filter (\<lambda>sh. \<not> auth_can_access_show u sh c) shs) c))
       (publish_closes_in_tx notified u)"

definition team_show_ids :: "string \<Rightarrow> catalog \<Rightarrow> string list" where
  "team_show_ids t c = map sw_id (list_shows_for_studio t c)"

subsection \<open>Checks\<close>

definition max_owned_teams :: nat where "max_owned_teams = 20"
definition max_pending_invites :: nat where "max_pending_invites = 200"

definition email_shape :: "string \<Rightarrow> bool" where
  "email_shape e = (let local = takeWhile (\<lambda>ch. ch \<noteq> CHR ''@'') e; d = drop (Suc (length local)) e in
     \<not> list_ex is_space e \<and> local \<noteq> [] \<and> length local < length e \<and> CHR ''@'' \<notin> set d \<and>
     list_ex (\<lambda>i. d ! i = CHR ''.'') [1..<length d - 1])"

definition is_plausible_email :: "string \<Rightarrow> bool" where
  "is_plausible_email e \<longleftrightarrow> 0 < length e \<and> length e \<le> 254 \<and> email_shape e"

definition owner_or_admin :: "role list" where "owner_or_admin = [Owner, Admin]"
definition owner_only :: "role list" where "owner_only = [Owner]"

definition role_required_message :: "role list \<Rightarrow> string" where
  "role_required_message roles = (if Admin \<in> set roles then ''Admin role required.'' else ''Owner role required.'')"

definition owner_target_message :: string where "owner_target_message = ''Transfer ownership first.''"

definition team_not_found :: catalog_error where "team_not_found = ApiError 404 ''Team not found''"
definition member_not_found :: catalog_error where "member_not_found = ApiError 404 ''Member not found''"

definition require_team_member :: "string \<Rightarrow> string \<Rightarrow> catalog \<Rightarrow> catalog_error + role" where
  "require_team_member u t c = (case auth_get_membership_role u t c of None \<Rightarrow> Inl team_not_found | Some r \<Rightarrow> Inr r)"

definition require_team_role :: "string \<Rightarrow> string \<Rightarrow> role list \<Rightarrow> catalog \<Rightarrow> catalog_error + role" where
  "require_team_role u t roles c = (case require_team_member u t c of Inl e \<Rightarrow> Inl e
     | Inr r \<Rightarrow> if r \<in> set roles then Inr r else Inl (ApiError 403 (role_required_message roles)))"

definition require_team_role_in :: "string \<Rightarrow> string \<Rightarrow> role list \<Rightarrow> role cat" where
  "require_team_role_in u t roles = cbind (cread (auth_get_membership_role u t)) (\<lambda>r. case r of
     None \<Rightarrow> cthrow team_not_found
   | Some r \<Rightarrow> if r \<in> set roles then creturn r else cthrow (ApiError 403 (role_required_message roles)))"

definition require_team_show :: "string \<Rightarrow> string \<Rightarrow> catalog \<Rightarrow> catalog_error + show_row" where
  "require_team_show t sh c = (case get_show_row sh c of
     Some s \<Rightarrow> if sw_studio s = t then Inr s else Inl (ApiError 404 ''Show not found.'')
   | None \<Rightarrow> Inl (ApiError 404 ''Show not found.''))"

subsection \<open>Requests\<close>

datatype team_request =
    CreateTeam string string
  | RenameTeam string string
  | DeleteTeam string
  | InviteMember string string
  | RevokeInvite string string
  | GrantShow string string string
  | RevokeGrant string string string
  | ChangeRole string string bool \<comment> \<open>to admin, or to member\<close>
  | RemoveMember string string
  | LeaveTeam string
  | TransferOwner string string
  | CreateShow string string string

definition as_400 :: "catalog_error + 'a \<Rightarrow> catalog_error + 'a" where
  "as_400 r = (case r of Inl (ValidationError msg) \<Rightarrow> Inl (ApiError 400 msg) | _ \<Rightarrow> r)"

definition checked :: "catalog_error + 'a \<Rightarrow> catalog_error option" where
  "checked r = (case r of Inl e \<Rightarrow> Some e | Inr _ \<Rightarrow> None)"

definition first_refusal :: "catalog_error option list \<Rightarrow> catalog_error option" where
  "first_refusal rs = (case filter (\<lambda>r. r \<noteq> None) rs of [] \<Rightarrow> None | r # _ \<Rightarrow> r)"

text \<open>What a route checks before its transaction: None lets it begin.\<close>

fun team_precheck :: "string \<Rightarrow> team_request \<Rightarrow> catalog \<Rightarrow> catalog_error option" where
  "team_precheck u (CreateTeam i name) c = checked (as_400 (validate_new_studio (js_trim i) (js_trim name)))"
| "team_precheck u (RenameTeam t name) c = checked (require_team_role u (js_trim t) owner_or_admin c)"
| "team_precheck u (DeleteTeam t) c = checked (require_team_role u (js_trim t) owner_only c)"
| "team_precheck u (InviteMember t email) c = first_refusal [checked (require_team_role u (js_trim t) owner_or_admin c),
     if is_plausible_email (normalize_email email) then None else Some (ApiError 400 ''Invalid email address.'')]"
| "team_precheck u (RevokeInvite t email) c = checked (require_team_role u (js_trim t) owner_or_admin c)"
| "team_precheck u (GrantShow t sh v) c =
     first_refusal [checked (require_team_role u (js_trim t) owner_or_admin c), checked (require_team_show (js_trim t) sh c)]"
| "team_precheck u (RevokeGrant t sh v) c =
     first_refusal [checked (require_team_role u (js_trim t) owner_or_admin c), checked (require_team_show (js_trim t) sh c)]"
| "team_precheck u (ChangeRole t v up) c = checked (require_team_role u (js_trim t) owner_only c)"
| "team_precheck u (RemoveMember t v) c = checked (require_team_role u (js_trim t) owner_or_admin c)"
| "team_precheck u (LeaveTeam t) c = checked (require_team_member u (js_trim t) c)"
| "team_precheck u (TransferOwner t v) c = checked (require_team_role u (js_trim t) owner_only c)"
| "team_precheck u (CreateShow t name code) c = None"

subsection \<open>The transactions\<close>

text \<open>What a transaction takes from outside: the clock, the default settings' text, a fresh id, the outcome of
  \<open>new_show_categories\<close> on fresh ids, whether the bus's
  statement succeeds.\<close>

record tx_input =
  ti_now :: iso
  ti_settings :: string
  ti_uuid :: string
  ti_categories :: "string + category_record list"
  ti_notified :: bool

definition create_team :: "tx_input \<Rightarrow> string \<Rightarrow> string \<Rightarrow> string \<Rightarrow> bus_message list cat" where
  "create_team x u i name = (case validate_new_studio (js_trim i) (js_trim name) of
     Inl e \<Rightarrow> cthrow e
   | Inr (sid, disp) \<Rightarrow>
     cbind (cread (auth_count_owned_teams u)) (\<lambda>n.
     if max_owned_teams \<le> n then cthrow (ApiError 400 (''You already own '' @ nat_digits max_owned_teams @ '' teams; the limit has been reached.'')) else
     cbind (insert_studio_definition (ti_settings x) (ti_now x) sid disp) (\<lambda>_.
     cbind (auth_add_membership_with_role u sid Owner) (\<lambda>_. creturn []))))"

fun add_members :: "string \<Rightarrow> string list \<Rightarrow> unit cat" where
  "add_members t [] = creturn ()"
| "add_members t (v # vs) = cbind (auth_add_membership_with_role v t Member) (\<lambda>_. add_members t vs)"

definition invite_member :: "tx_input \<Rightarrow> string \<Rightarrow> string \<Rightarrow> string \<Rightarrow> bus_message list cat" where
  "invite_member x u t e =
     cbind (require_team_role_in u t owner_or_admin) (\<lambda>_.
     cbind (cread (auth_list_users_by_email_norm e)) (\<lambda>matches.
     if matches \<noteq> [] then cbind (add_members t (map us_id matches)) (\<lambda>_. creturn []) else
     cbind (cread (auth_list_invites_for_team t)) (\<lambda>pending.
     if \<not> list_ex (\<lambda>i. iv_email i = e) pending \<and> max_pending_invites \<le> length pending
     then cthrow (ApiError 400 (''This team already has '' @ nat_digits max_pending_invites @ '' pending invites; revoke one before inviting more.''))
     else cbind (auth_upsert_invite (ti_now x) t e u) (\<lambda>_. creturn []))))"

definition grant_show :: "tx_input \<Rightarrow> string \<Rightarrow> string \<Rightarrow> string \<Rightarrow> string \<Rightarrow> bus_message list cat" where
  "grant_show x u t sh v =
     cbind (require_team_role_in u t owner_or_admin) (\<lambda>_.
     cbind (cread (auth_get_membership_role v t)) (\<lambda>r. case r of
       None \<Rightarrow> cthrow member_not_found
     | Some r \<Rightarrow> if r \<noteq> Member then creturn [] else cbind (auth_grant_show v sh u (ti_now x)) (\<lambda>_. creturn [])))"

definition revoke_grant :: "tx_input \<Rightarrow> string \<Rightarrow> string \<Rightarrow> string \<Rightarrow> string \<Rightarrow> bus_message list cat" where
  "revoke_grant x u t sh v =
     cbind (require_team_role_in u t owner_or_admin) (\<lambda>_.
     cbind (auth_revoke_show v sh) (\<lambda>_. publish_access_loss_in_tx (ti_notified x) v [sh]))"

definition change_role :: "tx_input \<Rightarrow> string \<Rightarrow> string \<Rightarrow> string \<Rightarrow> role \<Rightarrow> bus_message list cat" where
  "change_role x u t v r =
     cbind (require_team_role_in u t owner_only) (\<lambda>_.
     cbind (cread (auth_get_membership_role v t)) (\<lambda>old. case old of
       None \<Rightarrow> cthrow member_not_found
     | Some old \<Rightarrow>
       if old = Owner then cthrow (ApiError 409 owner_target_message) else
       if old = r then creturn [] else
       cbind (auth_set_existing_membership_role v t r) (\<lambda>b. if \<not> b then cthrow member_not_found else
       if r \<noteq> Member then creturn [] else
       cbind (cread (team_show_ids t)) (publish_access_loss_in_tx (ti_notified x) v))))"

definition remove_member :: "tx_input \<Rightarrow> string \<Rightarrow> string \<Rightarrow> string \<Rightarrow> bus_message list cat" where
  "remove_member x u t v =
     cbind (require_team_role_in u t owner_or_admin) (\<lambda>mine.
     cbind (cread (auth_get_membership_role v t)) (\<lambda>old. case old of
       None \<Rightarrow> cthrow member_not_found
     | Some old \<Rightarrow>
       if old = Owner then cthrow (ApiError 409 owner_target_message) else
       if old = Admin \<and> mine \<noteq> Owner then cthrow (ApiError 403 ''Owner role required.'') else
       cbind (auth_remove_membership v t) (\<lambda>b. if \<not> b then cthrow member_not_found else
       cbind (cread (team_show_ids t)) (publish_access_loss_in_tx (ti_notified x) v))))"

text \<open>The caller's sessions are listed before the delete.\<close>

definition leave_team :: "tx_input \<Rightarrow> string \<Rightarrow> string \<Rightarrow> bus_message list cat" where
  "leave_team x u t =
     cbind (cread (auth_get_membership_role u t)) (\<lambda>r. case r of
       None \<Rightarrow> cthrow member_not_found
     | Some r \<Rightarrow>
       if r = Owner then cthrow (ApiError 409 owner_target_message) else
       cbind (cread (\<lambda>c. list_session_ids_for_shows (team_show_ids t c) c)) (\<lambda>ids.
       cbind (auth_remove_membership u t) (\<lambda>b. if \<not> b then cthrow member_not_found else
       publish_closes_in_tx (ti_notified x) u ids)))"

definition transfer_owner :: "string \<Rightarrow> string \<Rightarrow> string \<Rightarrow> bus_message list cat" where
  "transfer_owner u t v =
     cbind (require_team_role_in u t owner_only) (\<lambda>_.
     if v = u then creturn [] else
     cbind (cread (auth_get_membership_role v t)) (\<lambda>r. if r = None then cthrow member_not_found else
     cbind (cread (auth_get_user_row_any v)) (\<lambda>row. case row of
       None \<Rightarrow> cthrow member_not_found
     | Some w \<Rightarrow>
       if us_disabled w \<noteq> None then cthrow (ApiError 400 ''That member's account is disabled.'') else
       (\<lambda>c. case auth_transfer_ownership t u v c of
          Inl (TransferError msg) \<Rightarrow> Inl member_not_found
        | Inl e \<Rightarrow> Inl e
        | Inr (_, c') \<Rightarrow> Inr ([], c')))))"

definition post_show :: "tx_input \<Rightarrow> string \<Rightarrow> string \<Rightarrow> string \<Rightarrow> string \<Rightarrow> bus_message list cat" where
  "post_show x u t name code = (case ti_categories x of Inl e \<Rightarrow> cthrow (ValidationError e) | Inr cats \<Rightarrow>
     cbind (cread (studio_exists t)) (\<lambda>there. if \<not> there then cthrow (ApiError 400 ''Unknown studio id.'') else
     cbind (cread (auth_get_membership_role u t)) (\<lambda>r. case r of
       None \<Rightarrow> cthrow (ApiError 404 ''Unknown studio id.'')
     | Some r \<Rightarrow> if r \<noteq> Owner \<and> r \<noteq> Admin then cthrow (ApiError 403 ''Admin role required.'') else
       cbind (create_show (ti_uuid x) (ti_now x) t name code (categories_text cats) default_palette_text default_palette_text) (\<lambda>_. creturn []))))"

fun team_tx :: "tx_input \<Rightarrow> string \<Rightarrow> team_request \<Rightarrow> bus_message list cat" where
  "team_tx x u (CreateTeam i name) = create_team x u i name"
| "team_tx x u (RenameTeam t name) = cbind (require_team_role_in u (js_trim t) owner_or_admin) (\<lambda>_.
     cbind (rename_studio (js_trim t) (js_trim name)) (\<lambda>_. creturn []))"
| "team_tx x u (DeleteTeam t) = cbind (require_team_role_in u (js_trim t) owner_only) (\<lambda>_.
     cbind (admin_delete_studio (js_trim t)) (\<lambda>_. creturn []))"
| "team_tx x u (InviteMember t email) = invite_member x u (js_trim t) (normalize_email email)"
| "team_tx x u (RevokeInvite t email) = cbind (require_team_role_in u (js_trim t) owner_or_admin) (\<lambda>_.
     cbind (auth_delete_invite (js_trim t) (normalize_email email)) (\<lambda>_. creturn []))"
| "team_tx x u (GrantShow t sh v) = grant_show x u (js_trim t) sh (js_trim v)"
| "team_tx x u (RevokeGrant t sh v) = revoke_grant x u (js_trim t) sh (js_trim v)"
| "team_tx x u (ChangeRole t v up) = change_role x u (js_trim t) (js_trim v) (if up then Admin else Member)"
| "team_tx x u (RemoveMember t v) = remove_member x u (js_trim t) (js_trim v)"
| "team_tx x u (LeaveTeam t) = leave_team x u (js_trim t)"
| "team_tx x u (TransferOwner t v) = transfer_owner u (js_trim t) (js_trim v)"
| "team_tx x u (CreateShow t name code) = post_show x u t (js_trim name) (new_show_code name code)"

definition team_commit :: "tx_input \<Rightarrow> string \<Rightarrow> team_request \<Rightarrow> bus_message list cat" where
  "team_commit x u req c = as_400 (team_tx x u req c)"

subsection \<open>The support plane\<close>

text \<open>The admin routes after their token check. A look-up before a single statement is part of its transaction: a
  user row is never deleted.\<close>

datatype support_request =
    AdminCreateStudio string string
  | AdminDeleteStudio string
  | AdminPutMembership string string "role option"
  | AdminDropMembership string string
  | AdminSetDisabled string bool

definition admin_user :: "string \<Rightarrow> user_row cat" where
  "admin_user v = cbind (cread (auth_get_user_row_any (js_trim v))) (\<lambda>row. case row of
     None \<Rightarrow> cthrow (ApiError 404 ''User not found.'') | Some w \<Rightarrow> creturn w)"

definition admin_put_membership :: "tx_input \<Rightarrow> string \<Rightarrow> string \<Rightarrow> role option \<Rightarrow> bus_message list cat" where
  "admin_put_membership x v t r =
     cbind (cread (studio_exists t)) (\<lambda>there. if \<not> there then cthrow (ApiError 400 ''Unknown team id.'') else
     cbind (admin_user v) (\<lambda>w.
     if r = Some Owner then cbind (auth_set_owner t (us_id w)) (\<lambda>_. creturn []) else
     cbind (cread (auth_get_membership_role (us_id w) t)) (\<lambda>old.
     if r = None \<and> old = Some Owner then cthrow (ApiError 409 ''Explicit role required to change the team owner.'') else
     cbind (auth_upsert_membership_role (us_id w) t (or_else r Member)) (\<lambda>_.
     if or_else r Member \<noteq> Member then creturn [] else
     cbind (cread (team_show_ids t)) (publish_access_loss_in_tx (ti_notified x) (us_id w))))))"

definition admin_drop_membership :: "tx_input \<Rightarrow> string \<Rightarrow> string \<Rightarrow> bus_message list cat" where
  "admin_drop_membership x v t =
     cbind (admin_user v) (\<lambda>w.
     cbind (auth_remove_membership (us_id w) t) (\<lambda>_.
     cbind (cread (team_show_ids t)) (publish_access_loss_in_tx (ti_notified x) (us_id w))))"

fun support_tx :: "tx_input \<Rightarrow> support_request \<Rightarrow> bus_message list cat" where
  "support_tx x (AdminCreateStudio i name) =
     cbind (admin_create_studio (ti_settings x) (ti_now x) (js_trim i) (js_trim name)) (\<lambda>_. creturn [])"
| "support_tx x (AdminDeleteStudio t) = cbind (admin_delete_studio (js_trim t)) (\<lambda>_. creturn [])"
| "support_tx x (AdminPutMembership v t r) = admin_put_membership x v (js_trim t) r"
| "support_tx x (AdminDropMembership v t) = admin_drop_membership x v (js_trim t)"
| "support_tx x (AdminSetDisabled v b) =
     cbind (admin_user v) (\<lambda>w. cbind (auth_set_user_disabled (ti_now x) (us_id w) b) (\<lambda>_. creturn []))"

definition support_commit :: "tx_input \<Rightarrow> support_request \<Rightarrow> bus_message list cat" where
  "support_commit x req c = as_400 (support_tx x req c)"

end
