(* ===== verification/SignIn.thy ===== *)
theory SignIn
  imports TeamPlane IsoTime
begin

section \<open>Sign-in\<close>

text \<open>
  The catalog part of GET /auth/google/callback (server/src/routers/auth.ts), after Google's token was
  verified, and the address rules of server/src/env.ts. A callback is a small state machine: each step is one
  catalog call, between which others commit; \<open>Exchanging\<close> awaits Supabase Auth, whose answer is an argument.
  The login session that follows is not modelled.
\<close>

definition ascii_upper :: "char \<Rightarrow> bool" where
  "ascii_upper ch \<longleftrightarrow> CHR ''A'' \<le> ch \<and> ch \<le> CHR ''Z''"

definition ascii_email_norm :: "string \<Rightarrow> string" where
  "ascii_email_norm v = map (\<lambda>ch. if ascii_upper ch then char_of ((of_char ch :: nat) + 32) else ch) (js_trim v)"

datatype email_match = Matches | Differs | NonAscii

definition bootstrap_email_match :: "string \<Rightarrow> string \<Rightarrow> email_match" where
  "bootstrap_email_match token configured = (if list_ex (\<lambda>ch. 127 < (of_char ch :: nat)) token then NonAscii else
     let want = ascii_email_norm configured in
     if want \<noteq> [] \<and> ascii_email_norm token = want then Matches else Differs)"

definition approval_ttl_ms :: int where "approval_ttl_ms = 7 * 86400000"

text \<open>The verified claims and the configuration of one callback.\<close>

record callback_env =
  cb_sub :: string
  cb_email :: string
  cb_given :: string
  cb_family :: string
  cb_picture :: string
  cb_closed :: bool \<comment> \<open>sign-ups are closed\<close>
  cb_bootstrap :: string \<comment> \<open>the configured bootstrap owner\<close>
  cb_cutoff :: iso

definition callback_cutoff :: "int \<Rightarrow> iso" where
  "callback_cutoff now_ms = iso_z (now_ms - approval_ttl_ms)"

definition gate_new_account :: "callback_env \<Rightarrow> bool" where
  "gate_new_account e \<longleftrightarrow> cb_closed e \<and> bootstrap_email_match (cb_email e) (cb_bootstrap e) \<noteq> Matches"

datatype sign_in =
    Starting
  | Exchanging
  | Resolving string
  | Resolving_owner string
  | Creating string
  | Rereading string bool
  | Found string user_row
  | Claiming string
  | Issued string
  | Refused_with string

definition sign_in_start :: "callback_env \<Rightarrow> catalog \<Rightarrow> sign_in" where
  "sign_in_start e c = (if gate_new_account e \<and> auth_get_user_by_google_sub_any (cb_sub e) c = None then
       if bootstrap_email_match (cb_email e) (cb_bootstrap e) = NonAscii then Refused_with ''signup_closed'' else
       if \<not> auth_has_usable_account_approval (ascii_email_norm (cb_email e)) (cb_cutoff e) c then Refused_with ''signup_closed''
       else Exchanging
     else Exchanging)"

text \<open>The transaction that makes the account.\<close>

fun materialize :: "string \<Rightarrow> invite_row list \<Rightarrow> unit cat" where
  "materialize u [] = creturn ()"
| "materialize u (i # is) = cbind (auth_add_membership_with_role u (iv_studio i) Member) (\<lambda>_. materialize u is)"

definition create_account :: "callback_env \<Rightarrow> iso \<Rightarrow> string \<Rightarrow> string option cat" where
  "create_account e now auth_id =
     cbind (auth_create_user_google now \<lparr>nu_id = auth_id, nu_sub = cb_sub e,
         nu_email = (if cb_email e = [] then cb_sub e @ ''@users.noreply.invalid'' else cb_email e),
         nu_given = cb_given e, nu_family = cb_family e, nu_picture = cb_picture e\<rparr>) (\<lambda>made. case made of
       None \<Rightarrow> creturn None
     | Some u \<Rightarrow>
       cbind (if gate_new_account e then auth_consume_account_approval (ascii_email_norm (cb_email e)) (cb_cutoff e) else creturn True) (\<lambda>ok.
       if \<not> ok then cthrow SignupRefused else
       if cb_email e = [] then creturn (Some u) else
       cbind (auth_consume_invites_for_email (normalize_email (cb_email e))) (\<lambda>invites.
       cbind (materialize u invites) (\<lambda>_. creturn (Some u)))))"

definition found_account :: "string \<Rightarrow> user_row \<Rightarrow> sign_in" where
  "found_account auth_id w = (if us_id w \<noteq> auth_id then Refused_with ''identity_unavailable'' else
     if us_disabled w \<noteq> None then Refused_with ''account_disabled'' else Found auth_id w)"

text \<open>One step: the next state and the catalog. A catalog error other than a refusal is the route's 500 and leaves
  both. The bootstrap owner's claim fails open.\<close>

fun sign_in_step :: "callback_env \<Rightarrow> iso \<Rightarrow> string option \<Rightarrow> sign_in \<Rightarrow> catalog \<Rightarrow> (sign_in \<times> catalog) option" where
  "sign_in_step e now auth Starting c = Some (sign_in_start e c, c)"
| "sign_in_step e now auth Exchanging c = Some (case auth of None \<Rightarrow> Refused_with ''identity_unavailable'' | Some i \<Rightarrow> Resolving i, c)"
| "sign_in_step e now auth (Resolving i) c = Some (case auth_get_user_by_google_sub_any (cb_sub e) c of
     Some w \<Rightarrow> found_account i w | None \<Rightarrow> Resolving_owner i, c)"
| "sign_in_step e now auth (Resolving_owner i) c = Some (case auth_get_user_row_any i c of
     Some w \<Rightarrow> if us_sub w \<noteq> cb_sub e then Refused_with ''identity_unavailable'' else found_account i w
   | None \<Rightarrow> Creating i, c)"
| "sign_in_step e now auth (Creating i) c = (case create_account e now i c of
     Inr (Some u, c') \<Rightarrow> Some (Claiming u, c')
   | Inr (None, c') \<Rightarrow> Some (Rereading i False, c')
   | Inl SignupRefused \<Rightarrow> Some (Rereading i True, c)
   | Inl _ \<Rightarrow> None)"
| "sign_in_step e now auth (Rereading i refused) c = Some (case auth_get_user_by_google_sub_any (cb_sub e) c of
     Some w \<Rightarrow> found_account i w
   | None \<Rightarrow> Refused_with (if refused then ''signup_closed'' else ''identity_unavailable''), c)"
| "sign_in_step e now auth (Found i w) c = (case auth_update_user_profile (us_id w) \<lparr>pf_email = Some (cb_email e),
       pf_given = Some (cb_given e), pf_family = Some (cb_family e), pf_picture = Some (cb_picture e)\<rparr> c of
     Inr (_, c') \<Rightarrow> Some (Claiming (us_id w), c') | Inl _ \<Rightarrow> None)"
| "sign_in_step e now auth (Claiming u) c =
     (if bootstrap_email_match (cb_email e) (cb_bootstrap e) = Matches then
        (case auth_claim_ownerless_studios u c of Inr (_, c') \<Rightarrow> Some (Issued u, c') | Inl _ \<Rightarrow> Some (Issued u, c))
      else Some (Issued u, c))"
| "sign_in_step e now auth (Issued u) c = None"
| "sign_in_step e now auth (Refused_with code) c = None"

end
