(* ===== verification/CatalogInvariant.thy ===== *)
theory CatalogInvariant
  imports StudioStore
begin

section \<open>The catalog's invariant\<close>

text \<open>
  What the code keeps of the catalog beyond the schema's constraints, in terms of what can be observed of it:
  a user's role in a team, the teams, invites, shows and grants. The lemmas say how each statement changes
  the observations, that it meets the constraints, and that it keeps the invariant.
\<close>

abbreviation role_of :: "catalog \<Rightarrow> string \<Rightarrow> string \<Rightarrow> role option" where
  "role_of c u t \<equiv> auth_get_membership_role u t c"

definition sole_owner :: "catalog \<Rightarrow> bool" where
  "sole_owner c \<longleftrightarrow> (\<forall>t u v. role_of c u t = Some Owner \<longrightarrow> role_of c v t = Some Owner \<longrightarrow> u = v)"

definition pending_capped :: "catalog \<Rightarrow> bool" where
  "pending_capped c \<longleftrightarrow> (\<forall>t. auth_count_pending_invites t c \<le> 200)"

definition teams_exist :: "catalog \<Rightarrow> bool" where
  "teams_exist c \<longleftrightarrow> (\<forall>u t. role_of c u t \<noteq> None \<longrightarrow> studio_exists t c) \<and>
     (\<forall>t e. invited t e c \<longrightarrow> studio_exists t c) \<and> (\<forall>t. has_shows t c \<longrightarrow> studio_exists t c)"

definition grants_held :: "catalog \<Rightarrow> bool" where
  "grants_held c \<longleftrightarrow> (\<forall>u sh. granted u sh c \<longrightarrow> (\<exists>s. get_show_row sh c = Some s \<and> role_of c u (sw_studio s) \<noteq> None))"

definition catalog_ok :: "catalog \<Rightarrow> bool" where
  "catalog_ok c \<longleftrightarrow> constraints_hold c \<and> teams_exist c \<and> grants_held c \<and> pending_capped c"

subsection \<open>Observations\<close>

lemma find_map_key: "(\<And>x. P (f x) = P x) \<Longrightarrow> find P (map f xs) = map_option f (find P xs)"
  by (induction xs) auto

lemma find_sound: "find P xs = Some x \<Longrightarrow> P x"
  by (induction xs) (auto split: if_splits)

lemma member_key_upd [simp]: "member_key (m\<lparr>mb_role := r\<rparr>) = member_key m"
  by (simp add: member_key_def)

lemma has_studio_role: "auth_user_has_studio u t c \<longleftrightarrow> role_of c u t \<noteq> None"
  by (auto simp: auth_user_has_studio_def auth_get_membership_role_def list_ex_iff find_None_iff)

lemma role_add_member: "role_of (add_member u t r c) v s = (if (v, s) = (u, t) \<and> role_of c u t = None then Some r else role_of c v s)"
proof (cases "role_of c u t")
  case None
  have "find P (xs @ [y]) = (case find P xs of None \<Rightarrow> if P y then Some y else None | Some z \<Rightarrow> Some z)" for P :: "member_row \<Rightarrow> bool" and xs y
    by (induction xs) auto
  with None show ?thesis
    by (auto simp: add_member_def has_studio_role) (auto simp: auth_get_membership_role_def member_key_def split: option.splits)
qed (simp add: add_member_def has_studio_role)

lemma role_set_role: "role_of (set_role u t r c) v s = (if (v, s) = (u, t) then map_option (\<lambda>_. r) (role_of c u t) else role_of c v s)"
proof -
  have "find (\<lambda>m. member_key m = (v, s)) (map (\<lambda>m. if member_key m = (u, t) then m\<lparr>mb_role := r\<rparr> else m) (ct_members c)) =
      map_option (\<lambda>m. if member_key m = (u, t) then m\<lparr>mb_role := r\<rparr> else m) (find (\<lambda>m. member_key m = (v, s)) (ct_members c))"
    by (rule find_map_key) simp
  then show ?thesis
    by (cases "find (\<lambda>m. member_key m = (v, s)) (ct_members c)")
      (auto simp: auth_get_membership_role_def set_role_def dest: find_sound)
qed

lemma role_demote_owners: "role_of (demote_owners t u c) v s =
    (if s = t \<and> v \<noteq> u \<and> role_of c v s = Some Owner then Some Admin else role_of c v s)"
proof -
  let ?f = "\<lambda>m. if mb_studio m = t \<and> mb_role m = Owner \<and> mb_user m \<noteq> u then m\<lparr>mb_role := Admin\<rparr> else m"
  have "find (\<lambda>m. member_key m = (v, s)) (map ?f (ct_members c)) = map_option ?f (find (\<lambda>m. member_key m = (v, s)) (ct_members c))"
    by (rule find_map_key) simp
  then show ?thesis
    by (cases "find (\<lambda>m. member_key m = (v, s)) (ct_members c)")
      (auto simp: auth_get_membership_role_def demote_owners_def member_key_def dest: find_sound)
qed

lemma find_filter_out: "(\<And>x. P x \<Longrightarrow> \<not> Q x) \<Longrightarrow> find P (filter Q xs) = None"
  by (induction xs) auto

lemma find_filter_in: "(\<And>x. P x \<Longrightarrow> Q x) \<Longrightarrow> find P (filter Q xs) = find P xs"
  by (induction xs) auto

lemma role_drop_members: "role_of (drop_members t c) v s = (if s = t then None else role_of c v s)"
  by (auto simp: auth_get_membership_role_def drop_members_def member_key_def intro!: find_filter_out arg_cong [of _ _ "map_option mb_role"] find_filter_in)

lemma role_drop_member: "role_of (c\<lparr>ct_members := filter (\<lambda>m. member_key m \<noteq> (u, t)) (ct_members c)\<rparr>) v s =
    (if (v, s) = (u, t) then None else role_of c v s)"
  by (auto simp: auth_get_membership_role_def intro!: find_filter_out arg_cong [of _ _ "map_option mb_role"] find_filter_in)

lemmas role_changes = role_add_member role_set_role role_demote_owners role_drop_members role_drop_member

subsection \<open>The constraints, observed\<close>

lemma role_Some_iff:
  assumes "distinct (map member_key (ct_members c))"
  shows "role_of c u t = Some r \<longleftrightarrow> (\<exists>m \<in> set (ct_members c). member_key m = (u, t) \<and> mb_role m = r)"
  using find_Some_iff_distinct [OF assms, of "(u, t)"] by (auto simp: auth_get_membership_role_def)

lemma role_None_iff: "role_of c u t = None \<longleftrightarrow> (\<forall>m \<in> set (ct_members c). member_key m \<noteq> (u, t))"
  by (auto simp: auth_get_membership_role_def find_None_iff)

lemma one_owner_iff:
  assumes d: "distinct (map member_key (ct_members c))"
  shows "one_owner (ct_members c) \<longleftrightarrow> sole_owner c"
proof -
  have inj: "m = m'" if "m \<in> set (ct_members c)" "m' \<in> set (ct_members c)" "member_key m = member_key m'" for m m'
    using d that by (auto simp: distinct_map inj_on_def)
  have "distinct (filter (\<lambda>m. mb_role m = Owner) (ct_members c))" using d by (simp add: distinct_map)
  then have "one_owner (ct_members c) \<longleftrightarrow> inj_on mb_studio {m \<in> set (ct_members c). mb_role m = Owner}"
    by (simp add: one_owner_def distinct_map)
  also have "\<dots> \<longleftrightarrow> sole_owner c"
  proof
    assume i: "inj_on mb_studio {m \<in> set (ct_members c). mb_role m = Owner}"
    show "sole_owner c"
      unfolding sole_owner_def role_Some_iff [OF d]
    proof clarify
      fix t u v m m'
      assume "m \<in> set (ct_members c)" "member_key m = (u, t)" "mb_role m = Owner"
        "m' \<in> set (ct_members c)" "member_key m' = (v, t)" "mb_role m' = Owner"
      with i have "m = m'" by (auto simp: inj_on_def member_key_def)
      with \<open>member_key m = (u, t)\<close> \<open>member_key m' = (v, t)\<close> show "u = v" by simp
    qed
  next
    assume s: "sole_owner c"
    show "inj_on mb_studio {m \<in> set (ct_members c). mb_role m = Owner}"
    proof (rule inj_onI, clarify)
      fix m m'
      assume m: "m \<in> set (ct_members c)" "mb_role m = Owner" "m' \<in> set (ct_members c)" "mb_role m' = Owner" "mb_studio m = mb_studio m'"
      have "role_of c (mb_user x) (mb_studio x) = Some Owner" if "x \<in> set (ct_members c)" "mb_role x = Owner" for x
        using that role_Some_iff [OF d] by (auto simp: member_key_def)
      from this [of m] this [of m'] m s have "mb_user m = mb_user m'" by (metis sole_owner_def)
      with m inj [of m m'] show "m = m'" by (simp add: member_key_def)
    qed
  qed
  finally show ?thesis .
qed

lemma member_users: "mb_user ` set (ct_members c) \<subseteq> A \<longleftrightarrow> (\<forall>u t. role_of c u t \<noteq> None \<longrightarrow> u \<in> A)"
  unfolding role_None_iff by (auto simp: member_key_def)

lemma constraints_distinct:
  assumes "constraints_hold c"
  shows "distinct (map us_id (ct_users c))" "distinct (map us_sub (ct_users c))" "distinct (map member_key (ct_members c))"
    "distinct (map pr_user (ct_prefs c))" "distinct (map sd_id (ct_studios c))" "distinct (map sw_id (ct_shows c))"
    "distinct (map grant_key (ct_grants c))" "distinct (map invite_key (ct_invites c))"
    "distinct (map ap_email (ct_approvals c))" "distinct (map fst (ct_settings c))" "distinct (map ix_id (ct_sessions c))"
  using assms by (simp_all add: constraints_hold_def keys_hold_def)

lemma constraints_owner: "constraints_hold c \<Longrightarrow> sole_owner c"
  using one_owner_iff [of c] constraints_distinct(3) by (auto simp: constraints_hold_def)

lemma constraints_member_user: "constraints_hold c \<Longrightarrow> role_of c u t \<noteq> None \<Longrightarrow> u \<in> user_ids c"
  using member_users [of c "user_ids c"] unfolding constraints_hold_def references_hold_def by blast

lemma members_constraints:
  assumes "constraints_hold c" "distinct (map member_key ms)" "sole_owner (c\<lparr>ct_members := ms\<rparr>)"
    and "\<And>u t. role_of (c\<lparr>ct_members := ms\<rparr>) u t \<noteq> None \<Longrightarrow> u \<in> user_ids c"
  shows "constraints_hold (c\<lparr>ct_members := ms\<rparr>)"
proof -
  let ?c = "c\<lparr>ct_members := ms\<rparr>"
  have d: "distinct (map member_key (ct_members ?c))" using assms(2) by simp
  have "mb_user ` set ms \<subseteq> user_ids c" using member_users [of ?c "user_ids c"] assms(4) by simp
  then show ?thesis
    using assms(1,2) one_owner_iff [OF d] assms(3)
    by (simp add: constraints_hold_def keys_hold_def references_hold_def user_ids_def show_ids_def)
qed

named_theorems upholds \<open>statements that the constraints let through\<close>

lemma add_member_upholds [upholds]:
  assumes c: "constraints_hold c" and u: "u \<in> user_ids c" and o: "r = Owner \<Longrightarrow> (\<And>v. role_of c v t \<noteq> Some Owner)"
  shows "constraints_hold (add_member u t r c)"
proof (cases "auth_user_has_studio u t c")
  case False
  let ?ms = "ct_members c @ [\<lparr>mb_user = u, mb_studio = t, mb_role = r\<rparr>]"
  have e: "add_member u t r c = c\<lparr>ct_members := ?ms\<rparr>" using False by (simp add: add_member_def)
  have "distinct (map member_key ?ms)"
    using constraints_distinct(3) [OF c] False by (auto simp: auth_user_has_studio_def list_ex_iff member_key_def)
  moreover have "sole_owner (c\<lparr>ct_members := ?ms\<rparr>)"
    unfolding e [symmetric] sole_owner_def role_add_member using constraints_owner [OF c] o by (auto simp: sole_owner_def)
  moreover have "role_of (c\<lparr>ct_members := ?ms\<rparr>) v s \<noteq> None \<Longrightarrow> v \<in> user_ids c" for v s
    unfolding e [symmetric] role_add_member using constraints_member_user [OF c] u by (auto split: if_splits)
  ultimately show ?thesis unfolding e by (rule members_constraints [OF c])
qed (simp add: add_member_def c)

lemma set_role_upholds [upholds]:
  assumes c: "constraints_hold c" and o: "r = Owner \<Longrightarrow> (\<And>v. role_of c v t = Some Owner \<Longrightarrow> v = u)"
  shows "constraints_hold (set_role u t r c)"
proof -
  let ?ms = "map (\<lambda>m. if member_key m = (u, t) then m\<lparr>mb_role := r\<rparr> else m) (ct_members c)"
  have e: "set_role u t r c = c\<lparr>ct_members := ?ms\<rparr>" by (simp add: set_role_def)
  have "map member_key ?ms = map member_key (ct_members c)" by simp
  then have "distinct (map member_key ?ms)" using constraints_distinct(3) [OF c] by metis
  moreover have "sole_owner (c\<lparr>ct_members := ?ms\<rparr>)"
    unfolding e [symmetric] sole_owner_def role_set_role using constraints_owner [OF c] o by (auto simp: sole_owner_def)
  moreover have "role_of (c\<lparr>ct_members := ?ms\<rparr>) v s \<noteq> None \<Longrightarrow> v \<in> user_ids c" for v s
    unfolding e [symmetric] role_set_role using constraints_member_user [OF c] by (auto split: if_splits)
  ultimately show ?thesis unfolding e by (rule members_constraints [OF c])
qed

lemma demote_owners_upholds [upholds]:
  assumes c: "constraints_hold c"
  shows "constraints_hold (demote_owners t u c)"
proof -
  let ?ms = "map (\<lambda>m. if mb_studio m = t \<and> mb_role m = Owner \<and> mb_user m \<noteq> u then m\<lparr>mb_role := Admin\<rparr> else m) (ct_members c)"
  have e: "demote_owners t u c = c\<lparr>ct_members := ?ms\<rparr>" by (simp add: demote_owners_def)
  have "map member_key ?ms = map member_key (ct_members c)" by simp
  then have "distinct (map member_key ?ms)" using constraints_distinct(3) [OF c] by metis
  moreover have "sole_owner (c\<lparr>ct_members := ?ms\<rparr>)"
    unfolding e [symmetric] sole_owner_def role_demote_owners using constraints_owner [OF c] by (auto simp: sole_owner_def split: if_splits)
  moreover have "role_of (c\<lparr>ct_members := ?ms\<rparr>) v s \<noteq> None \<Longrightarrow> v \<in> user_ids c" for v s
    unfolding e [symmetric] role_demote_owners using constraints_member_user [OF c] by (auto split: if_splits)
  ultimately show ?thesis unfolding e by (rule members_constraints [OF c])
qed

lemma filter_members_upholds [upholds]: "constraints_hold c \<Longrightarrow> constraints_hold (c\<lparr>ct_members := filter P (ct_members c)\<rparr>)"
  by (auto simp: constraints_hold_def keys_hold_def references_hold_def one_owner_def user_ids_def show_ids_def distinct_map
      inj_on_def filter_filter conj_commute)

lemma drop_members_upholds [upholds]: "constraints_hold c \<Longrightarrow> constraints_hold (drop_members t c)"
  unfolding drop_members_def by (rule filter_members_upholds)

subsection \<open>What a statement leaves alone\<close>

lemma role_fields [simp]:
  "role_of (c\<lparr>ct_users := x0\<rparr>) u t = role_of c u t"
  "role_of (c\<lparr>ct_prefs := x2\<rparr>) u t = role_of c u t"
  "role_of (c\<lparr>ct_studios := x3\<rparr>) u t = role_of c u t"
  "role_of (c\<lparr>ct_shows := x4\<rparr>) u t = role_of c u t"
  "role_of (c\<lparr>ct_grants := x5\<rparr>) u t = role_of c u t"
  "role_of (c\<lparr>ct_invites := x6\<rparr>) u t = role_of c u t"
  "role_of (c\<lparr>ct_approvals := x7\<rparr>) u t = role_of c u t"
  "role_of (c\<lparr>ct_settings := x8\<rparr>) u t = role_of c u t"
  "role_of (c\<lparr>ct_sessions := x9\<rparr>) u t = role_of c u t"
  by (simp_all add: auth_get_membership_role_def)

lemma studio_fields [simp]:
  "studio_exists t (c\<lparr>ct_users := x0\<rparr>) = studio_exists t c"
  "studio_exists t (c\<lparr>ct_members := x1\<rparr>) = studio_exists t c"
  "studio_exists t (c\<lparr>ct_prefs := x2\<rparr>) = studio_exists t c"
  "studio_exists t (c\<lparr>ct_shows := x4\<rparr>) = studio_exists t c"
  "studio_exists t (c\<lparr>ct_grants := x5\<rparr>) = studio_exists t c"
  "studio_exists t (c\<lparr>ct_invites := x6\<rparr>) = studio_exists t c"
  "studio_exists t (c\<lparr>ct_approvals := x7\<rparr>) = studio_exists t c"
  "studio_exists t (c\<lparr>ct_settings := x8\<rparr>) = studio_exists t c"
  "studio_exists t (c\<lparr>ct_sessions := x9\<rparr>) = studio_exists t c"
  by (simp_all add: studio_exists_def)

lemma invited_fields [simp]:
  "invited t e (c\<lparr>ct_users := x0\<rparr>) = invited t e c"
  "invited t e (c\<lparr>ct_members := x1\<rparr>) = invited t e c"
  "invited t e (c\<lparr>ct_prefs := x2\<rparr>) = invited t e c"
  "invited t e (c\<lparr>ct_studios := x3\<rparr>) = invited t e c"
  "invited t e (c\<lparr>ct_shows := x4\<rparr>) = invited t e c"
  "invited t e (c\<lparr>ct_grants := x5\<rparr>) = invited t e c"
  "invited t e (c\<lparr>ct_approvals := x7\<rparr>) = invited t e c"
  "invited t e (c\<lparr>ct_settings := x8\<rparr>) = invited t e c"
  "invited t e (c\<lparr>ct_sessions := x9\<rparr>) = invited t e c"
  by (simp_all add: invited_def)

lemma pending_fields [simp]:
  "auth_count_pending_invites t (c\<lparr>ct_users := x0\<rparr>) = auth_count_pending_invites t c"
  "auth_count_pending_invites t (c\<lparr>ct_members := x1\<rparr>) = auth_count_pending_invites t c"
  "auth_count_pending_invites t (c\<lparr>ct_prefs := x2\<rparr>) = auth_count_pending_invites t c"
  "auth_count_pending_invites t (c\<lparr>ct_studios := x3\<rparr>) = auth_count_pending_invites t c"
  "auth_count_pending_invites t (c\<lparr>ct_shows := x4\<rparr>) = auth_count_pending_invites t c"
  "auth_count_pending_invites t (c\<lparr>ct_grants := x5\<rparr>) = auth_count_pending_invites t c"
  "auth_count_pending_invites t (c\<lparr>ct_approvals := x7\<rparr>) = auth_count_pending_invites t c"
  "auth_count_pending_invites t (c\<lparr>ct_settings := x8\<rparr>) = auth_count_pending_invites t c"
  "auth_count_pending_invites t (c\<lparr>ct_sessions := x9\<rparr>) = auth_count_pending_invites t c"
  by (simp_all add: auth_count_pending_invites_def)

lemma has_shows_fields [simp]:
  "has_shows t (c\<lparr>ct_users := x0\<rparr>) = has_shows t c"
  "has_shows t (c\<lparr>ct_members := x1\<rparr>) = has_shows t c"
  "has_shows t (c\<lparr>ct_prefs := x2\<rparr>) = has_shows t c"
  "has_shows t (c\<lparr>ct_studios := x3\<rparr>) = has_shows t c"
  "has_shows t (c\<lparr>ct_grants := x5\<rparr>) = has_shows t c"
  "has_shows t (c\<lparr>ct_invites := x6\<rparr>) = has_shows t c"
  "has_shows t (c\<lparr>ct_approvals := x7\<rparr>) = has_shows t c"
  "has_shows t (c\<lparr>ct_settings := x8\<rparr>) = has_shows t c"
  "has_shows t (c\<lparr>ct_sessions := x9\<rparr>) = has_shows t c"
  by (simp_all add: has_shows_def)

lemma show_row_fields [simp]:
  "get_show_row sh (c\<lparr>ct_users := x0\<rparr>) = get_show_row sh c"
  "get_show_row sh (c\<lparr>ct_members := x1\<rparr>) = get_show_row sh c"
  "get_show_row sh (c\<lparr>ct_prefs := x2\<rparr>) = get_show_row sh c"
  "get_show_row sh (c\<lparr>ct_studios := x3\<rparr>) = get_show_row sh c"
  "get_show_row sh (c\<lparr>ct_grants := x5\<rparr>) = get_show_row sh c"
  "get_show_row sh (c\<lparr>ct_invites := x6\<rparr>) = get_show_row sh c"
  "get_show_row sh (c\<lparr>ct_approvals := x7\<rparr>) = get_show_row sh c"
  "get_show_row sh (c\<lparr>ct_settings := x8\<rparr>) = get_show_row sh c"
  "get_show_row sh (c\<lparr>ct_sessions := x9\<rparr>) = get_show_row sh c"
  by (simp_all add: get_show_row_def)

lemma granted_fields [simp]:
  "granted u sh (c\<lparr>ct_users := x0\<rparr>) = granted u sh c"
  "granted u sh (c\<lparr>ct_members := x1\<rparr>) = granted u sh c"
  "granted u sh (c\<lparr>ct_prefs := x2\<rparr>) = granted u sh c"
  "granted u sh (c\<lparr>ct_studios := x3\<rparr>) = granted u sh c"
  "granted u sh (c\<lparr>ct_shows := x4\<rparr>) = granted u sh c"
  "granted u sh (c\<lparr>ct_invites := x6\<rparr>) = granted u sh c"
  "granted u sh (c\<lparr>ct_approvals := x7\<rparr>) = granted u sh c"
  "granted u sh (c\<lparr>ct_settings := x8\<rparr>) = granted u sh c"
  "granted u sh (c\<lparr>ct_sessions := x9\<rparr>) = granted u sh c"
  by (simp_all add: granted_def)

lemma user_ids_fields [simp]:
  "user_ids (c\<lparr>ct_members := x1\<rparr>) = user_ids c"
  "user_ids (c\<lparr>ct_prefs := x2\<rparr>) = user_ids c"
  "user_ids (c\<lparr>ct_studios := x3\<rparr>) = user_ids c"
  "user_ids (c\<lparr>ct_shows := x4\<rparr>) = user_ids c"
  "user_ids (c\<lparr>ct_grants := x5\<rparr>) = user_ids c"
  "user_ids (c\<lparr>ct_invites := x6\<rparr>) = user_ids c"
  "user_ids (c\<lparr>ct_approvals := x7\<rparr>) = user_ids c"
  "user_ids (c\<lparr>ct_settings := x8\<rparr>) = user_ids c"
  "user_ids (c\<lparr>ct_sessions := x9\<rparr>) = user_ids c"
  by (simp_all add: user_ids_def)

lemma show_ids_fields [simp]:
  "show_ids (c\<lparr>ct_users := x0\<rparr>) = show_ids c"
  "show_ids (c\<lparr>ct_members := x1\<rparr>) = show_ids c"
  "show_ids (c\<lparr>ct_prefs := x2\<rparr>) = show_ids c"
  "show_ids (c\<lparr>ct_studios := x3\<rparr>) = show_ids c"
  "show_ids (c\<lparr>ct_grants := x5\<rparr>) = show_ids c"
  "show_ids (c\<lparr>ct_invites := x6\<rparr>) = show_ids c"
  "show_ids (c\<lparr>ct_approvals := x7\<rparr>) = show_ids c"
  "show_ids (c\<lparr>ct_settings := x8\<rparr>) = show_ids c"
  "show_ids (c\<lparr>ct_sessions := x9\<rparr>) = show_ids c"
  by (simp_all add: show_ids_def)

lemma member_writes [simp]:
  "studio_exists s (add_member u t r c) = studio_exists s c" "studio_exists s (set_role u t r c) = studio_exists s c"
  "studio_exists s (demote_owners t u c) = studio_exists s c" "studio_exists s (drop_members t c) = studio_exists s c"
  "invited s e (add_member u t r c) = invited s e c" "invited s e (set_role u t r c) = invited s e c"
  "invited s e (demote_owners t u c) = invited s e c" "invited s e (drop_members t c) = invited s e c"
  "auth_count_pending_invites s (add_member u t r c) = auth_count_pending_invites s c"
  "auth_count_pending_invites s (set_role u t r c) = auth_count_pending_invites s c"
  "auth_count_pending_invites s (demote_owners t u c) = auth_count_pending_invites s c"
  "auth_count_pending_invites s (drop_members t c) = auth_count_pending_invites s c"
  "has_shows s (add_member u t r c) = has_shows s c" "has_shows s (set_role u t r c) = has_shows s c"
  "has_shows s (demote_owners t u c) = has_shows s c" "has_shows s (drop_members t c) = has_shows s c"
  "get_show_row sh (add_member u t r c) = get_show_row sh c" "get_show_row sh (set_role u t r c) = get_show_row sh c"
  "get_show_row sh (demote_owners t u c) = get_show_row sh c" "get_show_row sh (drop_members t c) = get_show_row sh c"
  "granted v sh (add_member u t r c) = granted v sh c" "granted v sh (set_role u t r c) = granted v sh c"
  "granted v sh (demote_owners t u c) = granted v sh c" "granted v sh (drop_members t c) = granted v sh c"
  "user_ids (add_member u t r c) = user_ids c" "user_ids (set_role u t r c) = user_ids c"
  "user_ids (demote_owners t u c) = user_ids c" "user_ids (drop_members t c) = user_ids c"
  by (simp_all add: add_member_def set_role_def demote_owners_def drop_members_def)

lemma drop_invites_obs [simp]:
  "role_of (drop_invites t c) w s = role_of c w s" "studio_exists s (drop_invites t c) = studio_exists s c"
  "has_shows s (drop_invites t c) = has_shows s c" "get_show_row sh (drop_invites t c) = get_show_row sh c"
  "granted v sh (drop_invites t c) = granted v sh c" "user_ids (drop_invites t c) = user_ids c"
  "invited s e (drop_invites t c) \<longleftrightarrow> s \<noteq> t \<and> invited s e c"
  "auth_count_pending_invites s (drop_invites t c) = (if s = t then 0 else auth_count_pending_invites s c)"
  by (auto simp: drop_invites_def fun_eq_iff invited_def list_ex_iff invite_key_def auth_count_pending_invites_def
      intro!: arg_cong [of _ _ length] filter_cong)

lemma put_setting_obs [simp]:
  "role_of (put_setting k v c) w s = role_of c w s" "studio_exists s (put_setting k v c) = studio_exists s c"
  "invited s e (put_setting k v c) = invited s e c" "auth_count_pending_invites s (put_setting k v c) = auth_count_pending_invites s c"
  "has_shows s (put_setting k v c) = has_shows s c" "get_show_row sh (put_setting k v c) = get_show_row sh c"
  "granted u sh (put_setting k v c) = granted u sh c" "user_ids (put_setting k v c) = user_ids c"
  by (simp_all add: put_setting_def fun_eq_iff)

lemma update_user_obs [simp]:
  "role_of (update_user i f c) w s = role_of c w s" "studio_exists s (update_user i f c) = studio_exists s c"
  "invited s e (update_user i f c) = invited s e c" "auth_count_pending_invites s (update_user i f c) = auth_count_pending_invites s c"
  "has_shows s (update_user i f c) = has_shows s c" "get_show_row sh (update_user i f c) = get_show_row sh c"
  "granted u sh (update_user i f c) = granted u sh c"
  by (simp_all add: update_user_def fun_eq_iff)

subsection \<open>The other statements meet the constraints\<close>

lemma user_ids_update_user [simp]:
  assumes "\<And>u. us_id (f u) = us_id u"
  shows "user_ids (update_user i f c) = user_ids c"
proof -
  have "map us_id (ct_users (update_user i f c)) = map us_id (ct_users c)" using assms by (simp add: update_user_def)
  then show ?thesis unfolding user_ids_def set_map [symmetric] by simp
qed

lemmas constraint_defs = constraints_hold_def keys_hold_def references_hold_def

lemma update_user_upholds [upholds]:
  assumes "constraints_hold c" "\<And>u. us_id (f u) = us_id u" "\<And>u. us_sub (f u) = us_sub u"
  shows "constraints_hold (update_user i f c)"
proof -
  have "map us_id (ct_users (update_user i f c)) = map us_id (ct_users c)"
    "map us_sub (ct_users (update_user i f c)) = map us_sub (ct_users c)" using assms(2,3) by (simp_all add: update_user_def)
  moreover have "user_ids (update_user i f c) = user_ids c" using assms(2) by simp
  ultimately show ?thesis
    using assms(1) by (simp add: constraint_defs) (simp add: update_user_def)
qed

lemma append_user_upholds [upholds]: "constraints_hold c \<Longrightarrow> us_id n \<notin> user_ids c \<Longrightarrow> us_sub n \<notin> us_sub ` set (ct_users c) \<Longrightarrow>
    constraints_hold (c\<lparr>ct_users := ct_users c @ [n]\<rparr>)"
  by (auto simp: constraint_defs user_ids_def)

lemma filter_upholds [upholds]:
  "constraints_hold c \<Longrightarrow> constraints_hold (c\<lparr>ct_invites := filter P (ct_invites c)\<rparr>)"
  "constraints_hold c \<Longrightarrow> constraints_hold (c\<lparr>ct_grants := filter Q (ct_grants c)\<rparr>)"
  "constraints_hold c \<Longrightarrow> constraints_hold (c\<lparr>ct_approvals := filter R (ct_approvals c)\<rparr>)"
  "constraints_hold c \<Longrightarrow> constraints_hold (c\<lparr>ct_settings := filter S (ct_settings c)\<rparr>)"
  "constraints_hold c \<Longrightarrow> constraints_hold (c\<lparr>ct_studios := filter T (ct_studios c)\<rparr>)"
  by (auto simp: constraint_defs distinct_map inj_on_def)

lemma drop_invites_upholds [upholds]: "constraints_hold c \<Longrightarrow> constraints_hold (drop_invites t c)"
  unfolding drop_invites_def by (rule filter_upholds)

lemma append_upholds [upholds]:
  "constraints_hold c \<Longrightarrow> \<not> studio_exists (sd_id s) c \<Longrightarrow> constraints_hold (c\<lparr>ct_studios := ct_studios c @ [s]\<rparr>)"
  "constraints_hold c \<Longrightarrow> sw_id w \<notin> show_ids c \<Longrightarrow> constraints_hold (c\<lparr>ct_shows := ct_shows c @ [w]\<rparr>)"
  "constraints_hold c \<Longrightarrow> \<not> granted (gr_user g) (gr_show g) c \<Longrightarrow> gr_user g \<in> user_ids c \<Longrightarrow> gr_show g \<in> show_ids c \<Longrightarrow>
    constraints_hold (c\<lparr>ct_grants := ct_grants c @ [g]\<rparr>)"
  "constraints_hold c \<Longrightarrow> \<not> invited (iv_studio i) (iv_email i) c \<Longrightarrow> constraints_hold (c\<lparr>ct_invites := ct_invites c @ [i]\<rparr>)"
  by (auto simp: constraint_defs studio_exists_def granted_def invited_def list_ex_iff grant_key_def invite_key_def show_ids_def)

lemma map_upholds [upholds]:
  "constraints_hold c \<Longrightarrow> (\<And>s. sd_id (f s) = sd_id s) \<Longrightarrow> constraints_hold (c\<lparr>ct_studios := map f (ct_studios c)\<rparr>)"
  "constraints_hold c \<Longrightarrow> (\<And>i. invite_key (g i) = invite_key i) \<Longrightarrow> constraints_hold (c\<lparr>ct_invites := map g (ct_invites c)\<rparr>)"
  by (simp_all add: constraint_defs map_fst_map_update comp_def)

lemma setting_keys: "map (fst \<circ> (\<lambda>(a, b). if a = k then (a, v) else (a, b))) xs = map fst xs"
  by (induction xs) auto

lemma put_setting_upholds [upholds]: "constraints_hold c \<Longrightarrow> constraints_hold (put_setting k v c)"
  by (auto simp: put_setting_def constraint_defs setting_keys)

subsection \<open>What the other statements change\<close>

lemma grant_key_eq: "grant_key g = (u, sh) \<longleftrightarrow> gr_user g = u \<and> gr_show g = sh"
  by (auto simp: grant_key_def)

lemma granted_append [simp]: "granted u sh (c\<lparr>ct_grants := ct_grants c @ [g]\<rparr>) \<longleftrightarrow> granted u sh c \<or> grant_key g = (u, sh)"
  by (simp add: granted_def)

lemma granted_drop [simp]: "granted u sh (c\<lparr>ct_grants := filter (\<lambda>g. grant_key g \<noteq> k) (ct_grants c)\<rparr>) \<longleftrightarrow> granted u sh c \<and> (u, sh) \<noteq> k"
  by (auto simp: granted_def list_ex_iff)

lemma granted_drop_in [simp]: "granted v sh (c\<lparr>ct_grants := filter (\<lambda>g. \<not> (gr_user g = u \<and> P (gr_show g))) (ct_grants c)\<rparr>) \<longleftrightarrow>
    granted v sh c \<and> \<not> (v = u \<and> P sh)"
  by (auto simp: granted_def list_ex_iff grant_key_eq)

lemma invited_append [simp]: "invited t e (c\<lparr>ct_invites := ct_invites c @ [i]\<rparr>) \<longleftrightarrow> invited t e c \<or> invite_key i = (t, e)"
  by (simp add: invited_def)

lemma invited_filter: "invited t e (c\<lparr>ct_invites := filter P (ct_invites c)\<rparr>) \<Longrightarrow> invited t e c"
  by (auto simp: invited_def list_ex_iff)

lemma invited_map [simp]: "(\<And>i. invite_key (g i) = invite_key i) \<Longrightarrow> invited t e (c\<lparr>ct_invites := map g (ct_invites c)\<rparr>) = invited t e c"
  by (simp add: invited_def list_ex_iff)

lemma pending_append [simp]: "auth_count_pending_invites t (c\<lparr>ct_invites := ct_invites c @ [i]\<rparr>) =
    auth_count_pending_invites t c + (if iv_studio i = t then 1 else 0)"
  by (simp add: auth_count_pending_invites_def)

lemma pending_filter: "auth_count_pending_invites t (c\<lparr>ct_invites := filter P (ct_invites c)\<rparr>) \<le> auth_count_pending_invites t c"
proof -
  have "length (filter Q (filter P xs)) \<le> length (filter Q xs)" for Q and xs :: "invite_row list"
    by (induction xs) auto
  then show ?thesis by (simp add: auth_count_pending_invites_def)
qed

lemma pending_map [simp]: "(\<And>i. iv_studio (g i) = iv_studio i) \<Longrightarrow>
    auth_count_pending_invites t (c\<lparr>ct_invites := map g (ct_invites c)\<rparr>) = auth_count_pending_invites t c"
  by (simp add: auth_count_pending_invites_def filter_map comp_def)

lemma studio_append [simp]: "studio_exists t (c\<lparr>ct_studios := ct_studios c @ [s]\<rparr>) \<longleftrightarrow> studio_exists t c \<or> sd_id s = t"
  by (simp add: studio_exists_def)

lemma studio_drop [simp]: "studio_exists t (c\<lparr>ct_studios := filter (\<lambda>s. sd_id s \<noteq> i) (ct_studios c)\<rparr>) \<longleftrightarrow> studio_exists t c \<and> t \<noteq> i"
  by (auto simp: studio_exists_def list_ex_iff)

lemma studio_map [simp]: "(\<And>s. sd_id (f s) = sd_id s) \<Longrightarrow> studio_exists t (c\<lparr>ct_studios := map f (ct_studios c)\<rparr>) = studio_exists t c"
  by (simp add: studio_exists_def list_ex_iff)

lemma show_append: "sw_id w \<notin> show_ids c \<Longrightarrow> get_show_row sh (c\<lparr>ct_shows := ct_shows c @ [w]\<rparr>) =
    (if sw_id w = sh then Some w else get_show_row sh c)"
proof -
  assume "sw_id w \<notin> show_ids c"
  moreover have "find P (xs @ [y]) = (case find P xs of None \<Rightarrow> if P y then Some y else None | Some z \<Rightarrow> Some z)" for P :: "show_row \<Rightarrow> bool" and xs y
    by (induction xs) auto
  moreover have "get_show_row (sw_id w) c = None" if "sw_id w \<notin> show_ids c"
    using that by (auto simp: get_show_row_def find_None_iff show_ids_def image_iff)
  ultimately show ?thesis by (auto simp: get_show_row_def split: option.split)
qed

lemma has_shows_append [simp]: "has_shows t (c\<lparr>ct_shows := ct_shows c @ [w]\<rparr>) \<longleftrightarrow> has_shows t c \<or> sw_studio w = t"
  by (simp add: has_shows_def)

lemma show_row_show: "get_show_row sh c = Some s \<Longrightarrow> s \<in> set (ct_shows c) \<and> sw_id s = sh"
  unfolding get_show_row_def by (metis (mono_tags, lifting) find_Some_iff nth_mem)

lemma show_row_ids: "get_show_row sh c = None \<longleftrightarrow> sh \<notin> show_ids c"
  by (auto simp: get_show_row_def find_None_iff show_ids_def)

lemma show_row_in_studio:
  assumes "constraints_hold c"
  shows "in_studio c t sh \<longleftrightarrow> (\<exists>s. get_show_row sh c = Some s \<and> sw_studio s = t)"
  unfolding in_studio_def list_ex_iff get_show_row_def using find_Some_iff_distinct [OF constraints_distinct(6) [OF assms], of sh] by auto

lemma in_studio_has_shows: "in_studio c t sh \<Longrightarrow> has_shows t c"
  by (auto simp: in_studio_def has_shows_def list_ex_iff)

subsection \<open>Running a transaction\<close>

text \<open>\<open>cat_wp m c Q\<close>: run on \<open>c\<close>, the transaction never trips over the constraints, and what it answers meets \<open>Q\<close>.\<close>

definition cat_wp :: "'a cat \<Rightarrow> catalog \<Rightarrow> ('a \<Rightarrow> catalog \<Rightarrow> bool) \<Rightarrow> bool" where
  "cat_wp m c Q \<longleftrightarrow> (case m c of Inl e \<Rightarrow> e \<noteq> ConstraintFailed | Inr (x, c') \<Rightarrow> Q x c')"

lemma cat_wp_simps [simp]:
  "cat_wp (creturn x) c Q = Q x c" "cat_wp (cthrow e) c Q \<longleftrightarrow> e \<noteq> ConstraintFailed" "cat_wp (cread f) c P = P (f c) c"
  "cat_wp (cwrite g) c R \<longleftrightarrow> constraints_hold (g c) \<and> R () (g c)"
  by (simp_all add: cat_wp_def creturn_def cthrow_def cread_def cwrite_def)

lemma cat_wp_bind [simp]: "cat_wp (cbind m k) c Q = cat_wp m c (\<lambda>x c'. cat_wp (k x) c' Q)"
  by (auto simp: cat_wp_def cbind_def split: sum.split)

lemma cat_wp_if [simp]: "cat_wp (if b then m else n) c Q = (if b then cat_wp m c Q else cat_wp n c Q)"
  by simp

lemma cat_wp_option [simp]: "cat_wp (case x of None \<Rightarrow> m | Some y \<Rightarrow> k y) c Q = (case x of None \<Rightarrow> cat_wp m c Q | Some y \<Rightarrow> cat_wp (k y) c Q)"
  by (simp split: option.split)

lemma cat_wp_mono: "cat_wp m c Q \<Longrightarrow> (\<And>x c'. Q x c' \<Longrightarrow> R x c') \<Longrightarrow> cat_wp m c R"
  by (auto simp: cat_wp_def split: sum.splits)

lemma cat_wpD: "cat_wp m c Q \<Longrightarrow> m c = Inr (x, c') \<Longrightarrow> Q x c'"
  by (simp add: cat_wp_def)

lemma cat_wp_no_constraint: "cat_wp m c Q \<Longrightarrow> m c \<noteq> Inl ConstraintFailed"
  by (auto simp: cat_wp_def)

subsection \<open>Statements that keep the invariant\<close>

named_theorems keeps_ok \<open>statements that keep the catalog's invariant\<close>

lemma ok_constraints [simp]: "catalog_ok c \<Longrightarrow> constraints_hold c"
  by (simp add: catalog_ok_def)

lemma ok_transfer:
  assumes ok: "catalog_ok c" and c: "constraints_hold c'" and r: "\<And>u t. role_of c' u t = role_of c u t"
    and s: "\<And>t. studio_exists t c' = studio_exists t c" and i: "\<And>t e. invited t e c' \<Longrightarrow> invited t e c"
    and h: "\<And>t. has_shows t c' = has_shows t c" and w: "\<And>sh. get_show_row sh c' = get_show_row sh c"
    and g: "\<And>u sh. granted u sh c' \<Longrightarrow> granted u sh c" and p: "\<And>t. auth_count_pending_invites t c' \<le> auth_count_pending_invites t c"
  shows "catalog_ok c'"
proof -
  have "teams_exist c'" using ok i unfolding catalog_ok_def teams_exist_def r s h by blast
  moreover have "grants_held c'" using ok g unfolding catalog_ok_def grants_held_def r w by blast
  moreover have "pending_capped c'" using ok p unfolding catalog_ok_def pending_capped_def by (meson le_trans)
  ultimately show ?thesis using c by (simp add: catalog_ok_def)
qed

lemma role_options: "r = Some Owner \<or> r = Some Admin \<or> r = Some Member \<or> r = None"
  by (cases r) (auto, metis role.exhaust)

lemma okI:
  assumes "constraints_hold c" "\<And>u t r. role_of c u t = Some r \<Longrightarrow> studio_exists t c" "\<And>t e. invited t e c \<Longrightarrow> studio_exists t c"
    and "\<And>t. has_shows t c \<Longrightarrow> studio_exists t c"
    and "\<And>u sh. granted u sh c \<Longrightarrow> \<exists>s. get_show_row sh c = Some s \<and> role_of c u (sw_studio s) \<noteq> None"
    and "\<And>t. auth_count_pending_invites t c \<le> 200"
  shows "catalog_ok c"
  using assms unfolding catalog_ok_def teams_exist_def grants_held_def pending_capped_def by blast

lemma okD:
  assumes "catalog_ok c"
  shows "role_of c u t = Some r \<Longrightarrow> studio_exists t c" "invited t e c \<Longrightarrow> studio_exists t c" "has_shows t c \<Longrightarrow> studio_exists t c"
    "granted u sh c \<Longrightarrow> \<exists>s. get_show_row sh c = Some s \<and> role_of c u (sw_studio s) \<noteq> None"
    "auth_count_pending_invites t c \<le> 200"
  using assms unfolding catalog_ok_def teams_exist_def grants_held_def pending_capped_def by blast+

lemma ok_roles:
  assumes ok: "catalog_ok c" and c: "constraints_hold c'" and r: "\<And>u t x. role_of c' u t = Some x \<Longrightarrow> studio_exists t c"
    and k: "\<And>u t. role_of c u t \<noteq> None \<Longrightarrow> role_of c' u t \<noteq> None" and s: "\<And>t. studio_exists t c' = studio_exists t c"
    and i: "\<And>t e. invited t e c' = invited t e c" and h: "\<And>t. has_shows t c' = has_shows t c"
    and w: "\<And>sh. get_show_row sh c' = get_show_row sh c" and g: "\<And>u sh. granted u sh c' = granted u sh c"
    and p: "\<And>t. auth_count_pending_invites t c' = auth_count_pending_invites t c"
  shows "catalog_ok c'"
proof -
  have "teams_exist c'" using ok r unfolding catalog_ok_def teams_exist_def s i h by blast
  moreover have "grants_held c'" using ok k unfolding catalog_ok_def grants_held_def w g by blast
  moreover have "pending_capped c'" using ok unfolding catalog_ok_def pending_capped_def p by blast
  ultimately show ?thesis using c by (simp add: catalog_ok_def)
qed

lemma ok_add_member [keeps_ok]:
  assumes ok: "catalog_ok c" and "u \<in> user_ids c" "studio_exists t c" "r = Owner \<Longrightarrow> (\<And>v. role_of c v t \<noteq> Some Owner)"
  shows "catalog_ok (add_member u t r c)"
  by (rule ok_roles [OF ok]) (use assms okD(1) [OF ok] in \<open>auto simp: add_member_upholds role_add_member split: if_splits\<close>)

lemma ok_set_role [keeps_ok]:
  assumes ok: "catalog_ok c" and "r = Owner \<Longrightarrow> (\<And>v. role_of c v t = Some Owner \<Longrightarrow> v = u)"
  shows "catalog_ok (set_role u t r c)"
  by (rule ok_roles [OF ok]) (use assms okD(1) [OF ok] in \<open>auto simp: set_role_upholds role_set_role split: if_splits\<close>)

lemma ok_demote_owners [keeps_ok]:
  assumes ok: "catalog_ok c"
  shows "catalog_ok (demote_owners t u c)"
  by (rule ok_roles [OF ok]) (use ok okD(1) [OF ok] in \<open>auto simp: demote_owners_upholds role_demote_owners split: if_splits\<close>)

lemma ok_update_user [keeps_ok]:
  "catalog_ok c \<Longrightarrow> (\<And>u. us_id (f u) = us_id u) \<Longrightarrow> (\<And>u. us_sub (f u) = us_sub u) \<Longrightarrow> catalog_ok (update_user i f c)"
  by (rule ok_transfer [of c]) (simp_all add: update_user_upholds)

lemma ok_append_user [keeps_ok]:
  "catalog_ok c \<Longrightarrow> us_id n \<notin> user_ids c \<Longrightarrow> us_sub n \<notin> us_sub ` set (ct_users c) \<Longrightarrow> catalog_ok (c\<lparr>ct_users := ct_users c @ [n]\<rparr>)"
  by (rule ok_transfer [of c]) (simp_all add: append_user_upholds)

lemma ok_filter_invites [keeps_ok]: "catalog_ok c \<Longrightarrow> catalog_ok (c\<lparr>ct_invites := filter P (ct_invites c)\<rparr>)"
  by (rule ok_transfer [of c]) (auto simp: filter_upholds pending_filter dest: invited_filter)

lemma ok_filter_grants [keeps_ok]: "catalog_ok c \<Longrightarrow> catalog_ok (c\<lparr>ct_grants := filter P (ct_grants c)\<rparr>)"
  by (rule ok_transfer [of c]) (auto simp: filter_upholds, auto simp: granted_def list_ex_iff)

lemma ok_filters [keeps_ok]:
  "catalog_ok c \<Longrightarrow> catalog_ok (c\<lparr>ct_approvals := filter R (ct_approvals c)\<rparr>)"
  "catalog_ok c \<Longrightarrow> catalog_ok (c\<lparr>ct_settings := filter S (ct_settings c)\<rparr>)"
  by (rule ok_transfer [of c]; simp add: filter_upholds)+

lemma ok_put_setting [keeps_ok]: "catalog_ok c \<Longrightarrow> catalog_ok (put_setting k v c)"
  by (rule ok_transfer [of c]) (simp_all add: put_setting_upholds)

lemma ok_append_grant [keeps_ok]:
  assumes ok: "catalog_ok c" and "\<not> granted (gr_user g) (gr_show g) c" and s: "get_show_row (gr_show g) c = Some s"
    and r: "role_of c (gr_user g) (sw_studio s) \<noteq> None"
  shows "catalog_ok (c\<lparr>ct_grants := ct_grants c @ [g]\<rparr>)"
proof (rule okI)
  have "gr_show g \<in> show_ids c" using show_row_ids [of "gr_show g" c] s by auto
  moreover have "gr_user g \<in> user_ids c" using constraints_member_user ok r by auto
  ultimately show "constraints_hold (c\<lparr>ct_grants := ct_grants c @ [g]\<rparr>)" using assms by (simp add: append_upholds)
qed (use okD [OF ok] s r in \<open>auto simp: grant_key_eq\<close>)

lemma ok_append_invite [keeps_ok]:
  assumes ok: "catalog_ok c" and "\<not> invited (iv_studio i) (iv_email i) c" "studio_exists (iv_studio i) c"
    and p: "auth_count_pending_invites (iv_studio i) c < 200"
  shows "catalog_ok (c\<lparr>ct_invites := ct_invites c @ [i]\<rparr>)"
proof (rule okI)
  show "constraints_hold (c\<lparr>ct_invites := ct_invites c @ [i]\<rparr>)" using assms by (simp add: append_upholds)
qed (use okD [OF ok] assms(3) p in \<open>auto simp: invite_key_def\<close>)

lemma ok_maps [keeps_ok]:
  "catalog_ok c \<Longrightarrow> (\<And>s. sd_id (f s) = sd_id s) \<Longrightarrow> catalog_ok (c\<lparr>ct_studios := map f (ct_studios c)\<rparr>)"
  "catalog_ok c \<Longrightarrow> (\<And>i. invite_key (g i) = invite_key i) \<Longrightarrow> catalog_ok (c\<lparr>ct_invites := map g (ct_invites c)\<rparr>)"
proof -
  show "catalog_ok c \<Longrightarrow> (\<And>s. sd_id (f s) = sd_id s) \<Longrightarrow> catalog_ok (c\<lparr>ct_studios := map f (ct_studios c)\<rparr>)"
    by (rule ok_transfer [of c]) (simp_all add: map_upholds)
  assume ok: "catalog_ok c" and k: "\<And>i. invite_key (g i) = invite_key i"
  from k have "\<And>i. iv_studio (g i) = iv_studio i" by (simp add: invite_key_def)
  with ok k show "catalog_ok (c\<lparr>ct_invites := map g (ct_invites c)\<rparr>)"
    by - (rule ok_transfer [of c]; simp add: map_upholds)
qed

lemma ok_append_show [keeps_ok]:
  assumes ok: "catalog_ok c" and n: "sw_id w \<notin> show_ids c" and "studio_exists (sw_studio w) c"
  shows "catalog_ok (c\<lparr>ct_shows := ct_shows c @ [w]\<rparr>)"
proof (rule okI)
  show "constraints_hold (c\<lparr>ct_shows := ct_shows c @ [w]\<rparr>)" using assms by (simp add: append_upholds)
  fix u sh
  assume "granted u sh (c\<lparr>ct_shows := ct_shows c @ [w]\<rparr>)"
  then have "granted u sh c" by simp
  from okD(4) [OF ok this] show "\<exists>s. get_show_row sh (c\<lparr>ct_shows := ct_shows c @ [w]\<rparr>) = Some s \<and>
      role_of (c\<lparr>ct_shows := ct_shows c @ [w]\<rparr>) u (sw_studio s) \<noteq> None"
    using show_row_ids [of sh c] n by (auto simp: show_append [OF n])
qed (use okD [OF ok] assms(3) in auto)

lemma ok_append_session [keeps_ok]:
  "catalog_ok c \<Longrightarrow> constraints_hold (c\<lparr>ct_sessions := ct_sessions c @ [x]\<rparr>) \<Longrightarrow> catalog_ok (c\<lparr>ct_sessions := ct_sessions c @ [x]\<rparr>)"
  by (rule ok_transfer [of c]) simp_all

text \<open>A team with its rows appears and disappears as a whole.\<close>

lemma ok_append_studio [keeps_ok]:
  assumes ok: "catalog_ok c" and "\<not> studio_exists (sd_id s) c"
  shows "catalog_ok (c\<lparr>ct_studios := ct_studios c @ [s]\<rparr>)"
proof (rule okI)
  show "constraints_hold (c\<lparr>ct_studios := ct_studios c @ [s]\<rparr>)" using assms by (simp add: append_upholds)
qed (use okD [OF ok] in auto)

lemma ok_drop_invites [keeps_ok]: "catalog_ok c \<Longrightarrow> catalog_ok (drop_invites t c)"
  unfolding drop_invites_def by (rule ok_filter_invites)

lemma ok_drop_members [keeps_ok]:
  assumes ok: "catalog_ok c" and h: "\<not> has_shows t c"
  shows "catalog_ok (drop_members t c)"
proof (rule okI)
  show "constraints_hold (drop_members t c)" using ok by (simp add: drop_members_upholds)
  fix u sh
  assume "granted u sh (drop_members t c)"
  then have "granted u sh c" by simp
  then obtain s where s: "get_show_row sh c = Some s" "role_of c u (sw_studio s) \<noteq> None" using okD(4) [OF ok] by blast
  then have "sw_studio s \<noteq> t" using show_row_show [OF s(1)] h by (auto simp: has_shows_def list_ex_iff)
  with s show "\<exists>s. get_show_row sh (drop_members t c) = Some s \<and> role_of (drop_members t c) u (sw_studio s) \<noteq> None"
    by (auto simp: role_drop_members)
qed (use okD [OF ok] in \<open>auto simp: role_drop_members split: if_splits\<close>)

text \<open>The delete of a team without shows: in the code's order its memberships go last, here they go first.\<close>

lemma ok_delete_studio:
  assumes ok: "catalog_ok c" and h: "\<not> has_shows t c" and r: "\<And>u. role_of c u t = None" and i: "\<And>e. \<not> invited t e c"
  shows "catalog_ok (c\<lparr>ct_studios := filter (\<lambda>s. sd_id s \<noteq> t) (ct_studios c)\<rparr>)"
proof (rule okI)
  show "constraints_hold (c\<lparr>ct_studios := filter (\<lambda>s. sd_id s \<noteq> t) (ct_studios c)\<rparr>)" using ok by (simp add: filter_upholds)
qed (use okD [OF ok] h r i in auto)

end
