(* ===== verification/TeamEffects.thy ===== *)
theory TeamEffects
  imports SignIn CatalogInvariant
begin

section \<open>What a team request does\<close>

text \<open>
  The abstract specification of the team plane: every accepted request has one of the effects below, under
  the caller's role in the committed catalog, and no request of it ever fails on a constraint.
\<close>

subsection \<open>Access\<close>

lemma access_iff:
  assumes "constraints_hold c"
  shows "auth_can_access_show u sh c \<longleftrightarrow> (\<exists>s r. get_show_row sh c = Some s \<and> role_of c u (sw_studio s) = Some r \<and> (r \<noteq> Member \<or> granted u sh c))"
proof -
  have s: "get_show_row sh c = Some s \<longleftrightarrow> s \<in> set (ct_shows c) \<and> sw_id s = sh" for s
    unfolding get_show_row_def by (rule find_Some_iff_distinct [OF constraints_distinct(6) [OF assms]])
  have r: "role_of c u t = Some r \<longleftrightarrow> (\<exists>m \<in> set (ct_members c). member_key m = (u, t) \<and> mb_role m = r)" for t r
    by (rule role_Some_iff [OF constraints_distinct(3) [OF assms]])
  have "auth_can_access_show u sh c \<longleftrightarrow> (\<exists>s m. s \<in> set (ct_shows c) \<and> sw_id s = sh \<and> m \<in> set (ct_members c) \<and>
      member_key m = (u, sw_studio s) \<and> (mb_role m \<noteq> Member \<or> granted u sh c))"
  proof -
    have m: "show_access_predicate m s c \<longleftrightarrow> mb_role m \<noteq> Member \<or> granted u sh c"
      if "member_key m = (u, sw_studio s)" "sw_id s = sh" for m s
      using that by (cases "mb_role m") (auto simp: show_access_predicate_def member_key_def)
    show ?thesis unfolding auth_can_access_show_def list_ex_iff using m by blast
  qed
  also have "\<dots> \<longleftrightarrow> (\<exists>s r. get_show_row sh c = Some s \<and> role_of c u (sw_studio s) = Some r \<and> (r \<noteq> Member \<or> granted u sh c))"
    unfolding s r by blast
  finally show ?thesis .
qed

subsection \<open>Close messages\<close>

definition close_messages :: "string \<Rightarrow> string list \<Rightarrow> bus_message list" where
  "close_messages u ids = map (\<lambda>s. CloseMsg u (Sessions s) access_lost_close_code) (chunks_of access_loss_close_chunk ids)"

definition closed_by :: "bus_message list \<Rightarrow> string \<Rightarrow> string \<Rightarrow> bool" where
  "closed_by msgs u i \<longleftrightarrow> (\<exists>ids. CloseMsg u (Sessions ids) access_lost_close_code \<in> set msgs \<and> i \<in> set ids)"

lemma chunks_set: "0 < n \<Longrightarrow> \<Union> (set ` set (chunks_of n xs)) = set xs"
proof (induction n xs rule: chunks_of.induct)
  case (1 n xs)
  have "set xs = set (take n xs) \<union> set (drop n xs)" by (metis append_take_drop_id set_append)
  with 1 show ?case by (cases "xs = []") (auto simp: chunks_of.simps [of n xs] chunks_of.simps [of n "[]"])
qed

lemma closed_by_close_messages: "closed_by (close_messages u ids) v i \<longleftrightarrow> v = u \<and> i \<in> set ids"
  using chunks_set [of access_loss_close_chunk ids]
  by (auto simp: closed_by_def close_messages_def access_loss_close_chunk_def image_iff)

lemma wp_publish_closes [simp]: "cat_wp (publish_closes_in_tx n u ids) c Q \<longleftrightarrow>
    (close_messages u ids \<noteq> [] \<and> \<not> n \<or> Q (close_messages u ids) c)"
  by (auto simp: publish_closes_in_tx_def close_messages_def Let_def)

definition lost_closes :: "string \<Rightarrow> string list \<Rightarrow> catalog \<Rightarrow> bus_message list" where
  "lost_closes u shs c = close_messages u (list_session_ids_for_shows (filter (\<lambda>sh. \<not> auth_can_access_show u sh c) shs) c)"

lemma wp_publish_loss [simp]: "cat_wp (publish_access_loss_in_tx n u shs) c Q \<longleftrightarrow>
    (lost_closes u shs c \<noteq> [] \<and> \<not> n \<or> Q (lost_closes u shs c) c)"
  by (simp add: publish_access_loss_in_tx_def lost_closes_def)

lemma closed_by_lost: "closed_by (lost_closes u shs c) v i \<longleftrightarrow>
    v = u \<and> (\<exists>x \<in> set (ct_sessions c). ix_id x = i \<and> (\<exists>sh. ix_show x = Some sh \<and> sh \<in> set shs \<and> \<not> auth_can_access_show u sh c))"
proof -
  have "i \<in> set (list_session_ids_for_shows ks c) \<longleftrightarrow> (\<exists>x \<in> set (ct_sessions c). ix_id x = i \<and> (\<exists>sh. ix_show x = Some sh \<and> sh \<in> set ks))" for ks
    by (cases "ks = []") (auto simp: list_session_ids_for_shows_def)
  then show ?thesis by (auto simp: lost_closes_def closed_by_close_messages)
qed

subsection \<open>The effects\<close>

definition drop_membership :: "string \<Rightarrow> string \<Rightarrow> catalog \<Rightarrow> catalog" where
  "drop_membership v t c = (let c1 = c\<lparr>ct_grants := filter (\<lambda>g. \<not> (gr_user g = v \<and> in_studio c t (gr_show g))) (ct_grants c)\<rparr>
     in c1\<lparr>ct_members := filter (\<lambda>m. member_key m \<noteq> (v, t)) (ct_members c1)\<rparr>)"

definition found_team :: "string \<Rightarrow> studio_row \<Rightarrow> string \<Rightarrow> string \<Rightarrow> catalog \<Rightarrow> catalog" where
  "found_team t s k v c = put_setting k v (drop_members t (drop_invites t (c\<lparr>ct_studios := ct_studios c @ [s]\<rparr>)))"

definition delete_team :: "string \<Rightarrow> catalog \<Rightarrow> catalog" where
  "delete_team t c = (let c1 = drop_invites t c; c2 = c1\<lparr>ct_studios := filter (\<lambda>s. sd_id s \<noteq> t) (ct_studios c1)\<rparr>;
     c3 = c2\<lparr>ct_settings := filter (\<lambda>(k, v). k \<noteq> studio_config_key t) (ct_settings c2)\<rparr> in drop_members t c3)"

definition manages :: "catalog \<Rightarrow> string \<Rightarrow> string \<Rightarrow> bool" where
  "manages c u t \<longleftrightarrow> role_of c u t = Some Owner \<or> role_of c u t = Some Admin"

inductive team_effect :: "string \<Rightarrow> catalog \<Rightarrow> bus_message list \<Rightarrow> catalog \<Rightarrow> bool" for u c where
  unchanged: "team_effect u c [] c"
| founded: "\<not> studio_exists t c \<Longrightarrow> \<not> has_shows t c \<Longrightarrow> sd_id s = t \<Longrightarrow>
    team_effect u c [] (add_member u t Owner (found_team t s k v c))"
| renamed: "manages c u t \<Longrightarrow> team_effect u c [] (c\<lparr>ct_studios := map (\<lambda>s. if sd_id s = t then s\<lparr>sd_name := n\<rparr> else s) (ct_studios c)\<rparr>)"
| deleted: "role_of c u t = Some Owner \<Longrightarrow> \<not> has_shows t c \<Longrightarrow> team_effect u c [] (delete_team t c)"
| joined: "manages c u t \<Longrightarrow> set vs \<subseteq> user_ids c \<Longrightarrow> team_effect u c [] (fold (\<lambda>v. add_member v t Member) vs c)"
| invited: "manages c u t \<Longrightarrow> \<not> invited t (iv_email i) c \<Longrightarrow> iv_studio i = t \<Longrightarrow> auth_count_pending_invites t c < max_pending_invites \<Longrightarrow>
    team_effect u c [] (c\<lparr>ct_invites := ct_invites c @ [i]\<rparr>)"
| reinvited: "manages c u t \<Longrightarrow>
    team_effect u c [] (c\<lparr>ct_invites := map (\<lambda>i. if invite_key i = (t, e) then i\<lparr>iv_by := b, iv_at := now\<rparr> else i) (ct_invites c)\<rparr>)"
| uninvited: "manages c u t \<Longrightarrow> team_effect u c [] (c\<lparr>ct_invites := filter (\<lambda>i. invite_key i \<noteq> (t, e)) (ct_invites c)\<rparr>)"
| granted: "manages c u t \<Longrightarrow> role_of c (gr_user g) t = Some Member \<Longrightarrow> get_show_row (gr_show g) c = Some s \<Longrightarrow> sw_studio s = t \<Longrightarrow>
    \<not> granted (gr_user g) (gr_show g) c \<Longrightarrow> team_effect u c [] (c\<lparr>ct_grants := ct_grants c @ [g]\<rparr>)"
| revoked: "manages c u t \<Longrightarrow> get_show_row sh c = Some s \<Longrightarrow> sw_studio s = t \<Longrightarrow>
    c' = c\<lparr>ct_grants := filter (\<lambda>g. grant_key g \<noteq> (v, sh)) (ct_grants c)\<rparr> \<Longrightarrow> team_effect u c (lost_closes v [sh] c') c'"
| promoted: "role_of c u t = Some Owner \<Longrightarrow> role_of c v t = Some Member \<Longrightarrow> team_effect u c [] (set_role v t Admin c)"
| demoted: "role_of c u t = Some Owner \<Longrightarrow> role_of c v t = Some Admin \<Longrightarrow> c' = set_role v t Member c \<Longrightarrow>
    team_effect u c (lost_closes v (team_show_ids t c') c') c'"
| removed: "role_of c u t = Some Owner \<and> role_of c v t = Some Admin \<or> manages c u t \<and> role_of c v t = Some Member \<Longrightarrow>
    c' = drop_membership v t c \<Longrightarrow> team_effect u c (lost_closes v (team_show_ids t c') c') c'"
| left: "role_of c u t \<noteq> None \<Longrightarrow> role_of c u t \<noteq> Some Owner \<Longrightarrow>
    team_effect u c (close_messages u (list_session_ids_for_shows (team_show_ids t c) c)) (drop_membership u t c)"
| transferred: "role_of c u t = Some Owner \<Longrightarrow> role_of c v t \<noteq> None \<Longrightarrow> v \<noteq> u \<Longrightarrow>
    team_effect u c [] (set_role v t Owner (set_role u t Admin c))"
| show_made: "manages c u t \<Longrightarrow> studio_exists t c \<Longrightarrow> sw_studio w = t \<Longrightarrow> sw_id w \<notin> show_ids c \<Longrightarrow>
    team_effect u c [] (c\<lparr>ct_shows := ct_shows c @ [w]\<rparr>)"

subsection \<open>The operations, run\<close>

lemma wp_require_role [simp]: "cat_wp (require_team_role_in u t roles) c Q \<longleftrightarrow> (\<forall>r. role_of c u t = Some r \<longrightarrow> r \<in> set roles \<longrightarrow> Q r c)"
  by (cases "role_of c u t") (auto simp: require_team_role_in_def team_not_found_def)

lemma manages_iff: "manages c u t \<longleftrightarrow> (\<exists>r. role_of c u t = Some r \<and> r \<in> set owner_or_admin)"
  by (auto simp: manages_def owner_or_admin_def)

lemma managesI: "role_of c u t = Some r \<Longrightarrow> r \<in> set owner_or_admin \<Longrightarrow> manages c u t"
  by (auto simp: manages_iff)

lemma owner_only_iff [simp]: "r \<in> set owner_only \<longleftrightarrow> r = Owner"
  by (auto simp: owner_only_def)

lemma wp_insert_studio:
  assumes "catalog_ok c" "\<And>s. sd_id s = t \<Longrightarrow> \<not> studio_exists t c \<Longrightarrow> \<not> has_shows t c \<Longrightarrow> Q () (found_team t s (studio_config_key t) cfg c)"
  shows "cat_wp (insert_studio_definition cfg now t disp) c Q"
  using assms
  by (auto simp: insert_studio_definition_def found_team_def intro!: upholds) 

lemma drop_membership_upholds [upholds]: "constraints_hold c \<Longrightarrow> constraints_hold (drop_membership v t c)"
  unfolding drop_membership_def Let_def by (intro upholds)

lemma wp_delete_studio:
  assumes "catalog_ok c" "\<not> has_shows (js_trim t) c \<Longrightarrow> Q () (delete_team (js_trim t) c)"
  shows "cat_wp (admin_delete_studio t) c Q"
proof -
  have h: "length (filter (\<lambda>s. sw_studio s = js_trim t) (ct_shows c)) = 0 \<longleftrightarrow> \<not> has_shows (js_trim t) c"
    by (auto simp: has_shows_def list_ex_iff filter_empty_conv)
  let ?i = "drop_invites (js_trim t) c" and ?s = "\<lambda>c. c\<lparr>ct_studios := filter (\<lambda>s. sd_id s \<noteq> js_trim t) (ct_studios c)\<rparr>"
  let ?k = "\<lambda>c. c\<lparr>ct_settings := filter (\<lambda>(k, v). k \<noteq> studio_config_key (js_trim t)) (ct_settings c)\<rparr>"
  have c: "constraints_hold ?i" using assms(1) by (simp add: drop_invites_upholds)
  have s: "constraints_hold (?s ?i)" using c by (rule filter_upholds)
  have k: "constraints_hold (?k (?s ?i))" using s by (rule filter_upholds)
  have m: "constraints_hold (drop_members (js_trim t) (?k (?s ?i)))" using k by (rule drop_members_upholds)
  show ?thesis
    unfolding admin_delete_studio_def Let_def cat_wp_bind cat_wp_simps cat_wp_if
    using c s k m h assms(2) by (simp add: delete_team_def Let_def)
qed

lemma wp_remove_membership:
  assumes "catalog_ok c" "Q (role_of c v t \<noteq> None) (drop_membership v t c)"
  shows "cat_wp (auth_remove_membership v t) c Q"
proof -
  have g: "constraints_hold (c\<lparr>ct_grants := filter (\<lambda>g. \<not> (gr_user g = v \<and> in_studio c t (gr_show g))) (ct_grants c)\<rparr>)"
    using assms(1) by (intro filter_upholds) simp
  have m: "constraints_hold (drop_membership v t c)" using assms(1) by (simp add: drop_membership_upholds)
  show ?thesis
    unfolding auth_remove_membership_def auth_revoke_grants_in_studio_def cat_wp_bind cat_wp_simps
    using g m assms(2) by (simp add: drop_membership_def Let_def has_studio_role)
qed

lemma wp_add_members:
  assumes "catalog_ok c" "studio_exists t c" "set vs \<subseteq> user_ids c" "Q () (fold (\<lambda>v. add_member v t Member) vs c)"
  shows "cat_wp (add_members t vs) c Q"
  using assms
proof (induction vs arbitrary: c)
  case (Cons v vs)
  then have "catalog_ok (add_member v t Member c)" by (intro ok_add_member) auto
  then show ?case using Cons by (simp add: auth_add_membership_with_role_def)
qed simp

lemma users_by_email: "w \<in> set (auth_list_users_by_email_norm e c) \<Longrightarrow> us_id w \<in> user_ids c"
  by (auto simp: auth_list_users_by_email_norm_def user_ids_def)

subsection \<open>Every accepted request has its effect\<close>

text \<open>What a request rests on between its two checks: the caller's account, and for grants that the show is the team's.
  Neither ever goes away.\<close>

fun request_ready :: "catalog \<Rightarrow> string \<times> team_request \<Rightarrow> bool" where
  "request_ready c (u, GrantShow t sh v) \<longleftrightarrow> u \<in> user_ids c \<and> (\<exists>s. get_show_row sh c = Some s \<and> sw_studio s = js_trim t)"
| "request_ready c (u, RevokeGrant t sh v) \<longleftrightarrow> u \<in> user_ids c \<and> (\<exists>s. get_show_row sh c = Some s \<and> sw_studio s = js_trim t)"
| "request_ready c (u, req) \<longleftrightarrow> u \<in> user_ids c"

lemma precheck_ready: "u \<in> user_ids c \<Longrightarrow> team_precheck u req c = None \<Longrightarrow> request_ready c (u, req)"
  by (cases req) (auto simp: first_refusal_def checked_def require_team_show_def split: sum.splits option.splits if_splits)

lemma role_exists: "catalog_ok c \<Longrightarrow> role_of c u t = Some r \<Longrightarrow> studio_exists t c"
  by (rule okD)

lemma validate_no_constraint [simp]: "validate_new_studio i n \<noteq> Inl ConstraintFailed"
  by (auto simp: validate_new_studio_def Let_def)

lemma no_constraint [simp]: "member_not_found \<noteq> ConstraintFailed" "team_not_found \<noteq> ConstraintFailed"
  by (simp_all add: member_not_found_def team_not_found_def)

lemma create_team_effect:
  assumes ok: "catalog_ok c" and u: "u \<in> user_ids c"
  shows "cat_wp (create_team x u i name) c (team_effect u c)"
proof -
  have c: "constraints_hold (add_member u t Owner (found_team t s k v c))" if "\<not> studio_exists t c" "sd_id s = t" for t s k v
    using ok u that by (auto simp: found_team_def role_drop_members intro!: upholds)
  show ?thesis
  proof (cases "validate_new_studio (js_trim i) (js_trim name)")
    case (Inl e)
    then show ?thesis using validate_no_constraint [of "js_trim i" "js_trim name"] by (auto simp: create_team_def)
  next
    case (Inr p)
    then show ?thesis
      by (cases p) (use ok c in \<open>auto simp: create_team_def auth_add_membership_with_role_def intro!: wp_insert_studio team_effect.founded\<close>)
  qed
qed

lemma rename_effect:
  assumes ok: "catalog_ok c" and m: "manages c u (js_trim t)"
  shows "cat_wp (rename_studio t n) c (\<lambda>_. team_effect u c [])"
proof -
  have "constraints_hold (c\<lparr>ct_studios := map (\<lambda>s. if sd_id s = js_trim t then s\<lparr>sd_name := d\<rparr> else s) (ct_studios c)\<rparr>)" for d
    using ok by (intro map_upholds) auto
  with m show ?thesis by (auto simp: rename_studio_def Let_def intro: team_effect.renamed)
qed

lemma invite_effect:
  assumes ok: "catalog_ok c"
  shows "cat_wp (invite_member x u t e) c (team_effect u c)"
proof -
  have keys: "list_ex (\<lambda>i. iv_email i = e) (auth_list_invites_for_team t c) \<longleftrightarrow> invited t e c"
    by (auto simp: auth_list_invites_for_team_def invited_def list_ex_iff invite_key_def)
  have len: "length (auth_list_invites_for_team t c) = auth_count_pending_invites t c"
    by (simp add: auth_list_invites_for_team_def auth_count_pending_invites_def)
  have up: "cat_wp (auth_upsert_invite (ti_now x) t e u) c (\<lambda>_. team_effect u c [])"
    if "manages c u t" "invited t e c \<or> auth_count_pending_invites t c < max_pending_invites"
    using ok that team_effect.reinvited [where c=c and u=u and t=t and e=e and b=u and now="ti_now x"]
    by (auto simp: auth_upsert_invite_def invite_key_def intro!: upholds team_effect.invited)
  have "cat_wp (add_members t (map us_id (auth_list_users_by_email_norm e c))) c (\<lambda>_. team_effect u c [])" if "manages c u t"
    by (rule wp_add_members [OF ok]) (use that role_exists [OF ok] users_by_email [of _ e c] in \<open>auto simp: manages_def intro!: team_effect.joined\<close>)
  then show ?thesis
    by (auto simp: invite_member_def keys len intro: up dest: managesI)
qed

lemma grant_effect:
  assumes ok: "catalog_ok c" and s: "get_show_row sh c = Some s" "sw_studio s = t"
  shows "cat_wp (grant_show x u t sh v) c (team_effect u c)"
proof -
  have "cat_wp (auth_grant_show v sh u (ti_now x)) c (\<lambda>_. team_effect u c [])" if "manages c u t" "role_of c v t = Some Member"
  proof (cases "granted v sh c")
    case False
    let ?g = "\<lparr>gr_user = v, gr_show = sh, gr_by = u, gr_at = ti_now x\<rparr>"
    have "catalog_ok (c\<lparr>ct_grants := ct_grants c @ [?g]\<rparr>)"
      using ok s that(2) False by (intro ok_append_grant) auto
    then show ?thesis using False s that
      by (simp add: auth_grant_show_def team_effect.granted)
  qed (use ok in \<open>simp add: auth_grant_show_def team_effect.unchanged\<close>)
  then show ?thesis
    by (auto simp: grant_show_def member_not_found_def team_effect.unchanged dest: managesI split: option.split)
qed

lemma revoke_effect:
  assumes ok: "catalog_ok c" and s: "get_show_row sh c = Some s" "sw_studio s = t"
  shows "cat_wp (revoke_grant x u t sh v) c (team_effect u c)"
proof -
  let ?c = "c\<lparr>ct_grants := filter (\<lambda>g. grant_key g \<noteq> (v, sh)) (ct_grants c)\<rparr>"
  have "constraints_hold ?c" using ok by (intro filter_upholds) simp
  moreover have "manages c u t \<Longrightarrow> team_effect u c (lost_closes v [sh] ?c) ?c" using s by (intro team_effect.revoked) auto
  ultimately show ?thesis
    by (auto simp: revoke_grant_def auth_revoke_show_def dest: managesI)
qed

lemma change_role_effect:
  assumes ok: "catalog_ok c" and r: "r \<noteq> Owner"
  shows "cat_wp (change_role x u t v r) c (team_effect u c)"
proof -
  have k: "constraints_hold (set_role v t r c)" using ok r by (intro set_role_upholds) auto
  have p: "team_effect u c [] (set_role v t Admin c)" if "role_of c u t = Some Owner" "role_of c v t = Some Member"
    using that by (rule team_effect.promoted)
  have d: "team_effect u c (lost_closes v (team_show_ids t (set_role v t Member c)) (set_role v t Member c)) (set_role v t Member c)"
    if "role_of c u t = Some Owner" "role_of c v t = Some Admin" using that by (intro team_effect.demoted) auto
  show ?thesis
    using k r p d
    by (cases r; cases "role_of c v t"; cases "the (role_of c v t)")
      (auto simp: change_role_def member_not_found_def auth_set_existing_membership_role_def has_studio_role team_effect.unchanged)
qed

lemma remove_effect:
  assumes ok: "catalog_ok c"
  shows "cat_wp (remove_member x u t v) c (team_effect u c)"
proof -
  let ?c = "drop_membership v t c"
  have d: "team_effect u c (lost_closes v (team_show_ids t ?c) ?c) ?c"
    if "role_of c u t = Some Owner \<and> role_of c v t = Some Admin \<or> manages c u t \<and> role_of c v t = Some Member"
    using that by (intro team_effect.removed) auto
  show ?thesis
    using d by (cases "role_of c v t"; cases "the (role_of c v t)")
      (auto simp: remove_member_def member_not_found_def manages_def owner_or_admin_def intro!: wp_remove_membership [OF ok])
qed

lemma leave_effect:
  assumes ok: "catalog_ok c"
  shows "cat_wp (leave_team x u t) c (team_effect u c)"
  by (cases "role_of c u t") (auto simp: leave_team_def member_not_found_def intro!: wp_remove_membership [OF ok] team_effect.left)

lemma wp_transfer_caught: "cat_wp m c (\<lambda>_. Q []) \<Longrightarrow> cat_wp (\<lambda>c. case m c of Inl (TransferError msg) \<Rightarrow> Inl member_not_found
    | Inl e \<Rightarrow> Inl e | Inr (_, c') \<Rightarrow> Inr ([], c')) c Q"
  by (auto simp: cat_wp_def member_not_found_def split: sum.splits catalog_error.splits)

lemma transfer_effect:
  assumes ok: "catalog_ok c"
  shows "cat_wp (transfer_owner u t v) c (team_effect u c)"
proof -
  have "cat_wp (auth_transfer_ownership t u v) c (\<lambda>_. team_effect u c [])"
    if "role_of c u t = Some Owner" "role_of c v t \<noteq> None" "v \<noteq> u"
  proof -
    have o: "role_of c w t = Some Owner \<Longrightarrow> w = u" for w
      using constraints_owner [OF ok_constraints [OF ok]] that(1) by (auto simp: sole_owner_def)
    have a: "constraints_hold (set_role u t Admin c)" using ok by (intro set_role_upholds) auto
    have "constraints_hold (set_role v t Owner (set_role u t Admin c))"
      using o by (intro set_role_upholds a) (auto simp: role_set_role split: if_splits)
    then show ?thesis using a that team_effect.transferred [OF that]
      by (auto simp: auth_transfer_ownership_def has_studio_role role_set_role)
  qed
  then show ?thesis
    by (auto simp: transfer_owner_def team_effect.unchanged split: option.split
        intro!: wp_transfer_caught)
qed

lemma post_show_effect:
  assumes ok: "catalog_ok c" and n: "ti_uuid x \<notin> show_ids c"
  shows "cat_wp (post_show x u t name code) c (team_effect u c)"
proof -
  have "cat_wp (create_show (ti_uuid x) (ti_now x) t name code cats pal cus) c (\<lambda>_. team_effect u c [])" if "manages c u t" "studio_exists t c"
    for cats pal cus
    using that n append_upholds(2) [OF ok_constraints [OF ok]] by (simp add: create_show_def team_effect.show_made)
  then show ?thesis
    by (auto simp: post_show_def manages_def split: option.split sum.split)
qed

lemma team_tx_effect:
  assumes ok: "catalog_ok c" and r: "request_ready c (u, req)" and n: "ti_uuid x \<notin> show_ids c"
  shows "cat_wp (team_tx x u req) c (team_effect u c)"
proof (cases req)
  case (DeleteTeam t)
  then show ?thesis by (auto intro!: wp_delete_studio [OF ok] team_effect.deleted)
next
  case (RenameTeam t n)
  then show ?thesis using rename_effect [OF ok, of u "js_trim t"]
    by (auto simp: manages_iff js_trim_idem)
next
  case (RevokeInvite t e)
  have "constraints_hold (c\<lparr>ct_invites := filter (\<lambda>i. invite_key i \<noteq> (js_trim t, normalize_email e)) (ct_invites c)\<rparr>)"
    using ok by (intro filter_upholds) simp
  with RevokeInvite show ?thesis by (auto simp: auth_delete_invite_def intro: team_effect.uninvited managesI)
qed (use r ok n create_team_effect invite_effect grant_effect revoke_effect change_role_effect remove_effect leave_effect
      transfer_effect post_show_effect in auto)

end
