(* ===== verification/PlaneEffects.thy ===== *)
theory PlaneEffects
  imports TeamEffects
begin

section \<open>Effects on the whole catalog\<close>

text \<open>
  That every effect of a team request, a support request or a sign-in keeps the catalog's invariant, what
  never goes away, and how the support plane and the sign-in change roles and access.
\<close>

subsection \<open>Observations of the compound changes\<close>

lemma drop_membership_obs [simp]:
  "role_of (drop_membership v t c) w s = (if (w, s) = (v, t) then None else role_of c w s)"
  "granted w sh (drop_membership v t c) \<longleftrightarrow> granted w sh c \<and> \<not> (w = v \<and> in_studio c t sh)"
  "studio_exists s (drop_membership v t c) = studio_exists s c" "invited s e (drop_membership v t c) = invited s e c"
  "has_shows s (drop_membership v t c) = has_shows s c" "get_show_row sh (drop_membership v t c) = get_show_row sh c"
  "auth_count_pending_invites s (drop_membership v t c) = auth_count_pending_invites s c"
proof -
  show "role_of (drop_membership v t c) w s = (if (w, s) = (v, t) then None else role_of c w s)"
    unfolding drop_membership_def Let_def role_drop_member by simp
  show "granted w sh (drop_membership v t c) \<longleftrightarrow> granted w sh c \<and> \<not> (w = v \<and> in_studio c t sh)"
    by (simp add: drop_membership_def Let_def granted_drop_in del: de_Morgan_conj)
qed (simp_all add: drop_membership_def Let_def)

lemma found_team_obs [simp]:
  "role_of (found_team t s k v c) w q = (if q = t then None else role_of c w q)"
  "studio_exists q (found_team t s k v c) \<longleftrightarrow> studio_exists q c \<or> sd_id s = q"
  "get_show_row sh (found_team t s k v c) = get_show_row sh c" "granted w sh (found_team t s k v c) = granted w sh c"
  "user_ids (found_team t s k v c) = user_ids c" "has_shows q (found_team t s k v c) = has_shows q c"
  by (simp_all add: found_team_def role_drop_members)

lemma delete_team_obs [simp]:
  "role_of (delete_team t c) w s = (if s = t then None else role_of c w s)"
  "studio_exists s (delete_team t c) \<longleftrightarrow> studio_exists s c \<and> s \<noteq> t" "invited s e (delete_team t c) \<longleftrightarrow> invited s e c \<and> s \<noteq> t"
  "has_shows s (delete_team t c) = has_shows s c" "get_show_row sh (delete_team t c) = get_show_row sh c"
  "granted w sh (delete_team t c) = granted w sh c"
  "auth_count_pending_invites s (delete_team t c) = (if s = t then 0 else auth_count_pending_invites s c)"
  by (auto simp: delete_team_def Let_def role_drop_members)

lemma delete_team_upholds [upholds]: "constraints_hold c \<Longrightarrow> constraints_hold (delete_team t c)"
  unfolding delete_team_def Let_def by (intro upholds)

lemma ok_drop_membership [keeps_ok]:
  assumes ok: "catalog_ok c"
  shows "catalog_ok (drop_membership v t c)"
proof (rule okI)
  fix u sh
  assume "granted u sh (drop_membership v t c)"
  then have g: "granted u sh c" "\<not> (u = v \<and> in_studio c t sh)" by auto
  from okD(4) [OF ok g(1)] obtain s where s: "get_show_row sh c = Some s" "role_of c u (sw_studio s) \<noteq> None" by blast
  have "in_studio c t sh \<longleftrightarrow> sw_studio s = t" using show_row_in_studio [OF ok_constraints [OF ok]] s(1) by auto
  with g s show "\<exists>s. get_show_row sh (drop_membership v t c) = Some s \<and> role_of (drop_membership v t c) u (sw_studio s) \<noteq> None" by auto
qed (use ok okD [OF ok] in \<open>auto simp: drop_membership_upholds split: if_splits\<close>)

lemma ok_found_team [keeps_ok]:
  assumes "catalog_ok c" "\<not> studio_exists t c" "\<not> has_shows t c" "sd_id s = t"
  shows "catalog_ok (found_team t s k v c)"
  unfolding found_team_def using assms by (intro ok_put_setting ok_drop_members ok_drop_invites ok_append_studio) auto

lemma ok_delete_team [keeps_ok]:
  assumes ok: "catalog_ok c" and h: "\<not> has_shows t c"
  shows "catalog_ok (delete_team t c)"
proof (rule okI)
  fix u sh
  assume "granted u sh (delete_team t c)"
  then have "granted u sh c" by simp
  then obtain s where s: "get_show_row sh c = Some s" "role_of c u (sw_studio s) \<noteq> None" using okD(4) [OF ok] by blast
  then have "sw_studio s \<noteq> t" using show_row_show [OF s(1)] h by (auto simp: has_shows_def list_ex_iff)
  with s show "\<exists>s. get_show_row sh (delete_team t c) = Some s \<and> role_of (delete_team t c) u (sw_studio s) \<noteq> None" by auto
qed (use ok okD [OF ok] h in \<open>auto simp: delete_team_upholds split: if_splits\<close>)

lemma fold_add_member:
  assumes "catalog_ok c" "set vs \<subseteq> user_ids c" "studio_exists t c"
  shows "catalog_ok (fold (\<lambda>v. add_member v t Member) vs c)"
  using assms
proof (induction vs arbitrary: c)
  case (Cons v vs)
  then have "catalog_ok (add_member v t Member c)" by (intro ok_add_member) auto
  with Cons show ?case by simp
qed simp

subsection \<open>Team requests keep the invariant\<close>

lemma team_effect_ok:
  assumes "team_effect u c msgs c'" and ok: "catalog_ok c" and u: "u \<in> user_ids c"
  shows "catalog_ok c'"
  using assms(1)
proof cases
  case (founded t s k v)
  then have "catalog_ok (found_team t s k v c)" using ok by (intro ok_found_team) auto
  then show ?thesis unfolding founded using u founded by (intro ok_add_member) auto
next
  case (joined t vs)
  then have "studio_exists t c" using role_exists [OF ok] by (auto simp: manages_def)
  with joined show ?thesis using fold_add_member [OF ok] by simp
next
  case (invited t i)
  then have "studio_exists t c" using role_exists [OF ok] by (auto simp: manages_def)
  with invited show ?thesis using ok by (simp add: max_pending_invites_def ok_append_invite)
next
  case (granted t g s)
  then show ?thesis using ok by (auto intro!: ok_append_grant)
next
  case (transferred t v)
  have o: "role_of c w t = Some Owner \<Longrightarrow> w = u" for w
    using constraints_owner [OF ok_constraints [OF ok]] transferred by (auto simp: sole_owner_def)
  have "catalog_ok (set_role u t Admin c)" using ok by (intro ok_set_role) auto
  then show ?thesis unfolding transferred by (rule ok_set_role) (use o in \<open>auto simp: role_set_role split: if_splits\<close>)
qed (use ok in \<open>auto intro!: ok_maps ok_delete_team ok_filter_invites ok_filter_grants ok_set_role ok_drop_membership ok_append_show simp: invite_key_def\<close>)

subsection \<open>What never goes away\<close>

text \<open>Accounts keep their Google identity, shows their team, session rows stay.\<close>

definition identities :: "catalog \<Rightarrow> (string \<times> string) set" where
  "identities c = (\<lambda>w. (us_id w, us_sub w)) ` set (ct_users c)"

definition persists :: "catalog \<Rightarrow> catalog \<Rightarrow> bool" where
  "persists c c' \<longleftrightarrow> identities c \<subseteq> identities c' \<and> (\<forall>sh s. get_show_row sh c = Some s \<longrightarrow> get_show_row sh c' = Some s) \<and>
     set (ct_sessions c) \<subseteq> set (ct_sessions c')"

lemma persists_refl [simp]: "persists c c"
  by (simp add: persists_def)

lemma persists_trans: "persists a b \<Longrightarrow> persists b c \<Longrightarrow> persists a c"
  unfolding persists_def by blast

lemma persists_same: "ct_users c' = ct_users c \<Longrightarrow> ct_shows c' = ct_shows c \<Longrightarrow> ct_sessions c' = ct_sessions c \<Longrightarrow> persists c c'"
  by (simp add: persists_def identities_def get_show_row_def)

lemma persists_users: "persists c c' \<Longrightarrow> user_ids c \<subseteq> user_ids c'"
proof -
  have "user_ids d = fst ` identities d" for d by (simp add: user_ids_def identities_def image_image)
  then show "persists c c' \<Longrightarrow> user_ids c \<subseteq> user_ids c'" by (auto simp: persists_def)
qed

lemma other_tables [simp]:
  "ct_users (add_member u t r c) = ct_users c" "ct_shows (add_member u t r c) = ct_shows c" "ct_sessions (add_member u t r c) = ct_sessions c"
  "ct_users (set_role u t r c) = ct_users c" "ct_shows (set_role u t r c) = ct_shows c" "ct_sessions (set_role u t r c) = ct_sessions c"
  "ct_users (demote_owners t u c) = ct_users c" "ct_shows (demote_owners t u c) = ct_shows c" "ct_sessions (demote_owners t u c) = ct_sessions c"
  "ct_users (drop_membership v t c) = ct_users c" "ct_shows (drop_membership v t c) = ct_shows c" "ct_sessions (drop_membership v t c) = ct_sessions c"
  "ct_users (put_setting k x c) = ct_users c" "ct_shows (put_setting k x c) = ct_shows c" "ct_sessions (put_setting k x c) = ct_sessions c"
  "ct_users (drop_members t c) = ct_users c" "ct_shows (drop_members t c) = ct_shows c" "ct_sessions (drop_members t c) = ct_sessions c"
  "ct_users (drop_invites t c) = ct_users c" "ct_shows (drop_invites t c) = ct_shows c" "ct_sessions (drop_invites t c) = ct_sessions c"
  by (simp_all add: add_member_def set_role_def demote_owners_def drop_membership_def put_setting_def drop_members_def drop_invites_def Let_def)

lemma compound_tables [simp]:
  "ct_users (found_team t s k v c) = ct_users c" "ct_shows (found_team t s k v c) = ct_shows c" "ct_sessions (found_team t s k v c) = ct_sessions c"
  "ct_users (delete_team t c) = ct_users c" "ct_shows (delete_team t c) = ct_shows c" "ct_sessions (delete_team t c) = ct_sessions c"
  by (simp_all add: found_team_def delete_team_def Let_def)

lemma fold_tables [simp]:
  "ct_users (fold (\<lambda>v. add_member (f v) (g v) (h v)) vs c) = ct_users c" "ct_shows (fold (\<lambda>v. add_member (f v) (g v) (h v)) vs c) = ct_shows c"
  "ct_sessions (fold (\<lambda>v. add_member (f v) (g v) (h v)) vs c) = ct_sessions c"
  by (induction vs arbitrary: c) simp_all

lemma team_effect_persists:
  assumes "team_effect u c msgs c'"
  shows "persists c c'"
  using assms
proof cases
  case (show_made t w)
  then have "get_show_row sh c = Some s \<Longrightarrow> sw_id w \<noteq> sh" for sh s using show_row_ids [of sh c] by auto
  with show_made show ?thesis by (auto simp: persists_def identities_def show_append)
qed (auto intro!: persists_same)

subsection \<open>The support plane\<close>

inductive support_effect :: "catalog \<Rightarrow> bus_message list \<Rightarrow> catalog \<Rightarrow> bool" for c where
  created: "\<not> studio_exists t c \<Longrightarrow> \<not> has_shows t c \<Longrightarrow> sd_id s = t \<Longrightarrow> support_effect c [] (found_team t s k v c)"
| erased: "\<not> has_shows t c \<Longrightarrow> support_effect c [] (delete_team t c)"
| owner_set: "studio_exists t c \<Longrightarrow> w \<in> user_ids c \<Longrightarrow> role_of c w t = None \<Longrightarrow> support_effect c [] (add_member w t Owner (demote_owners t w c))"
| owner_made: "role_of c w t \<noteq> None \<Longrightarrow> support_effect c [] (set_role w t Owner (demote_owners t w c))"
| enrolled: "studio_exists t c \<Longrightarrow> w \<in> user_ids c \<Longrightarrow> role_of c w t = None \<Longrightarrow> r \<noteq> Owner \<Longrightarrow> c' = add_member w t r c \<Longrightarrow>
    support_effect c (if r = Member then lost_closes w (team_show_ids t c') c' else []) c'"
| reranked: "role_of c w t \<noteq> None \<Longrightarrow> r \<noteq> Owner \<Longrightarrow> c' = set_role w t r c \<Longrightarrow>
    support_effect c (if r = Member then lost_closes w (team_show_ids t c') c' else []) c'"
| dropped: "c' = drop_membership w t c \<Longrightarrow> support_effect c (lost_closes w (team_show_ids t c') c') c'"
| disabled: "support_effect c [] (update_user w (\<lambda>u. u\<lparr>us_disabled := d\<rparr>) c)"

lemma wp_admin_user [simp]: "cat_wp (admin_user v) c Q \<longleftrightarrow> (\<forall>w. auth_get_user_row_any (js_trim v) c = Some w \<longrightarrow> Q w c)"
  by (cases "auth_get_user_row_any (js_trim v) c") (auto simp: admin_user_def)

lemma user_row_id: "auth_get_user_row_any v c = Some w \<Longrightarrow> us_id w = v \<and> v \<in> user_ids c"
  unfolding auth_get_user_row_any_def user_ids_def by (metis (mono_tags, lifting) find_Some_iff image_eqI nth_mem)

lemma upsert_role_effect:
  assumes ok: "catalog_ok c" and "studio_exists t c" "w \<in> user_ids c" "r \<noteq> Owner"
  shows "cat_wp (auth_upsert_membership_role w t r) c (\<lambda>_ c'. constraints_hold c' \<and>
    support_effect c (if r = Member then lost_closes w (team_show_ids t c') c' else []) c')"
proof (cases "role_of c w t")
  case None
  have "constraints_hold (add_member w t r c)" using assms by (intro add_member_upholds) auto
  moreover have "support_effect c (if r = Member then lost_closes w (team_show_ids t (add_member w t r c)) (add_member w t r c) else []) (add_member w t r c)"
    using assms None by (intro support_effect.enrolled) auto
  ultimately show ?thesis using None by (simp add: auth_upsert_membership_role_def has_studio_role)
next
  case (Some x)
  have "constraints_hold (set_role w t r c)" using assms by (intro set_role_upholds) auto
  moreover have "support_effect c (if r = Member then lost_closes w (team_show_ids t (set_role w t r c)) (set_role w t r c) else []) (set_role w t r c)"
    using assms Some by (intro support_effect.reranked) auto
  ultimately show ?thesis using Some by (simp add: auth_upsert_membership_role_def has_studio_role)
qed

lemma set_owner_effect:
  assumes ok: "catalog_ok c" and "studio_exists t c" "w \<in> user_ids c"
  shows "cat_wp (auth_set_owner t w) c (\<lambda>_. support_effect c [])"
proof -
  have d: "constraints_hold (demote_owners t w c)" using ok by (intro demote_owners_upholds) simp
  show ?thesis
  proof (cases "role_of c w t")
    case None
    have "constraints_hold (add_member w t Owner (demote_owners t w c))"
      using assms None by (intro add_member_upholds d) (auto simp: role_demote_owners)
    moreover have "support_effect c [] (add_member w t Owner (demote_owners t w c))" using assms None by (intro support_effect.owner_set)
    ultimately show ?thesis using d None by (simp add: auth_set_owner_def auth_upsert_membership_role_def has_studio_role role_demote_owners)
  next
    case (Some r)
    have "constraints_hold (set_role w t Owner (demote_owners t w c))"
      by (intro set_role_upholds d) (auto simp: role_demote_owners split: if_splits)
    moreover have "support_effect c [] (set_role w t Owner (demote_owners t w c))" using Some by (intro support_effect.owner_made) simp
    ultimately show ?thesis using d Some by (auto simp: auth_set_owner_def auth_upsert_membership_role_def has_studio_role role_demote_owners)
  qed
qed

lemma support_tx_effect:
  assumes ok: "catalog_ok c"
  shows "cat_wp (support_tx x req) c (support_effect c)"
proof (cases req)
  case (AdminCreateStudio i n)
  then show ?thesis
    using validate_no_constraint [of "js_trim i" "js_trim n"]
    by (cases "validate_new_studio (js_trim i) (js_trim n)")
      (auto simp: admin_create_studio_def intro!: wp_insert_studio [OF ok] support_effect.created)
next
  case (AdminDeleteStudio t)
  then show ?thesis by (auto intro!: wp_delete_studio [OF ok] support_effect.erased)
next
  case (AdminPutMembership v t r)
  have up: "cat_wp (auth_upsert_membership_role w s q) c (\<lambda>_ c'. if q = Member
      then cat_wp (publish_access_loss_in_tx n w (team_show_ids s c')) c' (support_effect c) else support_effect c [] c')"
    if "studio_exists s c" "w \<in> user_ids c" "q \<noteq> Owner" for w s q n
    by (rule cat_wp_mono [OF upsert_role_effect [OF ok that]]) (auto split: if_splits)
  show ?thesis
    using AdminPutMembership set_owner_effect [OF ok]
    by (cases r; cases "the r")
      (auto simp: admin_put_membership_def or_else_def simp del: wp_publish_loss dest!: user_row_id intro!: cat_wp_mono [OF up])
next
  case (AdminDropMembership v t)
  then show ?thesis by (auto simp: admin_drop_membership_def intro!: wp_remove_membership [OF ok] support_effect.dropped)
next
  case (AdminSetDisabled v b)
  have "constraints_hold (update_user w (\<lambda>u. u\<lparr>us_disabled := d\<rparr>) c)" for w d
    using ok by (intro update_user_upholds) auto
  then show ?thesis using AdminSetDisabled by (auto simp: auth_set_user_disabled_def intro: support_effect.disabled)
qed

lemma support_effect_ok:
  assumes "support_effect c msgs c'" and ok: "catalog_ok c"
  shows "catalog_ok c'"
  using assms(1)
proof cases
  case (owner_set t w)
  then show ?thesis using ok by (auto intro!: ok_add_member ok_demote_owners simp: role_demote_owners split: if_splits)
next
  case (owner_made w t)
  then show ?thesis using ok by (auto intro!: ok_set_role ok_demote_owners simp: role_demote_owners split: if_splits)
qed (use ok in \<open>auto intro!: ok_found_team ok_delete_team ok_add_member ok_set_role ok_drop_membership ok_update_user\<close>)

lemma identities_update [simp]:
  assumes "\<And>u. us_id (f u) = us_id u" "\<And>u. us_sub (f u) = us_sub u"
  shows "identities (update_user w f c) = identities c"
proof -
  have "map (\<lambda>w. (us_id w, us_sub w)) (ct_users (update_user w f c)) = map (\<lambda>w. (us_id w, us_sub w)) (ct_users c)"
    using assms by (simp add: update_user_def)
  then show ?thesis unfolding identities_def set_map [symmetric] by simp
qed

lemma persists_update: "(\<And>u. us_id (f u) = us_id u) \<Longrightarrow> (\<And>u. us_sub (f u) = us_sub u) \<Longrightarrow> persists c (update_user w f c)"
  by (simp add: persists_def) (simp add: update_user_def)

lemma support_effect_persists: "support_effect c msgs c' \<Longrightarrow> persists c c'"
  by (induction rule: support_effect.induct) (auto intro!: persists_same persists_update)

subsection \<open>Sign-in\<close>

text \<open>A sign-in only adds: accounts, roles where there were none, owners where there were none.\<close>

definition role_up :: "role option \<Rightarrow> role option \<Rightarrow> bool" where
  "role_up a b \<longleftrightarrow> (case a of None \<Rightarrow> True | Some Owner \<Rightarrow> b = Some Owner | Some Admin \<Rightarrow> b = Some Admin \<or> b = Some Owner | Some Member \<Rightarrow> b \<noteq> None)"

lemma role_up_refl [simp]: "role_up a a" "role_up None a" "a \<noteq> Some Owner \<Longrightarrow> role_up a (Some Owner)"
  by (auto simp: role_up_def split: option.splits role.splits)

lemma role_up_trans: "role_up a b \<Longrightarrow> role_up b c \<Longrightarrow> role_up a c"
  by (auto simp: role_up_def split: option.splits role.splits)

definition adds_roles :: "catalog \<Rightarrow> catalog \<Rightarrow> bool" where
  "adds_roles c c' \<longleftrightarrow> (\<forall>u t. role_up (role_of c u t) (role_of c' u t)) \<and> (\<forall>u sh. granted u sh c \<longrightarrow> granted u sh c') \<and>
     (\<lambda>t. studio_exists t c') = (\<lambda>t. studio_exists t c)"

lemma adds_roles_refl [simp]: "adds_roles c c"
  by (simp add: adds_roles_def)

lemma adds_roles_trans: "adds_roles a b \<Longrightarrow> adds_roles b c \<Longrightarrow> adds_roles a c"
  unfolding adds_roles_def using role_up_trans by metis

lemma adds_roles_same: "(\<And>u t. role_of c' u t = role_of c u t) \<Longrightarrow> (\<And>u sh. granted u sh c' = granted u sh c) \<Longrightarrow>
    (\<And>t. studio_exists t c' = studio_exists t c) \<Longrightarrow> adds_roles c c'"
  by (simp add: adds_roles_def)

lemma adds_rolesD: "adds_roles c c' \<Longrightarrow> role_up (role_of c u t) (role_of c' u t)" "adds_roles c c' \<Longrightarrow> granted u sh c \<Longrightarrow> granted u sh c'"
  "adds_roles c c' \<Longrightarrow> studio_exists t c' = studio_exists t c"
  by (auto simp: adds_roles_def dest: fun_cong)

definition grows :: "catalog \<Rightarrow> catalog \<Rightarrow> bool" where
  "grows c c' \<longleftrightarrow> catalog_ok c' \<and> persists c c' \<and> adds_roles c c'"

lemma grows_refl: "catalog_ok c \<Longrightarrow> grows c c"
  by (simp add: grows_def)

lemma grows_trans: "grows a b \<Longrightarrow> grows b c \<Longrightarrow> grows a c"
  unfolding grows_def by (metis persists_trans adds_roles_trans)

lemma grows_ok [simp]: "grows c c' \<Longrightarrow> catalog_ok c'"
  by (simp add: grows_def)

lemma grows_add_member:
  "catalog_ok c \<Longrightarrow> u \<in> user_ids c \<Longrightarrow> studio_exists t c \<Longrightarrow> r \<noteq> Owner \<Longrightarrow> grows c (add_member u t r c)"
proof -
  assume "catalog_ok c" "u \<in> user_ids c" "studio_exists t c" "r \<noteq> Owner"
  then have "catalog_ok (add_member u t r c)" by (intro ok_add_member) auto
  moreover have "persists c (add_member u t r c)" by (rule persists_same) simp_all
  moreover have "adds_roles c (add_member u t r c)" by (simp add: adds_roles_def role_add_member)
  ultimately show "grows c (add_member u t r c)" by (simp add: grows_def)
qed

lemma role_claim: "role_of (claim_studio u t c) v s = (if (v, s) = (u, t) then Some Owner else role_of c v s)"
  by (auto simp: claim_studio_def role_set_role role_add_member has_studio_role)

lemma claim_obs [simp]:
  "granted v sh (claim_studio u t c) = granted v sh c" "studio_exists s (claim_studio u t c) = studio_exists s c"
  "user_ids (claim_studio u t c) = user_ids c"
  by (simp_all add: claim_studio_def)

lemma grows_claim:
  assumes ok: "catalog_ok c" and "u \<in> user_ids c" "studio_exists t c" and n: "\<And>v. role_of c v t \<noteq> Some Owner"
  shows "grows c (claim_studio u t c)"
proof -
  have "catalog_ok (claim_studio u t c)" using assms by (auto simp: claim_studio_def intro!: ok_set_role ok_add_member)
  moreover have "persists c (claim_studio u t c)" by (auto simp: claim_studio_def intro!: persists_same)
  moreover have "adds_roles c (claim_studio u t c)"
    using n by (simp add: adds_roles_def role_claim)
  ultimately show ?thesis by (simp add: grows_def)
qed

lemma claim_all_grows:
  assumes "catalog_ok c" "u \<in> user_ids c" "distinct ts" "\<And>t. t \<in> set ts \<Longrightarrow> studio_exists t c \<and> (\<forall>v. role_of c v t \<noteq> Some Owner)"
  shows "grows c (fold (claim_studio u) ts c)"
  using assms
proof (induction ts arbitrary: c)
  case Nil
  then show ?case by (simp add: grows_refl)
next
  case (Cons t ts)
  then have g: "grows c (claim_studio u t c)" by (intro grows_claim) auto
  then have "u \<in> user_ids (claim_studio u t c)" using persists_users Cons.prems(2) by (fastforce simp: grows_def)
  moreover have "s \<in> set ts \<Longrightarrow> studio_exists s (claim_studio u t c) \<and> (\<forall>v. role_of (claim_studio u t c) v s \<noteq> Some Owner)" for s
    using Cons.prems(3,4) by (auto simp: role_claim)
  ultimately have "grows (claim_studio u t c) (fold (claim_studio u) ts (claim_studio u t c))"
    using Cons g by (intro Cons.IH) auto
  with g show ?case by (auto intro: grows_trans)
qed

lemma has_owner_iff: "constraints_hold c \<Longrightarrow> has_owner c t \<longleftrightarrow> (\<exists>v. role_of c v t = Some Owner)"
  by (auto simp: has_owner_def list_ex_iff role_Some_iff [OF constraints_distinct(3)] member_key_def)

lemma wp_claim:
  assumes ok: "catalog_ok c" and u: "u \<in> user_ids c"
  shows "cat_wp (auth_claim_ownerless_studios u) c (\<lambda>_. grows c)"
proof -
  let ?ts = "filter (\<lambda>t. \<not> has_owner c t) (map sd_id (ct_studios c))"
  have "grows c (fold (claim_studio u) ?ts c)"
    using constraints_distinct(5) [OF ok_constraints [OF ok]] has_owner_iff [OF ok_constraints [OF ok]]
    by (intro claim_all_grows ok u) (auto simp: studio_exists_def list_ex_iff)
  then show ?thesis by (simp add: auth_claim_ownerless_studios_def)
qed

definition materialized :: "string \<Rightarrow> invite_row list \<Rightarrow> catalog \<Rightarrow> catalog \<Rightarrow> bool" where
  "materialized u is c c' \<longleftrightarrow> grows c c' \<and> ct_users c' = ct_users c \<and> ct_invites c' = ct_invites c \<and>
     ct_approvals c' = ct_approvals c \<and> (\<forall>i \<in> set is. role_of c' u (iv_studio i) \<noteq> None)"

lemma materialized_Cons:
  assumes g: "grows c (add_member u (iv_studio i) Member c)" and m: "materialized u js (add_member u (iv_studio i) Member c) c'"
  shows "materialized u (i # js) c c'"
proof -
  have a: "ct_invites (add_member u t r c) = ct_invites c" "ct_approvals (add_member u t r c) = ct_approvals c" for t r
    by (simp_all add: add_member_def)
  have "role_of (add_member u (iv_studio i) Member c) u (iv_studio i) \<noteq> None" by (simp add: role_add_member)
  then have "role_of c' u (iv_studio i) \<noteq> None" using m using adds_rolesD(1) [of "add_member u (iv_studio i) Member c" c' u "iv_studio i"]
    by (auto simp: materialized_def grows_def role_up_def split: option.splits role.splits)
  then show ?thesis using m grows_trans [OF g] by (simp add: materialized_def a)
qed

lemma wp_materialize:
  assumes "catalog_ok c" "u \<in> user_ids c" "\<And>i. i \<in> set is \<Longrightarrow> studio_exists (iv_studio i) c"
  shows "cat_wp (materialize u is) c (\<lambda>_. materialized u is c)"
  using assms
proof (induction "is" arbitrary: c)
  case Nil
  then show ?case by (simp add: materialized_def grows_refl)
next
  case (Cons i js)
  have g: "grows c (add_member u (iv_studio i) Member c)" using Cons.prems by (intro grows_add_member) auto
  have "cat_wp (materialize u js) (add_member u (iv_studio i) Member c) (\<lambda>_. materialized u js (add_member u (iv_studio i) Member c))"
    using Cons.prems g by (intro Cons.IH) auto
  then have "cat_wp (materialize u js) (add_member u (iv_studio i) Member c) (\<lambda>_. materialized u (i # js) c)"
    by (rule cat_wp_mono) (rule materialized_Cons [OF g])
  then show ?case using g by (simp add: auth_add_membership_with_role_def)
qed

lemma grows_append_user:
  assumes "catalog_ok c" "us_id n \<notin> user_ids c" "us_sub n \<notin> us_sub ` set (ct_users c)"
  shows "grows c (c\<lparr>ct_users := ct_users c @ [n]\<rparr>)"
  using assms by (auto simp: grows_def ok_append_user persists_def identities_def get_show_row_def adds_roles_same)

lemma grows_filters:
  assumes "catalog_ok c"
  shows "grows c (c\<lparr>ct_approvals := filter R (ct_approvals c)\<rparr>)" "grows c (c\<lparr>ct_invites := filter P (ct_invites c)\<rparr>)"
  using assms by (simp_all add: grows_def ok_filters ok_filter_invites adds_roles_same) (simp_all add: persists_same)

text \<open>What the account's transaction leaves.\<close>

definition invites_taken :: "string \<Rightarrow> string \<Rightarrow> catalog \<Rightarrow> catalog \<Rightarrow> bool" where
  "invites_taken u email c c' \<longleftrightarrow> ct_invites c' = filter (\<lambda>i. iv_email i \<noteq> email) (ct_invites c) \<and>
     (\<forall>i \<in> set (ct_invites c). iv_email i = email \<longrightarrow> role_of c' u (iv_studio i) \<noteq> None)"

definition approval_taken :: "string \<Rightarrow> iso \<Rightarrow> catalog \<Rightarrow> catalog \<Rightarrow> bool" where
  "approval_taken email cutoff c c' \<longleftrightarrow> (\<exists>a \<in> set (ct_approvals c). ap_email a = email \<and> cutoff \<le> ap_at a \<and>
     ct_approvals c' = remove1 a (ct_approvals c))"

definition account_made :: "callback_env \<Rightarrow> string \<Rightarrow> catalog \<Rightarrow> catalog \<Rightarrow> bool" where
  "account_made e i c c' \<longleftrightarrow> grows c c' \<and> i \<notin> user_ids c \<and> cb_sub e \<notin> us_sub ` set (ct_users c) \<and> identities c' = insert (i, cb_sub e) (identities c) \<and>
     (if gate_new_account e then approval_taken (ascii_email_norm (cb_email e)) (cb_cutoff e) c c' else ct_approvals c' = ct_approvals c) \<and>
     (if cb_email e = [] then ct_invites c' = ct_invites c else invites_taken i (normalize_email (cb_email e)) c c')"

lemma remove_keyed:
  assumes "distinct (map f xs)" "x \<in> set xs" "f x = k" "P x"
  shows "filter (\<lambda>y. \<not> (f y = k \<and> P y)) xs = remove1 x xs"
  using assms
proof (induction xs)
  case (Cons y ys)
  have "filter (\<lambda>y. \<not> (f y = k \<and> P y)) ys = ys" if "f y = k" using that Cons.prems(1) by (auto intro!: filter_True) (metis image_eqI)
  then show ?case using Cons by auto
qed simp

text \<open>The transaction's second half, after the approval.\<close>

definition invites_settled :: "callback_env \<Rightarrow> string \<Rightarrow> catalog \<Rightarrow> catalog \<Rightarrow> bool" where
  "invites_settled e i c c' \<longleftrightarrow> grows c c' \<and> ct_users c' = ct_users c \<and> ct_approvals c' = ct_approvals c \<and>
     (if cb_email e = [] then ct_invites c' = ct_invites c else invites_taken i (normalize_email (cb_email e)) c c')"

definition settle_invites :: "callback_env \<Rightarrow> string \<Rightarrow> string option cat" where
  "settle_invites e u = (if cb_email e = [] then creturn (Some u) else
     cbind (auth_consume_invites_for_email (normalize_email (cb_email e))) (\<lambda>invites.
     cbind (materialize u invites) (\<lambda>_. creturn (Some u))))"

lemma settle_invites_settled:
  assumes ok: "catalog_ok c" and u: "i \<in> user_ids c"
  shows "cat_wp (settle_invites e i) c (\<lambda>r c'. r = Some i \<and> invites_settled e i c c')"
proof -
  let ?e = "normalize_email (cb_email e)"
  let ?rows = "filter (\<lambda>i. iv_email i = ?e) (ct_invites c)" and ?c = "c\<lparr>ct_invites := filter (\<lambda>i. iv_email i \<noteq> ?e) (ct_invites c)\<rparr>"
  have g: "grows c ?c" by (rule grows_filters [OF ok])
  have st: "studio_exists (iv_studio j) ?c" if "j \<in> set ?rows" for j
    using that okD(2) [OF ok, of "iv_studio j" ?e] by (auto simp: invited_def list_ex_iff invite_key_def)
  have "cat_wp (materialize i ?rows) ?c (\<lambda>_. materialized i ?rows ?c)"
    using u by (intro wp_materialize grows_ok [OF g] st) auto
  then have m: "cat_wp (materialize i ?rows) ?c (\<lambda>_. invites_settled e i c)" if "cb_email e \<noteq> []"
    by (rule cat_wp_mono) (use that grows_trans [OF g] in \<open>auto simp: materialized_def invites_settled_def invites_taken_def\<close>)
  have "invites_settled e i c c" if "cb_email e = [] \<or> ?rows = []"
    using that grows_refl [OF ok] by (auto simp: invites_settled_def invites_taken_def filter_empty_conv intro!: filter_True [symmetric])
  with m grows_ok [OF g] show ?thesis by (auto simp: settle_invites_def auth_consume_invites_for_email_def)
qed

lemma create_account_made:
  assumes ok: "catalog_ok c"
  shows "cat_wp (create_account e now i) c (\<lambda>r c'. r = None \<and> c' = c \<or> r = Some i \<and> account_made e i c c')"
proof -
  define n where "n = \<lparr>us_id = i, us_sub = cb_sub e, us_email = (if cb_email e = [] then cb_sub e @ ''@users.noreply.invalid'' else cb_email e),
    us_given = cb_given e, us_family = cb_family e, us_picture = cb_picture e, us_created = now, us_disabled = None\<rparr>"
  define c1 where "c1 = c\<lparr>ct_users := ct_users c @ [n]\<rparr>"
  let ?a = "ascii_email_norm (cb_email e)" and ?t = "cb_cutoff e"
  define c2 where "c2 = c1\<lparr>ct_approvals := filter (\<lambda>a. ap_email a = ?a \<longrightarrow> \<not> ?t \<le> ap_at a) (ct_approvals c1)\<rparr>"
  show ?thesis
  proof (cases "list_ex (\<lambda>u. us_id u = i \<or> us_sub u = cb_sub e) (ct_users c)")
    case False
    then have new: "i \<notin> user_ids c" "cb_sub e \<notin> us_sub ` set (ct_users c)" by (auto simp: list_ex_iff user_ids_def)
    have g1: "grows c c1" unfolding c1_def using ok new by (intro grows_append_user) (simp_all add: n_def)
    have g2: "grows c1 c2" unfolding c2_def by (rule grows_filters [OF grows_ok [OF g1]])
    have u: "i \<in> user_ids c1" "i \<in> user_ids c2" by (simp_all add: c1_def c2_def n_def user_ids_def)
    have fin: "account_made e i c c'"
      if "invites_settled e i d c'" "grows c d" "ct_users d = ct_users c1" "ct_invites d = ct_invites c"
        "if gate_new_account e then approval_taken ?a ?t c d else ct_approvals d = ct_approvals c" for d c'
      using that new grows_trans [OF that(2)]
      by (auto simp: account_made_def invites_settled_def identities_def c1_def n_def invites_taken_def approval_taken_def split: if_splits)
    have w1: "cat_wp (settle_invites e i) c1 (\<lambda>r c'. r = None \<and> c' = c \<or> r = Some i \<and> account_made e i c c')" if "\<not> gate_new_account e"
      by (rule cat_wp_mono [OF settle_invites_settled [OF grows_ok [OF g1] u(1)]]) (use that fin [OF _ g1] in \<open>auto simp: c1_def\<close>)
    have ap: "approval_taken ?a ?t c c2" if "auth_has_usable_account_approval ?a ?t c"
      using that remove_keyed [OF constraints_distinct(9) [OF ok_constraints [OF ok]], of _ ?a "\<lambda>a. ?t \<le> ap_at a"]
      by (simp add: auth_has_usable_account_approval_def list_ex_iff approval_taken_def c2_def c1_def) blast
    have w2: "cat_wp (settle_invites e i) c2 (\<lambda>r c'. r = None \<and> c' = c \<or> r = Some i \<and> account_made e i c c')"
      if "gate_new_account e" "auth_has_usable_account_approval ?a ?t c"
      by (rule cat_wp_mono [OF settle_invites_settled [OF grows_ok [OF g2] u(2)]])
        (use that fin [OF _ grows_trans [OF g1 g2]] ap in \<open>auto simp: c1_def c2_def\<close>)
    have h: "auth_has_usable_account_approval ?a ?t c1 = auth_has_usable_account_approval ?a ?t c"
      by (simp add: c1_def auth_has_usable_account_approval_def)
    show ?thesis
      using False w1 w2 h ok_constraints [OF grows_ok [OF g1]] ok_constraints [OF grows_ok [OF g2]]
      by (simp add: create_account_def auth_create_user_google_def auth_consume_account_approval_def settle_invites_def [symmetric]
          n_def [symmetric] c1_def [symmetric] c2_def [symmetric])
  qed (simp add: create_account_def auth_create_user_google_def)
qed

text \<open>A sign-in names only accounts of its own Google identity.\<close>

fun sign_in_ok :: "catalog \<Rightarrow> callback_env \<times> sign_in \<Rightarrow> bool" where
  "sign_in_ok c (e, Found i w) \<longleftrightarrow> us_id w = i \<and> (i, cb_sub e) \<in> identities c"
| "sign_in_ok c (e, Claiming u) \<longleftrightarrow> (u, cb_sub e) \<in> identities c"
| "sign_in_ok c (e, Issued u) \<longleftrightarrow> (u, cb_sub e) \<in> identities c"
| "sign_in_ok c (e, s) \<longleftrightarrow> True"

lemma sign_in_ok_persists: "persists c c' \<Longrightarrow> sign_in_ok c es \<Longrightarrow> sign_in_ok c' es"
  by (cases "(c, es)" rule: sign_in_ok.cases) (auto simp: persists_def)

lemma by_sub_identity: "auth_get_user_by_google_sub_any sub c = Some w \<Longrightarrow> (us_id w, sub) \<in> identities c"
  unfolding auth_get_user_by_google_sub_any_def identities_def by (auto simp: find_Some_iff)

lemma by_id_identity: "auth_get_user_row_any i c = Some w \<Longrightarrow> us_id w = i \<and> (i, us_sub w) \<in> identities c"
  unfolding auth_get_user_row_any_def identities_def by (auto simp: find_Some_iff)

lemma found_account_ok: "(us_id w, cb_sub e) \<in> identities c \<Longrightarrow> sign_in_ok c (e, found_account i w)"
  by (auto simp: found_account_def)

lemma update_profile_grows:
  assumes ok: "catalog_ok c"
  shows "cat_wp (auth_update_user_profile i f) c (\<lambda>_. grows c)"
proof -
  have "grows c (update_user i g c)" if "\<And>u. us_id (g u) = us_id u" "\<And>u. us_sub (g u) = us_sub u" for g
    using that ok by (simp add: grows_def ok_update_user persists_update adds_roles_same)
  then show ?thesis using grows_refl [OF ok] grows_ok
    by (auto simp: auth_update_user_profile_def update_user_upholds ok split: option.split)
qed

lemma grows_identity: "grows c c' \<Longrightarrow> p \<in> identities c \<Longrightarrow> p \<in> identities c'"
  by (auto simp: grows_def persists_def)

lemma sign_in_step_grows:
  assumes ok: "catalog_ok c" and s: "sign_in_ok c (e, s)" and step: "sign_in_step e now auth s c = Some (s', c')"
  shows "grows c c' \<and> sign_in_ok c' (e, s')"
proof (cases s)
  case (Creating i)
  then show ?thesis
    using step cat_wpD [OF create_account_made [OF ok, of e now i]] grows_refl [OF ok]
    by (fastforce simp: account_made_def split: sum.splits option.splits catalog_error.splits)
next
  case (Found i w)
  then have "cat_wp (auth_update_user_profile (us_id w) \<lparr>pf_email = Some (cb_email e), pf_given = Some (cb_given e),
      pf_family = Some (cb_family e), pf_picture = Some (cb_picture e)\<rparr>) c (\<lambda>_. grows c)"
    using update_profile_grows [OF ok] by simp
  then have "grows c c'" using step Found by (auto dest: cat_wpD split: sum.splits)
  then show ?thesis using step s Found by (auto dest: grows_identity split: sum.splits)
next
  case (Claiming u)
  then have u: "u \<in> user_ids c" using s by (force simp: identities_def user_ids_def)
  have "grows c c' \<and> s' = Issued u"
    using step Claiming cat_wpD [OF wp_claim [OF ok u]] grows_refl [OF ok] by (auto split: if_splits sum.splits)
  then show ?thesis using s Claiming by (auto dest: grows_identity)
next
  case (Resolving i)
  then have "c' = c" "sign_in_ok c (e, s')"
    using step by (auto intro!: found_account_ok dest!: by_sub_identity split: option.splits)
  then show ?thesis using ok by (simp add: grows_refl)
next
  case (Resolving_owner i)
  then have "c' = c" "sign_in_ok c (e, s')"
    using step by (auto intro!: found_account_ok dest!: by_id_identity split: option.splits if_splits)
  then show ?thesis using ok by (simp add: grows_refl)
next
  case (Rereading i b)
  then have "c' = c" "sign_in_ok c (e, s')"
    using step by (auto intro!: found_account_ok dest!: by_sub_identity split: option.splits)
  then show ?thesis using ok by (simp add: grows_refl)
qed (use step ok in \<open>auto simp: grows_refl sign_in_start_def split: option.splits\<close>)

end
