(* ===== verification/TeamSafety.thy ===== *)
theory TeamSafety
  imports PlaneEffects
begin

section \<open>The team plane under interleaving\<close>

text \<open>
  Requests, support requests and sign-ins of any number of users, interleaved: each request is checked when it is
  received and runs its transaction at some later point, each sign-in takes its steps one by one, and the
  sessions of shows appear at any time. The properties hold in every reachable state.
\<close>

record plane =
  pl_cat :: catalog
  pl_open :: "(string \<times> team_request) list" \<comment> \<open>checked, not yet run\<close>
  pl_sign :: "(callback_env \<times> sign_in) list"
  pl_sent :: "bus_message list"

definition empty_catalog :: catalog where
  "empty_catalog = \<lparr>ct_users = [], ct_members = [], ct_prefs = [], ct_studios = [], ct_shows = [], ct_grants = [], ct_invites = [],
     ct_approvals = [], ct_settings = [], ct_sessions = []\<rparr>"

text \<open>Accounts come by sign-in only; the approvals an operator entered are there from the start.\<close>

definition fresh_plane :: "approval_row list \<Rightarrow> plane" where
  "fresh_plane as = \<lparr>pl_cat = empty_catalog\<lparr>ct_approvals := as\<rparr>, pl_open = [], pl_sign = [], pl_sent = []\<rparr>"

datatype plane_event =
    Receive string team_request
  | Commit tx_input nat
  | Support tx_input support_request
  | Arrive callback_env
  | Advance nat iso "string option"
  | NewSession index_row

text \<open>\<open>adm\<close> tells whether the support plane is in use. A fresh UUID is no show's id.\<close>

fun plane_next :: "bool \<Rightarrow> plane_event \<Rightarrow> plane \<Rightarrow> plane option" where
  "plane_next adm (Receive u req) p = (if u \<in> user_ids (pl_cat p) \<and> team_precheck u req (pl_cat p) = None
     then Some (p\<lparr>pl_open := pl_open p @ [(u, req)]\<rparr>) else None)"
| "plane_next adm (Commit x i) p = (if i < length (pl_open p) \<and> ti_uuid x \<notin> show_ids (pl_cat p)
     then (case team_commit x (fst (pl_open p ! i)) (snd (pl_open p ! i)) (pl_cat p) of
         Inl e \<Rightarrow> Some (p\<lparr>pl_open := take i (pl_open p) @ drop (Suc i) (pl_open p)\<rparr>)
       | Inr (msgs, c) \<Rightarrow> Some (p\<lparr>pl_open := take i (pl_open p) @ drop (Suc i) (pl_open p), pl_cat := c, pl_sent := pl_sent p @ msgs\<rparr>))
     else None)"
| "plane_next adm (Support x req) p = (if adm then (case support_commit x req (pl_cat p) of
         Inl e \<Rightarrow> None | Inr (msgs, c) \<Rightarrow> Some (p\<lparr>pl_cat := c, pl_sent := pl_sent p @ msgs\<rparr>)) else None)"
| "plane_next adm (Arrive e) p = Some (p\<lparr>pl_sign := pl_sign p @ [(e, Starting)]\<rparr>)"
| "plane_next adm (Advance i now auth) p = (if i < length (pl_sign p)
     then (case sign_in_step (fst (pl_sign p ! i)) now auth (snd (pl_sign p ! i)) (pl_cat p) of None \<Rightarrow> None
       | Some (s, c) \<Rightarrow> Some (p\<lparr>pl_sign := (pl_sign p)[i := (fst (pl_sign p ! i), s)], pl_cat := c\<rparr>))
     else None)"
| "plane_next adm (NewSession x) p = (let c = (pl_cat p)\<lparr>ct_sessions := ct_sessions (pl_cat p) @ [x]\<rparr>
     in if constraints_hold c then Some (p\<lparr>pl_cat := c\<rparr>) else None)"

fun plane_run :: "bool \<Rightarrow> plane_event list \<Rightarrow> plane \<Rightarrow> plane option" where
  "plane_run adm [] p = Some p"
| "plane_run adm (ev # evs) p = (case plane_next adm ev p of None \<Rightarrow> None | Some p' \<Rightarrow> plane_run adm evs p')"

definition reachable :: "bool \<Rightarrow> plane \<Rightarrow> bool" where
  "reachable adm p \<longleftrightarrow> (\<exists>as evs. distinct (map ap_email as) \<and> plane_run adm evs (fresh_plane as) = Some p)"

lemma run_induct [consumes 1, case_names start step]:
  assumes "plane_run adm evs p = Some p'" "I p" "\<And>ev q q'. I q \<Longrightarrow> plane_next adm ev q = Some q' \<Longrightarrow> I q'"
  shows "I p'"
  using assms(1,2)
proof (induction evs arbitrary: p)
  case (Cons ev evs)
  then show ?case using assms(3) by (auto split: option.splits)
qed simp

subsection \<open>The invariant\<close>

definition plane_ok :: "plane \<Rightarrow> bool" where
  "plane_ok p \<longleftrightarrow> catalog_ok (pl_cat p) \<and> (\<forall>r \<in> set (pl_open p). request_ready (pl_cat p) r) \<and>
     (\<forall>es \<in> set (pl_sign p). sign_in_ok (pl_cat p) es)"

lemma request_ready_persists: "persists c c' \<Longrightarrow> request_ready c r \<Longrightarrow> request_ready c' r"
  using persists_users [of c c'] by (cases "(c, r)" rule: request_ready.cases) (auto simp: persists_def)

lemma request_ready_user: "request_ready c (u, req) \<Longrightarrow> u \<in> user_ids c"
  by (cases req) auto

lemma fresh_ok: "distinct (map ap_email as) \<Longrightarrow> plane_ok (fresh_plane as)"
  by (auto simp: plane_ok_def fresh_plane_def empty_catalog_def intro!: okI)
    (simp_all add: constraint_defs one_owner_def auth_get_membership_role_def invited_def has_shows_def granted_def auth_count_pending_invites_def)

text \<open>What a step does to the catalog.\<close>

lemma as_400_Inr [simp]: "as_400 r = Inr y \<longleftrightarrow> r = Inr y"
  by (auto simp: as_400_def split: sum.splits catalog_error.splits)

lemma as_400_constraint [simp]: "as_400 r = Inl ConstraintFailed \<longleftrightarrow> r = Inl ConstraintFailed"
  by (auto simp: as_400_def split: sum.splits catalog_error.splits)

lemma committed_effect:
  assumes "catalog_ok c" "request_ready c (u, req)" "ti_uuid x \<notin> show_ids c" "team_commit x u req c = Inr (msgs, c')"
  shows "team_effect u c msgs c'"
  using cat_wpD [OF team_tx_effect [OF assms(1-3)]] assms(4) by (simp add: team_commit_def)

lemma supported_effect: "catalog_ok c \<Longrightarrow> support_commit x req c = Inr (msgs, c') \<Longrightarrow> support_effect c msgs c'"
  using cat_wpD [OF support_tx_effect] by (simp add: support_commit_def)

inductive plane_change :: "bool \<Rightarrow> catalog \<Rightarrow> bus_message list \<Rightarrow> catalog \<Rightarrow> bool" for adm c where
  team: "u \<in> user_ids c \<Longrightarrow> team_effect u c msgs c' \<Longrightarrow> plane_change adm c msgs c'"
| support: "adm \<Longrightarrow> support_effect c msgs c' \<Longrightarrow> plane_change adm c msgs c'"
| signed: "grows c c' \<Longrightarrow> plane_change adm c [] c'"
| session: "constraints_hold (c\<lparr>ct_sessions := ct_sessions c @ [x]\<rparr>) \<Longrightarrow> plane_change adm c [] (c\<lparr>ct_sessions := ct_sessions c @ [x]\<rparr>)"

lemma next_change:
  assumes ok: "plane_ok p" and step: "plane_next adm ev p = Some p'"
  shows "\<exists>msgs. plane_change adm (pl_cat p) msgs (pl_cat p') \<and> pl_sent p' = pl_sent p @ msgs"
proof (cases ev)
  case (Commit x i)
  obtain u req where r: "pl_open p ! i = (u, req)" by fastforce
  have i: "i < length (pl_open p)" "ti_uuid x \<notin> show_ids (pl_cat p)" using step Commit by (auto split: if_splits)
  then have rd: "request_ready (pl_cat p) (u, req)" using ok r nth_mem [of i "pl_open p"] by (auto simp: plane_ok_def)
  show ?thesis
  proof (cases "team_commit x u req (pl_cat p)")
    case (Inr a)
    with i rd ok step Commit r show ?thesis
      by (cases a) (auto simp: plane_ok_def intro!: plane_change.team dest: request_ready_user intro: committed_effect)
  next
    case (Inl e)
    with i step Commit r ok show ?thesis by (auto simp: plane_ok_def grows_refl intro!: plane_change.signed)
  qed
next
  case (Support x req)
  with ok step show ?thesis
    by (auto simp: plane_ok_def dest: supported_effect intro!: plane_change.support split: if_splits sum.splits)
next
  case (Advance i now auth)
  then have i: "i < length (pl_sign p)" using step by (auto split: if_splits)
  then have "sign_in_ok (pl_cat p) (fst (pl_sign p ! i), snd (pl_sign p ! i))" using ok by (auto simp: plane_ok_def)
  with ok step Advance i show ?thesis
    by (auto simp: plane_ok_def dest!: sign_in_step_grows intro!: plane_change.signed split: option.splits)
next
  case (NewSession x)
  with step show ?thesis by (auto simp: Let_def intro!: plane_change.session split: if_splits)
qed (use ok step in \<open>auto simp: plane_ok_def grows_refl intro!: plane_change.signed split: if_splits\<close>)

lemma change_ok: "plane_change adm c msgs c' \<Longrightarrow> catalog_ok c \<Longrightarrow> catalog_ok c'"
  by (induction rule: plane_change.induct) (auto intro: team_effect_ok support_effect_ok ok_append_session)

lemma change_persists: "plane_change adm c msgs c' \<Longrightarrow> persists c c'"
  by (induction rule: plane_change.induct)
    (auto intro: team_effect_persists support_effect_persists simp: grows_def, auto simp: persists_def identities_def)

lemma next_ok:
  assumes ok: "plane_ok p" and step: "plane_next adm ev p = Some p'"
  shows "plane_ok p'"
proof -
  from next_change [OF ok step] obtain msgs where ch: "plane_change adm (pl_cat p) msgs (pl_cat p')" by blast
  then have c: "catalog_ok (pl_cat p')" and per: "persists (pl_cat p) (pl_cat p')"
    using ok change_ok change_persists by (auto simp: plane_ok_def)
  have old: "request_ready (pl_cat p') r" if "r \<in> set (pl_open p)" for r
    using that ok request_ready_persists [OF per] by (auto simp: plane_ok_def)
  have olds: "sign_in_ok (pl_cat p') es" if "es \<in> set (pl_sign p)" for es
    using that ok sign_in_ok_persists [OF per] by (auto simp: plane_ok_def)
  show ?thesis
  proof (cases ev)
    case (Receive u req)
    with step c old olds ok precheck_ready [of u "pl_cat p" req] show ?thesis
      by (auto simp: plane_ok_def split: if_splits)
  next
    case (Commit x i)
    then have "set (pl_open p') \<subseteq> set (pl_open p)" "pl_sign p' = pl_sign p"
      using step by (auto split: if_splits sum.splits dest: in_set_takeD in_set_dropD)
    with c old olds show ?thesis by (auto simp: plane_ok_def)
  next
    case (Advance i now auth)
    let ?e = "fst (pl_sign p ! i)" and ?s = "snd (pl_sign p ! i)"
    have i: "i < length (pl_sign p)" using step Advance by (auto split: if_splits)
    have r: "sign_in_ok (pl_cat p) (?e, ?s)" using ok i by (auto simp: plane_ok_def)
    show ?thesis
    proof (cases "sign_in_step ?e now auth ?s (pl_cat p)")
      case (Some sc)
      obtain s c' where sc: "sc = (s, c')" by fastforce
      have p': "p' = p\<lparr>pl_sign := (pl_sign p)[i := (?e, s)], pl_cat := c'\<rparr>" using step Advance i Some sc by simp
      have new: "sign_in_ok (pl_cat p') (?e, s)"
        using sign_in_step_grows [OF _ r] Some sc p' ok by (simp add: plane_ok_def)
      have "es = (?e, s) \<or> es \<in> set (pl_sign p)" if "es \<in> set (pl_sign p')" for es
        using that set_update_subset_insert [of "pl_sign p" i "(?e, s)"] p' by auto
      then have "sign_in_ok (pl_cat p') es" if "es \<in> set (pl_sign p')" for es using that new olds by blast
      moreover have "pl_open p' = pl_open p" using p' by simp
      ultimately show ?thesis using c old by (simp add: plane_ok_def)
    qed (use step Advance i in simp)
  qed (use step c old olds in \<open>auto simp: plane_ok_def Let_def split: if_splits sum.splits\<close>)
qed

lemma reachable_ok: "reachable adm p \<Longrightarrow> plane_ok p"
  unfolding reachable_def using fresh_ok next_ok by (metis run_induct)

subsection \<open>Access\<close>

definition access_up :: "role option \<Rightarrow> role option \<Rightarrow> bool" where
  "access_up a b \<longleftrightarrow> a = None \<or> a = b \<or> (b \<noteq> None \<and> b \<noteq> Some Member)"

lemma access_up_simps [simp]: "access_up a a" "access_up None b" "access_up a (Some Owner)" "access_up a (Some Admin)"
  by (simp_all add: access_up_def)

lemma role_access_up: "role_up a b \<Longrightarrow> access_up a b"
  by (auto simp: role_up_def access_up_def split: option.splits role.splits)

lemma access_kept:
  assumes "constraints_hold c" "constraints_hold c'" "persists c c'" "auth_can_access_show v sh c"
    and "\<And>s. get_show_row sh c = Some s \<Longrightarrow> access_up (role_of c v (sw_studio s)) (role_of c' v (sw_studio s))"
    and "\<And>s. get_show_row sh c = Some s \<Longrightarrow> role_of c v (sw_studio s) = Some Member \<Longrightarrow> role_of c' v (sw_studio s) = Some Member \<Longrightarrow>
      granted v sh c \<Longrightarrow> granted v sh c'"
  shows "auth_can_access_show v sh c'"
proof -
  obtain s r where s: "get_show_row sh c = Some s" "role_of c v (sw_studio s) = Some r" "r \<noteq> Member \<or> granted v sh c"
    using assms(4) by (auto simp: access_iff [OF assms(1)])
  moreover have "get_show_row sh c' = Some s" using assms(3) s(1) by (auto simp: persists_def)
  ultimately show ?thesis
    using assms(5,6) [OF s(1)] by (cases r; cases "role_of c' v (sw_studio s)") (auto simp: access_iff [OF assms(2)] access_up_def)
qed

lemma team_show_ids_iff:
  assumes "constraints_hold c"
  shows "sh \<in> set (team_show_ids t c) \<longleftrightarrow> (\<exists>s. get_show_row sh c = Some s \<and> sw_studio s = t)"
  unfolding get_show_row_def find_Some_iff_distinct [OF constraints_distinct(6) [OF assms]]
  by (auto simp: team_show_ids_def list_shows_for_studio_def)

text \<open>An access that a change takes away is closed: the row of the session is known to the change.\<close>

definition loss_closed :: "catalog \<Rightarrow> bus_message list \<Rightarrow> catalog \<Rightarrow> bool" where
  "loss_closed c msgs c' \<longleftrightarrow> (\<forall>v sh x. x \<in> set (ct_sessions c) \<longrightarrow> ix_show x = Some sh \<longrightarrow> auth_can_access_show v sh c \<longrightarrow>
     \<not> auth_can_access_show v sh c' \<longrightarrow> closed_by msgs v (ix_id x))"

lemma loss_closedI:
  assumes "constraints_hold c" "constraints_hold c'" "persists c c'"
    and "\<And>v sh s x. get_show_row sh c = Some s \<Longrightarrow> x \<in> set (ct_sessions c) \<Longrightarrow> ix_show x = Some sh \<Longrightarrow> \<not> auth_can_access_show v sh c' \<Longrightarrow>
      \<not> closed_by msgs v (ix_id x) \<Longrightarrow> access_up (role_of c v (sw_studio s)) (role_of c' v (sw_studio s)) \<and>
        (role_of c v (sw_studio s) = Some Member \<longrightarrow> role_of c' v (sw_studio s) = Some Member \<longrightarrow> granted v sh c \<longrightarrow> granted v sh c')"
  shows "loss_closed c msgs c'"
  unfolding loss_closed_def using access_kept [OF assms(1-3)] assms(4) by metis

lemma loss_closed_lost:
  assumes "constraints_hold c'" "ct_sessions c' = ct_sessions c" "x \<in> set (ct_sessions c)" "ix_show x = Some sh"
    "get_show_row sh c' = Some s" "\<not> auth_can_access_show v sh c'"
  shows "closed_by (lost_closes v (team_show_ids (sw_studio s) c') c') v (ix_id x)" "closed_by (lost_closes v [sh] c') v (ix_id x)"
  using assms by (auto simp: closed_by_lost team_show_ids_iff)

lemma role_fold_add: "role_up (role_of c w s) (role_of (fold (\<lambda>v. add_member v t Member) vs c) w s)"
proof (induction vs arbitrary: c)
  case (Cons v vs)
  have "role_up (role_of c w s) (role_of (add_member v t Member c) w s)" by (simp add: role_add_member)
  with Cons [of "add_member v t Member c"] show ?case by (auto intro: role_up_trans)
qed simp

lemma fold_granted [simp]: "granted w sh (fold (\<lambda>v. add_member v t Member) vs c) = granted w sh c"
  by (induction vs arbitrary: c) simp_all

lemma show_team_exists: "catalog_ok c \<Longrightarrow> get_show_row sh c = Some s \<Longrightarrow> has_shows (sw_studio s) c \<and> studio_exists (sw_studio s) c"
  using okD(3) [of c "sw_studio s"] show_row_show [of sh c s] by (auto simp: has_shows_def list_ex_iff)

lemma team_loss_closed:
  assumes eff: "team_effect u c msgs c'" and ok: "catalog_ok c" and u: "u \<in> user_ids c"
  shows "loss_closed c msgs c'"
proof -
  note C = ok_constraints [OF ok] ok_constraints [OF team_effect_ok [OF eff ok u]]
  note P = team_effect_persists [OF eff]
  show ?thesis
  proof (rule loss_closedI [OF C P])
    fix v sh s x
    assume s: "get_show_row sh c = Some s" and x: "x \<in> set (ct_sessions c)" "ix_show x = Some sh"
      and lost: "\<not> auth_can_access_show v sh c'" and open': "\<not> closed_by msgs v (ix_id x)"
    have s': "get_show_row sh c' = Some s" using P s by (auto simp: persists_def)
    note T = show_team_exists [OF ok s]
    from eff show "access_up (role_of c v (sw_studio s)) (role_of c' v (sw_studio s)) \<and>
        (role_of c v (sw_studio s) = Some Member \<longrightarrow> role_of c' v (sw_studio s) = Some Member \<longrightarrow> granted v sh c \<longrightarrow> granted v sh c')"
    proof cases
      case (joined t vs)
      then show ?thesis using role_access_up [OF role_fold_add] by simp
    next
      case (revoked t k q w)
      then show ?thesis using loss_closed_lost(2) [OF C(2) _ x s' lost] open' by auto
    next
      case (demoted t w)
      then show ?thesis using loss_closed_lost(1) [OF C(2) _ x s' lost] open' by (auto simp: role_set_role)
    next
      case (removed t w)
      then show ?thesis using loss_closed_lost(1) [OF C(2) _ x s' lost] open' s by (auto simp: show_row_in_studio [OF C(1)])
    next
      case (left t)
      have "closed_by msgs u (ix_id x)" if "sw_studio s = t"
      proof -
        have "sh \<in> set (team_show_ids t c)" using that s by (auto simp: team_show_ids_iff [OF C(1)])
        then have "ix_id x \<in> set (list_session_ids_for_shows (team_show_ids t c) c)"
          using x by (auto simp: list_session_ids_for_shows_def)
        then show ?thesis by (simp add: left closed_by_close_messages)
      qed
      with left open' s show ?thesis by (auto simp: show_row_in_studio [OF C(1)])
    qed (use T in \<open>auto simp: role_add_member role_set_role\<close>)
  qed
qed

lemma support_loss_closed:
  assumes eff: "support_effect c msgs c'" and ok: "catalog_ok c"
  shows "loss_closed c msgs c'"
proof -
  note C = ok_constraints [OF ok] ok_constraints [OF support_effect_ok [OF eff ok]]
  note P = support_effect_persists [OF eff]
  show ?thesis
  proof (rule loss_closedI [OF C P])
    fix v sh s x
    assume s: "get_show_row sh c = Some s" and x: "x \<in> set (ct_sessions c)" "ix_show x = Some sh"
      and lost: "\<not> auth_can_access_show v sh c'" and open': "\<not> closed_by msgs v (ix_id x)"
    have s': "get_show_row sh c' = Some s" using P s by (auto simp: persists_def)
    note T = show_team_exists [OF ok s]
    from eff show "access_up (role_of c v (sw_studio s)) (role_of c' v (sw_studio s)) \<and>
        (role_of c v (sw_studio s) = Some Member \<longrightarrow> role_of c' v (sw_studio s) = Some Member \<longrightarrow> granted v sh c \<longrightarrow> granted v sh c')"
    proof cases
      case (reranked w t r)
      then show ?thesis using loss_closed_lost(1) [OF C(2) _ x s' lost] open' by (cases r) (auto simp: role_set_role)
    next
      case (dropped w t)
      then show ?thesis using loss_closed_lost(1) [OF C(2) _ x s' lost] open' s by (auto simp: show_row_in_studio [OF C(1)])
    qed (use T in \<open>auto simp: role_add_member role_set_role role_demote_owners\<close>)
  qed
qed

lemma change_loss_closed:
  assumes "plane_change adm c msgs c'" and ok: "catalog_ok c"
  shows "loss_closed c msgs c'"
  using assms(1)
proof cases
  case team
  then show ?thesis using team_loss_closed ok by blast
next
  case support
  then show ?thesis using support_loss_closed ok by blast
next
  case signed
  then show ?thesis using ok role_access_up
    by (auto simp: grows_def intro!: loss_closedI dest: adds_rolesD)
next
  case (session x)
  then show ?thesis by (simp add: loss_closed_def auth_can_access_show_def show_access_predicate_def)
qed

lemma run_sent: "plane_ok p \<Longrightarrow> plane_run adm evs p = Some p' \<Longrightarrow> \<exists>ns. pl_sent p' = pl_sent p @ ns"
proof (induction evs arbitrary: p)
  case (Cons ev evs)
  then obtain q where q: "plane_next adm ev p = Some q" "plane_run adm evs q = Some p'" by (auto split: option.splits)
  with Cons next_ok [OF Cons.prems(1) q(1)] next_change [OF Cons.prems(1) q(1)] show ?case by fastforce
qed simp

lemma run_loss_closed:
  assumes "plane_ok p" "plane_run adm evs p = Some p'" "x \<in> set (ct_sessions (pl_cat p))" "ix_show x = Some sh"
    "auth_can_access_show v sh (pl_cat p)" "\<not> auth_can_access_show v sh (pl_cat p')"
  shows "\<exists>msgs. pl_sent p' = pl_sent p @ msgs \<and> closed_by msgs v (ix_id x)"
  using assms
proof (induction evs arbitrary: p)
  case (Cons ev evs)
  then obtain q where q: "plane_next adm ev p = Some q" "plane_run adm evs q = Some p'" by (auto split: option.splits)
  from next_change [OF Cons.prems(1) q(1)] obtain ms where ch: "plane_change adm (pl_cat p) ms (pl_cat q)" and ms: "pl_sent q = pl_sent p @ ms" by blast
  have x: "x \<in> set (ct_sessions (pl_cat q))" using change_persists [OF ch] Cons.prems(3) by (auto simp: persists_def)
  obtain ns where ns: "pl_sent p' = pl_sent q @ ns"
    using run_sent [OF next_ok [OF Cons.prems(1) q(1)] q(2)] by blast
  show ?case
  proof (cases "auth_can_access_show v sh (pl_cat q)")
    case True
    from Cons.IH [OF next_ok [OF Cons.prems(1) q(1)] q(2) x Cons.prems(4) this Cons.prems(6)]
    show ?thesis using ms by (auto simp: closed_by_def)
  next
    case False
    then have "closed_by ms v (ix_id x)"
      using change_loss_closed [OF ch] Cons.prems by (auto simp: loss_closed_def plane_ok_def)
    then show ?thesis using ms ns by (auto simp: closed_by_def)
  qed
qed simp

end
