(* ===== verification/TeamProperties.thy ===== *)
theory TeamProperties
  imports TeamSafety
begin

section \<open>What the team plane promises\<close>

text \<open>
  The properties of teams, roles, access and accounts in every reachable state, and one concrete run that
  they are applied to.
\<close>

subsection \<open>Owners\<close>

definition owned :: "catalog \<Rightarrow> bool" where
  "owned c \<longleftrightarrow> (\<forall>t. studio_exists t c \<longrightarrow> (\<exists>u. role_of c u t = Some Owner))"

lemma ownedI:
  assumes "owned c" "\<And>t. studio_exists t c' \<Longrightarrow> studio_exists t c"
    "\<And>u t. role_of c u t = Some Owner \<Longrightarrow> studio_exists t c' \<Longrightarrow> \<exists>v. role_of c' v t = Some Owner"
  shows "owned c'"
  using assms unfolding owned_def by blast

lemma ownedI':
  assumes "owned c" "\<And>t. studio_exists t c' \<Longrightarrow> studio_exists t c"
    "\<And>u t. role_of c u t = Some Owner \<Longrightarrow> studio_exists t c' \<Longrightarrow> role_of c' u t = Some Owner"
  shows "owned c'"
  using assms unfolding owned_def by blast

lemma fold_studio [simp]: "studio_exists t (fold (\<lambda>v. add_member v s Member) vs c) = studio_exists t c"
  by (induction vs arbitrary: c) simp_all

lemma team_owned:
  assumes eff: "team_effect u c msgs c'" and own: "owned c" and ok: "catalog_ok c"
  shows "owned c'"
  using eff
proof cases
  case (founded t s k v)
  then show ?thesis using own by (auto simp: owned_def role_add_member)
next
  case (joined t vs)
  then have "role_of c' w s = Some Owner" if "role_of c w s = Some Owner" for w s
    using that role_fold_add [of w s c t vs] by (simp add: role_up_def)
  then show ?thesis by (intro ownedI [OF own]) (auto simp: joined)
next
  case (transferred t v)
  then show ?thesis by (intro ownedI [OF own]) (auto simp: role_set_role)
next
  case (removed t v)
  then have "role_of c v t \<noteq> Some Owner" by auto
  with removed show ?thesis by (intro ownedI [OF own]) auto
qed ((rule ownedI' [OF own]; auto simp: role_set_role)+)

lemma change_owned:
  assumes "plane_change False c msgs c'" and own: "owned c" and ok: "catalog_ok c"
  shows "owned c'"
  using assms(1)
proof cases
  case team
  then show ?thesis using team_owned own ok by blast
next
  case signed
  then have up: "role_up (role_of c u t) (role_of c' u t)" "studio_exists t c' = studio_exists t c" for u t
    using adds_rolesD by (auto simp: grows_def)
  have "role_of c' u t = Some Owner" if "role_of c u t = Some Owner" for u t using up(1) [of u t] that by (simp add: role_up_def)
  then show ?thesis using up(2) by (intro ownedI [OF own]) auto
next
  case session
  then show ?thesis using own by (simp add: owned_def)
qed simp

lemma reachable_owned:
  assumes "reachable False p"
  shows "owned (pl_cat p)"
proof -
  obtain as evs where r: "distinct (map ap_email as)" "plane_run False evs (fresh_plane as) = Some p"
    using assms by (auto simp: reachable_def)
  have "plane_ok p \<and> owned (pl_cat p)"
    using r(2)
  proof (induction rule: run_induct)
    case start
    show ?case using fresh_ok [OF r(1)] by (simp add: owned_def fresh_plane_def empty_catalog_def studio_exists_def)
  next
    case (step ev q q')
    then show ?case using next_ok next_change change_owned by (metis plane_ok_def)
  qed
  then show ?thesis by simp
qed

subsection \<open>Who changes a role\<close>

definition may_change :: "catalog \<Rightarrow> string \<Rightarrow> string \<Rightarrow> string \<Rightarrow> role option \<Rightarrow> role option \<Rightarrow> bool" where
  "may_change c u v t old new \<longleftrightarrow> role_of c u t = Some Owner \<or>
     role_of c u t = Some Admin \<and> {old, new} = {None, Some Member} \<or>
     v = u \<and> old \<noteq> None \<and> new = None \<or>
     v = u \<and> \<not> studio_exists t c \<and> new = Some Owner"

lemma role_fold_add_eq: "role_of (fold (\<lambda>v. add_member v t Member) vs c) w s =
    (if s = t \<and> w \<in> set vs \<and> role_of c w s = None then Some Member else role_of c w s)"
  by (induction vs arbitrary: c) (auto simp: role_add_member)

lemma team_effect_roles:
  assumes eff: "team_effect u c msgs c'" and ok: "catalog_ok c" and ch: "role_of c' v t \<noteq> role_of c v t"
  shows "may_change c u v t (role_of c v t) (role_of c' v t)"
  using eff
proof cases
  case (founded s st k x)
  have "role_of c w s = None" for w using okD(1) [OF ok, of w s] founded by (cases "role_of c w s") auto
  with founded show ?thesis using ch by (auto simp: may_change_def role_add_member split: if_splits)
next
  case (joined s vs)
  then show ?thesis using ch by (auto simp: may_change_def role_fold_add_eq manages_def split: if_splits)
next
  case (removed s w)
  then show ?thesis using ch by (auto simp: may_change_def manages_def split: if_splits)
qed (use ch in \<open>auto simp: may_change_def manages_def role_set_role split: if_splits\<close>)

lemma open_effect:
  assumes "reachable adm p" "(u, req) \<in> set (pl_open p)" "ti_uuid x \<notin> show_ids (pl_cat p)"
  shows "cat_wp (team_tx x u req) (pl_cat p) (team_effect u (pl_cat p))"
  using reachable_ok [OF assms(1)] assms(2,3) by (intro team_tx_effect) (auto simp: plane_ok_def)

subsection \<open>A concrete run\<close>

text \<open>An owner signs in, founds a team, invites an address and makes a show with a session; the invited user signs in on
  an approval, is granted the show and is removed again.\<close>

definition demo_callback :: "string \<Rightarrow> string \<Rightarrow> bool \<Rightarrow> callback_env" where
  "demo_callback sub email gated = \<lparr>cb_sub = sub, cb_email = email, cb_given = [], cb_family = [], cb_picture = [], cb_closed = gated,
     cb_bootstrap = [], cb_cutoff = ''1''\<rparr>"

definition demo_x :: "string \<Rightarrow> tx_input" where
  "demo_x i = \<lparr>ti_now = ''3'', ti_settings = [], ti_uuid = i, ti_categories = Inr [], ti_notified = True\<rparr>"

definition demo_sign_in :: "nat \<Rightarrow> string \<Rightarrow> plane_event list" where
  "demo_sign_in n i = [Advance n ''3'' None, Advance n ''3'' (Some i), Advance n ''3'' None, Advance n ''3'' None]"

definition demo_row :: index_row where
  "demo_row = \<lparr>ix_id = ''i'', ix_show = Some ''w'', ix_title = [], ix_episode = [], ix_rate = 24, ix_offset = 0, ix_notes = [], ix_archived = False, ix_hidden = False,
     ix_date = None, ix_started = ''3'', ix_created = ''3''\<rparr>"

definition demo_before :: "plane_event list" where
  "demo_before = [Arrive (demo_callback ''s1'' ''a@x.o'' False)] @ demo_sign_in 0 ''u1'' @ [Advance 0 ''3'' None, Advance 0 ''3'' None,
     Receive ''u1'' (CreateTeam ''ta'' ''T''), Commit (demo_x ''w'') 0, Receive ''u1'' (InviteMember ''ta'' ''b@x.o''), Commit (demo_x ''w'') 0,
     Receive ''u1'' (CreateShow ''ta'' ''S'' ''c''), Commit (demo_x ''w'') 0, NewSession demo_row,
     Arrive (demo_callback ''s2'' ''b@x.o'' True)] @ demo_sign_in 1 ''u2''"

definition demo_granting :: "plane_event list" where
  "demo_granting = [Advance 1 ''3'' None, Advance 1 ''3'' None, Receive ''u1'' (GrantShow ''ta'' ''w'' ''u2''), Commit (demo_x ''v'') 0,
     Receive ''u1'' (RemoveMember ''ta'' ''u2'')]"

definition demo_approvals :: "approval_row list" where
  "demo_approvals = [\<lparr>ap_email = ''b@x.o'', ap_at = ''2''\<rparr>]"

definition demo_invited :: plane where
  "demo_invited = the (plane_run False demo_before (fresh_plane demo_approvals))"

definition demo_granted :: plane where
  "demo_granted = the (plane_run False demo_granting demo_invited)"

definition demo_removed :: plane where
  "demo_removed = the (plane_next False (Commit (demo_x ''v'') 0) demo_granted)"

lemma plane_run_append: "plane_run adm (xs @ ys) p = (case plane_run adm xs p of None \<Rightarrow> None | Some q \<Rightarrow> plane_run adm ys q)"
  by (induction xs arbitrary: p) (auto split: option.split)

lemma reachable_run: "reachable adm p \<Longrightarrow> plane_run adm evs p = Some q \<Longrightarrow> reachable adm q"
  unfolding reachable_def by (metis plane_run_append option.simps(5))

lemma demo_runs:
  "plane_run False demo_before (fresh_plane demo_approvals) = Some demo_invited"
  "plane_run False demo_granting demo_invited = Some demo_granted"
  "plane_run False [Commit (demo_x ''v'') 0] demo_granted = Some demo_removed"
proof -
  have "plane_run False demo_before (fresh_plane demo_approvals) \<noteq> None" by code_simp
  then show "plane_run False demo_before (fresh_plane demo_approvals) = Some demo_invited" by (auto simp: demo_invited_def)
  have "plane_run False demo_granting demo_invited \<noteq> None" by code_simp
  then show "plane_run False demo_granting demo_invited = Some demo_granted" by (auto simp: demo_granted_def)
  have "plane_next False (Commit (demo_x ''v'') 0) demo_granted \<noteq> None" by code_simp
  then show "plane_run False [Commit (demo_x ''v'') 0] demo_granted = Some demo_removed" by (auto simp: demo_removed_def simp del: plane_next.simps)
qed

lemma demo_reachable: "reachable False demo_invited" "reachable False demo_granted" "reachable False demo_removed"
proof -
  have "distinct (map ap_email demo_approvals)" by (simp add: demo_approvals_def)
  then show i: "reachable False demo_invited" using demo_runs(1) by (auto simp: reachable_def)
  show g: "reachable False demo_granted" by (rule reachable_run [OF i demo_runs(2)])
  show "reachable False demo_removed" by (rule reachable_run [OF g demo_runs(3)])
qed

definition demo_facts :: "plane \<Rightarrow> plane \<Rightarrow> bool" where
  "demo_facts g r \<longleftrightarrow> (''u1'', RemoveMember ''ta'' ''u2'') \<in> set (pl_open g) \<and> ti_uuid (demo_x ''v'') \<notin> show_ids (pl_cat g) \<and>
     team_commit (demo_x ''v'') ''u1'' (RemoveMember ''ta'' ''u2'') (pl_cat g) = Inr (pl_sent r, pl_cat r) \<and>
     auth_can_access_show ''u2'' ''w'' (pl_cat g) \<and> \<not> auth_can_access_show ''u2'' ''w'' (pl_cat r) \<and>
     demo_row \<in> set (ct_sessions (pl_cat g)) \<and> studio_exists ''ta'' (pl_cat r) \<and>
     role_of (pl_cat r) ''u2'' ''ta'' \<noteq> role_of (pl_cat g) ''u2'' ''ta'' \<and>
     (demo_callback ''s2'' ''b@x.o'' True, Issued ''u2'') \<in> set (pl_sign r)"

lemma demo_evaluated: "demo_facts demo_granted demo_removed"
  by code_simp

lemma demo_open: "(''u1'', RemoveMember ''ta'' ''u2'') \<in> set (pl_open demo_granted)" "ti_uuid (demo_x ''v'') \<notin> show_ids (pl_cat demo_granted)"
  using demo_evaluated unfolding demo_facts_def by blast+

lemma demo_commit: "team_commit (demo_x ''v'') ''u1'' (RemoveMember ''ta'' ''u2'') (pl_cat demo_granted) = Inr (pl_sent demo_removed, pl_cat demo_removed)"
  using demo_evaluated unfolding demo_facts_def by blast

lemma demo_access: "auth_can_access_show ''u2'' ''w'' (pl_cat demo_granted)" "\<not> auth_can_access_show ''u2'' ''w'' (pl_cat demo_removed)"
  "demo_row \<in> set (ct_sessions (pl_cat demo_granted))" "studio_exists ''ta'' (pl_cat demo_removed)"
  "role_of (pl_cat demo_removed) ''u2'' ''ta'' \<noteq> role_of (pl_cat demo_granted) ''u2'' ''ta''"
  "(demo_callback ''s2'' ''b@x.o'' True, Issued ''u2'') \<in> set (pl_sign demo_removed)"
  using demo_evaluated unfolding demo_facts_def by blast+

subsection \<open>The properties\<close>

text \<open>C20: In every reachable state the schema's constraints hold, every role, invite and show belongs to a team that
  exists, every grant is held by a member of its show's team, and no team has more than 200 pending invites.\<close>

theorem team_plane_invariant:
  assumes "reachable adm p"
  shows "catalog_ok (pl_cat p)"
  using reachable_ok [OF assms] by (simp add: plane_ok_def)

theorem team_plane_invariant_witness: "catalog_ok (pl_cat demo_removed)"
  by (rule team_plane_invariant [OF demo_reachable(3)])



text \<open>C4: Whenever a user has lost access to a show since some earlier state, whoever took it and whatever ran in
  between, close messages naming that user have been published for every session the show had then.\<close>

theorem access_loss_closed:
  assumes "reachable adm p" "plane_run adm evs p = Some p'" "x \<in> set (ct_sessions (pl_cat p))" "ix_show x = Some sh"
    "auth_can_access_show u sh (pl_cat p)" "\<not> auth_can_access_show u sh (pl_cat p')"
  shows "\<exists>msgs. pl_sent p' = pl_sent p @ msgs \<and> closed_by msgs u (ix_id x)"
  by (rule run_loss_closed [OF reachable_ok [OF assms(1)] assms(2-6)])

theorem access_loss_closed_witness: "\<exists>msgs. pl_sent demo_removed = pl_sent demo_granted @ msgs \<and> closed_by msgs ''u2'' ''i''"
  using access_loss_closed [OF demo_reachable(2) demo_runs(3) demo_access(3) _ demo_access(1,2)] by (simp add: demo_row_def)

text \<open>C7: A team request changes a user's role only if, in the state it commits in, the caller owns the team, or
  administers it and adds or removes a plain member, or gives up the own role, or founds the team.\<close>

theorem role_changes_authorised:
  assumes "reachable adm p" "(u, req) \<in> set (pl_open p)" "ti_uuid x \<notin> show_ids (pl_cat p)"
    "team_commit x u req (pl_cat p) = Inr (msgs, c')" "role_of c' v t \<noteq> role_of (pl_cat p) v t"
  shows "may_change (pl_cat p) u v t (role_of (pl_cat p) v t) (role_of c' v t)"
proof -
  have "team_effect u (pl_cat p) msgs c'"
    using cat_wpD [OF open_effect [OF assms(1-3)]] assms(4) by (simp add: team_commit_def)
  then show ?thesis using assms(5) reachable_ok [OF assms(1)] by (intro team_effect_roles) (auto simp: plane_ok_def)
qed

theorem role_changes_authorised_witness: "may_change (pl_cat demo_granted) ''u1'' ''u2'' ''ta''
    (role_of (pl_cat demo_granted) ''u2'' ''ta'') (role_of (pl_cat demo_removed) ''u2'' ''ta'')"
  by (rule role_changes_authorised [OF demo_reachable(2) demo_open demo_commit demo_access(5)])

text \<open>C6: The routes implement the abstract effects: an open request that is accepted has one of the effects of the
  specification under the caller's role at that moment, and one that is refused never failed on a constraint,
  although its checks ran in an earlier state.\<close>

theorem team_routes_refine:
  assumes "reachable adm p" "(u, req) \<in> set (pl_open p)" "ti_uuid x \<notin> show_ids (pl_cat p)"
  shows "case team_commit x u req (pl_cat p) of Inl e \<Rightarrow> e \<noteq> ConstraintFailed | Inr (msgs, c') \<Rightarrow> team_effect u (pl_cat p) msgs c'"
proof -
  note wp = open_effect [OF assms]
  show ?thesis
    using cat_wpD [OF wp] cat_wp_no_constraint [OF wp] by (cases "team_tx x u req (pl_cat p)")
      (auto simp: team_commit_def as_400_def split: catalog_error.splits)
qed

theorem team_routes_refine_witness: "team_effect ''u1'' (pl_cat demo_granted) (pl_sent demo_removed) (pl_cat demo_removed)"
  using team_routes_refine [OF demo_reachable(2) demo_open] demo_commit by simp

text \<open>The three formulations of the access rule, the join, the locking look-up and the list of accessible shows,
  agree in every reachable state.\<close>

theorem access_rule_agrees:
  assumes "reachable adm p"
  shows "auth_can_access_show u sh (pl_cat p) = auth_can_access_show_for_share u sh (pl_cat p) \<and>
    auth_can_access_show u sh (pl_cat p) = (sh \<in> set (auth_list_accessible_show_ids u (pl_cat p)))"
proof
  have c: "constraints_hold (pl_cat p)" using reachable_ok [OF assms] by (simp add: plane_ok_def)
  have m: "r = Owner \<or> r = Admin \<longleftrightarrow> r \<noteq> Member" for r by (cases r) auto
  show "auth_can_access_show u sh (pl_cat p) = auth_can_access_show_for_share u sh (pl_cat p)"
    by (auto simp: access_iff [OF c] auth_can_access_show_for_share_def get_show_row_def [symmetric] m split: option.split)
  show "auth_can_access_show u sh (pl_cat p) = (sh \<in> set (auth_list_accessible_show_ids u (pl_cat p)))"
    by (auto simp: auth_can_access_show_def auth_list_accessible_show_ids_def list_ex_iff)
qed

theorem access_rule_agrees_witness: "auth_can_access_show_for_share ''u2'' ''w'' (pl_cat demo_granted)"
  using access_rule_agrees [OF demo_reachable(2)] demo_access(1) by blast

text \<open>C21: A sign-in that issues a session does so for the account whose Google identity was verified, whatever other
  sign-ins ran between its steps.\<close>

theorem sign_in_identity:
  assumes "reachable adm p" "(e, Issued u) \<in> set (pl_sign p)"
  shows "\<exists>w \<in> set (ct_users (pl_cat p)). us_id w = u \<and> us_sub w = cb_sub e"
proof -
  have "sign_in_ok (pl_cat p) (e, Issued u)" using reachable_ok [OF assms(1)] assms(2) by (auto simp: plane_ok_def simp del: sign_in_ok.simps)
  then show ?thesis by (auto simp: identities_def)
qed

theorem sign_in_identity_witness: "\<exists>w \<in> set (ct_users (pl_cat demo_removed)). us_id w = ''u2'' \<and> us_sub w = ''s2''"
  using sign_in_identity [OF demo_reachable(3) demo_access(6)] by (simp add: demo_callback_def)

text \<open>C22: An account's transaction makes one account of the verified identity; while sign-ups are closed it takes exactly
  one usable approval of the address, and the address's invites become memberships and are gone.\<close>

theorem account_created:
  assumes "reachable adm p" "create_account e now i (pl_cat p) = Inr (Some u, c')"
  shows "u = i \<and> account_made e i (pl_cat p) c'"
proof -
  have "catalog_ok (pl_cat p)" using reachable_ok [OF assms(1)] by (simp add: plane_ok_def)
  from cat_wpD [OF create_account_made [OF this] assms(2)] show ?thesis by simp
qed

theorem account_created_witness: "\<exists>c'. create_account (demo_callback ''s2'' ''b@x.o'' True) ''3'' ''u2'' (pl_cat demo_invited) = Inr (Some ''u2'', c') \<and>
    account_made (demo_callback ''s2'' ''b@x.o'' True) ''u2'' (pl_cat demo_invited) c'"
proof -
  have "case create_account (demo_callback ''s2'' ''b@x.o'' True) ''3'' ''u2'' (pl_cat demo_invited) of Inr (Some u, c') \<Rightarrow> u = ''u2'' | _ \<Rightarrow> False"
    by code_simp
  then obtain c' where "create_account (demo_callback ''s2'' ''b@x.o'' True) ''3'' ''u2'' (pl_cat demo_invited) = Inr (Some ''u2'', c')"
    by (auto split: sum.splits option.splits)
  then show ?thesis using account_created [OF demo_reachable(1)] by blast
qed

end
