(* ===== verification/ShowStore.thy ===== *)
theory ShowStore
  imports StudioStore
begin

section \<open>Team settings and show rows\<close>

text \<open>
  The rest of packages/catalog/src/studioRegistry.ts (the settings blobs and the profiles made from them) and
  packages/catalog/src/showsStore.ts. The registry's snapshot \<open>snap\<close> is the catalog at the start of the
  request; \<open>c\<close> is the one read or written now. A row read that a validator refuses is an \<open>Inl\<close>.
\<close>

subsection \<open>The registry's snapshot\<close>

text \<open>The snapshot's names are an object, so \<open>studioId in this.names\<close> also finds what every object inherits.\<close>

definition inherited_names :: "string list" where
  "inherited_names = [''constructor'', ''__defineGetter__'', ''__defineSetter__'', ''hasOwnProperty'', ''__lookupGetter__'',
     ''__lookupSetter__'', ''isPrototypeOf'', ''propertyIsEnumerable'', ''toString'', ''valueOf'', ''__proto__'', ''toLocaleString'']"

definition is_known_studio :: "string \<Rightarrow> catalog \<Rightarrow> bool" where
  "is_known_studio t snap \<longleftrightarrow> studio_exists t snap \<or> t \<in> set inherited_names"

text \<open>No team has to exist for that.\<close>

lemma inherited_name_known: "ct_studios snap = [] \<Longrightarrow> is_known_studio ''constructor'' snap \<and> \<not> studio_exists ''constructor'' snap"
  by (simp add: is_known_studio_def inherited_names_def studio_exists_def)

definition list_studios_brief_allowed :: "string list \<Rightarrow> catalog \<Rightarrow> (string \<times> string) list" where
  "list_studios_brief_allowed allowed snap = map (\<lambda>s. (sd_id s, sd_name s)) (filter (\<lambda>s. sd_id s \<in> set allowed) (studio_order snap))"

subsection \<open>Settings blobs\<close>

definition settings_members :: "settings_blob \<Rightarrow> (string \<times> json) list" where
  "settings_members b = [(''categories'', JArr (map category_json (sb_categories b))),
     (''show_title_format'', JStr (sb_title_format b)), (''default_frame_rate'', JNum (sb_frame_rate b))]"

definition merge_stored :: "(string \<times> json) list \<Rightarrow> (string \<times> json) list \<Rightarrow> (string \<times> json) list" where
  "merge_stored base data = (let merged = js_object (base @ data) in
     case field_of ''categories'' data of JArr xs \<Rightarrow> merged | _ \<Rightarrow> AList.update ''categories'' (field_of ''categories'' base) merged)"

definition get_studio_settings_blob :: "(nat \<Rightarrow> string) \<Rightarrow> string \<Rightarrow> catalog \<Rightarrow> (string \<times> json) list" where
  "get_studio_settings_blob fresh t c = (let base = settings_members (default_settings_blob fresh) in
     case get_setting (studio_config_key t) c of
       None \<Rightarrow> base
     | Some raw \<Rightarrow> if raw = [] then base else
         (case json_parse raw of Some (JObj data) \<Rightarrow> merge_stored base data | _ \<Rightarrow> base))"

definition save_studio_settings_blob :: "(nat \<Rightarrow> string) \<Rightarrow> string \<Rightarrow> catalog \<Rightarrow> (string \<times> json) list \<Rightarrow> unit cat" where
  "save_studio_settings_blob fresh t snap blob = (case validate_settings_blob fresh (is_known_studio t snap) blob of
     Inl e \<Rightarrow> cthrow (ValidationError e)
   | Inr b \<Rightarrow> set_setting (studio_config_key t) (json_string (settings_json b)))"

definition json_elements :: "json \<Rightarrow> json list" where
  "json_elements v = (case v of JArr xs \<Rightarrow> xs | _ \<Rightarrow> [])"

definition load_studio_profile :: "(nat \<Rightarrow> string) \<Rightarrow> string \<Rightarrow> catalog \<Rightarrow> catalog \<Rightarrow> studio_profile" where
  "load_studio_profile fresh t snap c = (let blob = get_studio_settings_blob fresh t c in
     blob_to_profile t (or_else (studio_names snap t) t) (json_elements (field_of ''categories'' blob)) blob)"

definition all_studio_settings :: "(nat \<Rightarrow> string) \<Rightarrow> string list \<Rightarrow> catalog \<Rightarrow> catalog \<Rightarrow> (string \<times> (string + settings_blob)) list" where
  "all_studio_settings fresh allowed snap c = map (\<lambda>s. (sd_id s,
     case validate_settings_blob fresh True (get_studio_settings_blob fresh (sd_id s) c) of
       Inr b \<Rightarrow> Inr b
     | Inl e \<Rightarrow> validate_settings_blob fresh True (settings_members (default_settings_blob fresh))))
     (filter (\<lambda>s. sd_id s \<in> set allowed) (studio_order snap))"

subsection \<open>Show rows\<close>

definition title_suffix_value :: "string \<Rightarrow> string" where
  "title_suffix_value s = (if js_lower (js_trim s) = ''episode'' then ''episode'' else ''date'')"

definition categories_from_row :: "show_row \<Rightarrow> json list" where
  "categories_from_row r = (case json_parse (sw_categories r) of Some (JArr xs) \<Rightarrow> xs | _ \<Rightarrow> [])"

definition hex_colors_from_json :: "string \<Rightarrow> string list" where
  "hex_colors_from_json raw = (case json_parse raw of
     Some (JArr xs) \<Rightarrow> List.map_filter (\<lambda>x. let s = js_trim (js_string x) in
       if length s = 7 \<and> hd s = CHR ''#'' then Some (js_lower s) else None) (take 9 xs)
   | _ \<Rightarrow> [])"

record show_dict =
  sh_id :: string
  sh_studio :: string
  sh_name :: string
  sh_code :: string
  sh_suffix :: string
  sh_categories :: "json list"
  sh_palette :: "string list"
  sh_preset :: string
  sh_custom :: "string list"

definition show_api_dict :: "show_row \<Rightarrow> string + show_dict" where
  "show_api_dict r =
     (case normalize_event_palette_nine (JArr (map JStr (hex_colors_from_json (sw_palette r)))) of Inl e \<Rightarrow> Inl e | Inr pal \<Rightarrow>
      let preset_raw = js_lower (js_trim (sw_preset r));
          preset = validate_event_palette_preset (JStr (if preset_raw = [] then ''custom'' else preset_raw));
          custom_raw = hex_colors_from_json (sw_custom r)
      in case (if custom_raw = [] then Inr pal else normalize_event_palette_nine (JArr (map JStr custom_raw))) of
           Inl e \<Rightarrow> Inl e
         | Inr custom \<Rightarrow> Inr \<lparr>sh_id = sw_id r, sh_studio = sw_studio r, sh_name = sw_name r, sh_code = sw_code r,
             sh_suffix = title_suffix_value (sw_suffix r), sh_categories = categories_from_row r, sh_palette = pal,
             sh_preset = preset, sh_custom = custom\<rparr>)"

definition show_brief :: "show_row \<Rightarrow> string \<times> string \<times> string \<times> string \<times> string" where
  "show_brief r = (sw_id r, sw_studio r, sw_name r, sw_code r, title_suffix_value (sw_suffix r))"

definition dropdown_options_api_shape :: "json \<Rightarrow> (string \<times> bool) list" where
  "dropdown_options_api_shape raw = List.map_filter (\<lambda>item. case item of
       JStr s \<Rightarrow> if js_trim s = [] then None else Some (js_trim s, False)
     | JObj ps \<Rightarrow> (let lab = js_trim (js_string (nullish_or (field_of ''label'' ps) (nullish_or (field_of ''name'' ps) (JStr [])))) in
         if lab = [] then None else Some (lab, js_truthy (field_of ''needs_context'' ps)))
     | _ \<Rightarrow> None) (json_elements raw)"

record category_shape =
  cs_id :: string
  cs_label :: string
  cs_color :: string
  cs_type :: string
  cs_options :: "(string \<times> bool) list"
  cs_on :: string
  cs_off :: string

definition category_shape_of :: "(string \<times> json) list \<Rightarrow> category_shape" where
  "category_shape_of ps =
     (let text = (\<lambda>k d. js_string (nullish_or (field_of k ps) (JStr d)));
          lab = js_trim (js_string (nullish_or (field_of ''label'' ps) (nullish_or (field_of ''name'' ps) (JStr []))));
          ty = js_upper (text ''type'' ''BUTTON'')
      in \<lparr>cs_id = text ''id'' [], cs_label = (if lab = [] then ''-'' else lab), cs_color = text ''color'' ''#7cb7ff'', cs_type = ty,
        cs_options = (if ty = ''DROPDOWN'' then dropdown_options_api_shape (field_of ''dropdown_options'' ps) else []),
        cs_on = text ''on_label'' [], cs_off = text ''off_label'' []\<rparr>)"

definition show_categories_api_shape :: "json list \<Rightarrow> category_shape list" where
  "show_categories_api_shape cs = List.map_filter (\<lambda>c. case c of
     JObj ps \<Rightarrow> Some (category_shape_of ps) | JArr xs \<Rightarrow> Some (category_shape_of []) | _ \<Rightarrow> None) cs"

subsection \<open>Updating a show\<close>

text \<open>The fields a caller gives; None keeps the stored one.\<close>

record show_patch =
  pa_name :: "string option"
  pa_code :: "string option"
  pa_next :: "int option"
  pa_suffix :: "string option"
  pa_categories :: "string option"
  pa_palette :: "string option"
  pa_preset :: "string option"
  pa_custom :: "string option"

definition patched_show :: "show_patch \<Rightarrow> show_row \<Rightarrow> show_row" where
  "patched_show f r = r\<lparr>
     sw_name := (case pa_name f of Some n \<Rightarrow> js_trim n | None \<Rightarrow> sw_name r),
     sw_code := js_upper (js_trim (or_else (pa_code f) (sw_code r))),
     sw_next := (case pa_next f of Some n \<Rightarrow> n | None \<Rightarrow> if sw_next r = 0 then 1 else sw_next r),
     sw_suffix := title_suffix_value (or_else (pa_suffix f) (sw_suffix r)),
     sw_categories := or_else (pa_categories f) (sw_categories r),
     sw_palette := or_else (pa_palette f) (sw_palette r),
     sw_preset := (case pa_preset f of Some p \<Rightarrow> js_lower (js_trim p)
       | None \<Rightarrow> let p = js_lower (js_trim (sw_preset r)) in if p = [] then ''custom'' else p),
     sw_custom := or_else (pa_custom f) (sw_custom r)\<rparr>"

definition update_show_fields :: "string \<Rightarrow> show_patch \<Rightarrow> bool cat" where
  "update_show_fields sh f = cbind (cread (get_show_row sh)) (\<lambda>row. case row of
     None \<Rightarrow> creturn False
   | Some r \<Rightarrow> cbind (cwrite (\<lambda>c. c\<lparr>ct_shows := map (\<lambda>s. if sw_id s = sh then patched_show f r else s) (ct_shows c)\<rparr>)) (\<lambda>_. creturn True))"

end
