(* ===== verification/SessionIndex.thy ===== *)
theory SessionIndex
  imports ShowStore IsoTime
begin

section \<open>The sessions index\<close>

text \<open>
  packages/catalog/src/sessionTitleDerivation.ts and sessionIndexStore.ts, and the session writes of
  server/src/routers/sessions.ts. Titles are read in JavaScript, so a slot is a 64-bit number: the digits go through
  \<open>Number\<close>, the next slot is an addition of doubles, and the text is \<open>String\<close> of it.
\<close>

subsection \<open>Titles\<close>

definition all_digits :: "string \<Rightarrow> bool" where
  "all_digits s \<longleftrightarrow> s \<noteq> [] \<and> list_all is_digit s"

definition pad_episode_token :: "string \<Rightarrow> string" where
  "pad_episode_token token = (if \<not> all_digits token then token else
     case string_number token of
       None \<Rightarrow> token
     | Some n \<Rightarrow> if 9999 < n then token else pad_start 4 (CHR ''0'') (num_string n))"

definition date_suffix_base :: "string \<Rightarrow> int \<Rightarrow> string" where
  "date_suffix_base code ms = (let f = fields_of ms; two = (\<lambda>n. pad_start 2 (CHR ''0'') (int_string n)) in
     code @ ''_'' @ two (js_mod (f_year f) 100) @ two (int (f_month f)) @ two (int (f_day f)))"

text \<open>The slot a title occupies for a base; a slot that is not finite is none.\<close>

definition title_slot :: "string \<Rightarrow> string \<Rightarrow> num64 option" where
  "title_slot base title = (if title = base then Some 1 else
     case strip_front (base @ ''_'') title of
       None \<Rightarrow> None
     | Some ds \<Rightarrow> if all_digits ds then string_number ds else None)"

definition note_slot :: "string \<Rightarrow> num64 \<Rightarrow> string \<Rightarrow> num64" where
  "note_slot base m title = (case title_slot base title of None \<Rightarrow> m | Some n \<Rightarrow> if m < n then n else m)"

definition allocate_title_for_base :: "string list \<Rightarrow> string \<Rightarrow> string" where
  "allocate_title_for_base titles base = (let m = foldl (note_slot base) 0 titles in
     if m = 0 then base else base @ ''_'' @ pad_start 3 (CHR ''0'') (num_string (dbl_add m 1)))"

text \<open>\<open>YYYYMMDD\<close> to \<open>YYYY-MM-DD\<close>.\<close>

definition normalize_upload_date :: "string option \<Rightarrow> string option" where
  "normalize_upload_date raw = (let s = js_trim (or_else raw []) in
     if s = [] then None else
     if \<not> (length s = 8 \<and> list_all is_digit s) then None else
     let mo = digits_val (take 2 (drop 4 s)); d = digits_val (drop 6 s) in
     if mo < 1 \<or> 12 < mo \<or> d < 1 \<or> 31 < d then None else Some (take 4 s @ ''-'' @ take 2 (drop 4 s) @ ''-'' @ drop 6 s))"

subsection \<open>Reading\<close>

definition get_session_index_row :: "string \<Rightarrow> bool \<Rightarrow> catalog \<Rightarrow> index_row option" where
  "get_session_index_row s hidden c = find (\<lambda>r. ix_id r = s \<and> (hidden \<or> \<not> ix_hidden r)) (ct_sessions c)"

definition session_show :: "catalog \<Rightarrow> index_row \<Rightarrow> show_row option" where
  "session_show c r = (case ix_show r of None \<Rightarrow> None | Some sh \<Rightarrow> get_show_row sh c)"

definition get_session_joined_row :: "string \<Rightarrow> bool \<Rightarrow> catalog \<Rightarrow> (index_row \<times> (string \<times> string) option) option" where
  "get_session_joined_row s hidden c = map_option (\<lambda>r. (r, map_option (\<lambda>w. (sw_code w, sw_name w)) (session_show c r)))
     (get_session_index_row s hidden c)"

definition get_session_studio_id :: "string \<Rightarrow> catalog \<Rightarrow> string option" where
  "get_session_studio_id s c = (case find (\<lambda>r. ix_id r = s) (ct_sessions c) of
     None \<Rightarrow> None
   | Some r \<Rightarrow> (case session_show c r of None \<Rightarrow> None
     | Some w \<Rightarrow> let t = js_trim (sw_studio w) in if t = [] then None else Some t))"

text \<open>Newest first; rows of the same instant in an order the statement leaves open.\<close>

definition list_sessions_for_show :: "string \<Rightarrow> catalog \<Rightarrow> index_row list" where
  "list_sessions_for_show sh c = rev (sort_key ix_created (filter (\<lambda>r. ix_show r = Some sh \<and> \<not> ix_hidden r) (ct_sessions c)))"

definition titles_of_show :: "string \<Rightarrow> catalog \<Rightarrow> string list" where
  "titles_of_show sh c = map ix_title (filter (\<lambda>r. ix_show r = Some sh) (ct_sessions c))"

definition get_session_show_categories :: "string \<Rightarrow> catalog \<Rightarrow> (json list \<times> string \<times> string) option" where
  "get_session_show_categories s c = (case get_session_index_row s True c of
     None \<Rightarrow> None
   | Some r \<Rightarrow> let sh = js_trim (or_else (ix_show r) []) in
     if sh = [] then None else
     map_option (\<lambda>w. (categories_from_row w, sw_name w, sw_code w)) (get_show_row sh c))"

definition studio_profile_for_session :: "(nat \<Rightarrow> string) \<Rightarrow> string \<Rightarrow> catalog \<Rightarrow> catalog \<Rightarrow> studio_profile" where
  "studio_profile_for_session fresh s snap c =
     (let raw = get_session_show_categories s c;
          default = (\<lambda>cats. blob_to_profile [] [] cats (settings_members (default_settings_blob fresh)))
      in case get_session_studio_id s c of
        None \<Rightarrow> default (case raw of None \<Rightarrow> map category_json (default_categories_for_new_studio fresh) | Some (cats, _) \<Rightarrow> cats)
      | Some t \<Rightarrow>
        if \<not> is_known_studio t snap
        then default (case raw of None \<Rightarrow> map category_json (default_categories_for_new_studio fresh) | Some (cats, _) \<Rightarrow> cats)
        else (case raw of
          None \<Rightarrow> load_studio_profile fresh t snap c
        | Some (cats, _) \<Rightarrow> blob_to_profile t (or_else (studio_names snap t) t) cats
            [(''show_title_format'', JStr []), (''default_frame_rate'', JNum 24)]))"

subsection \<open>Writing\<close>

record new_session =
  ns_show :: string
  ns_code :: string
  ns_suffix :: string
  ns_title :: string \<comment> \<open>empty: not supplied\<close>
  ns_episode :: string
  ns_rate :: num64
  ns_offset :: int
  ns_notes :: string
  ns_started :: iso
  ns_created :: iso
  ns_now :: int

text \<open>\<open>crypto.randomUUID()\<close> is the argument \<open>sid\<close>.\<close>

definition create_session_index :: "string \<Rightarrow> new_session \<Rightarrow> string \<Rightarrow> string \<Rightarrow> string cat" where
  "create_session_index sid n title episode = cbind (cwrite (\<lambda>c. c\<lparr>ct_sessions := ct_sessions c @
     [\<lparr>ix_id = sid, ix_show = Some (ns_show n), ix_title = title, ix_episode = episode, ix_rate = ns_rate n, ix_offset = ns_offset n,
        ix_notes = ns_notes n, ix_archived = False, ix_hidden = False, ix_date = None, ix_started = ns_started n,
        ix_created = ns_created n\<rparr>]\<rparr>)) (\<lambda>_. creturn sid)"

definition derived_title :: "new_session \<Rightarrow> catalog \<Rightarrow> catalog_error + string \<times> string" where
  "derived_title n c =
     (if ns_title n \<noteq> [] then Inr (ns_title n, ns_episode n) else
      let code = js_trim (ns_code n) in
      if code = [] then Inl (ValidationError ''Show code is required to derive a session title.'') else
      if ns_suffix n = ''episode'' then
        (if ns_episode n = [] then Inl (ValidationError ''episode is required for shows using the Episode Number suffix.'')
         else Inr (code @ ''_'' @ pad_episode_token (ns_episode n), ns_episode n))
      else Inr (allocate_title_for_base (titles_of_show (ns_show n) c) (date_suffix_base code (ns_now n)), []))"

definition create_session_for_show :: "string \<Rightarrow> new_session \<Rightarrow> (string \<times> string \<times> string) cat" where
  "create_session_for_show sid n = cbind (cread (derived_title n)) (\<lambda>r. case r of
     Inl e \<Rightarrow> cthrow e
   | Inr (title, episode) \<Rightarrow> cbind (create_session_index sid n title episode) (\<lambda>i. creturn (i, title, episode)))"

definition update_session_row :: "string \<Rightarrow> (index_row \<Rightarrow> index_row) \<Rightarrow> catalog \<Rightarrow> catalog" where
  "update_session_row s f c = c\<lparr>ct_sessions := map (\<lambda>r. if ix_id r = s then f r else r) (ct_sessions c)\<rparr>"

definition update_session_index :: "string \<Rightarrow> string option \<Rightarrow> int option \<Rightarrow> index_row option cat" where
  "update_session_index s title offset = cbind (cread (get_session_index_row s True)) (\<lambda>row. case row of
     None \<Rightarrow> creturn None
   | Some r \<Rightarrow>
     let t = (case title of Some t \<Rightarrow> js_trim t | None \<Rightarrow> ix_title r) in
     if t = [] then cthrow (ValidationError ''title must not be empty'') else
     let off = or_else offset (ix_offset r) in
     if off < 0 then cthrow (ValidationError ''start_offset_frames must be >= 0'') else
     cbind (cwrite (update_session_row s (\<lambda>r. r\<lparr>ix_title := t, ix_offset := off\<rparr>))) (\<lambda>_. cread (get_session_index_row s True)))"

text \<open>A single-row update answers whether it changed a row.\<close>

definition set_session_field :: "string \<Rightarrow> (index_row \<Rightarrow> index_row) \<Rightarrow> bool cat" where
  "set_session_field s f = cbind (cread (get_session_index_row s True)) (\<lambda>row.
     cbind (cwrite (update_session_row s f)) (\<lambda>_. creturn (row \<noteq> None)))"

definition set_session_archived :: "string \<Rightarrow> bool \<Rightarrow> bool cat" where
  "set_session_archived s b = set_session_field s (\<lambda>r. r\<lparr>ix_archived := b\<rparr>)"

definition set_session_ui_hidden :: "string \<Rightarrow> bool \<Rightarrow> bool cat" where
  "set_session_ui_hidden s b = set_session_field s (\<lambda>r. r\<lparr>ix_hidden := b\<rparr>)"

definition set_session_episode_date :: "string \<Rightarrow> string option \<Rightarrow> bool cat" where
  "set_session_episode_date s d = (let v = js_trim (or_else d []) in
     if v = [] then creturn False else set_session_field s (\<lambda>r. r\<lparr>ix_date := Some v\<rparr>))"

subsection \<open>The routes\<close>

text \<open>\<open>requireSession\<close>: None when the caller may go on.\<close>

definition require_session :: "string \<Rightarrow> string \<Rightarrow> bool \<Rightarrow> catalog \<Rightarrow> catalog_error option" where
  "require_session u s hidden c = (case get_session_index_row s hidden c of
     None \<Rightarrow> Some (ApiError 404 ''Session not found'')
   | Some r \<Rightarrow> let sh = or_else (ix_show r) [] in
     if sh = [] \<or> \<not> auth_can_access_show u sh c then Some (ApiError 404 ''Session not found'') else None)"

definition found_session :: "bool \<Rightarrow> unit cat" where
  "found_session b = (if b then creturn () else cthrow (ApiError 404 ''Session not found''))"

datatype session_request =
    EditSession string string int
  | ArchiveSession string bool
  | DeleteSession string

fun session_precheck :: "string \<Rightarrow> session_request \<Rightarrow> catalog \<Rightarrow> catalog_error option" where
  "session_precheck u (EditSession s title off) c = require_session u s False c"
| "session_precheck u (ArchiveSession s b) c = require_session u s False c"
| "session_precheck u (DeleteSession s) c = require_session u s True c"

fun session_tx :: "session_request \<Rightarrow> unit cat" where
  "session_tx (EditSession s title off) = cbind (update_session_index s (Some title) (Some off)) (\<lambda>r. found_session (r \<noteq> None))"
| "session_tx (ArchiveSession s b) = cbind (set_session_archived s b) found_session"
| "session_tx (DeleteSession s) = cbind (set_session_ui_hidden s True) found_session"

text \<open>The body of \<open>POST /api/sessions\<close>, and the transaction on it once the show was found in the caller's
  active team.\<close>

record session_body =
  bo_show :: string
  bo_title :: "string option"
  bo_episode :: "string option"
  bo_rate :: num64
  bo_offset :: int
  bo_notes :: "string option"

definition new_session_of :: "session_body \<Rightarrow> show_row \<Rightarrow> int \<Rightarrow> new_session" where
  "new_session_of b w now = \<lparr>ns_show = js_trim (bo_show b), ns_code = js_trim (sw_code w), ns_suffix = title_suffix_value (sw_suffix w),
     ns_title = js_trim (or_else (bo_title b) []), ns_episode = js_trim (or_else (bo_episode b) []), ns_rate = bo_rate b,
     ns_offset = bo_offset b, ns_notes = js_trim (or_else (bo_notes b) []), ns_started = iso_z now, ns_created = iso_z now, ns_now = now\<rparr>"

definition post_session_tx :: "string \<Rightarrow> string \<Rightarrow> new_session \<Rightarrow> (string \<times> string \<times> string) cat" where
  "post_session_tx sid u n = cbind (cread (auth_can_access_show_for_share u (ns_show n))) (\<lambda>ok.
     if \<not> ok then cthrow (ApiError 403 ''No access to this show.'') else create_session_for_show sid n)"

definition post_session_check :: "string \<Rightarrow> session_body \<Rightarrow> catalog \<Rightarrow> catalog_error + show_row" where
  "post_session_check active b c = (case get_show_row (js_trim (bo_show b)) c of
     None \<Rightarrow> Inl (ApiError 400 ''Unknown show_id.'')
   | Some w \<Rightarrow> if sw_studio w \<noteq> active then Inl (ApiError 400 ''Show does not belong to the active team.'') else Inr w)"

subsection \<open>Slots\<close>

lemma title_slot_below:
  assumes "title_slot base t = Some n" "n < 2 ^ 53"
  shows "\<exists>k. n = of_nat k \<and> k < 2 ^ 53"
proof (cases "t = base")
  case True
  with assms show ?thesis by (intro exI [of _ 1]) (auto simp: title_slot_def)
next
  case False
  then obtain ds where ds: "all_digits ds" "string_number ds = Some n"
    using assms(1) by (auto simp: title_slot_def split: option.splits if_splits)
  have n: "n = fl (of_nat (digits_val ds))"
    using ds by (auto simp: all_digits_def digits_number finite64_def split: if_splits)
  have "digits_val ds < 2 ^ 53"
  proof (rule ccontr)
    assume "\<not> digits_val ds < 2 ^ 53"
    then have "(of_nat (2 ^ 53) :: rat) \<le> of_nat (digits_val ds)" by (simp only: of_nat_le_iff not_less)
    then have "fl (of_nat (2 ^ 53)) \<le> fl (of_nat (digits_val ds))" by (rule fl_mono)
    moreover have "fl (of_nat (2 ^ 53)) = 2 ^ 53" using fl_of_int [of "2 ^ 53"] by simp
    ultimately show False using n assms(2) by simp
  qed
  moreover from this have "n = of_nat (digits_val ds)"
    using n fl_of_int [of "int (digits_val ds)"] by simp
  ultimately show ?thesis by blast
qed

definition numbered_title :: "string \<Rightarrow> nat \<Rightarrow> string" where
  "numbered_title base k = base @ ''_'' @ pad_start 3 (CHR ''0'') (nat_digits k)"

lemma pad_digits: "all_digits (pad_start w (CHR ''0'') (nat_digits k))" "digits_val (pad_start w (CHR ''0'') (nat_digits k)) = k"
  by (auto simp: all_digits_def pad_start_def digits_val_zeros is_digit_def list_all_iff dest: nat_digits_is_digit [unfolded list_all_iff, THEN bspec])

lemma numbered_title_slot: "k \<le> 2 ^ 53 \<Longrightarrow> title_slot base (numbered_title base k) = Some (of_nat k)"
  using digits_number_exact [of "pad_start 3 (CHR ''0'') (nat_digits k)"] pad_digits [of 3 k]
  by (simp add: title_slot_def numbered_title_def strip_front_def all_digits_def)

lemma next_slot_text:
  assumes "k < 2 ^ 53"
  shows "num_string (dbl_add (of_nat k) 1) = nat_digits (k + 1)"
proof -
  have "dbl_add (of_nat k) 1 = of_int (int (k + 1))"
    using fl_of_int [of "int (k + 1)"] assms by (simp add: dbl_add_def add.commute)
  moreover have "json_ok (JNum (of_int (int (k + 1))))"
  proof -
    have "(of_nat (k + 1) :: rat) \<le> of_nat (2 ^ 53)" using assms by (simp only: of_nat_le_iff)
    then show ?thesis by simp
  qed
  ultimately show ?thesis by (simp only: num_string_ok) (simp add: int_string_def)
qed

lemma highest_slot:
  "m \<le> foldl (note_slot base) m ts \<and>
   (\<forall>t\<in>set ts. \<forall>n. title_slot base t = Some n \<longrightarrow> n \<le> foldl (note_slot base) m ts) \<and>
   (foldl (note_slot base) m ts = m \<or> (\<exists>t\<in>set ts. title_slot base t = Some (foldl (note_slot base) m ts)))"
proof (induction ts arbitrary: m)
  case (Cons t ts)
  let ?m = "note_slot base m t"
  have "m \<le> ?m" "\<And>n. title_slot base t = Some n \<Longrightarrow> n \<le> ?m" "?m = m \<or> title_slot base t = Some ?m"
    by (auto simp: note_slot_def split: option.split)
  with Cons.IH [of ?m] show ?case by (auto intro: order_trans)
qed simp

lemma allocate_cases:
  assumes "\<And>t n. t \<in> set titles \<Longrightarrow> title_slot base t = Some n \<Longrightarrow> n < 2 ^ 53"
  shows "allocate_title_for_base titles base = base \<and> (\<forall>t\<in>set titles. \<forall>n. title_slot base t = Some n \<longrightarrow> n \<le> 0) \<or>
    (\<exists>k. k < 2 ^ 53 \<and> 0 < k \<and> allocate_title_for_base titles base = numbered_title base (k + 1) \<and>
      (\<forall>t\<in>set titles. \<forall>n. title_slot base t = Some n \<longrightarrow> n \<le> of_nat k) \<and> (\<exists>t\<in>set titles. title_slot base t = Some (of_nat k)))"
proof -
  let ?m = "foldl (note_slot base) 0 titles"
  note h = highest_slot [of 0 base titles]
  show ?thesis
  proof (cases "?m = 0")
    case True
    with h show ?thesis by (simp add: allocate_title_for_base_def)
  next
    case False
    with h obtain t where t: "t \<in> set titles" "title_slot base t = Some ?m" by auto
    from title_slot_below [OF t(2) assms [OF t]] obtain k where k: "?m = of_nat k" "k < 2 ^ 53" by auto
    have "allocate_title_for_base titles base = numbered_title base (k + 1)"
      using False k next_slot_text [OF k(2)] by (simp add: allocate_title_for_base_def numbered_title_def)
    with k h t False show ?thesis by (intro disjI2 exI [of _ k]) auto
  qed
qed

lemma allocate_fresh:
  assumes "\<And>t n. t \<in> set titles \<Longrightarrow> title_slot base t = Some n \<Longrightarrow> n < 2 ^ 53"
  shows "allocate_title_for_base titles base \<notin> set titles"
proof -
  have "title_slot base base = Some 1" by (simp add: title_slot_def)
  moreover have "title_slot base (numbered_title base (k + 1)) = Some (of_nat (k + 1))" if "k < 2 ^ 53" for k
    using that by (intro numbered_title_slot) simp
  ultimately show ?thesis
    using allocate_cases [of titles base] assms by fastforce
qed

lemma create_session_index_row:
  "create_session_for_show sid n c = Inr ((i, title, episode), c') \<longleftrightarrow>
   i = sid \<and> derived_title n c = Inr (title, episode) \<and> constraints_hold c' \<and>
   c' = c\<lparr>ct_sessions := ct_sessions c @
     [\<lparr>ix_id = sid, ix_show = Some (ns_show n), ix_title = title, ix_episode = episode, ix_rate = ns_rate n, ix_offset = ns_offset n,
        ix_notes = ns_notes n, ix_archived = False, ix_hidden = False, ix_date = None, ix_started = ns_started n,
        ix_created = ns_created n\<rparr>]\<rparr>"
  by (cases "derived_title n c")
    (auto simp: create_session_for_show_def create_session_index_def cbind_def creturn_def cread_def cwrite_def cthrow_def split: if_splits)

lemma titles_of_created:
  "create_session_for_show sid n c = Inr ((i, title, episode), c') \<Longrightarrow>
   titles_of_show (ns_show n) c' = titles_of_show (ns_show n) c @ [title]"
  by (auto simp: create_session_index_row titles_of_show_def)

subsection \<open>A show's titles\<close>

definition date_derived :: "new_session \<Rightarrow> bool" where
  "date_derived n \<longleftrightarrow> ns_title n = [] \<and> ns_suffix n \<noteq> ''episode'' \<and> js_trim (ns_code n) \<noteq> []"

definition title_base :: "new_session \<Rightarrow> string" where
  "title_base n = date_suffix_base (js_trim (ns_code n)) (ns_now n)"

lemma derived_date:
  "date_derived n \<Longrightarrow> derived_title n c = Inr (allocate_title_for_base (titles_of_show (ns_show n) c) (title_base n), [])"
  by (auto simp: derived_title_def date_derived_def title_base_def Let_def)

text \<open>C23: A title derived from the date is new in its show: when no stored title of the show, hidden and
  archived sessions included, has a slot of 2^53 or more, the created session's title differs from all of them, its
  episode is empty, and it is the only row added.\<close>

theorem derived_title_unique:
  assumes "create_session_for_show sid n c = Inr ((i, title, episode), c')" "date_derived n"
    and "\<And>r k. r \<in> set (ct_sessions c) \<Longrightarrow> ix_show r = Some (ns_show n) \<Longrightarrow> title_slot (title_base n) (ix_title r) = Some k \<Longrightarrow> k < 2 ^ 53"
  shows "\<exists>r. ct_sessions c' = ct_sessions c @ [r] \<and> ix_id r = sid \<and> ix_show r = Some (ns_show n) \<and> ix_title r = title \<and>
    ix_episode r = [] \<and> (\<forall>q \<in> set (ct_sessions c). ix_show q = Some (ns_show n) \<longrightarrow> ix_title q \<noteq> title)"
proof -
  have t: "set (titles_of_show (ns_show n) c) = ix_title ` {r \<in> set (ct_sessions c). ix_show r = Some (ns_show n)}"
    by (auto simp: titles_of_show_def)
  have "allocate_title_for_base (titles_of_show (ns_show n) c) (title_base n) \<notin> set (titles_of_show (ns_show n) c)"
    by (rule allocate_fresh) (use assms(3) t in auto)
  then have "ix_title q \<noteq> allocate_title_for_base (titles_of_show (ns_show n) c) (title_base n)"
    if "q \<in> set (ct_sessions c)" "ix_show q = Some (ns_show n)" for q
    using that unfolding t by (force simp: image_iff)
  then show ?thesis
    using assms(1) derived_date [OF assms(2), of c] by (auto simp: create_session_index_row)
qed

definition sample_index :: "index_row list \<Rightarrow> catalog" where
  "sample_index rows = \<lparr>ct_users = [], ct_members = [], ct_prefs = [], ct_studios = [\<lparr>sd_id = ''t'', sd_name = ''T'', sd_sort = 1000, sd_created = ''3''\<rparr>],
     ct_shows = [\<lparr>sw_id = ''w'', sw_studio = ''t'', sw_name = ''Show'', sw_code = ''AB'', sw_next = 1, sw_suffix = ''date'', sw_categories = [],
       sw_palette = [], sw_preset = ''custom'', sw_custom = [], sw_created = ''3''\<rparr>],
     ct_grants = [], ct_invites = [], ct_approvals = [], ct_settings = [], ct_sessions = rows\<rparr>"

definition sample_new :: new_session where
  "sample_new = \<lparr>ns_show = ''w'', ns_code = '' AB '', ns_suffix = ''date'', ns_title = [], ns_episode = ''7'', ns_rate = 24, ns_offset = 0,
     ns_notes = [], ns_started = ''3'', ns_created = ''3'', ns_now = 1767225600000\<rparr>"

definition sample_session :: "string \<Rightarrow> string \<Rightarrow> string \<Rightarrow> index_row" where
  "sample_session i title ep = \<lparr>ix_id = i, ix_show = Some ''w'', ix_title = title, ix_episode = ep, ix_rate = 24, ix_offset = 0, ix_notes = [],
     ix_archived = False, ix_hidden = False, ix_date = None, ix_started = ''3'', ix_created = ''3''\<rparr>"

lemma sample_date_derived: "date_derived sample_new" "title_base sample_new = ''AB_260101''"
  by code_simp+

lemma sample_titles: "titles_of_show ''w'' (sample_index (map (\<lambda>(i, t, e). sample_session i t e) rs)) = map (\<lambda>(i, t, e). t) rs"
  by (induction rs) (auto simp: titles_of_show_def sample_index_def sample_session_def)

lemma sample_constraints:
  "distinct (map ix_id rows) \<Longrightarrow> ix_show ` set rows \<subseteq> {Some ''w''} \<Longrightarrow> constraints_hold (sample_index rows)"
  by (auto simp: sample_index_def constraints_hold_def keys_hold_def one_owner_def references_hold_def show_ids_def)

lemma sample_append: "(sample_index rows)\<lparr>ct_sessions := ct_sessions (sample_index rows) @ xs\<rparr> = sample_index (rows @ xs)"
  by (simp add: sample_index_def)

lemma sample_created:
  assumes "n = sample_new\<lparr>ns_title := x\<rparr>" "distinct (i # map fst rs)"
    and "derived_title n (sample_index (map (\<lambda>(i, t, e). sample_session i t e) rs)) = Inr (t, e)"
  shows "create_session_for_show i n (sample_index (map (\<lambda>(i, t, e). sample_session i t e) rs)) =
    Inr ((i, t, e), sample_index (map (\<lambda>(i, t, e). sample_session i t e) (rs @ [(i, t, e)])))"
proof -
  let ?rows = "\<lambda>rs. map (\<lambda>(i, t, e). sample_session i t e) rs"
  have r: "map ix_id (?rows rs) = map fst rs" "ix_show ` set (?rows rs) \<subseteq> {Some ''w''}" for rs
    by (auto simp: sample_session_def)
  have "constraints_hold (sample_index (?rows (rs @ [(i, t, e)])))"
  proof (rule sample_constraints)
    show "distinct (map ix_id (?rows (rs @ [(i, t, e)])))" unfolding r(1) using assms(2) by simp
  qed (rule r(2))
  moreover have "\<lparr>ix_id = i, ix_show = Some (ns_show n), ix_title = t, ix_episode = e, ix_rate = ns_rate n, ix_offset = ns_offset n,
        ix_notes = ns_notes n, ix_archived = False, ix_hidden = False, ix_date = None, ix_started = ns_started n,
        ix_created = ns_created n\<rparr> = sample_session i t e"
    using assms(1) by (simp add: sample_new_def sample_session_def)
  ultimately show ?thesis
    using assms(3) by (simp add: create_session_index_row sample_append)
qed

theorem derived_title_unique_witness:
  "''AB_260101'' \<notin> ix_title ` set (ct_sessions (sample_index [sample_session ''s1'' ''Pilot'' []]))"
proof -
  let ?c = "sample_index [sample_session ''s1'' ''Pilot'' []]"
  have d: "derived_title sample_new ?c = Inr (''AB_260101'', [])" by code_simp
  have p: "title_slot ''AB_260101'' ''Pilot'' = None" by code_simp
  have s: "r \<in> set (ct_sessions ?c) \<Longrightarrow> ix_title r = ''Pilot'' \<and> ix_show r = Some ''w''" for r
    by (simp add: sample_index_def sample_session_def)
  have n: "ns_show sample_new = ''w''" by (simp add: sample_new_def)
  have "create_session_for_show ''s2'' sample_new ?c = Inr ((''s2'', ''AB_260101'', []),
      sample_index [sample_session ''s1'' ''Pilot'' [], sample_session ''s2'' ''AB_260101'' []])"
    using sample_created [of sample_new "[]" "''s2''" "[(''s1'', ''Pilot'', [])]"] d by (simp add: sample_new_def)
  from derived_title_unique [OF this sample_date_derived(1)] s p sample_date_derived(2) n show ?thesis by auto
qed

definition nth_title :: "string \<Rightarrow> nat \<Rightarrow> string" where
  "nth_title base k = (if k = 0 then base else numbered_title base (k + 1))"

lemma nth_title_slot: "k < 2 ^ 53 \<Longrightarrow> title_slot base (nth_title base k) = Some (of_nat (k + 1))"
  using numbered_title_slot [of "k + 1" base] by (auto simp: nth_title_def title_slot_def)

lemma allocate_nth:
  assumes "k < 2 ^ 53"
  shows "allocate_title_for_base (map (nth_title base) [0..<k]) base = nth_title base k"
proof -
  let ?ts = "map (nth_title base) [0..<k]"
  have slots: "title_slot base t = Some n \<longleftrightarrow> (\<exists>j < k. t = nth_title base j \<and> n = of_nat (j + 1))" if "t \<in> set ?ts" for t n
    using that nth_title_slot assms by auto
  have below: "n < 2 ^ 53" if "t \<in> set ?ts" "title_slot base t = Some n" for t n
  proof -
    from slots [OF that(1), of n] that(2) obtain j where "j < k" "n = of_nat (j + 1)" by blast
    moreover from this have "(of_nat (j + 1) :: rat) < of_nat (2 ^ 53)" using assms by (simp only: of_nat_less_iff)
    ultimately show ?thesis by simp
  qed
  show ?thesis
  proof (cases "k = 0")
    case True
    then show ?thesis by (simp add: allocate_title_for_base_def nth_title_def)
  next
    case False
    then have last: "title_slot base (nth_title base (k - 1)) = Some (of_nat k)" "nth_title base (k - 1) \<in> set ?ts"
      using nth_title_slot [of "k - 1" base] assms by auto
    have "\<not> (\<forall>t\<in>set ?ts. \<forall>n. title_slot base t = Some n \<longrightarrow> n \<le> 0)"
      using last False by (metis of_nat_le_0_iff)
    then obtain m where m: "allocate_title_for_base ?ts base = numbered_title base (m + 1)"
        "\<forall>t\<in>set ?ts. \<forall>n. title_slot base t = Some n \<longrightarrow> n \<le> of_nat m" "\<exists>t\<in>set ?ts. title_slot base t = Some (of_nat m)"
      using allocate_cases [of ?ts base] below by blast
    have "(of_nat k :: rat) \<le> of_nat m" using m(2) last by blast
    moreover have "m \<le> k" using m(3) slots by auto
    ultimately have "m = k" by simp
    with m(1) False show ?thesis by (simp add: nth_title_def)
  qed
qed

text \<open>Creations one after the other with the same request.\<close>

fun create_sessions :: "string list \<Rightarrow> new_session \<Rightarrow> string list cat" where
  "create_sessions [] n = creturn []"
| "create_sessions (i # is) n = cbind (create_session_for_show i n) (\<lambda>(_, t, _). cbind (create_sessions is n) (\<lambda>ts. creturn (t # ts)))"

lemma create_sessions_titles:
  assumes "create_sessions ids n c = Inr (ts, c')" "date_derived n" "k + length ids < 2 ^ 53"
    and "titles_of_show (ns_show n) c = map (nth_title (title_base n)) [0..<k]"
  shows "ts = map (nth_title (title_base n)) [k..<k + length ids] \<and>
    titles_of_show (ns_show n) c' = map (nth_title (title_base n)) [0..<k + length ids]"
  using assms
proof (induction ids arbitrary: c k ts)
  case (Cons i ids)
  then obtain t ep c1 ts1 where 1: "create_session_for_show i n c = Inr ((i, t, ep), c1)" "create_sessions ids n c1 = Inr (ts1, c')" "ts = t # ts1"
    by (auto simp: cbind_Inr create_session_index_row split: prod.splits)
  have t: "t = nth_title (title_base n) k"
    using 1(1) derived_date [OF Cons.prems(2), of c] Cons.prems(3,4) allocate_nth [of k "title_base n"]
    by (auto simp: create_session_index_row)
  have "titles_of_show (ns_show n) c1 = map (nth_title (title_base n)) [0..<Suc k]"
    using titles_of_created [OF 1(1)] Cons.prems(4) t by simp
  moreover have "[k..<k + length (i # ids)] = k # [Suc k..<Suc k + length ids]"
    by (simp add: upt_conv_Cons del: upt_Suc)
  ultimately show ?case
    using Cons.IH [OF 1(2) Cons.prems(2), of "Suc k"] Cons.prems(3) 1(3) t by (simp del: upt_Suc)
qed simp

text \<open>Sessions made one after the other on one day in an empty show are called \<open>CODE_YYMMDD\<close>,
  \<open>CODE_YYMMDD_002\<close>, \<open>CODE_YYMMDD_003\<close> and so on, without a gap, beyond three digits too.\<close>

theorem same_day_titles:
  assumes "create_sessions ids n c = Inr (ts, c')" "date_derived n" "length ids < 2 ^ 53" "titles_of_show (ns_show n) c = []"
  shows "ts = map (nth_title (title_base n)) [0..<length ids]"
  using create_sessions_titles [OF assms(1,2), of 0] assms(3,4) by simp

theorem same_day_titles_witness:
  "\<exists>ts c'. create_sessions [''s1'', ''s2''] sample_new (sample_index []) = Inr (ts, c') \<and> ts = [''AB_260101'', ''AB_260101_002'']"
proof -
  have b: "nth_title ''AB_260101'' 0 = ''AB_260101''" "nth_title ''AB_260101'' 1 = ''AB_260101_002''" by code_simp+
  have e: "titles_of_show (ns_show sample_new) (sample_index []) = []"
    using sample_titles [of "[]"] by (simp add: sample_new_def)
  have t: "titles_of_show (ns_show sample_new) (sample_index [sample_session ''s1'' (nth_title ''AB_260101'' 0) []]) = [nth_title ''AB_260101'' 0]"
    using sample_titles [of "[(''s1'', nth_title ''AB_260101'' 0, [])]"] by (simp add: sample_new_def)
  have 1: "create_session_for_show ''s1'' sample_new (sample_index []) = Inr ((''s1'', nth_title ''AB_260101'' 0, []),
      sample_index [sample_session ''s1'' (nth_title ''AB_260101'' 0) []])"
    using sample_created [of sample_new "[]" "''s1''" "[]"] derived_date [OF sample_date_derived(1), of "sample_index []"]
      allocate_nth [of 0 "''AB_260101''"] e sample_date_derived(2) by (simp add: sample_new_def)
  have 2: "\<exists>c'. create_session_for_show ''s2'' sample_new (sample_index [sample_session ''s1'' (nth_title ''AB_260101'' 0) []]) =
      Inr ((''s2'', nth_title ''AB_260101'' 1, []), c')"
    using sample_created [of sample_new "[]" "''s2''" "[(''s1'', nth_title ''AB_260101'' 0, [])]"]
      derived_date [OF sample_date_derived(1), of "sample_index [sample_session ''s1'' (nth_title ''AB_260101'' 0) []]"]
      allocate_nth [of 1 "''AB_260101''"] t sample_date_derived(2) by (simp add: sample_new_def)
  then obtain c' where c: "create_sessions [''s1'', ''s2''] sample_new (sample_index []) = Inr ([nth_title ''AB_260101'' 0, nth_title ''AB_260101'' 1], c')"
    using 1 by (auto simp: cbind_def creturn_def)
  from same_day_titles [OF c sample_date_derived(1) _ e] c b show ?thesis by auto
qed

text \<open>The promise that a create can never produce a duplicate title fails for a show with one session called
  \<open>CODE_YYMMDD_9007199254740992\<close>, a title a client may give explicitly: the next derived title is that very title
  again, because the slot is a double and adding one to 2^53 does not change it.\<close>

theorem derived_title_duplicate:
  assumes "date_derived n" "titles_of_show (ns_show n) c = []"
    and "create_session_for_show i1 (n\<lparr>ns_title := title_base n @ ''_9007199254740992''\<rparr>) c = Inr (r1, c1)"
    and "create_session_for_show i2 n c1 = Inr (r2, c2)"
  shows "titles_of_show (ns_show n) c2 = [title_base n @ ''_9007199254740992'', title_base n @ ''_9007199254740992'']"
proof -
  let ?d = "''9007199254740992''" and ?t = "title_base n @ ''_9007199254740992''"
  have v: "digits_val ?d = 2 ^ 53" "list_all is_digit ?d"
    by (simp_all add: digits_val_def digit_val_def is_digit_def)
  have "title_slot (title_base n) ?t = Some (2 ^ 53)"
    using digits_number_exact [of ?d] v by (simp add: title_slot_def strip_front_def all_digits_def)
  moreover have "pad_start 3 (CHR ''0'') (num_string (dbl_add (2 ^ 53) 1)) = ?d"
  proof -
    have "ilog2 (2 ^ 53 + 1) = 53" by (rule ilog2_unique) simp_all
    moreover have "\<lfloor>(9007199254740993 :: rat) / 2\<rfloor> = 4503599627370496" by (simp add: floor_eq_iff)
    ultimately have "fl (2 ^ 53 + 1) = 2 ^ 53" by (simp add: fl_def fl_pos_def rne_def Let_def)
    moreover have "num_string (2 ^ 53) = ?d"
      by (simp add: num_string_def int_string_def nat_digits.simps digit_char_def) code_simp
    ultimately show ?thesis by (simp add: dbl_add_def pad_start_def)
  qed
  ultimately have a: "allocate_title_for_base [?t] (title_base n) = ?t"
    by (simp add: allocate_title_for_base_def note_slot_def)
  have t1: "titles_of_show (ns_show n) c1 = [?t]"
    using assms(2,3) by (cases r1) (auto simp: create_session_index_row derived_title_def titles_of_show_def)
  obtain i t ep where r2: "r2 = (i, t, ep)" by (cases r2)
  with assms(4) derived_date [OF assms(1), of c1] t1 a have "t = ?t" by (auto simp: create_session_index_row)
  with titles_of_created [OF assms(4) [unfolded r2]] t1 show ?thesis by simp
qed

theorem derived_title_duplicate_witness:
  "\<exists>c2. titles_of_show ''w'' c2 = [''AB_260101_9007199254740992'', ''AB_260101_9007199254740992'']"
proof -
  let ?t = "''AB_260101_9007199254740992''" and ?n = "sample_new\<lparr>ns_title := title_base sample_new @ ''_9007199254740992''\<rparr>"
  have e: "titles_of_show (ns_show sample_new) (sample_index []) = []"
    using sample_titles [of "[]"] by (simp add: sample_new_def)
  have "derived_title ?n (sample_index []) = Inr (?t, ''7'')"
    using sample_date_derived(2) by (simp add: derived_title_def sample_new_def)
  then have 1: "create_session_for_show ''s1'' ?n (sample_index []) = Inr ((''s1'', ?t, ''7''), sample_index [sample_session ''s1'' ?t ''7''])"
    using sample_created [of ?n _ "''s1''" "[]"] by simp
  obtain t where "derived_title sample_new (sample_index [sample_session ''s1'' ?t ''7'']) = Inr (t, [])"
    using derived_date [OF sample_date_derived(1)] by blast
  then have 2: "create_session_for_show ''s2'' sample_new (sample_index [sample_session ''s1'' ?t ''7'']) =
      Inr ((''s2'', t, []), sample_index [sample_session ''s1'' ?t ''7'', sample_session ''s2'' t []])"
    using sample_created [of sample_new "[]" "''s2''" "[(''s1'', ?t, ''7'')]"] by (simp add: sample_new_def)
  from derived_title_duplicate [OF sample_date_derived(1) e 1 2] sample_date_derived(2) show ?thesis
    by (auto simp: sample_new_def)
qed

text \<open>Padding an episode number is stable: whatever the token, padding twice is padding once; every way to write
  a number up to 9999 gives the same four digits, and any other token is kept as it is.\<close>

theorem episode_token_normal:
  "pad_episode_token (pad_episode_token t) = pad_episode_token t \<and>
   pad_episode_token t = (if all_digits t \<and> digits_val t \<le> 9999 then fixed 4 (digits_val t) else t)"
proof -
  have small: "pad_episode_token t = fixed 4 (digits_val t)" if "all_digits t" "digits_val t \<le> 9999" for t
  proof -
    have n: "string_number t = Some (of_nat (digits_val t))"
      using that by (intro digits_number_exact) (auto simp: all_digits_def)
    have "json_ok (JNum (of_int (int (digits_val t))))" using that(2) by simp
    then have "num_string (of_nat (digits_val t)) = nat_digits (digits_val t)"
      by (simp add: num_string_def int_string_def)
    moreover have "\<not> 9999 < (of_nat (digits_val t) :: rat)"
      using that(2) by (metis not_less of_nat_le_iff of_nat_numeral)
    ultimately show ?thesis
      using that n pad_start_fixed [of "digits_val t" 4] by (simp add: pad_episode_token_def)
  qed
  have big: "pad_episode_token t = t" if "all_digits t" "\<not> digits_val t \<le> 9999" for t
  proof -
    have "(10000 :: rat) \<le> fl (of_nat (digits_val t))"
    proof -
      have "(of_nat 10000 :: rat) \<le> of_nat (digits_val t)" using that(2) by (simp only: of_nat_le_iff)
      from fl_mono [OF this] show ?thesis using fl_of_int [of 10000] by simp
    qed
    with that show ?thesis
      by (auto simp: pad_episode_token_def all_digits_def digits_number finite64_def)
  qed
  have f: "all_digits (fixed 4 m) \<and> digits_val (fixed 4 m) = m" if "m \<le> 9999" for m
    using that pad_digits [of 4 m] pad_start_fixed [of m 4] by simp
  have eq: "pad_episode_token u = (if all_digits u \<and> digits_val u \<le> 9999 then fixed 4 (digits_val u) else u)" for u
    using small [of u] big [of u] by (cases "all_digits u") (simp_all add: pad_episode_token_def)
  show ?thesis
    using eq [of t] eq [of "fixed 4 (digits_val t)"] f [of "digits_val t"] by (auto split: if_splits)
qed

end
