(* ===== verification/ProfilePlane.thy ===== *)
theory ProfilePlane
  imports TeamPlane SessionIndex
begin

section \<open>Profiles and sessions of a user\<close>

text \<open>
  packages/catalog/src/profileAssembler.ts, the write of server/src/routers/profile.ts and the writing routes of
  sessions.ts: which team and show are active for a user, what a save of the profile changes, and who may
  create, rename, archive or delete a session. \<open>snap\<close> is the catalog the registry read at the start of
  the request. A save is several transactions; an answer that refuses part of it keeps what was committed
  before.
\<close>

subsection \<open>The active team and show\<close>

definition resolve_active_show :: "show_row list \<Rightarrow> string \<Rightarrow> string" where
  "resolve_active_show shows preferred = (let raw = js_trim preferred in
     if raw \<noteq> [] \<and> raw \<in> sw_id ` set shows then raw else (case shows of [] \<Rightarrow> [] | w # _ \<Rightarrow> sw_id w))"

definition active_studio_id :: "string list \<Rightarrow> string \<Rightarrow> catalog \<Rightarrow> string" where
  "active_studio_id allowed raw snap = (if raw \<in> set allowed then raw else
     (case find (\<lambda>s. sd_id s \<in> set allowed) (studio_order snap) of None \<Rightarrow> [] | Some s \<Rightarrow> sd_id s))"

text \<open>The active team (empty: none), the active show and the team's shows; the preferences row is made when
  it is missing.\<close>

definition profile_studio_for_user :: "string \<Rightarrow> catalog \<Rightarrow> (string \<times> string \<times> show_row list) cat" where
  "profile_studio_for_user u snap = cbind (cread (auth_list_studio_ids_for_user u)) (\<lambda>allowed.
     if allowed = [] then creturn ([], [], []) else
     cbind (auth_ensure_prefs_row u) (\<lambda>_.
     cbind (cread (auth_get_prefs u)) (\<lambda>row.
     let raw_s = (case row of None \<Rightarrow> [] | Some p \<Rightarrow> js_trim (pr_studio p));
         raw_sh = (case row of None \<Rightarrow> [] | Some p \<Rightarrow> js_trim (pr_show p));
         t = active_studio_id allowed raw_s snap
     in if t = [] then creturn ([], [], []) else
        cbind (cread (list_shows_for_studio t)) (\<lambda>shows.
        creturn (t, resolve_active_show shows (if raw_s = t then raw_sh else []), shows)))))"

definition effective_studio :: "string \<Rightarrow> catalog \<Rightarrow> string option cat" where
  "effective_studio u snap = cbind (profile_studio_for_user u snap) (\<lambda>(t, _, _). creturn (if t = [] then None else Some t))"

text \<open>The brief entries of the shows of every team the user can reach, with \<open>can_access\<close>.\<close>

definition profile_shows :: "string \<Rightarrow> string list \<Rightarrow> catalog \<Rightarrow> catalog \<Rightarrow> ((string \<times> string \<times> string \<times> string \<times> string) \<times> bool) list" where
  "profile_shows u allowed snap c = concat (map (\<lambda>(t, _). map (\<lambda>w. (show_brief w, sw_id w \<in> set (auth_list_accessible_show_ids u c)))
     (list_shows_for_studio t c)) (list_studios_brief_allowed allowed snap))"

record profile_payload =
  pp_studio :: string
  pp_show :: string
  pp_shows :: "((string \<times> string \<times> string \<times> string \<times> string) \<times> bool) list"
  pp_prefix :: string
  pp_rate :: "num64 option"

definition profile_payload_for :: "(nat \<Rightarrow> string) \<Rightarrow> string \<Rightarrow> catalog \<Rightarrow> profile_payload cat" where
  "profile_payload_for fresh u snap = cbind (cread (auth_list_studio_ids_for_user u)) (\<lambda>allowed.
     cbind (profile_studio_for_user u snap) (\<lambda>(t, sh, shows).
     if t = [] then
       cbind (auth_ensure_prefs_row u) (\<lambda>_. cbind (auth_set_prefs u [] []) (\<lambda>_.
       creturn \<lparr>pp_studio = [], pp_show = [], pp_shows = [], pp_prefix = ''Episode '', pp_rate = Some 24\<rparr>))
     else
       cbind (cread (load_studio_profile fresh t snap)) (\<lambda>prof.
       cbind (cread (profile_shows u allowed snap)) (\<lambda>entries.
       let answer = (\<lambda>s. \<lparr>pp_studio = t, pp_show = s, pp_shows = entries, pp_prefix = new_session_title_prefix (sp_title_format prof),
             pp_rate = sp_frame_rate prof\<rparr>)
       in if sh \<in> sw_id ` set shows then creturn (answer sh) else
          let s = (case shows of [] \<Rightarrow> [] | w # _ \<Rightarrow> sw_id w) in
          cbind (auth_set_prefs u t s) (\<lambda>_. creturn (answer s))))))"

text \<open>The repair of the list route: only while the stored value is the one it read.\<close>

definition repair_active_show :: "string \<Rightarrow> string \<Rightarrow> string option \<Rightarrow> show_row list \<Rightarrow> string cat" where
  "repair_active_show u t stored shows = (let raw = js_trim (or_else stored []) in
     if raw \<in> sw_id ` set shows then creturn raw else
     (case shows of [] \<Rightarrow> creturn []
      | w # _ \<Rightarrow> cbind (auth_replace_active_show_if u t stored (sw_id w)) (\<lambda>_. creturn (sw_id w))))"

subsection \<open>Saving the profile\<close>

record show_update =
  su_show :: string
  su_name :: "string option"
  su_code :: "string option"
  su_suffix :: "string option"
  su_categories :: "json option"
  su_palette :: "json option"
  su_preset :: "string option"
  su_custom :: "json option"

record profile_body =
  pb_studio :: string
  pb_show :: string
  pb_settings :: "(string \<times> json) list option"
  pb_updates :: "show_update list"
  pb_given :: "string option"
  pb_family :: "string option"

definition map_field :: "('a \<Rightarrow> string + 'b) \<Rightarrow> 'a option \<Rightarrow> string + 'b option" where
  "map_field f x = (case x of None \<Rightarrow> Inr None | Some v \<Rightarrow> (case f v of Inl e \<Rightarrow> Inl e | Inr w \<Rightarrow> Inr (Some w)))"

text \<open>The columns of one update, or the validator's refusal.\<close>

definition patch_of_update :: "(nat \<Rightarrow> string) \<Rightarrow> show_update \<Rightarrow> string + show_patch" where
  "patch_of_update fresh e =
     (case map_field (validate_categories_list fresh) (su_categories e) of Inl m \<Rightarrow> Inl m | Inr cats \<Rightarrow>
      case map_field normalize_event_palette_nine (su_palette e) of Inl m \<Rightarrow> Inl m | Inr pal \<Rightarrow>
      case map_field normalize_event_palette_nine (su_custom e) of Inl m \<Rightarrow> Inl m | Inr custom \<Rightarrow>
      Inr \<lparr>pa_name = map_option js_trim (su_name e), pa_code = map_option js_trim (su_code e), pa_next = None, pa_suffix = su_suffix e,
        pa_categories = map_option categories_text cats, pa_palette = map_option palette_text pal,
        pa_preset = map_option (\<lambda>p. validate_event_palette_preset (JStr p)) (su_preset e), pa_custom = map_option palette_text custom\<rparr>)"

definition empty_patch :: show_patch where
  "empty_patch = \<lparr>pa_name = None, pa_code = None, pa_next = None, pa_suffix = None, pa_categories = None, pa_palette = None,
     pa_preset = None, pa_custom = None\<rparr>"

text \<open>The updates in order; the answer is a refusal, returned and not thrown.\<close>

fun apply_show_updates :: "(nat \<Rightarrow> string) \<Rightarrow> string \<Rightarrow> show_update list \<Rightarrow> (nat \<times> string) option cat" where
  "apply_show_updates fresh t [] = creturn None"
| "apply_show_updates fresh t (e # es) = (let sh = js_trim (su_show e) in
     cbind (cread (get_show_row sh)) (\<lambda>row.
     if (case row of None \<Rightarrow> True | Some w \<Rightarrow> sw_studio w \<noteq> t)
     then creturn (Some (400, ''Show '' @ quoted (su_show e) @ '' is not part of the selected team.'')) else
     (case patch_of_update fresh e of
        Inl m \<Rightarrow> creturn (Some (400, m))
      | Inr f \<Rightarrow> if f = empty_patch then apply_show_updates fresh t es
          else cbind (update_show_fields sh f) (\<lambda>_. apply_show_updates fresh t es))))"

definition manager :: "role option \<Rightarrow> bool" where
  "manager r \<longleftrightarrow> r = Some Owner \<or> r = Some Admin"

definition profile_writes :: "profile_body \<Rightarrow> bool" where
  "profile_writes b \<longleftrightarrow> pb_settings b \<noteq> None \<or> pb_updates b \<noteq> []"

definition put_profile_tx :: "(nat \<Rightarrow> string) \<Rightarrow> string \<Rightarrow> catalog \<Rightarrow> profile_body \<Rightarrow> (nat \<times> string) option cat" where
  "put_profile_tx fresh u snap b = (let t = js_trim (pb_studio b) in
     cbind (cread (auth_get_membership_role u t)) (\<lambda>r.
     if \<not> manager r then creturn (Some (403, ''Admin role required.'')) else
     cbind (case pb_settings b of None \<Rightarrow> creturn () | Some s \<Rightarrow> save_studio_settings_blob fresh t snap s) (\<lambda>_.
     apply_show_updates fresh t (pb_updates b))))"

definition save_names :: "user_row \<Rightarrow> profile_body \<Rightarrow> unit cat" where
  "save_names w b = (if pb_given b = None \<and> pb_family b = None then creturn () else
     cbind (auth_update_user_names (us_id w) (take 200 (js_trim (or_else (pb_given b) (us_given w))))
       (take 200 (js_trim (or_else (pb_family b) (us_family w))))) (\<lambda>_. creturn ()))"

definition save_active_show :: "string \<Rightarrow> profile_body \<Rightarrow> (nat \<times> string) option cat" where
  "save_active_show u b = (let t = js_trim (pb_studio b); raw = js_trim (pb_show b) in
     cbind (cread (list_shows_for_studio t)) (\<lambda>shows.
     if raw \<noteq> [] \<and> raw \<notin> sw_id ` set shows then creturn (Some (400, ''active_show_id must belong to the selected team.'')) else
     cbind (auth_set_prefs u t (if raw \<noteq> [] then raw else (case shows of [] \<Rightarrow> [] | w # _ \<Rightarrow> sw_id w))) (\<lambda>_. creturn None)))"

text \<open>What is checked before the transaction.\<close>

definition put_profile_check :: "string \<Rightarrow> catalog \<Rightarrow> profile_body \<Rightarrow> catalog \<Rightarrow> (nat \<times> string) option" where
  "put_profile_check u snap b c = (let t = js_trim (pb_studio b) in
     if auth_list_studio_ids_for_user u c = [] then (if t \<noteq> [] \<or> profile_writes b then Some (403, ''No team access.'') else None) else
     if t = [] then Some (400, ''active_studio_id is required.'') else
     if \<not> is_known_studio t snap then Some (400, ''Unknown studio id.'') else
     if \<not> auth_user_has_studio u t c then Some (403, ''No access to that team.'') else
     if profile_writes b \<and> \<not> manager (auth_get_membership_role u t c) then Some (403, ''Admin role required.'') else None)"

text \<open>A save with nothing committed in between: the refusal if any, and the catalog after it. A transaction that is
  rejected leaves the catalog and answers its error.\<close>

definition committed :: "(nat \<times> string) option cat \<Rightarrow> catalog \<Rightarrow> (nat \<times> string) option \<times> catalog" where
  "committed m c = (case as_400 (m c) of
     Inr (r, c') \<Rightarrow> (r, c')
   | Inl (ApiError n msg) \<Rightarrow> (Some (n, msg), c)
   | Inl e \<Rightarrow> (Some (500, []), c))"

definition and_then :: "(nat \<times> string) option \<times> catalog \<Rightarrow> (nat \<times> string) option cat \<Rightarrow> (nat \<times> string) option \<times> catalog" where
  "and_then p m = (case p of (Some r, c) \<Rightarrow> (Some r, c) | (None, c) \<Rightarrow> committed m c)"

definition put_profile :: "(nat \<Rightarrow> string) \<Rightarrow> user_row \<Rightarrow> catalog \<Rightarrow> profile_body \<Rightarrow> catalog \<Rightarrow> (nat \<times> string) option \<times> catalog" where
  "put_profile fresh w snap b c = (let u = us_id w; names = cbind (save_names w b) (\<lambda>_. creturn None) in
     case put_profile_check u snap b c of
       Some r \<Rightarrow> (Some r, c)
     | None \<Rightarrow>
       if auth_list_studio_ids_for_user u c = [] then committed names c else
       and_then (and_then (if profile_writes b then committed (put_profile_tx fresh u snap b) c else (None, c))
         (save_active_show u b)) names)"

subsection \<open>Session routes\<close>

definition session_commit :: "session_request \<Rightarrow> unit cat" where
  "session_commit req c = as_400 (session_tx req c)"

text \<open>\<open>POST /api/sessions\<close> on one catalog: the active team, the show of it, then the transaction.\<close>

definition post_session :: "string \<Rightarrow> string \<Rightarrow> catalog \<Rightarrow> int \<Rightarrow> session_body \<Rightarrow> (string \<times> string \<times> string) cat" where
  "post_session sid u snap now b = cbind (effective_studio u snap) (\<lambda>active. case active of
     None \<Rightarrow> cthrow (ApiError 403 ''No team access.'')
   | Some t \<Rightarrow> cbind (cread (post_session_check t b)) (\<lambda>r. case r of
       Inl e \<Rightarrow> cthrow e
     | Inr w \<Rightarrow> (\<lambda>c. as_400 (post_session_tx sid u (new_session_of b w now) c))))"

end
