(* ===== verification/ProfileProperties.thy ===== *)
theory ProfileProperties
  imports ProfilePlane TeamEffects
begin

section \<open>What profile saves and session routes keep\<close>

text \<open>
  The properties of ProfilePlane, ShowStore and SessionIndex that need the catalog's invariant: what a save of
  the profile leaves alone, that it keeps the invariant, that saved settings and shows are what is read
  afterwards, and who may create a session where.
\<close>

subsection \<open>Relations kept by transactions\<close>

text \<open>A transaction whose committed catalog is always related to the one it began on.\<close>

definition stays_in :: "(catalog \<Rightarrow> catalog \<Rightarrow> bool) \<Rightarrow> 'a cat \<Rightarrow> bool" where
  "stays_in R m \<longleftrightarrow> (\<forall>c x c'. m c = Inr (x, c') \<longrightarrow> R c c')"

named_theorems stays_intros \<open>transactions that keep a reflexive and transitive relation\<close>

locale catalog_relation =
  fixes R :: "catalog \<Rightarrow> catalog \<Rightarrow> bool"
  assumes refl: "R c c" and trans: "R a b \<Longrightarrow> R b d \<Longrightarrow> R a d"
begin

lemma stays_return: "stays_in R (creturn x)" and stays_throw: "stays_in R (cthrow e)" and stays_read: "stays_in R (cread f)"
  by (auto simp: stays_in_def refl)

lemma stays_bind: "stays_in R m \<Longrightarrow> (\<And>x. stays_in R (k x)) \<Longrightarrow> stays_in R (cbind m k)"
  unfolding stays_in_def cbind_Inr by (meson trans)

lemma stays_write: "(\<And>c. constraints_hold (g c) \<Longrightarrow> R c (g c)) \<Longrightarrow> stays_in R (cwrite g)"
  by (auto simp: stays_in_def)

lemma stays_cases:
  "stays_in R a \<Longrightarrow> stays_in R b \<Longrightarrow> stays_in R (if q then a else b)"
  "stays_in R n \<Longrightarrow> (\<And>y. stays_in R (s y)) \<Longrightarrow> stays_in R (case x of None \<Rightarrow> n | Some y \<Rightarrow> s y)"
  "(\<And>a. stays_in R (l a)) \<Longrightarrow> (\<And>b. stays_in R (r b)) \<Longrightarrow> stays_in R (case z of Inl a \<Rightarrow> l a | Inr b \<Rightarrow> r b)"
  by (auto split: option.split sum.split)

lemmas stays = stays_return stays_throw stays_read stays_bind stays_cases

lemma committed_stays: "stays_in R m \<Longrightarrow> R c (snd (committed m c))"
  by (cases "m c") (auto simp: committed_def as_400_def stays_in_def refl split: catalog_error.splits prod.splits)

lemma and_then_stays: "R c (snd p) \<Longrightarrow> stays_in R m \<Longrightarrow> R c (snd (and_then p m))"
  using committed_stays [of m "snd p"] trans by (cases p) (auto simp: and_then_def split: option.split)

end

subsection \<open>What a save changes\<close>

definition show_keys :: "catalog \<Rightarrow> (string \<times> string) list" where
  "show_keys c = map (\<lambda>s. (sw_id s, sw_studio s)) (ct_shows c)"

text \<open>Only the settings row and the shows of the team \<open>t\<close>, and the names and preferences of the user \<open>u\<close>.\<close>

definition save_frame :: "string \<Rightarrow> string \<Rightarrow> catalog \<Rightarrow> catalog \<Rightarrow> bool" where
  "save_frame u t c c' \<longleftrightarrow> ct_members c' = ct_members c \<and> ct_studios c' = ct_studios c \<and> ct_grants c' = ct_grants c \<and>
     ct_invites c' = ct_invites c \<and> ct_approvals c' = ct_approvals c \<and> ct_sessions c' = ct_sessions c \<and> show_keys c' = show_keys c \<and>
     filter (\<lambda>s. sw_studio s \<noteq> t) (ct_shows c') = filter (\<lambda>s. sw_studio s \<noteq> t) (ct_shows c) \<and>
     filter (\<lambda>(k, v). k \<noteq> studio_config_key t) (ct_settings c') = filter (\<lambda>(k, v). k \<noteq> studio_config_key t) (ct_settings c) \<and>
     filter (\<lambda>p. pr_user p \<noteq> u) (ct_prefs c') = filter (\<lambda>p. pr_user p \<noteq> u) (ct_prefs c) \<and>
     filter (\<lambda>w. us_id w \<noteq> u) (ct_users c') = filter (\<lambda>w. us_id w \<noteq> u) (ct_users c) \<and>
     map (\<lambda>w. (us_id w, us_sub w, us_email w, us_disabled w)) (ct_users c') = map (\<lambda>w. (us_id w, us_sub w, us_email w, us_disabled w)) (ct_users c) \<and>
     (constraints_hold c \<longrightarrow> constraints_hold c')"

text \<open>Nothing but the names and preferences of \<open>u\<close>.\<close>

definition own_frame :: "string \<Rightarrow> catalog \<Rightarrow> catalog \<Rightarrow> bool" where
  "own_frame u c c' \<longleftrightarrow> ct_shows c' = ct_shows c \<and> ct_settings c' = ct_settings c \<and> (\<forall>t. save_frame u t c c')"

interpretation sf: catalog_relation "save_frame u t" for u t
  by unfold_locales (auto simp: save_frame_def)

interpretation of': catalog_relation "own_frame u" for u
  by unfold_locales (auto simp: own_frame_def intro: sf.refl sf.trans)

lemma own_save: "stays_in (own_frame u) m \<Longrightarrow> stays_in (save_frame u t) m"
  by (auto simp: stays_in_def own_frame_def)

lemma filter_map_cong:
  "(\<And>x. x \<in> set xs \<Longrightarrow> P x \<Longrightarrow> f x = x) \<Longrightarrow> (\<And>x. x \<in> set xs \<Longrightarrow> P (f x) = P x) \<Longrightarrow> filter P (map f xs) = filter P xs"
  by (induction xs) auto

lemma filter_map_same: "(\<And>x. P x \<Longrightarrow> f x = x) \<Longrightarrow> (\<And>x. P (f x) = P x) \<Longrightarrow> filter P (map f xs) = filter P xs"
  by (induction xs) auto

lemma prefs_own: "stays_in (own_frame u) (auth_set_prefs u t sh)"
  unfolding auth_set_prefs_def
  by (rule of'.stays_write) (auto simp: own_frame_def save_frame_def upsert_prefs_def show_keys_def filter_map_same)

lemma names_own: "stays_in (own_frame u) (auth_update_user_names u gn fn)"
  unfolding auth_update_user_names_def
  by (intro of'.stays of'.stays_write) (auto simp: own_frame_def save_frame_def update_user_def show_keys_def filter_map_same)

lemma save_names_own: "stays_in (own_frame (us_id w)) (cbind (save_names w b) (\<lambda>_. creturn None))"
  unfolding save_names_def by (intro of'.stays names_own)

lemma save_show_own: "stays_in (own_frame u) (save_active_show u b)"
  unfolding save_active_show_def Let_def by (intro of'.stays prefs_own)

lemma settings_frame: "stays_in (save_frame u t) (save_studio_settings_blob fresh t snap blob)"
  unfolding save_studio_settings_blob_def set_setting_def
  by (intro sf.stays sf.stays_write)
    (auto simp: save_frame_def put_setting_def show_keys_def intro!: filter_map_same split: prod.splits)

lemma patched_keys [simp]: "sw_id (patched_show f r) = sw_id r" "sw_studio (patched_show f r) = sw_studio r"
  by (simp_all add: patched_show_def)

lemma show_update_frame:
  assumes "\<And>s. get_show_row sh c = Some s \<Longrightarrow> sw_studio s = t" "update_show_fields sh f c = Inr (x, c')"
  shows "save_frame u t c c'"
proof (cases "get_show_row sh c")
  case None
  with assms(2) show ?thesis by (simp add: update_show_fields_def cbind_def cread_def creturn_def sf.refl)
next
  case (Some r)
  let ?g = "\<lambda>s. if sw_id s = sh then patched_show f r else s"
  have r: "sw_id r = sh" "sw_studio r = t" using Some assms(1) by (auto simp: get_show_row_def dest: find_sound)
  have c': "c' = c\<lparr>ct_shows := map ?g (ct_shows c)\<rparr>" "constraints_hold c'"
    using assms(2) Some by (auto simp: update_show_fields_def cbind_Inr)
  have k: "sw_id (patched_show f r) = sh" "sw_studio (patched_show f r) = t" using r by simp_all
  have "map sw_id (ct_shows c') = map sw_id (ct_shows c)" using c'(1) k(1) by simp
  then have "distinct (map sw_id (ct_shows c))" using c'(2) by (simp add: constraints_hold_def keys_hold_def)
  then have u: "s = r" if "s \<in> set (ct_shows c)" "sw_id s = sh" for s
    using that Some by (auto simp: get_show_row_def find_Some_iff_distinct distinct_map inj_on_def)
  have "show_keys c' = show_keys c" using c'(1) k u r by (auto simp: show_keys_def)
  moreover have "filter (\<lambda>s. sw_studio s \<noteq> t) (map ?g (ct_shows c)) = filter (\<lambda>s. sw_studio s \<noteq> t) (ct_shows c)"
    by (rule filter_map_cong) (use u k(2) r(2) in auto)
  ultimately show ?thesis using c' by (simp add: save_frame_def)
qed

lemma show_updates_frame: "stays_in (save_frame u t) (apply_show_updates fresh t es)"
proof (induction es)
  case Nil
  show ?case by (simp add: sf.stays)
next
  case (Cons e es)
  let ?sh = "js_trim (su_show e)"
  have "save_frame u t c c'" if run: "apply_show_updates fresh t (e # es) c = Inr (x, c')" for c x c'
  proof (cases "(case get_show_row ?sh c of None \<Rightarrow> True | Some w \<Rightarrow> sw_studio w \<noteq> t)")
    case True
    with run show ?thesis by (simp add: Let_def cbind_def cread_def creturn_def sf.refl)
  next
    case False
    then have o: "sw_studio w = t" if "get_show_row ?sh c = Some w" for w using that by simp
    show ?thesis
    proof (cases "patch_of_update fresh e")
      case (Inl m)
      with run False show ?thesis by (simp add: Let_def cbind_def cread_def creturn_def sf.refl)
    next
      case (Inr f)
      show ?thesis
      proof (cases "f = empty_patch")
        case True
        with run False Inr Cons.IH show ?thesis by (simp add: Let_def cbind_def cread_def stays_in_def)
      next
        case neq: False
        then obtain b c1 where 1: "update_show_fields ?sh f c = Inr (b, c1)" "apply_show_updates fresh t es c1 = Inr (x, c')"
          using run False Inr by (auto simp: Let_def cbind_Inr)
        have "save_frame u t c1 c'" using Cons.IH 1(2) by (auto simp: stays_in_def)
        with show_update_frame [OF o 1(1)] show ?thesis by (rule sf.trans)
      qed
    qed
  qed
  then show ?case by (auto simp: stays_in_def)
qed

lemma put_profile_tx_frame: "stays_in (save_frame u (js_trim (pb_studio b))) (put_profile_tx fresh v snap b)"
  unfolding put_profile_tx_def Let_def by (intro sf.stays settings_frame show_updates_frame)

lemma put_profile_save_frame: "save_frame (us_id w) (js_trim (pb_studio b)) c (snd (put_profile fresh w snap b c))"
  and put_profile_own_frame: "\<not> manager (auth_get_membership_role (us_id w) (js_trim (pb_studio b)) c) \<Longrightarrow>
    own_frame (us_id w) c (snd (put_profile fresh w snap b c))"
proof -
  let ?u = "us_id w" and ?t = "js_trim (pb_studio b)" and ?names = "cbind (save_names w b) (\<lambda>_. creturn None)"
  let ?p = "if profile_writes b then committed (put_profile_tx fresh ?u snap b) c else (None, c)"
  note own = save_names_own [of w b] save_show_own [of ?u b]
  consider (refused) r where "put_profile_check ?u snap b c = Some r" "put_profile fresh w snap b c = (Some r, c)"
    | (teamless) "auth_list_studio_ids_for_user ?u c = []" "put_profile fresh w snap b c = committed ?names c"
    | (saved) "put_profile_check ?u snap b c = None" "auth_list_studio_ids_for_user ?u c \<noteq> []"
        "put_profile fresh w snap b c = and_then (and_then ?p (save_active_show ?u b)) ?names"
    by (cases "put_profile_check ?u snap b c") (auto simp: put_profile_def Let_def)
  note cases = this
  show "save_frame ?u ?t c (snd (put_profile fresh w snap b c))"
    using cases
  proof cases
    case teamless
    then show ?thesis using of'.committed_stays [OF own(1), of c] by (simp add: own_frame_def)
  next
    case saved
    have "save_frame ?u ?t c (snd ?p)"
      using sf.committed_stays [OF put_profile_tx_frame [of ?u b fresh ?u snap]] by (simp add: sf.refl)
    then show ?thesis unfolding saved(3) by (intro sf.and_then_stays own_save own)
  qed (simp add: sf.refl)
  show "own_frame ?u c (snd (put_profile fresh w snap b c))" if m: "\<not> manager (auth_get_membership_role ?u ?t c)"
    using cases
  proof cases
    case teamless
    then show ?thesis using of'.committed_stays [OF own(1), of c] by simp
  next
    case saved
    then have "\<not> profile_writes b" using m by (auto simp: put_profile_check_def Let_def split: if_splits)
    then have "own_frame ?u c (snd ?p)" by (simp add: of'.refl)
    then show ?thesis unfolding saved(3) by (intro of'.and_then_stays own)
  qed (simp add: of'.refl)
qed

text \<open>C9: A save of the profile touches only what it is about: whatever it answers, only the settings row and
  the shows of the team it names and the caller's own names and preferences can differ; no show changes its id or team, no
  identity, membership, grant, invite or session changes, and the schema's constraints still hold. A caller who is not
  an owner or admin of that team changes no settings and no show at all.\<close>

theorem profile_save_frame:
  "save_frame (us_id w) (js_trim (pb_studio b)) c (snd (put_profile fresh w snap b c)) \<and>
   (manager (auth_get_membership_role (us_id w) (js_trim (pb_studio b)) c) \<or>
    ct_shows (snd (put_profile fresh w snap b c)) = ct_shows c \<and> ct_settings (snd (put_profile fresh w snap b c)) = ct_settings c)"
  using put_profile_save_frame [of w b c fresh snap] put_profile_own_frame [of w b c fresh snap] by (auto simp: own_frame_def)

subsection \<open>The invariant\<close>

lemma show_keys_observed:
  assumes "show_keys c' = show_keys c"
  shows "map_option sw_studio (get_show_row sh c') = map_option sw_studio (get_show_row sh c)" "has_shows t c' = has_shows t c"
proof -
  have f: "map_option sw_studio (find (\<lambda>s. sw_id s = sh) xs) = map_option snd (find (\<lambda>p. fst p = sh) (map (\<lambda>s. (sw_id s, sw_studio s)) xs))" for xs
    by (induction xs) auto
  have h: "list_ex (\<lambda>s. sw_studio s = t) xs = list_ex (\<lambda>p. snd p = t) (map (\<lambda>s. (sw_id s, sw_studio s)) xs)" for xs
    by (induction xs) auto
  show "map_option sw_studio (get_show_row sh c') = map_option sw_studio (get_show_row sh c)"
    unfolding get_show_row_def f using assms by (simp add: show_keys_def)
  show "has_shows t c' = has_shows t c"
    unfolding has_shows_def h using assms by (simp add: show_keys_def)
qed

lemma catalog_ok_keys:
  assumes "catalog_ok c" "constraints_hold c'" "ct_members c' = ct_members c" "ct_studios c' = ct_studios c"
    "ct_grants c' = ct_grants c" "ct_invites c' = ct_invites c" "show_keys c' = show_keys c"
  shows "catalog_ok c'"
proof -
  have o: "role_of c' u t = role_of c u t" "studio_exists t c' = studio_exists t c" "granted u sh c' = granted u sh c"
      "invited t e c' = invited t e c" "auth_count_pending_invites t c' = auth_count_pending_invites t c" for u t sh e
    using assms(3-6)
    by (simp_all add: auth_get_membership_role_def studio_exists_def granted_def invited_def auth_count_pending_invites_def)
  have "grants_held c'"
    unfolding grants_held_def o
  proof (intro allI impI)
    fix u sh
    assume "granted u sh c"
    with assms(1) obtain s where s: "get_show_row sh c = Some s" "role_of c u (sw_studio s) \<noteq> None"
      unfolding catalog_ok_def grants_held_def by blast
    with show_keys_observed(1) [OF assms(7), of sh] obtain s' where "get_show_row sh c' = Some s'" "sw_studio s' = sw_studio s"
      by (cases "get_show_row sh c'") auto
    with s show "\<exists>s. get_show_row sh c' = Some s \<and> role_of c u (sw_studio s) \<noteq> None" by auto
  qed
  moreover have "teams_exist c'"
    using assms(1) unfolding catalog_ok_def teams_exist_def o show_keys_observed(2) [OF assms(7)] by blast
  moreover have "pending_capped c'"
    using assms(1) unfolding catalog_ok_def pending_capped_def o by blast
  ultimately show ?thesis using assms(2) by (simp add: catalog_ok_def)
qed

text \<open>A relation that keeps the invariant.\<close>

definition keeps_catalog :: "catalog \<Rightarrow> catalog \<Rightarrow> bool" where
  "keeps_catalog c c' \<longleftrightarrow> (catalog_ok c \<longrightarrow> catalog_ok c')"

interpretation kc: catalog_relation keeps_catalog
  by unfold_locales (auto simp: keeps_catalog_def)

lemma keeps_write:
  assumes "\<And>c. ct_members (g c) = ct_members c \<and> ct_studios (g c) = ct_studios c \<and> ct_grants (g c) = ct_grants c \<and>
    ct_invites (g c) = ct_invites c \<and> ct_shows (g c) = ct_shows c"
  shows "stays_in keeps_catalog (cwrite g)"
  using assms by (intro kc.stays_write) (auto simp: keeps_catalog_def show_keys_def intro: catalog_ok_keys)

lemma frame_keeps: "save_frame u t c c' \<Longrightarrow> catalog_ok c \<Longrightarrow> catalog_ok c'"
  by (rule catalog_ok_keys) (auto simp: save_frame_def)

lemma effective_studio_keeps: "stays_in keeps_catalog (effective_studio u snap)"
  unfolding effective_studio_def profile_studio_for_user_def auth_ensure_prefs_row_def Let_def case_prod_beta
  by (intro kc.stays keeps_write) simp_all

lemma create_session_keeps: "stays_in keeps_catalog (create_session_for_show sid n)"
  unfolding create_session_for_show_def create_session_index_def case_prod_beta
  by (intro kc.stays keeps_write) simp_all

lemma update_session_keeps: "stays_in keeps_catalog (cwrite (update_session_row s f))"
  by (rule keeps_write) (simp add: update_session_row_def)

lemma session_tx_keeps: "stays_in keeps_catalog (session_tx req)"
  by (cases req)
    (auto simp: update_session_index_def set_session_archived_def set_session_ui_hidden_def set_session_field_def found_session_def Let_def
      intro!: kc.stays update_session_keeps)

lemma as_400_keeps: "stays_in R m \<Longrightarrow> stays_in R (\<lambda>c. as_400 (m c))"
  by (auto simp: stays_in_def as_400_def split: sum.splits catalog_error.splits)

lemma post_session_keeps: "stays_in keeps_catalog (post_session sid u snap now b)"
  unfolding post_session_def post_session_tx_def
  by (intro kc.stays effective_studio_keeps as_400_keeps create_session_keeps)


subsection \<open>Who may create a session\<close>

lemma effective_studio_own: "stays_in (own_frame u) (effective_studio u snap)"
  unfolding effective_studio_def profile_studio_for_user_def auth_ensure_prefs_row_def Let_def case_prod_beta
  by (intro of'.stays of'.stays_write) (auto simp: own_frame_def save_frame_def show_keys_def)

lemma own_access: "own_frame u c c' \<Longrightarrow> auth_can_access_show_for_share v sh c' = auth_can_access_show_for_share v sh c"
  by (simp add: own_frame_def save_frame_def auth_can_access_show_for_share_def auth_get_membership_role_def granted_def cong: option.case_cong role.case_cong)

text \<open>C8: A session is created only by a user with access: when \<open>POST /api/sessions\<close> answers, the show exists
  and belongs to the caller's active team, the caller is its owner or admin or a member with a grant for it, and exactly one
  row was added, a visible session of that show under the fresh id with the answered title.\<close>

theorem session_created_authorised:
  assumes "catalog_ok c" "post_session sid u snap now body c = Inr ((i, title, episode), c')"
  shows "\<exists>s row. get_show_row (js_trim (bo_show body)) c = Some s \<and> role_of c u (sw_studio s) \<noteq> None \<and>
    auth_can_access_show u (js_trim (bo_show body)) c \<and>
    (role_of c u (sw_studio s) = Some Member \<longrightarrow> granted u (js_trim (bo_show body)) c) \<and>
    ct_sessions c' = ct_sessions c @ [row] \<and> ix_id row = sid \<and> ix_show row = Some (js_trim (bo_show body)) \<and>
    ix_title row = title \<and> \<not> ix_hidden row \<and> \<not> ix_archived row"
proof -
  let ?sh = "js_trim (bo_show body)"
  obtain t c1 w where 1: "effective_studio u snap c = Inr (Some t, c1)" "post_session_check t body c1 = Inr w"
      "as_400 (post_session_tx sid u (new_session_of body w now) c1) = Inr ((i, title, episode), c')"
  proof -
    obtain a c1 where a: "effective_studio u snap c = Inr (a, c1)"
      using assms(2) by (auto simp: post_session_def cbind_Inr)
    then obtain t where "a = Some t" using assms(2) by (cases a) (auto simp: post_session_def cbind_def cthrow_def)
    with a assms(2) show thesis
      by (cases "post_session_check t body c1") (auto simp: post_session_def cbind_def cread_def cthrow_def intro: that)
  qed
  have f: "own_frame u c c1" using effective_studio_own 1(1) by (auto simp: stays_in_def)
  have ns: "ns_show (new_session_of body w now) = ?sh" by (simp add: new_session_of_def)
  have 2: "auth_can_access_show_for_share u ?sh c1"
      "create_session_for_show sid (new_session_of body w now) c1 = Inr ((i, title, episode), c')"
    using 1(3) ns
    by (auto simp: post_session_tx_def cbind_def cread_def as_400_def cthrow_def split: if_splits sum.splits catalog_error.splits)
  obtain s r where s: "get_show_row ?sh c = Some s" "role_of c u (sw_studio s) = Some r" "r \<noteq> Owner \<and> r \<noteq> Admin \<longrightarrow> granted u ?sh c"
    using 2(1) own_access [OF f] by (auto simp: auth_can_access_show_for_share_def get_show_row_def split: option.splits if_splits)
  then have "auth_can_access_show u ?sh c"
    unfolding access_iff [OF ok_constraints [OF assms(1)]] by (cases r) auto
  moreover have "ct_sessions c1 = ct_sessions c" using f by (simp add: own_frame_def save_frame_def)
  ultimately show ?thesis
    using s 2(2) ns by (auto simp: create_session_index_row)
qed

subsection \<open>Saved settings and shows are what is read\<close>

lemma settings_parsed:
  assumes "validate_settings_blob fresh True ps = Inr b" "of_int \<lfloor>sb_frame_rate b\<rfloor> = sb_frame_rate b"
  shows "json_parse (json_string (settings_json b)) = Some (JObj (settings_members b))"
  using json_parse_string [OF settings_json_ok [OF assms(2) settings_fields(5,6) [OF assms(1)]]]
  by (simp add: settings_json_def settings_members_def)

lemma merge_members: "merge_stored (settings_members d) (settings_members b) = settings_members b"
  by (simp add: merge_stored_def settings_members_def js_object_def array_index_def is_digit_def Let_def)

lemma map_of_map_unchanged: "j \<notin> fst ` set xs \<Longrightarrow> map (\<lambda>(a, b). if a = j then (a, v) else (a, b)) xs = xs"
  by (induction xs) (auto simp: rev_image_eqI)

lemma setting_put: "get_setting k (put_setting j v c) = (if k = j then Some v else get_setting k c)"
proof -
  have "map_of (map (\<lambda>(a, b). if a = j then (a, v) else (a, b)) xs) k = (if k = j then Some v else map_of xs k)"
    if "j \<in> fst ` set xs" for xs :: "(string \<times> string) list"
    using that
  proof (induction xs)
    case (Cons x xs)
    then show ?case by (cases "j \<in> fst ` set xs"; cases x) (auto simp: map_of_map_unchanged)
  qed simp
  moreover have "map_of (xs @ [(j, v)]) k = (if k = j then Some v else map_of xs k)" if "j \<notin> fst ` set xs" for xs :: "(string \<times> string) list"
    using that by (induction xs) auto
  ultimately show ?thesis by (cases "j \<in> fst ` set (ct_settings c)") (simp_all add: get_setting_def put_setting_def del: map_of_append)
qed


lemma hex_colors_saved:
  assumes "list_all palette_color p" "length p \<le> 9"
  shows "hex_colors_from_json (palette_text p) = p"
proof -
  have "json_ok (JArr (map JStr p))" by (simp add: list_all_iff)
  from json_parse_string [OF this] have j: "json_parse (palette_text p) = Some (JArr (map JStr p))" by (simp add: palette_text_def)
  have c: "(let s = js_trim (js_string (JStr x)) in if length s = 7 \<and> hd s = CHR ''#'' then Some (js_lower s) else None) = Some x"
    if "palette_color x" for x
    using that color_trim [of x] by (simp add: palette_color_def color_hex_def)
  have "List.map_filter (\<lambda>x. let s = js_trim (js_string x) in if length s = 7 \<and> hd s = CHR ''#'' then Some (js_lower s) else None)
      (map JStr q) = q" if "list_all palette_color q" for q
    using that c by (induction q) (simp_all add: List.map_filter_simps)
  with assms j show ?thesis by (simp add: hex_colors_from_json_def)
qed

lemma normalized_nine:
  assumes "normalize_event_palette_nine raw = Inr p"
  shows "list_all palette_color p" "length p = 9" "normalize_event_palette_nine (JArr (map JStr p)) = Inr p"
  using event_palette_nine [of raw] assms by (auto simp: list_all_length)

lemma preset_fixed: "validate_event_palette_preset (JStr p) = (if js_lower (js_trim p) \<in> {''custom'', ''default'', ''neon'', ''desert'', ''aqua''}
    then js_lower (js_trim p) else ''custom'')"
  by (simp add: validate_event_palette_preset_def Let_def)

lemma preset_normal:
  "js_lower (js_trim (validate_event_palette_preset v)) = validate_event_palette_preset v" "validate_event_palette_preset v \<noteq> []"
  "validate_event_palette_preset (JStr (validate_event_palette_preset v)) = validate_event_palette_preset v"
proof -
  have k: "js_lower (js_trim x) = x \<and> x \<noteq> []" if "x \<in> {''custom'', ''default'', ''neon'', ''desert'', ''aqua''}" for x
  proof -
    have "list_all (\<lambda>x. js_lower (js_trim x) = x \<and> x \<noteq> []) [''custom'', ''default'', ''neon'', ''desert'', ''aqua'']" by code_simp
    with that show ?thesis by auto
  qed
  have v: "validate_event_palette_preset v \<in> {''custom'', ''default'', ''neon'', ''desert'', ''aqua''}"
    by (auto simp: validate_event_palette_preset_def Let_def)
  show "js_lower (js_trim (validate_event_palette_preset v)) = validate_event_palette_preset v" "validate_event_palette_preset v \<noteq> []"
    using k [OF v] by auto
  then show "validate_event_palette_preset (JStr (validate_event_palette_preset v)) = validate_event_palette_preset v"
    using v preset_fixed [of "validate_event_palette_preset v"] by auto
qed

lemma categories_saved: "json_parse (categories_text cs) = Some (JArr (map category_json cs))"
proof -
  have "json_ok (JArr (map category_json cs))" by (simp add: list_all_iff category_json_ok)
  from json_parse_string [OF this] show ?thesis by (simp add: categories_text_def)
qed

lemma suffix_fixed [simp]: "title_suffix_value (title_suffix_value s) = title_suffix_value s"
proof -
  have "js_lower (js_trim ''episode'') = ''episode''" "js_lower (js_trim ''date'') = ''date''" by code_simp+
  then show ?thesis by (simp add: title_suffix_value_def)
qed

lemma get_updated_show:
  assumes "update_show_fields sh f c = Inr (True, c')"
  obtains r where "get_show_row sh c = Some r" "get_show_row sh c' = Some (patched_show f r)"
proof -
  obtain r where r: "get_show_row sh c = Some r" "c' = c\<lparr>ct_shows := map (\<lambda>s. if sw_id s = sh then patched_show f r else s) (ct_shows c)\<rparr>"
    using assms by (cases "get_show_row sh c") (auto simp: update_show_fields_def cbind_def cread_def creturn_def cwrite_def split: if_splits)
  have "sw_id r = sh" using r(1) by (auto simp: get_show_row_def dest: find_sound)
  then have "find (\<lambda>s. sw_id s = sh) (map (\<lambda>s. if sw_id s = sh then patched_show f r else s) xs) =
      map_option (\<lambda>_. patched_show f r) (find (\<lambda>s. sw_id s = sh) xs)" for xs
    by (induction xs) auto
  then show thesis using that [OF r(1)] r by (simp add: get_show_row_def)
qed

text \<open>What an admin saves for a show is what is shown: after an accepted update with categories and both palettes, the
  show's row reads back as the validated categories under their ids, the nine normalized colors of each palette, and the
  normalized preset, name, code and title suffix that were given.\<close>

theorem show_update_read_back:
  assumes "patch_of_update fresh e = Inr f" "update_show_fields sh f c = Inr (True, c')"
    and "su_categories e = Some kv" "su_palette e = Some pv" "su_custom e = Some cv"
  shows "\<exists>r d cs. get_show_row sh c' = Some r \<and> show_api_dict r = Inr d \<and>
    validate_categories_list fresh kv = Inr cs \<and> sh_categories d = map category_json cs \<and>
    normalize_event_palette_nine pv = Inr (sh_palette d) \<and> normalize_event_palette_nine cv = Inr (sh_custom d) \<and>
    sh_name d = (case su_name e of Some n \<Rightarrow> js_trim n | None \<Rightarrow> sh_name d) \<and>
    sh_code d = (case su_code e of Some k \<Rightarrow> js_upper (js_trim k) | None \<Rightarrow> sh_code d) \<and>
    sh_suffix d = (case su_suffix e of Some x \<Rightarrow> title_suffix_value x | None \<Rightarrow> sh_suffix d) \<and>
    sh_preset d = (case su_preset e of Some p \<Rightarrow> validate_event_palette_preset (JStr p) | None \<Rightarrow> sh_preset d)"
proof -
  obtain cs p q where v: "validate_categories_list fresh kv = Inr cs" "normalize_event_palette_nine pv = Inr p"
      "normalize_event_palette_nine cv = Inr q"
    and f: "f = \<lparr>pa_name = map_option js_trim (su_name e), pa_code = map_option js_trim (su_code e), pa_next = None, pa_suffix = su_suffix e,
      pa_categories = Some (categories_text cs), pa_palette = Some (palette_text p),
      pa_preset = map_option (\<lambda>p. validate_event_palette_preset (JStr p)) (su_preset e), pa_custom = Some (palette_text q)\<rparr>"
    using assms(1,3-5) by (auto simp: patch_of_update_def map_field_def split: sum.splits)
  obtain r where r: "get_show_row sh c' = Some (patched_show f r)"
    using get_updated_show [OF assms(2)] by blast
  have p: "hex_colors_from_json (palette_text p) = p" "hex_colors_from_json (palette_text q) = q" "q \<noteq> []"
    using normalized_nine [OF v(2)] normalized_nine [OF v(3)] by (auto intro!: hex_colors_saved)
  let ?d = "\<lparr>sh_id = sw_id r, sh_studio = sw_studio r, sh_name = sw_name (patched_show f r), sh_code = sw_code (patched_show f r),
     sh_suffix = title_suffix_value (sw_suffix (patched_show f r)), sh_categories = map category_json cs, sh_palette = p,
     sh_preset = validate_event_palette_preset (JStr (if js_lower (js_trim (sw_preset (patched_show f r))) = [] then ''custom''
       else js_lower (js_trim (sw_preset (patched_show f r))))), sh_custom = q\<rparr>"
  have "show_api_dict (patched_show f r) = Inr ?d"
    using p normalized_nine(3) [OF v(2)] normalized_nine(3) [OF v(3)] categories_saved [of cs]
    by (simp add: show_api_dict_def f patched_show_def categories_from_row_def or_else_def Let_def)
  then show ?thesis
    using r v
    by (intro exI [of _ "patched_show f r"] exI [of _ ?d] exI [of _ cs])
      (auto simp: f patched_show_def or_else_def preset_normal Let_def split: option.split)
qed

subsection \<open>The chosen team and show become the active ones\<close>

lemma committed_None: "committed m c = (None, c') \<Longrightarrow> m c = Inr (None, c')"
  by (cases "m c") (auto simp: committed_def as_400_def split: catalog_error.splits)

lemma and_then_None: "and_then p m = (None, c') \<longleftrightarrow> (\<exists>c1. p = (None, c1) \<and> committed m c1 = (None, c'))"
  by (cases p) (auto simp: and_then_def split: option.splits)

lemma prefs_upserted: "auth_get_prefs u (upsert_prefs u \<lparr>pr_user = u, pr_studio = t, pr_show = sh\<rparr> (\<lambda>p. p\<lparr>pr_studio := t, pr_show := sh\<rparr>) c) =
    Some \<lparr>pr_user = u, pr_studio = t, pr_show = sh\<rparr>"
proof (cases "auth_get_prefs u c")
  case None
  have "find P xs = None \<Longrightarrow> P y \<Longrightarrow> find P (xs @ [y]) = Some y" for P :: "prefs_row \<Rightarrow> bool" and xs y
    by (induction xs) (auto split: if_splits)
  with None show ?thesis by (simp add: upsert_prefs_def auth_get_prefs_def)
next
  case (Some p)
  then have "pr_user p = u" by (auto simp: auth_get_prefs_def dest: find_sound)
  then have "p\<lparr>pr_studio := t, pr_show := sh\<rparr> = \<lparr>pr_user = u, pr_studio = t, pr_show = sh\<rparr>" by simp
  moreover have "find (\<lambda>p. pr_user p = u) (map (\<lambda>p. if pr_user p = u then p\<lparr>pr_studio := t, pr_show := sh\<rparr> else p) xs) =
      map_option (\<lambda>p. p\<lparr>pr_studio := t, pr_show := sh\<rparr>) (find (\<lambda>p. pr_user p = u) xs)" for xs
    by (induction xs) auto
  from this [of "ct_prefs c"] have "auth_get_prefs u (upsert_prefs u \<lparr>pr_user = u, pr_studio = t, pr_show = sh\<rparr>
      (\<lambda>p. p\<lparr>pr_studio := t, pr_show := sh\<rparr>) c) = Some (p\<lparr>pr_studio := t, pr_show := sh\<rparr>)"
    using Some by (simp add: upsert_prefs_def auth_get_prefs_def)
  ultimately show ?thesis by simp
qed

lemma save_names_prefs: "save_names w b c = Inr ((), c') \<Longrightarrow> auth_get_prefs u c' = auth_get_prefs u c"
  by (auto simp: save_names_def auth_update_user_names_def cbind_Inr auth_get_prefs_def update_user_def split: if_splits option.splits)

definition first_show :: "show_row list \<Rightarrow> string" where
  "first_show shows = (case shows of [] \<Rightarrow> [] | w # _ \<Rightarrow> sw_id w)"

lemma saved_active_show:
  assumes "save_active_show u b c = Inr (None, c')"
  shows "auth_get_prefs u c' = Some \<lparr>pr_user = u, pr_studio = js_trim (pb_studio b), pr_show = (if js_trim (pb_show b) \<noteq> [] then js_trim (pb_show b)
      else first_show (list_shows_for_studio (js_trim (pb_studio b)) c))\<rparr>"
    and "js_trim (pb_show b) \<noteq> [] \<longrightarrow> js_trim (pb_show b) \<in> sw_id ` set (list_shows_for_studio (js_trim (pb_studio b)) c)"
  using assms by (auto simp: save_active_show_def auth_set_prefs_def cbind_Inr prefs_upserted first_show_def Let_def split: if_splits)

text \<open>C25: What a user picked is what is active next: after a save that was answered without a refusal, every later
  request resolves the caller's active team to the one named in it, and the active show to the one named in it, or to
  the team's first show by name when none was named.\<close>

theorem chosen_show_active:
  assumes "put_profile fresh w snap b c = (None, c')" "auth_list_studio_ids_for_user (us_id w) c \<noteq> []"
    and "\<And>s. s \<in> set (ct_shows c) \<Longrightarrow> js_trim (sw_id s) = sw_id s"
  shows "profile_studio_for_user (us_id w) snap' c' = Inr ((js_trim (pb_studio b),
    (if js_trim (pb_show b) \<noteq> [] then js_trim (pb_show b) else first_show (list_shows_for_studio (js_trim (pb_studio b)) c')),
    list_shows_for_studio (js_trim (pb_studio b)) c'), c')"
proof -
  let ?u = "us_id w" and ?t = "js_trim (pb_studio b)" and ?shows = "\<lambda>c. list_shows_for_studio (js_trim (pb_studio b)) c"
  have check: "put_profile_check ?u snap b c = None"
    using assms(1) by (cases "put_profile_check ?u snap b c") (auto simp: put_profile_def)
  obtain c1 c2 where 1: "save_active_show ?u b c1 = Inr (None, c2)" "cbind (save_names w b) (\<lambda>_. creturn (None :: (nat \<times> string) option)) c2 = Inr (None, c')"
    using assms(1,2) check by (auto simp: put_profile_def and_then_None Let_def dest!: committed_None)
  have "own_frame ?u c1 c'"
    using save_show_own [of ?u b] save_names_own [of w b] 1 of'.trans [of ?u c1 c2 c'] unfolding stays_in_def by blast
  then have sh: "?shows c1 = ?shows c'" by (simp add: own_frame_def list_shows_for_studio_def)
  have "auth_get_prefs ?u c' = auth_get_prefs ?u c2"
    using 1(2) by (auto simp: cbind_Inr dest: save_names_prefs)
  with saved_active_show(1) [OF 1(1)] sh have p: "auth_get_prefs ?u c' = Some \<lparr>pr_user = ?u, pr_studio = ?t,
      pr_show = (if js_trim (pb_show b) \<noteq> [] then js_trim (pb_show b) else first_show (?shows c'))\<rparr>" by simp
  have f: "save_frame ?u ?t c c'" using put_profile_save_frame [of w b c fresh snap] assms(1) by simp
  have ids: "js_trim (sw_id s) = sw_id s" if "s \<in> set (?shows c')" for s
  proof -
    have "(sw_id s, sw_studio s) \<in> set (show_keys c')" using that by (auto simp: show_keys_def list_shows_for_studio_def)
    then have "(sw_id s, sw_studio s) \<in> set (show_keys c)" using f by (simp add: save_frame_def)
    with assms(3) show ?thesis by (auto simp: show_keys_def)
  qed
  have fs: "js_trim (first_show (?shows c')) = first_show (?shows c')"
    using ids by (cases "?shows c'") (auto simp: first_show_def js_trim_def)
  have m: "auth_list_studio_ids_for_user ?u c' \<noteq> []" "?t \<in> set (auth_list_studio_ids_for_user ?u c')" "?t \<noteq> []"
  proof -
    have "auth_user_has_studio ?u ?t c" "?t \<noteq> []"
      using check assms(2) by (auto simp: put_profile_check_def Let_def split: if_splits)
    then show "?t \<in> set (auth_list_studio_ids_for_user ?u c')" "?t \<noteq> []"
      using f by (auto simp: auth_user_has_studio_def auth_list_studio_ids_for_user_def list_ex_iff member_key_def save_frame_def image_iff)
    then show "auth_list_studio_ids_for_user ?u c' \<noteq> []" by auto
  qed
  have "js_trim (pb_show b) \<noteq> [] \<longrightarrow> js_trim (pb_show b) \<in> sw_id ` set (?shows c')"
    using saved_active_show(2) [OF 1(1)] sh by simp
  moreover have "resolve_active_show (?shows c') x = x" if "x \<in> sw_id ` set (?shows c')" "js_trim x = x" "x \<noteq> []" for x
    using that by (simp add: resolve_active_show_def)
  moreover have "resolve_active_show (?shows c') (first_show (?shows c')) = first_show (?shows c')"
    using fs by (cases "?shows c'") (auto simp: resolve_active_show_def first_show_def Let_def)
  ultimately show ?thesis
    using p m fs
    by (auto simp: profile_studio_for_user_def cbind_def cread_def creturn_def auth_ensure_prefs_row_def active_studio_id_def Let_def)
qed

subsection \<open>A team to try it on\<close>

definition sample_user :: user_row where
  "sample_user = \<lparr>us_id = ''u'', us_sub = ''g'', us_email = ''a@x.o'', us_given = ''Ann'', us_family = [], us_picture = [], us_created = ''3'',
     us_disabled = None\<rparr>"

definition sample_team :: catalog where
  "sample_team = (sample_index [])\<lparr>ct_users := [sample_user], ct_members := [\<lparr>mb_user = ''u'', mb_studio = ''t'', mb_role = Owner\<rparr>]\<rparr>"

lemma sample_team_ok: "catalog_ok sample_team"
proof -
  have r: "role_of sample_team v s = (if v = ''u'' \<and> s = ''t'' then Some Owner else None)" for v s
    by (simp add: auth_get_membership_role_def sample_team_def sample_index_def member_key_def)
  have o: "\<not> granted v sh sample_team" "\<not> invited s e sample_team" "auth_count_pending_invites s sample_team = 0"
      "has_shows s sample_team \<longleftrightarrow> s = ''t''" "studio_exists s sample_team \<longleftrightarrow> s = ''t''" for v sh s e
    by (auto simp: granted_def invited_def auth_count_pending_invites_def has_shows_def studio_exists_def sample_team_def sample_index_def)
  have c: "constraints_hold sample_team"
    by (simp add: sample_team_def sample_index_def sample_user_def constraints_hold_def keys_hold_def one_owner_def references_hold_def
      user_ids_def show_ids_def)
  show ?thesis
    unfolding catalog_ok_def teams_exist_def grants_held_def pending_capped_def by (simp add: r o c)
qed

definition sample_body :: profile_body where
  "sample_body = \<lparr>pb_studio = '' t'', pb_show = [], pb_settings = None,
     pb_updates = [\<lparr>su_show = ''w'', su_name = Some ''Late Show '', su_code = None, su_suffix = Some ''episode'', su_categories = None,
       su_palette = None, su_preset = Some ''NEON'', su_custom = None\<rparr>], pb_given = Some '' Bea'', pb_family = None\<rparr>"

definition sample_saved :: catalog where
  "sample_saved = snd (put_profile (\<lambda>_. ''x'') sample_user sample_team sample_body sample_team)"

lemma sample_save: "put_profile (\<lambda>_. ''x'') sample_user sample_team sample_body sample_team = (None, sample_saved)"
proof -
  have "fst (put_profile (\<lambda>_. ''x'') sample_user sample_team sample_body sample_team) = None" by code_simp
  then show ?thesis by (simp add: sample_saved_def prod_eq_iff)
qed

definition sample_session_body :: session_body where
  "sample_session_body = \<lparr>bo_show = ''w'', bo_title = Some '' Pilot '', bo_episode = None, bo_rate = 24, bo_offset = 0, bo_notes = None\<rparr>"


theorem chosen_show_active_witness:
  "profile_studio_for_user ''u'' sample_saved sample_saved = Inr ((''t'', ''w'', list_shows_for_studio ''t'' sample_saved), sample_saved)"
proof -
  have "auth_list_studio_ids_for_user (us_id sample_user) sample_team \<noteq> []" "js_trim (pb_studio sample_body) = ''t''"
      "js_trim (pb_show sample_body) = []" "first_show (list_shows_for_studio ''t'' sample_saved) = ''w''"
    by code_simp+
  moreover have "js_trim (sw_id s) = sw_id s" if "s \<in> set (ct_shows sample_team)" for s
    using that by (auto simp: sample_team_def sample_index_def js_trim_def is_space_def)
  ultimately show ?thesis
    using chosen_show_active [OF sample_save, of sample_saved] by (simp add: sample_user_def)
qed

theorem session_created_authorised_witness:
  "\<exists>c'. post_session ''s'' ''u'' sample_team 0 sample_session_body sample_team = Inr ((''s'', ''Pilot'', []), c') \<and>
    auth_can_access_show ''u'' ''w'' sample_team"
proof -
  have "(case post_session ''s'' ''u'' sample_team 0 sample_session_body sample_team of Inl e \<Rightarrow> None | Inr (x, c') \<Rightarrow> Some x) =
      Some (''s'', ''Pilot'', [])" by code_simp
  then obtain c' where p: "post_session ''s'' ''u'' sample_team 0 sample_session_body sample_team = Inr ((''s'', ''Pilot'', []), c')"
    by (auto split: sum.splits)
  have "js_trim (bo_show sample_session_body) = ''w''" by code_simp
  with session_created_authorised [OF sample_team_ok p] p show ?thesis by auto
qed


end
